(* ===== verification/Platform_Prelude.thy ===== *)
theory Platform_Prelude
  imports Main "HOL-Library.Product_Lexorder" "HOL-Library.Sublist"
begin

text \<open>
  The prelude of the development: names for the model's basic types, the string operations of
  JavaScript and SQL that the components use (on ASCII text, where both agree character by
  character), the two bulk operations of an SQL table (\<open>UPDATE \<dots> WHERE\<close> and
  \<open>DELETE \<dots> WHERE\<close>), and reachable states with the induction principle that the
  invariants of the stateful components use.
\<close>

named_theorems table_simps "how the SQL bulk operations act on a table"
named_theorems str_simps "the string operations on constructors"

type_synonym time_ms = int \<comment> \<open>a JavaScript \<^verbatim>\<open>Date\<close>, in milliseconds\<close>
type_synonym agent_id = string
type_synonym user_sub = string
type_synonym 'r table = "'r list" \<comment> \<open>the rows of an SQL table, in the order a scan yields them\<close>


section \<open>Strings\<close>

text \<open>\<^verbatim>\<open>String.prototype.toLowerCase\<close> and SQL's \<^verbatim>\<open>lower\<close>, on ASCII.\<close>

definition lower_char :: "char \<Rightarrow> char" where
  "lower_char c = (let n = (of_char c :: nat) in if 65 \<le> n \<and> n \<le> 90 then char_of (n + 32) else c)"

definition to_lower :: "string \<Rightarrow> string" where
  "to_lower s = map lower_char s"

lemma lower_char_idem [simp]: "lower_char (lower_char c) = lower_char c"
  by (simp add: lower_char_def Let_def)

text \<open>The same on the bits of a character: an upper case letter gets its sixth bit.\<close>

lemma lower_char_code [code]:
  "lower_char (Char b0 b1 b2 b3 b4 b5 b6 b7) =
     (if \<not> b7 \<and> b6 \<and> \<not> b5 \<and> (b0 \<or> b1 \<or> b2 \<or> b3 \<or> b4) \<and> \<not> (b4 \<and> b3 \<and> (b2 \<or> b1 \<and> b0))
      then Char b0 b1 b2 b3 b4 True b6 b7 else Char b0 b1 b2 b3 b4 b5 b6 b7)"
  by (cases b0; cases b1; cases b2; cases b3; cases b4; cases b5; cases b6; cases b7)
     (simp_all add: lower_char_def char_of_def bit_0)

lemma to_lower_idem [simp]: "to_lower (to_lower s) = to_lower s"
  by (simp add: to_lower_def)

lemma to_lower_simps [str_simps, simp]:
  "to_lower [] = []"
  "to_lower (c # s) = lower_char c # to_lower s"
  "to_lower (s @ t) = to_lower s @ to_lower t"
  by (simp_all add: to_lower_def)

lemma length_to_lower [simp]: "length (to_lower s) = length s"
  by (simp add: to_lower_def)

text \<open>\<^verbatim>\<open>s.replaceAll(a, b)\<close> for one-character texts, and SQL's \<^verbatim>\<open>replace\<close>.\<close>

definition replace_char :: "char \<Rightarrow> char \<Rightarrow> string \<Rightarrow> string" where
  "replace_char a b s = map (\<lambda>c. if c = a then b else c) s"

lemma replace_char_simps [str_simps, simp]:
  "replace_char a b [] = []"
  "replace_char a b (c # s) = (if c = a then b else c) # replace_char a b s"
  by (simp_all add: replace_char_def)

text \<open>\<^verbatim>\<open>s.split(c)\<close>: the pieces between the occurrences of one character.\<close>

fun split_char :: "char \<Rightarrow> string \<Rightarrow> string list" where
  "split_char c [] = [[]]"
| "split_char c (x # xs) =
     (if x = c then [] # split_char c xs
      else (case split_char c xs of [] \<Rightarrow> [[x]] | p # ps \<Rightarrow> (x # p) # ps))"

lemma split_char_nonempty [simp]: "split_char c s \<noteq> []"
  by (induction s) (auto split: list.splits)

lemma hd_split_char: "hd (split_char c s) = takeWhile (\<lambda>x. x \<noteq> c) s"
proof (induction s)
  case (Cons x xs)
  then show ?case by (cases "split_char c xs") auto
qed simp

text \<open>\<^verbatim>\<open>list.join(c)\<close>.\<close>

fun join_char :: "char \<Rightarrow> string list \<Rightarrow> string" where
  "join_char c [] = []"
| "join_char c [s] = s"
| "join_char c (s # ss) = s @ c # join_char c ss"

text \<open>The classes \<^verbatim>\<open>\\s\<close> and \<^verbatim>\<open>\\d\<close> on ASCII, \<^verbatim>\<open>trim\<close>, and the number that a text of digits denotes.\<close>

definition is_space :: "char \<Rightarrow> bool" where
  "is_space c \<longleftrightarrow> (let n = (of_char c :: nat) in n = 32 \<or> 9 \<le> n \<and> n \<le> 13)"

definition is_digit :: "char \<Rightarrow> bool" where
  "is_digit c \<longleftrightarrow> (let n = (of_char c :: nat) in 48 \<le> n \<and> n \<le> 57)"

definition js_trim :: "string \<Rightarrow> string" where
  "js_trim s = rev (dropWhile is_space (rev (dropWhile is_space s)))"

definition digits_value :: "string \<Rightarrow> nat" where
  "digits_value s = foldl (\<lambda>n c. 10 * n + (of_char c - 48)) 0 s"

text \<open>A number in a template literal.\<close>

fun show_nat :: "nat \<Rightarrow> string" where
  "show_nat n = (if n < 10 then [char_of (48 + n)] else show_nat (n div 10) @ [char_of (48 + n mod 10)])"

declare show_nat.simps [simp del]

text \<open>A text that may be absent, as JavaScript tests it: the empty text is absent too.\<close>

definition nonempty :: "string option \<Rightarrow> string option" where
  "nonempty s = (case s of None \<Rightarrow> None | Some t \<Rightarrow> if t = [] then None else Some t)"

definition show_int :: "int \<Rightarrow> string" where
  "show_int i = (if i < 0 then CHR ''-'' # show_nat (nat (- i)) else show_nat (nat i))"

lemma digit_char [simp]: "n < 10 \<Longrightarrow> is_digit (char_of (48 + n :: nat))" "n < 10 \<Longrightarrow> of_char (char_of (48 + n :: nat)) = (48 + n :: nat)"
  by (simp_all add: is_digit_def Let_def)

lemma show_nat_digits [simp]: "list_all is_digit (show_nat n)"
  by (induction n rule: show_nat.induct) (subst show_nat.simps, simp)

lemma digits_value_snoc: "digits_value (s @ [c]) = 10 * digits_value s + (of_char c - 48)"
  by (simp add: digits_value_def)

lemma digits_value_show_nat [simp]: "digits_value (show_nat n) = n"
proof (induction n rule: show_nat.induct)
  case (1 n)
  then show ?case
    by (subst show_nat.simps) (simp add: digits_value_snoc del: append_Cons, simp add: digits_value_def)
qed

text \<open>
  The first occurrence of every element, as \<^verbatim>\<open>list.indexOf(x) === index\<close> and a \<^verbatim>\<open>Set\<close>
  filled in the order of a list keep it.
\<close>

definition first_occurrences :: "'a list \<Rightarrow> 'a list" where
  "first_occurrences xs = rev (remdups (rev xs))"

lemma first_occurrences_append:
  "first_occurrences (xs @ ys) = first_occurrences xs @ filter (\<lambda>y. y \<notin> set xs) (first_occurrences ys)"
proof -
  have "remdups (as @ bs) = filter (\<lambda>a. a \<notin> set bs) (remdups as) @ remdups bs" for as bs :: "'a list"
    by (induction as) auto
  then show ?thesis by (simp add: first_occurrences_def rev_filter)
qed

lemma first_occurrences_simps [simp]:
  "set (first_occurrences xs) = set xs" "distinct (first_occurrences xs)"
  "distinct xs \<Longrightarrow> first_occurrences xs = xs"
  by (simp_all add: first_occurrences_def distinct_remdups_id)


section \<open>SQL tables\<close>

definition update_where :: "('r \<Rightarrow> bool) \<Rightarrow> ('r \<Rightarrow> 'r) \<Rightarrow> 'r table \<Rightarrow> 'r table" where
  "update_where p f t = map (\<lambda>r. if p r then f r else r) t"

definition delete_where :: "('r \<Rightarrow> bool) \<Rightarrow> 'r table \<Rightarrow> 'r table" where
  "delete_where p t = filter (\<lambda>r. \<not> p r) t"

lemma length_update_where [simp]: "length (update_where p f t) = length t"
  by (simp add: update_where_def)

lemma update_where_simps [table_simps, simp]:
  "update_where p f [] = []"
  "update_where p f (r # t) = (if p r then f r else r) # update_where p f t"
  "update_where p f (t @ u) = update_where p f t @ update_where p f u"
  by (simp_all add: update_where_def)

lemma set_update_where: "set (update_where p f t) = (\<lambda>r. if p r then f r else r) ` set t"
  by (simp add: update_where_def)

lemma map_update_where [table_simps]:
  "(\<And>r. p r \<Longrightarrow> k (f r) = k r) \<Longrightarrow> map k (update_where p f t) = map k t"
  by (simp add: update_where_def)

lemma update_where_none: "(\<And>r. r \<in> set t \<Longrightarrow> \<not> p r) \<Longrightarrow> update_where p f t = t"
  by (induction t) auto

lemma update_where_keeps: "r \<in> set t \<Longrightarrow> \<not> p r \<Longrightarrow> r \<in> set (update_where p f t)"
  by (auto simp: set_update_where image_iff)

lemma distinct_map_delete_where: "distinct (map k t) \<Longrightarrow> distinct (map k (delete_where p t))"
  unfolding delete_where_def by (rule distinct_map_filter)

lemma notin_image_iff: "y \<notin> f ` S \<longleftrightarrow> (\<forall>x \<in> S. f x \<noteq> y)"
  by auto

lemma distinct_filter_unique:
  "\<lbrakk>distinct (map k (filter p t)); x \<in> set t; y \<in> set t; p x; p y; k x = k y\<rbrakk> \<Longrightarrow> x = y"
  by (induction t) (auto simp: notin_image_iff split: if_splits)

text \<open>\<^verbatim>\<open>rows.find(p)\<close>: the first match, \<^const>\<open>None\<close> for \<^verbatim>\<open>undefined\<close>.\<close>

lemma find_update_where_key:
  assumes "\<And>r. p r \<Longrightarrow> k (f r) = k r"
  shows "find (\<lambda>r. k r = x) (update_where p f t) =
         map_option (\<lambda>r. if p r then f r else r) (find (\<lambda>r. k r = x) t)"
  using assms by (induction t) auto

lemma find_SomeD: "find p t = Some r \<Longrightarrow> r \<in> set t \<and> p r"
  by (induction t) (auto split: if_splits)

lemma find_distinct_key:
  assumes "distinct (map k t)" and "r \<in> set t" and "k r = x"
  shows "find (\<lambda>r. k r = x) t = Some r"
  using assms by (induction t) (auto simp: image_iff)


section \<open>Reachable states\<close>

inductive reachable :: "('s \<Rightarrow> bool) \<Rightarrow> ('s \<Rightarrow> 's \<Rightarrow> bool) \<Rightarrow> 's \<Rightarrow> bool"
  for init :: "'s \<Rightarrow> bool" and step :: "'s \<Rightarrow> 's \<Rightarrow> bool" where
  reachable_init: "init s \<Longrightarrow> reachable init step s"
| reachable_step: "reachable init step s \<Longrightarrow> step s t \<Longrightarrow> reachable init step t"

text \<open>
  What a stateful component promises: its invariant holds at the start and every step keeps it.
  Its clients then read the invariant off every reachable state.
\<close>

locale invariant_system =
  fixes init :: "'s \<Rightarrow> bool" and step :: "'s \<Rightarrow> 's \<Rightarrow> bool" and inv :: "'s \<Rightarrow> bool"
  assumes init_inv: "init s \<Longrightarrow> inv s"
    and step_inv: "inv s \<Longrightarrow> step s t \<Longrightarrow> inv t"
begin

lemma reachable_inv: "reachable init step s \<Longrightarrow> inv s"
  by (induction rule: reachable.induct) (auto intro: init_inv step_inv)

lemma steps_inv: "step\<^sup>*\<^sup>* s t \<Longrightarrow> inv s \<Longrightarrow> inv t"
  by (induction rule: rtranclp_induct) (auto intro: step_inv)

end

text \<open>A sequence of operations, each of which may be taken where it stands.\<close>

fun guarded_run :: "('o \<Rightarrow> 'c \<Rightarrow> bool) \<Rightarrow> ('o \<Rightarrow> 'c \<Rightarrow> 'c) \<Rightarrow> 'o list \<Rightarrow> 'c \<Rightarrow> bool" where
  "guarded_run guard step [] c \<longleftrightarrow> True"
| "guarded_run guard step (x # xs) c \<longleftrightarrow> guard x c \<and> guarded_run guard step xs (step x c)"

text \<open>
  What a component promises when a simpler one specifies it: under its invariant every step is a
  step of the specification, seen through the abstraction. Its clients then reason on the
  specification's runs.
\<close>

locale refinement_system =
  fixes inv :: "'c \<Rightarrow> bool" and abs :: "'c \<Rightarrow> 'a" and guard :: "'o \<Rightarrow> 'c \<Rightarrow> bool"
    and cstep :: "'o \<Rightarrow> 'c \<Rightarrow> 'c" and astep :: "'o \<Rightarrow> 'a \<Rightarrow> 'a"
  assumes step_keeps: "inv c \<Longrightarrow> guard op c \<Longrightarrow> inv (cstep op c)"
    and step_refines: "inv c \<Longrightarrow> guard op c \<Longrightarrow> abs (cstep op c) = astep op (abs c)"
begin

lemma run_keeps: "inv c \<Longrightarrow> guarded_run guard cstep ops c \<Longrightarrow> inv (fold cstep ops c)"
  by (induction ops arbitrary: c) (auto intro: step_keeps)

lemma run_refines:
  "inv c \<Longrightarrow> guarded_run guard cstep ops c \<Longrightarrow> abs (fold cstep ops c) = fold astep ops (abs c)"
proof (induction ops arbitrary: c)
  case (Cons x xs)
  then have "guard x c" and rest: "guarded_run guard cstep xs (cstep x c)" by auto
  with Cons.prems(1) have "abs (fold cstep xs (cstep x c)) = fold astep xs (abs (cstep x c))"
    by (intro Cons.IH step_keeps)
  with step_refines [OF Cons.prems(1) \<open>guard x c\<close>] show ?case by simp
qed simp

end

end
