(* ===== verification/Spend_Limits.thy ===== *)
theory Spend_Limits
  imports Platform_Prelude
begin

text \<open>
  Spend limits: the units a provider is billed in, the limits an owner sets and the operator's
  ceiling, how much of each a day has used, which of them stops a call, and the refusal a
  stopped call gets. Models \<^verbatim>\<open>spend/domain/\<close>\<^verbatim>\<open>units.ts\<close>, \<^verbatim>\<open>limits.ts\<close>,
  \<^verbatim>\<open>ledger.ts\<close>, \<^verbatim>\<open>binding.ts\<close> and \<^verbatim>\<open>refusal.ts\<close>. Amounts are integers
  of millionths; a UTC day is its number since 1970, which its ISO text names.
\<close>

section \<open>Units\<close>

datatype SpendUnit = Usd | UsdList | Bobcoin | Free

definition PROVIDER_UNITS :: "(string \<times> SpendUnit) list" where
  "PROVIDER_UNITS =
     [(''anthropic'', Usd), (''ibm-litellm'', Usd), (''openai'', Usd), (''bedrock'', Usd),
      (''anthropic-oauth'', UsdList), (''bob'', Bobcoin), (''curve-bender'', Free),
      (''curve-bender-deployment'', Free)]"

definition spendUnitOfProvider :: "string \<Rightarrow> SpendUnit option" where
  "spendUnitOfProvider templateId = map_of PROVIDER_UNITS templateId"

definition unitOf :: "string \<Rightarrow> SpendUnit" where
  "unitOf provider = (case spendUnitOfProvider provider of None \<Rightarrow> Usd | Some u \<Rightarrow> u)"

text \<open>The place of a unit in \<^verbatim>\<open>UNIT_RANK\<close>.\<close>

fun unit_rank :: "SpendUnit \<Rightarrow> nat" where
  "unit_rank Usd = 0" | "unit_rank UsdList = 1" | "unit_rank Bobcoin = 2" | "unit_rank Free = 3"

text \<open>
  \<^verbatim>\<open>localeCompare\<close> is a parameter: \<open>collate\<close> gives each name its place in the
  collation order.
\<close>

definition payingProvider :: "(string \<Rightarrow> nat) \<Rightarrow> string list \<Rightarrow> string \<times> bool" where
  "payingProvider collate providers =
     (let ranked = sort_key (\<lambda>p. (unit_rank (unitOf p), collate p)) (rev (remdups (rev providers)))
      in (case ranked of [] \<Rightarrow> [] | p # _ \<Rightarrow> p, length ranked > 1))"

datatype NoLimitReason = NoBilling | NotPriced | NotMetered

definition connectionLimitRule :: "string \<Rightarrow> NoLimitReason + SpendUnit" where
  "connectionLimitRule templateId =
     (case spendUnitOfProvider templateId of
        None \<Rightarrow> Inl NotMetered
      | Some unit \<Rightarrow>
          if unit = Free then Inl NoBilling
          else if templateId \<in> {''openai'', ''bedrock''} then Inl NotPriced
          else Inr unit)"


section \<open>Days and counters\<close>

type_synonym utc_day = int

definition utcDay :: "time_ms \<Rightarrow> utc_day" where
  "utcDay at = at div 86400000"

definition daysBefore :: "utc_day \<Rightarrow> int \<Rightarrow> utc_day" where
  "daysBefore day days = day - days"

definition nextUtcMidnight :: "time_ms \<Rightarrow> time_ms" where
  "nextUtcMidnight now = (utcDay now + 1) * 86400000"

record CallAmounts =
  am_costMicros :: int
  am_uncachedInputTokens :: int
  am_outputTokens :: int
  am_cacheReadTokens :: int
  am_cacheWrite5mTokens :: int
  am_cacheWrite1hTokens :: int
  am_webSearches :: int
  am_calls :: int
  am_estimatedCalls :: int
  am_durationMs :: int

record SpendRow =
  sr_day :: utc_day
  sr_payer :: agent_id
  sr_ownerSub :: user_sub
  sr_connectionId :: string
  sr_model :: string
  sr_sessionId :: string
  sr_callingAgentId :: agent_id
  sr_provider :: string
  sr_unit :: SpendUnit

datatype DayCounter =
    AgentCounter utc_day agent_id SpendUnit
  | OwnerCounter utc_day user_sub SpendUnit
  | ConnectionCounter utc_day agent_id string
  | OwnerConnectionCounter utc_day user_sub string

definition UNKNOWN_CONNECTION :: string where "UNKNOWN_CONNECTION = ''unknown''"
definition UNKNOWN_MODEL :: string where "UNKNOWN_MODEL = ''unknown''"

definition zip_amounts :: "(int \<Rightarrow> int \<Rightarrow> int) \<Rightarrow> CallAmounts \<Rightarrow> CallAmounts \<Rightarrow> CallAmounts" where
  "zip_amounts f a b =
     \<lparr>am_costMicros = f (am_costMicros a) (am_costMicros b),
      am_uncachedInputTokens = f (am_uncachedInputTokens a) (am_uncachedInputTokens b),
      am_outputTokens = f (am_outputTokens a) (am_outputTokens b),
      am_cacheReadTokens = f (am_cacheReadTokens a) (am_cacheReadTokens b),
      am_cacheWrite5mTokens = f (am_cacheWrite5mTokens a) (am_cacheWrite5mTokens b),
      am_cacheWrite1hTokens = f (am_cacheWrite1hTokens a) (am_cacheWrite1hTokens b),
      am_webSearches = f (am_webSearches a) (am_webSearches b),
      am_calls = f (am_calls a) (am_calls b),
      am_estimatedCalls = f (am_estimatedCalls a) (am_estimatedCalls b),
      am_durationMs = f (am_durationMs a) (am_durationMs b)\<rparr>"

definition zero_amounts :: CallAmounts where
  "zero_amounts = \<lparr>am_costMicros = 0, am_uncachedInputTokens = 0, am_outputTokens = 0,
     am_cacheReadTokens = 0, am_cacheWrite5mTokens = 0, am_cacheWrite1hTokens = 0,
     am_webSearches = 0, am_calls = 0, am_estimatedCalls = 0, am_durationMs = 0\<rparr>"

definition amountsDelta :: "CallAmounts \<Rightarrow> CallAmounts \<Rightarrow> CallAmounts" where
  "amountsDelta new previous = zip_amounts (-) new previous"

definition isZero :: "CallAmounts \<Rightarrow> bool" where
  "isZero amounts \<longleftrightarrow> amounts = zero_amounts"

definition dayCountersOf :: "SpendRow \<Rightarrow> DayCounter list" where
  "dayCountersOf row =
     [AgentCounter (sr_day row) (sr_payer row) (sr_unit row),
      OwnerCounter (sr_day row) (sr_ownerSub row) (sr_unit row),
      ConnectionCounter (sr_day row) (sr_payer row) (sr_connectionId row),
      OwnerConnectionCounter (sr_day row) (sr_ownerSub row) (sr_connectionId row)]"


section \<open>Limits\<close>

datatype LimitScope =
    AgentScope agent_id
  | OwnerScope
  | ConnectionScope agent_id string
  | OwnerConnectionScope string

datatype LimitState = StateOk | StateWarn | StateReached

record SpendLimit =
  sl_id :: string
  sl_ownerSub :: user_sub
  sl_scope :: LimitScope
  sl_unit :: SpendUnit
  sl_amountMicros :: int
  sl_extensions :: int

datatype CeilingSource = DefaultCeiling | OperatorCeiling

record SpendCeiling =
  ce_amountMicros :: int
  ce_source :: CeilingSource

record LimitReading =
  lr_limit :: SpendLimit
  lr_effectiveMicros :: int
  lr_spentMicros :: int
  lr_leftMicros :: int
  lr_state :: LimitState

record CeilingReading =
  cr_ceiling :: SpendCeiling
  cr_spentMicros :: int
  cr_state :: LimitState

record LimitedCall =
  lc_payer :: agent_id
  lc_ownerSub :: user_sub
  lc_connectionId :: "string option"
  lc_unit :: SpendUnit

datatype SpendBlock = CeilingBlock | LimitBlock

definition effectiveMicros :: "SpendLimit \<Rightarrow> int" where
  "effectiveMicros limit = sl_amountMicros limit * (sl_extensions limit + 1)"

text \<open>
  The warning share is 0.8; on integers below the precision of a double the product with it
  compares as the exact fraction does.
\<close>

definition limitState :: "int \<Rightarrow> int \<Rightarrow> LimitState" where
  "limitState spentMicros effective =
     (if spentMicros \<ge> effective then StateReached
      else if 10 * spentMicros \<ge> 8 * effective then StateWarn else StateOk)"

definition readLimit :: "SpendLimit \<Rightarrow> int \<Rightarrow> LimitReading" where
  "readLimit limit spentMicros =
     \<lparr>lr_limit = limit, lr_effectiveMicros = effectiveMicros limit, lr_spentMicros = spentMicros,
      lr_leftMicros = max 0 (effectiveMicros limit - spentMicros),
      lr_state = limitState spentMicros (effectiveMicros limit)\<rparr>"

definition readCeiling :: "SpendCeiling \<Rightarrow> int \<Rightarrow> CeilingReading" where
  "readCeiling ceiling spentMicros =
     \<lparr>cr_ceiling = ceiling, cr_spentMicros = spentMicros,
      cr_state = limitState spentMicros (ce_amountMicros ceiling)\<rparr>"

definition limitCounter :: "SpendLimit \<Rightarrow> utc_day \<Rightarrow> DayCounter" where
  "limitCounter limit day =
     (case sl_scope limit of
        AgentScope agentId \<Rightarrow> AgentCounter day agentId (sl_unit limit)
      | OwnerScope \<Rightarrow> OwnerCounter day (sl_ownerSub limit) (sl_unit limit)
      | ConnectionScope agentId connectionId \<Rightarrow> ConnectionCounter day agentId connectionId
      | OwnerConnectionScope connectionId \<Rightarrow> OwnerConnectionCounter day (sl_ownerSub limit) connectionId)"

definition ceilingCounter :: "user_sub \<Rightarrow> utc_day \<Rightarrow> DayCounter" where
  "ceilingCounter ownerSub day = OwnerCounter day ownerSub Usd"

definition countsInCeiling :: "SpendUnit \<Rightarrow> bool" where
  "countsInCeiling unit \<longleftrightarrow> unit = Usd"

definition limits_call :: "LimitedCall \<Rightarrow> SpendLimit \<Rightarrow> bool" where
  "limits_call call limit \<longleftrightarrow>
     sl_unit limit = lc_unit call \<and>
     (case sl_scope limit of
        AgentScope agentId \<Rightarrow> agentId = lc_payer call
      | OwnerScope \<Rightarrow> sl_ownerSub limit = lc_ownerSub call
      | ConnectionScope agentId connectionId \<Rightarrow>
          agentId = lc_payer call \<and> Some connectionId = lc_connectionId call
      | OwnerConnectionScope connectionId \<Rightarrow>
          sl_ownerSub limit = lc_ownerSub call \<and> Some connectionId = lc_connectionId call)"

definition limitsOnCall :: "SpendLimit list \<Rightarrow> LimitedCall \<Rightarrow> SpendLimit list" where
  "limitsOnCall limits call = (if lc_unit call = Free then [] else filter (limits_call call) limits)"

definition is_reached :: "LimitReading \<Rightarrow> bool" where
  "is_reached reading \<longleftrightarrow> lr_state reading = StateReached"

definition blockOf :: "CeilingReading option \<Rightarrow> LimitReading list \<Rightarrow> SpendBlock option" where
  "blockOf ceiling limits =
     (if map_option cr_state ceiling = Some StateReached then Some CeilingBlock
      else if list_ex is_reached limits then Some LimitBlock else None)"

datatype SpendLevel =
    CeilingLevel int
  | LimitLevel string LimitScope SpendUnit int int

record NearLevel =
  nl_level :: SpendLevel
  nl_spentMicros :: int
  nl_effectiveMicros :: int

record SpendStop =
  st_level :: SpendLevel
  st_near :: "NearLevel list"

fun SCOPE_RANK :: "LimitScope \<Rightarrow> nat" where
  "SCOPE_RANK (ConnectionScope _ _) = 0"
| "SCOPE_RANK (AgentScope _) = 1"
| "SCOPE_RANK (OwnerConnectionScope _) = 2"
| "SCOPE_RANK OwnerScope = 3"

definition levelOfLimit :: "LimitReading \<Rightarrow> SpendLevel" where
  "levelOfLimit reading =
     (let limit = lr_limit reading
      in LimitLevel (sl_id limit) (sl_scope limit) (sl_unit limit) (sl_amountMicros limit) (sl_extensions limit))"

definition nearOf :: "LimitReading list \<Rightarrow> NearLevel list" where
  "nearOf readings =
     map (\<lambda>r. \<lparr>nl_level = levelOfLimit r, nl_spentMicros = lr_spentMicros r,
                nl_effectiveMicros = lr_effectiveMicros r\<rparr>)
       (filter (\<lambda>r. lr_state r \<noteq> StateOk) readings)"

text \<open>
  \<^verbatim>\<open>reading !== highest\<close> drops the one object that was picked: the first of its value,
  since the sort is stable.
\<close>

definition stopOf :: "CeilingReading option \<Rightarrow> LimitReading list \<Rightarrow> SpendStop option" where
  "stopOf ceiling limits =
     (if map_option cr_state ceiling = Some StateReached
      then Some \<lparr>st_level = CeilingLevel (ce_amountMicros (cr_ceiling (the ceiling))), st_near = nearOf limits\<rparr>
      else case sort_key (\<lambda>r. - int (SCOPE_RANK (sl_scope (lr_limit r)))) (filter is_reached limits) of
             [] \<Rightarrow> None
           | highest # _ \<Rightarrow>
               Some \<lparr>st_level = levelOfLimit highest,
                     st_near = nearOf (remove1 highest limits)
                       @ (case ceiling of
                            Some c \<Rightarrow> if cr_state c = StateWarn
                              then [\<lparr>nl_level = CeilingLevel (ce_amountMicros (cr_ceiling c)),
                                     nl_spentMicros = cr_spentMicros c,
                                     nl_effectiveMicros = ce_amountMicros (cr_ceiling c)\<rparr>] else []
                          | None \<Rightarrow> [])\<rparr>)"


section \<open>Which limit stops an agent first\<close>

datatype SpendBindingKind = BindScope LimitScope | BindCeiling

record SpendBindingCandidate =
  bc_kind :: SpendBindingKind
  bc_limitId :: "string option"
  bc_leftMicros :: int

record SpendBinding =
  sb_connection :: "(string \<times> string) option"
  sb_unit :: SpendUnit
  sb_leftMicros :: int
  sb_stopsFirst :: SpendBindingCandidate
  sb_others :: "SpendBindingCandidate list"

record GrantedConnection =
  gc_connectionId :: string
  gc_name :: string
  gc_unit :: SpendUnit

text \<open>The place of a kind in \<^verbatim>\<open>NARROWNESS\<close>; only the kind of a scope is read.\<close>

fun narrowness :: "SpendBindingKind \<Rightarrow> nat" where
  "narrowness (BindScope s) = SCOPE_RANK s"
| "narrowness BindCeiling = 4"

definition candidateOf :: "LimitReading \<Rightarrow> SpendBindingCandidate" where
  "candidateOf view = \<lparr>bc_kind = BindScope (sl_scope (lr_limit view)), bc_limitId = Some (sl_id (lr_limit view)),
     bc_leftMicros = lr_leftMicros view\<rparr>"

definition ceilingCandidate :: "CeilingReading \<Rightarrow> SpendBindingCandidate" where
  "ceilingCandidate c = \<lparr>bc_kind = BindCeiling, bc_limitId = None,
     bc_leftMicros = max 0 (ce_amountMicros (cr_ceiling c) - cr_spentMicros c)\<rparr>"

definition bindingFrom ::
  "(string \<times> string) option \<Rightarrow> SpendUnit \<Rightarrow> SpendBindingCandidate list \<Rightarrow> SpendBinding option" where
  "bindingFrom connection unit candidates =
     (case sort_key (\<lambda>c. (bc_leftMicros c, narrowness (bc_kind c))) candidates of
        [] \<Rightarrow> None
      | stopsFirst # others \<Rightarrow>
          Some \<lparr>sb_connection = connection, sb_unit = unit, sb_leftMicros = bc_leftMicros stopsFirst,
                sb_stopsFirst = stopsFirst, sb_others = others\<rparr>)"

definition dollar_wide :: "agent_id \<Rightarrow> LimitReading list \<Rightarrow> CeilingReading option \<Rightarrow> SpendBindingCandidate list" where
  "dollar_wide agentId limits ceiling =
     map candidateOf (filter (\<lambda>v. sl_scope (lr_limit v) = AgentScope agentId \<or> sl_scope (lr_limit v) = OwnerScope) limits)
     @ (case ceiling of None \<Rightarrow> [] | Some c \<Rightarrow> [ceilingCandidate c])"

definition connection_own :: "agent_id \<Rightarrow> LimitReading list \<Rightarrow> GrantedConnection \<Rightarrow> SpendBindingCandidate list" where
  "connection_own agentId limits g =
     map candidateOf (filter (\<lambda>v. sl_unit (lr_limit v) = gc_unit g
        \<and> (sl_scope (lr_limit v) = ConnectionScope agentId (gc_connectionId g)
           \<or> sl_scope (lr_limit v) = OwnerConnectionScope (gc_connectionId g))) limits)"

definition bindingOf ::
  "agent_id \<Rightarrow> LimitReading list \<Rightarrow> CeilingReading option \<Rightarrow> GrantedConnection list \<Rightarrow> SpendBinding list" where
  "bindingOf agentId limits ceiling connections =
     (let dollarWide = dollar_wide agentId limits ceiling;
          perConnection = List.map_filter (\<lambda>g.
            if gc_unit g = Free then None
            else bindingFrom (Some (gc_connectionId g, gc_name g)) (gc_unit g)
                   (if gc_unit g = Usd then connection_own agentId limits g @ dollarWide
                    else connection_own agentId limits g)) connections
      in perConnection @ (case bindingFrom None Usd dollarWide of None \<Rightarrow> [] | Some b \<Rightarrow> [b]))"


section \<open>Refusals\<close>

datatype ApiDialect =
    AnthropicMessages | OpenaiChat | OpenaiResponses | OpenaiEmbeddings | BedrockInvoke | BedrockConverse

text \<open>The body of a refusal: plain text, or a JSON error that holds the text.\<close>

datatype RefusalBody = PlainText string | JsonError string

record Refusal =
  rf_status :: nat
  rf_contentType :: string
  rf_refusalHeader :: string
  rf_shouldRetry :: "string option"
  rf_retryAfter :: "int option"
  rf_body :: RefusalBody

definition MIN_RETRY_AFTER_SECONDS :: int where "MIN_RETRY_AFTER_SECONDS = 61"

definition CEILING_TEXT :: string where
  "CEILING_TEXT = ''Spend quota exceeded for today. Ask the platform operator for a higher ceiling.''"

definition softLimitText :: "string \<Rightarrow> string" where
  "softLimitText brandName =
     (let brand = js_trim brandName
      in if brand \<noteq> [] \<and> \<not> list_ex is_digit brand
         then ''Spend quota exceeded for today. The owner can approve more in '' @ brand @ ''.''
         else ''Spend quota exceeded for today. The owner can approve more.'')"

definition spendRefusalIn :: "string \<Rightarrow> SpendBlock option" where
  "spendRefusalIn text =
     (if \<not> sublist ''spend quota exceeded'' (to_lower text) then None
      else if sublist ''platform operator'' (to_lower text) then Some CeilingBlock else Some LimitBlock)"

definition refusalBody :: "string \<Rightarrow> string \<Rightarrow> string \<times> RefusalBody" where
  "refusalBody provider text =
     (if provider = ''bob'' then (''application/json'', JsonError text) else (''text/plain'', PlainText text))"

definition ceil_div :: "int \<Rightarrow> int \<Rightarrow> int" where
  "ceil_div a b = - ((- a) div b)"

definition refusalFor :: "ApiDialect \<Rightarrow> string \<Rightarrow> string \<Rightarrow> time_ms \<Rightarrow> Refusal" where
  "refusalFor dialect provider text now =
     (case refusalBody provider text of
        (contentType, body) \<Rightarrow>
          if dialect \<in> {AnthropicMessages, BedrockInvoke, BedrockConverse}
          then \<lparr>rf_status = 429, rf_contentType = contentType, rf_refusalHeader = ''spend'',
                rf_shouldRetry = Some ''false'',
                rf_retryAfter = Some (max MIN_RETRY_AFTER_SECONDS (ceil_div (nextUtcMidnight now - now) 1000)),
                rf_body = body\<rparr>
          else \<lparr>rf_status = 400, rf_contentType = contentType, rf_refusalHeader = ''spend'',
                rf_shouldRetry = None, rf_retryAfter = None, rf_body = body\<rparr>)"


section \<open>Properties\<close>

definition row_of_call :: "LimitedCall \<Rightarrow> utc_day \<Rightarrow> SpendRow \<Rightarrow> bool" where
  "row_of_call call day row \<longleftrightarrow> sr_day row = day \<and> sr_payer row = lc_payer call \<and> sr_ownerSub row = lc_ownerSub call
     \<and> sr_connectionId row = (case lc_connectionId call of None \<Rightarrow> UNKNOWN_CONNECTION | Some c \<Rightarrow> c)
     \<and> sr_unit row = lc_unit call"


definition sample_limit :: "string \<Rightarrow> LimitScope \<Rightarrow> int \<Rightarrow> SpendLimit" where
  "sample_limit i scope amount =
     \<lparr>sl_id = i, sl_ownerSub = ''u'', sl_scope = scope, sl_unit = Usd, sl_amountMicros = amount, sl_extensions = 0\<rparr>"

definition sample_call :: LimitedCall where
  "sample_call = \<lparr>lc_payer = ''a'', lc_ownerSub = ''u'', lc_connectionId = Some ''c'', lc_unit = Usd\<rparr>"

definition sample_row :: SpendRow where
  "sample_row = \<lparr>sr_day = 7, sr_payer = ''a'', sr_ownerSub = ''u'', sr_connectionId = ''c'', sr_model = ''m'',
     sr_sessionId = [], sr_callingAgentId = ''a'', sr_provider = ''anthropic'', sr_unit = Usd\<rparr>"


lemma sort_key_hd:
  assumes "sort_key k xs = y # ys"
  shows "y \<in> set xs \<and> (\<forall>x \<in> set xs. k y \<le> k x)"
proof -
  have "sorted (map k (y # ys))" and "set (y # ys) = set xs"
    using sorted_sort_key [of k xs] set_sort [of k xs] by (simp_all add: assms)
  then show ?thesis by auto
qed

text \<open>
  A stop is about the highest reached level. There is a stop exactly when a call is
  blocked; it is the ceiling exactly when the ceiling blocks; and when a limit blocks, the stop
  names a reached limit, and no reached limit counts more work than it.
\<close>

theorem stopOf_is_highest_reached:
  "(stopOf ceiling limits = None \<longleftrightarrow> blockOf ceiling limits = None)
   \<and> (\<forall>stop. stopOf ceiling limits = Some stop \<longrightarrow>
        (case blockOf ceiling limits of
           Some CeilingBlock \<Rightarrow> \<exists>amount. st_level stop = CeilingLevel amount
         | Some LimitBlock \<Rightarrow>
             \<exists>r \<in> set limits. is_reached r \<and> st_level stop = levelOfLimit r
               \<and> (\<forall>r' \<in> set limits. is_reached r' \<longrightarrow>
                    SCOPE_RANK (sl_scope (lr_limit r')) \<le> SCOPE_RANK (sl_scope (lr_limit r)))
         | None \<Rightarrow> False))"
proof (cases "map_option cr_state ceiling = Some StateReached")
  case True
  then show ?thesis by (simp add: stopOf_def blockOf_def)
next
  case False
  let ?k = "\<lambda>r. - int (SCOPE_RANK (sl_scope (lr_limit r)))"
  show ?thesis
  proof (cases "sort_key ?k (filter is_reached limits)")
    case Nil
    then have "filter is_reached limits = []" by (metis set_sort set_empty)
    with False Nil show ?thesis
      by (simp add: stopOf_def blockOf_def list_ex_iff filter_empty_conv)
  next
    case (Cons highest rest)
    from sort_key_hd [OF Cons] have "highest \<in> set limits" "is_reached highest"
      and "\<forall>r' \<in> set limits. is_reached r' \<longrightarrow>
             SCOPE_RANK (sl_scope (lr_limit r')) \<le> SCOPE_RANK (sl_scope (lr_limit highest))"
      by auto
    with False Cons show ?thesis
      by (auto simp: stopOf_def blockOf_def list_ex_iff)
  qed
qed

theorem stopOf_is_highest_reached_witness:
  "stopOf None [readLimit (sample_limit ''l'' OwnerScope 5) 9] \<noteq> None"
  using stopOf_is_highest_reached [of None "[readLimit (sample_limit ''l'' OwnerScope 5) 9]"]
  by (simp add: blockOf_def is_reached_def readLimit_def limitState_def effectiveMicros_def sample_limit_def)

lemma nextUtcMidnight_bounds: "0 < nextUtcMidnight now - now \<and> nextUtcMidnight now - now \<le> 86400000"
proof -
  define q r where "q = now div 86400000" and "r = now mod 86400000"
  then have "now = q * 86400000 + r" and "0 \<le> r" and "r < 86400000" by simp_all
  moreover have "nextUtcMidnight now = (q + 1) * 86400000"
    by (simp add: nextUtcMidnight_def utcDay_def q_def)
  ultimately show ?thesis by simp
qed

lemma ceil_div_bounds: "0 < b \<Longrightarrow> a \<le> ceil_div a b * b \<and> ceil_div a b * b < a + b"
proof -
  assume "0 < b"
  then have "0 \<le> (- a) mod b" and "(- a) mod b < b" by simp_all
  moreover have "ceil_div a b * b = a + (- a) mod b"
    by (simp add: ceil_div_def minus_mod_eq_div_mult [symmetric])
  ultimately show ?thesis by simp
qed

text \<open>
  A refused call is told to wait past the end of the day and never less than 61 seconds,
  and not to retry sooner: the retry time of an Anthropic or Bedrock refusal reaches the next
  UTC midnight, and exceeds it by less than 61 seconds.
\<close>

theorem refusal_waits_for_midnight:
  assumes "rf_retryAfter (refusalFor dialect provider text now) = Some seconds"
  shows "61 \<le> seconds \<and> seconds \<le> 86400 \<and> nextUtcMidnight now \<le> now + seconds * 1000
     \<and> now + seconds * 1000 < nextUtcMidnight now + 61000"
proof -
  let ?left = "ceil_div (nextUtcMidnight now - now) 1000"
  have "seconds = max 61 ?left"
    using assms by (auto simp: refusalFor_def MIN_RETRY_AFTER_SECONDS_def split: prod.splits if_splits)
  moreover have "nextUtcMidnight now - now \<le> ?left * 1000" "?left * 1000 < nextUtcMidnight now - now + 1000"
    using ceil_div_bounds [of 1000 "nextUtcMidnight now - now"] by simp_all
  ultimately show ?thesis using nextUtcMidnight_bounds [of now] by linarith
qed

theorem refusal_waits_for_midnight_witness:
  "rf_retryAfter (refusalFor AnthropicMessages ''anthropic'' CEILING_TEXT 86399000) = Some 61
   \<and> nextUtcMidnight 86399000 \<le> 86399000 + 61 * (1000 :: int)"
proof -
  have "rf_retryAfter (refusalFor AnthropicMessages ''anthropic'' CEILING_TEXT 86399000) = Some 61"
    by (simp add: refusalFor_def refusalBody_def nextUtcMidnight_def utcDay_def ceil_div_def
        MIN_RETRY_AFTER_SECONDS_def)
  from refusal_waits_for_midnight [OF this] this show ?thesis by simp
qed

lemma sublist_to_lower: "sublist (to_lower s) (to_lower (x @ s @ y))"
  by (simp add: sublist_appendI)

text \<open>
  The reason of a stop survives the trip through a harness: wherever the refusal text
  stands inside the error a harness reports, reading it back gives the block it was made for,
  provided that nothing else in a limit's error speaks of the platform operator.
\<close>

theorem spendRefusalIn_roundtrip:
  "spendRefusalIn (before @ CEILING_TEXT @ after) = Some CeilingBlock
   \<and> (\<not> sublist ''platform operator'' (to_lower (before @ softLimitText brand @ after)) \<longrightarrow>
        spendRefusalIn (before @ softLimitText brand @ after) = Some LimitBlock)"
proof -
  have quota: "to_lower ''Spend quota exceeded'' = ''spend quota exceeded''"
    and operator: "to_lower ''platform operator'' = ''platform operator''" by code_simp+
  have quota_at: "before @ CEILING_TEXT @ after
      = before @ ''Spend quota exceeded'' @ ('' for today. Ask the platform operator for a higher ceiling.'' @ after)"
    and operator_at: "before @ CEILING_TEXT @ after
      = (before @ ''Spend quota exceeded for today. Ask the '') @ ''platform operator'' @ ('' for a higher ceiling.'' @ after)"
    by (simp_all add: CEILING_TEXT_def)
  have "sublist ''spend quota exceeded'' (to_lower (before @ CEILING_TEXT @ after))"
    unfolding quota_at by (rule sublist_to_lower [of "''Spend quota exceeded''", unfolded quota])
  moreover have "sublist ''platform operator'' (to_lower (before @ CEILING_TEXT @ after))"
    unfolding operator_at by (rule sublist_to_lower [of "''platform operator''", unfolded operator])
  moreover have "softLimitText brand = ''Spend quota exceeded'' @ drop 20 (softLimitText brand)"
    by (simp add: softLimitText_def Let_def)
  then obtain rest where "softLimitText brand = ''Spend quota exceeded'' @ rest" ..
  then have "sublist ''spend quota exceeded'' (to_lower (before @ softLimitText brand @ after))"
    using sublist_to_lower [of "''Spend quota exceeded''" before "rest @ after"] by (simp only: quota append_assoc)
  ultimately show ?thesis by (simp only: spendRefusalIn_def if_True if_False not_True_eq_False) simp
qed

theorem spendRefusalIn_roundtrip_witness:
  "spendRefusalIn (''API error: '' @ softLimitText ''Acme'' @ ''!'') = Some LimitBlock"
proof -
  have "\<not> sublist ''platform operator'' (to_lower (''API error: '' @ softLimitText ''Acme'' @ ''!''))" by code_simp
  with spendRefusalIn_roundtrip [of "''API error: ''" "''!''" "''Acme''"] show ?thesis by blast
qed

end
