(* ===== verification/Spend_Price.thy ===== *)
theory Spend_Price
  imports Spend_Limits Complex_Main
begin

text \<open>
  What a model call costs: the usage a provider reports (\<^verbatim>\<open>spend/domain/usage.ts\<close>,
  \<^verbatim>\<open>call.ts\<close>), the price book (\<^verbatim>\<open>prices.ts\<close>) and the cost formula (\<^verbatim>\<open>cost.ts\<close>).
  Prices and token counts are integers, as the \<^verbatim>\<open>BigInt\<close> arithmetic of the formula needs
  them; factors are rationals in place of JavaScript's doubles. The rounding of Bob's credits
  runs in doubles and is a parameter, and so is \<^verbatim>\<open>decodeURIComponent\<close>.
\<close>

section \<open>Usage\<close>

record RawUsage =
  ru_inputTokens :: "int option"
  ru_outputTokens :: "int option"
  ru_cacheReadTokens :: "int option"
  ru_cacheWriteTokens :: "int option"
  ru_cacheWrite5mTokens :: "int option"
  ru_cacheWrite1hTokens :: "int option"
  ru_cachedTokens :: "int option"
  ru_webSearchRequests :: "int option"
  ru_webSearchCalls :: "int option"
  ru_credits :: "rat option"
  ru_serviceTier :: "string option"
  ru_speed :: "string option"
  ru_inferenceGeo :: "string option"

record NormalizedUsage =
  nu_uncachedInputTokens :: int
  nu_outputTokens :: int
  nu_cacheReadTokens :: int
  nu_cacheWrite5mTokens :: int
  nu_cacheWrite1hTokens :: int
  nu_cacheWriteUnsplitTokens :: int
  nu_webSearches :: int
  nu_bobCredits :: "rat option"
  nu_serviceTier :: "string option"
  nu_speed :: "string option"
  nu_inferenceGeo :: "string option"

definition promptTokens :: "NormalizedUsage \<Rightarrow> int" where
  "promptTokens usage =
     nu_uncachedInputTokens usage + nu_cacheReadTokens usage + nu_cacheWrite5mTokens usage
     + nu_cacheWrite1hTokens usage + nu_cacheWriteUnsplitTokens usage"

definition or_zero :: "int option \<Rightarrow> int" where
  "or_zero n = (case n of None \<Rightarrow> 0 | Some k \<Rightarrow> k)"

definition prompt_holds_cache :: "ApiDialect \<Rightarrow> bool" where
  "prompt_holds_cache dialect \<longleftrightarrow> dialect \<in> {OpenaiChat, OpenaiResponses, OpenaiEmbeddings}"

definition normalizeUsage :: "ApiDialect \<Rightarrow> RawUsage \<Rightarrow> NormalizedUsage" where
  "normalizeUsage dialect raw =
     (let cacheRead = max (or_zero (ru_cacheReadTokens raw)) (or_zero (ru_cachedTokens raw));
          cacheWrite = or_zero (ru_cacheWriteTokens raw);
          split5m = or_zero (ru_cacheWrite5mTokens raw);
          split1h = or_zero (ru_cacheWrite1hTokens raw);
          input = or_zero (ru_inputTokens raw)
      in \<lparr>nu_uncachedInputTokens = (if prompt_holds_cache dialect then max 0 (input - cacheRead - cacheWrite) else input),
          nu_outputTokens = or_zero (ru_outputTokens raw),
          nu_cacheReadTokens = cacheRead, nu_cacheWrite5mTokens = split5m, nu_cacheWrite1hTokens = split1h,
          nu_cacheWriteUnsplitTokens = max 0 (cacheWrite - split5m - split1h),
          nu_webSearches = max (or_zero (ru_webSearchRequests raw)) (or_zero (ru_webSearchCalls raw)),
          nu_bobCredits = ru_credits raw, nu_serviceTier = ru_serviceTier raw, nu_speed = ru_speed raw,
          nu_inferenceGeo = ru_inferenceGeo raw\<rparr>)"

definition hasUsage :: "RawUsage \<Rightarrow> bool" where
  "hasUsage raw \<longleftrightarrow>
     list_ex (\<lambda>n. n \<noteq> None)
       [ru_inputTokens raw, ru_outputTokens raw, ru_cacheReadTokens raw, ru_cacheWriteTokens raw, ru_cachedTokens raw]
     \<or> ru_credits raw \<noteq> None"


section \<open>Prices\<close>

record TokenPrices =
  tp_input :: "int option"
  tp_output :: "int option"
  tp_cacheRead :: "int option"
  tp_cacheWrite5m :: "int option"
  tp_cacheWrite1h :: "int option"

record BaseTokenPrices =
  bp_input :: int
  bp_output :: int
  bp_cacheRead :: "int option"
  bp_cacheWrite5m :: "int option"
  bp_cacheWrite1h :: "int option"

record TierPrices =
  ti_prices :: TokenPrices
  ti_aboveThreshold :: "TokenPrices option"

record PriceRow =
  pr_prices :: BaseTokenPrices
  pr_webSearchMicros :: "int option"
  pr_threshold :: "(int \<times> TokenPrices) option" \<comment> \<open>prompt tokens, prices above them\<close>
  pr_flex :: "TierPrices option"
  pr_priority :: "TierPrices option"
  pr_factors :: "(string \<times> rat) list"

record PricedModel =
  pm_provider :: string
  pm_model :: string
  pm_row :: PriceRow

record PriceBook =
  bk_operatorPrices :: "PricedModel list"
  bk_anthropicTable :: "PricedModel list"

record PriceQuery =
  pq_provider :: string
  pq_replyModel :: "string option"
  pq_pathModel :: "string option"

datatype PriceSource = SourceOverride | SourceTable | SourceEstimate | SourceProviderRule | SourceUnpriced

datatype CallPrice = RowPrice PriceRow PriceSource | ZeroPrice | CreditsPrice | Unpriced

fun priceSource :: "CallPrice \<Rightarrow> PriceSource" where
  "priceSource (RowPrice _ source) = source"
| "priceSource ZeroPrice = SourceProviderRule"
| "priceSource CreditsPrice = SourceProviderRule"
| "priceSource Unpriced = SourceUnpriced"

definition lastSegment :: "string \<Rightarrow> string" where
  "lastSegment model = replace_char (CHR ''.'') (CHR ''-'') (to_lower (last (split_char (CHR ''/'') model)))"

text \<open>The date that ends a model's name: \<^verbatim>\<open>-YYYYMMDD\<close> or \<^verbatim>\<open>-YYYY-MM-DD\<close>.\<close>

definition ends_in_date8 :: "string \<Rightarrow> bool" where
  "ends_in_date8 s \<longleftrightarrow>
     9 \<le> length s \<and> s ! (length s - 9) = CHR ''-'' \<and> list_all is_digit (drop (length s - 8) s)"

definition ends_in_iso_date :: "string \<Rightarrow> bool" where
  "ends_in_iso_date s \<longleftrightarrow>
     11 \<le> length s
     \<and> (let d = drop (length s - 11) s
        in d ! 0 = CHR ''-'' \<and> list_all is_digit (take 4 (drop 1 d)) \<and> d ! 5 = CHR ''-''
           \<and> list_all is_digit (take 2 (drop 6 d)) \<and> d ! 8 = CHR ''-'' \<and> list_all is_digit (drop 9 d))"

definition looseName :: "string \<Rightarrow> string" where
  "looseName model =
     (let s = lastSegment model
      in if ends_in_iso_date s then take (length s - 11) s
         else if ends_in_date8 s then take (length s - 9) s
         else s)"

definition modelFamily :: "string \<Rightarrow> string" where
  "modelFamily model =
     (let parts = split_char (CHR ''-'') (lastSegment model);
          before = takeWhile (\<lambda>part. \<not> list_ex is_digit part) parts
      in if length before = length parts then [] else join_char (CHR ''-'') before)"

text \<open>\<^verbatim>\<open>reduce\<close>: a later row replaces the best one only when it is dearer.\<close>

definition dearer :: "PriceRow \<Rightarrow> PriceRow \<Rightarrow> bool" where
  "dearer new best \<longleftrightarrow>
     bp_input (pr_prices new) > bp_input (pr_prices best)
     \<or> bp_input (pr_prices new) = bp_input (pr_prices best) \<and> bp_output (pr_prices new) > bp_output (pr_prices best)"

fun highestRow :: "PricedModel list \<Rightarrow> PriceRow option" where
  "highestRow [] = None"
| "highestRow (p # ps) = Some (foldl (\<lambda>best new. if dearer (pm_row new) best then pm_row new else best) (pm_row p) ps)"

definition match_by :: "(string \<Rightarrow> string) \<Rightarrow> PricedModel list \<Rightarrow> string list \<Rightarrow> PriceRow option" where
  "match_by name_of rows names =
     (case find (\<lambda>name. list_ex (\<lambda>p. name_of (pm_model p) = name_of name) rows) names of
        None \<Rightarrow> None
      | Some name \<Rightarrow> highestRow (filter (\<lambda>p. name_of (pm_model p) = name_of name) rows))"

definition matchModel :: "PricedModel list \<Rightarrow> string list \<Rightarrow> PriceRow option" where
  "matchModel rows names =
     (case match_by id rows names of Some row \<Rightarrow> Some row | None \<Rightarrow> match_by looseName rows names)"

definition max_defined :: "(PriceRow \<Rightarrow> int option) \<Rightarrow> PricedModel list \<Rightarrow> int option" where
  "max_defined pick rows =
     (case List.map_filter (\<lambda>p. pick (pm_row p)) rows of [] \<Rightarrow> None | v # vs \<Rightarrow> Some (foldl max v vs))"

definition highestPrices :: "PricedModel list \<Rightarrow> PriceRow" where
  "highestPrices rows =
     \<lparr>pr_prices =
        \<lparr>bp_input = or_zero (max_defined (\<lambda>r. Some (bp_input (pr_prices r))) rows),
         bp_output = or_zero (max_defined (\<lambda>r. Some (bp_output (pr_prices r))) rows),
         bp_cacheRead = max_defined (\<lambda>r. bp_cacheRead (pr_prices r)) rows,
         bp_cacheWrite5m = max_defined (\<lambda>r. bp_cacheWrite5m (pr_prices r)) rows,
         bp_cacheWrite1h = max_defined (\<lambda>r. bp_cacheWrite1h (pr_prices r)) rows\<rparr>,
      pr_webSearchMicros = max_defined pr_webSearchMicros rows,
      pr_threshold = None, pr_flex = None, pr_priority = None, pr_factors = []\<rparr>"

definition defined_name :: "string option \<Rightarrow> string list" where
  "defined_name name = (case name of None \<Rightarrow> [] | Some s \<Rightarrow> if s = [] then [] else [s])"

definition price_names :: "PriceQuery \<Rightarrow> string list" where
  "price_names query = defined_name (pq_pathModel query) @ defined_name (pq_replyModel query)"

definition family_of :: "string list \<Rightarrow> PricedModel list \<Rightarrow> PricedModel list" where
  "family_of names known =
     (let families = filter (\<lambda>f. f \<noteq> []) (map modelFamily names);
          family = filter (\<lambda>p. modelFamily (pm_model p) \<in> set families) known
      in if family \<noteq> [] then family else known)"

definition lookupPrice :: "PriceBook \<Rightarrow> PriceQuery \<Rightarrow> CallPrice" where
  "lookupPrice book query =
     (let names = price_names query;
          operatorRows = filter (\<lambda>p. pm_provider p = pq_provider query) (bk_operatorPrices book);
          tableRows = (if pq_provider query \<in> {''anthropic'', ''anthropic-oauth''} then bk_anthropicTable book else [])
      in case matchModel operatorRows names of
           Some row \<Rightarrow> RowPrice row SourceOverride
         | None \<Rightarrow>
             if pq_provider query \<in> {''curve-bender'', ''curve-bender-deployment''} then ZeroPrice
             else if pq_provider query = ''ibm-litellm''
                     \<and> list_ex (\<lambda>name. take 5 (to_lower name) = ''rits/'') names then ZeroPrice
             else if pq_provider query = ''bob'' then CreditsPrice
             else case matchModel tableRows names of
                    Some row \<Rightarrow> RowPrice row SourceTable
                  | None \<Rightarrow>
                      let known = operatorRows @ tableRows
                      in if known = [] then Unpriced
                         else RowPrice (highestPrices (family_of names known)) SourceEstimate)"


section \<open>The cost of a call\<close>

definition tierPrices :: "PriceRow \<Rightarrow> string option \<Rightarrow> TierPrices option" where
  "tierPrices row serviceTier =
     (case map_option to_lower serviceTier of
        None \<Rightarrow> None
      | Some tier \<Rightarrow> if tier = ''flex'' then pr_flex row else if tier = ''priority'' then pr_priority row else None)"

definition factor_named :: "PriceRow \<Rightarrow> string \<Rightarrow> rat" where
  "factor_named row key = (case map_of (pr_factors row) key of None \<Rightarrow> 1 | Some f \<Rightarrow> f)"

definition speedFactor :: "PriceRow \<Rightarrow> string option \<Rightarrow> rat" where
  "speedFactor row speed = (if map_option to_lower speed = Some ''fast'' then factor_named row ''fast'' else 1)"

definition geoFactor :: "PriceRow \<Rightarrow> string option \<Rightarrow> rat" where
  "geoFactor row geo =
     (case map_option to_lower geo of
        None \<Rightarrow> 1
      | Some key \<Rightarrow> if key = [] \<or> key \<in> {''global'', ''not_available''} then 1 else factor_named row key)"

text \<open>\<^verbatim>\<open>Math.round\<close> rounds a half up.\<close>

definition scaledFactor :: "rat \<Rightarrow> int" where
  "scaledFactor factor = \<lfloor>factor * 1000 + 1 / 2\<rfloor>"

record ResolvedRates =
  rr_input :: int
  rr_output :: int
  rr_cacheRead :: int
  rr_cacheWrite5m :: int
  rr_cacheWrite1h :: int

definition base_layer :: "BaseTokenPrices \<Rightarrow> TokenPrices" where
  "base_layer b =
     \<lparr>tp_input = Some (bp_input b), tp_output = Some (bp_output b), tp_cacheRead = bp_cacheRead b,
      tp_cacheWrite5m = bp_cacheWrite5m b, tp_cacheWrite1h = bp_cacheWrite1h b\<rparr>"

definition price_layers :: "PriceRow \<Rightarrow> NormalizedUsage \<Rightarrow> TokenPrices list" where
  "price_layers row usage =
     (let tier = tierPrices row (nu_serviceTier usage);
          over = (case pr_threshold row of None \<Rightarrow> False | Some (limit, _) \<Rightarrow> promptTokens usage > limit)
      in (if over then (case Option.bind tier ti_aboveThreshold of None \<Rightarrow> [] | Some l \<Rightarrow> [l]) else [])
         @ (if over then (case pr_threshold row of None \<Rightarrow> [] | Some (_, l) \<Rightarrow> [l]) else [])
         @ (case tier of None \<Rightarrow> [] | Some t \<Rightarrow> [ti_prices t])
         @ [base_layer (pr_prices row)])"

text \<open>The first layer that has a price of the kind.\<close>

definition pick_price :: "(TokenPrices \<Rightarrow> int option) \<Rightarrow> TokenPrices list \<Rightarrow> int option" where
  "pick_price kind layers = (case List.map_filter kind layers of [] \<Rightarrow> None | v # _ \<Rightarrow> Some v)"

definition or_else :: "int option \<Rightarrow> int \<Rightarrow> int" where
  "or_else n d = (case n of None \<Rightarrow> d | Some k \<Rightarrow> k)"

definition resolveRates :: "PriceRow \<Rightarrow> NormalizedUsage \<Rightarrow> ResolvedRates" where
  "resolveRates row usage =
     (let layers = price_layers row usage;
          input = or_else (pick_price tp_input layers) (bp_input (pr_prices row));
          write5m = or_else (pick_price tp_cacheWrite5m layers) input
      in \<lparr>rr_input = input,
          rr_output = or_else (pick_price tp_output layers) (bp_output (pr_prices row)),
          rr_cacheRead = or_else (pick_price tp_cacheRead layers) input,
          rr_cacheWrite5m = write5m,
          rr_cacheWrite1h = or_else (pick_price tp_cacheWrite1h layers) write5m\<rparr>)"

definition token_cost :: "ResolvedRates \<Rightarrow> NormalizedUsage \<Rightarrow> int" where
  "token_cost rates usage =
     nu_uncachedInputTokens usage * rr_input rates + nu_outputTokens usage * rr_output rates
     + nu_cacheReadTokens usage * rr_cacheRead rates + nu_cacheWrite5mTokens usage * rr_cacheWrite5m rates
     + (nu_cacheWrite1hTokens usage + nu_cacheWriteUnsplitTokens usage) * rr_cacheWrite1h rates"

definition MILLION :: int where "MILLION = 1000000"
definition FACTOR_SCALE :: int where "FACTOR_SCALE = 1000"

definition cost_denominator :: int where "cost_denominator = MILLION * FACTOR_SCALE * FACTOR_SCALE"

definition cost_numerator :: "PriceRow \<Rightarrow> NormalizedUsage \<Rightarrow> int" where
  "cost_numerator row usage =
     token_cost (resolveRates row usage) usage
       * (scaledFactor (speedFactor row (nu_speed usage)) * scaledFactor (geoFactor row (nu_inferenceGeo usage)))
     + nu_webSearches usage * or_zero (pr_webSearchMicros row) * cost_denominator"

text \<open>
  \<^verbatim>\<open>ceilDiv\<close> adds the divisor less one and cuts toward zero, as division of \<^verbatim>\<open>BigInt\<close>s
  does; for the amounts here, which are not negative, that is the ceiling.
\<close>

definition trunc_div :: "int \<Rightarrow> int \<Rightarrow> int" where
  "trunc_div a b = (if a < 0 then - ((- a) div b) else a div b)"

definition ceilDiv :: "int \<Rightarrow> int \<Rightarrow> int" where
  "ceilDiv numerator denominator = trunc_div (numerator + denominator - 1) denominator"

definition rowCostMicros :: "PriceRow \<Rightarrow> NormalizedUsage \<Rightarrow> int" where
  "rowCostMicros row usage = ceilDiv (cost_numerator row usage) cost_denominator"

definition creditsMicros :: "(rat \<Rightarrow> rat) \<Rightarrow> rat option \<Rightarrow> int option" where
  "creditsMicros precise credits = map_option (\<lambda>c. \<lceil>precise c\<rceil>) credits"

fun callCostMicros :: "(rat \<Rightarrow> rat) \<Rightarrow> CallPrice \<Rightarrow> NormalizedUsage \<Rightarrow> int option" where
  "callCostMicros precise (RowPrice row _) usage = Some (rowCostMicros row usage)"
| "callCostMicros precise ZeroPrice usage = Some 0"
| "callCostMicros precise CreditsPrice usage = creditsMicros precise (nu_bobCredits usage)"
| "callCostMicros precise Unpriced usage = Some 0"

section \<open>Measuring a call\<close>

record ProxyCostHeaders =
  px_cost :: "rat option" \<comment> \<open>the finite number the header's text holds\<close>
  px_original :: "rat option"
  px_discount :: "rat option"
  px_margin :: "rat option"

definition proxyCostDollars :: "ProxyCostHeaders \<Rightarrow> rat option" where
  "proxyCostDollars headers =
     (case px_cost headers of
        Some cost \<Rightarrow> if cost > 0 then Some cost else
          (case px_original headers of
             None \<Rightarrow> None
           | Some original \<Rightarrow>
               if original \<le> 0 then None
               else Some (original - (case px_discount headers of None \<Rightarrow> 0 | Some d \<Rightarrow> d)
                            + (case px_margin headers of None \<Rightarrow> 0 | Some m \<Rightarrow> m)))
      | None \<Rightarrow>
          (case px_original headers of
             None \<Rightarrow> None
           | Some original \<Rightarrow>
               if original \<le> 0 then None
               else Some (original - (case px_discount headers of None \<Rightarrow> 0 | Some d \<Rightarrow> d)
                            + (case px_margin headers of None \<Rightarrow> 0 | Some m \<Rightarrow> m))))"

definition proxyCostDifference :: "int \<Rightarrow> ProxyCostHeaders \<Rightarrow> rat option" where
  "proxyCostDifference ourMicros headers =
     (case proxyCostDollars headers of
        None \<Rightarrow> None
      | Some proxy \<Rightarrow>
          if proxy \<le> 0 then None
          else Some (\<bar>of_int ourMicros - proxy * 1000000\<bar> / (proxy * 1000000)))"

record CallRecord =
  cr_callId :: string
  cr_agentId :: agent_id
  cr_payer :: agent_id
  cr_connectionId :: "string option"
  cr_providers :: "string list"
  cr_sessionId :: "string option"
  cr_harness :: "string option"
  cr_routerCallId :: "string option"
  cr_path :: string
  cr_dialect :: ApiDialect
  cr_model :: "string option"
  cr_usage :: RawUsage
  cr_status :: "nat option"
  cr_replyBytes :: "int option"
  cr_complete :: bool
  cr_proxyCost :: ProxyCostHeaders
  cr_final :: bool
  cr_refusedByGate :: bool
  cr_startedAt :: time_ms
  cr_durationMs :: int

datatype EstimateReason =
    StreamCut | OutputUncounted | ProvidersAmbiguous | ModelUnpriced | UsageMissing | CostUnknown | RecordMissing

record MeasuredCall =
  mc_provider :: string
  mc_unit :: SpendUnit
  mc_model :: string
  mc_priceSource :: PriceSource
  mc_needsReferenceCost :: bool
  mc_estimateReasons :: "EstimateReason list"
  mc_amounts :: CallAmounts

datatype CallMeasure = ForgetCall | SkipRecord | Measured MeasuredCall

definition REPLY_BYTES_PER_TOKEN :: int where "REPLY_BYTES_PER_TOKEN = 3"

definition succeeded :: "nat option \<Rightarrow> bool" where
  "succeeded status \<longleftrightarrow> (case status of None \<Rightarrow> False | Some s \<Rightarrow> 200 \<le> s \<and> s < 300)"

text \<open>
  The model a Bedrock path names: the first \<^verbatim>\<open>/model/<id>/\<close> that is followed by
  \<^verbatim>\<open>invoke\<close> or \<^verbatim>\<open>converse\<close>.
\<close>

definition model_segment :: "string \<Rightarrow> string option" where
  "model_segment s =
     (if take 7 s \<noteq> ''/model/'' then None
      else let segment = takeWhile (\<lambda>c. c \<noteq> CHR ''/'') (drop 7 s); rest = drop (7 + length segment) s
           in if segment \<noteq> [] \<and> (take 7 rest = ''/invoke'' \<or> take 9 rest = ''/converse'') then Some segment else None)"

fun bedrock_segment :: "string \<Rightarrow> string option" where
  "bedrock_segment [] = None"
| "bedrock_segment (c # s) = (case model_segment (c # s) of Some i \<Rightarrow> Some i | None \<Rightarrow> bedrock_segment s)"

definition bedrockPathModel :: "(string \<Rightarrow> string option) \<Rightarrow> string \<Rightarrow> string option" where
  "bedrockPathModel decodeURIComponent path =
     map_option (\<lambda>i. case decodeURIComponent i of Some s \<Rightarrow> s | None \<Rightarrow> i) (bedrock_segment path)"

record MeasureDeps =
  md_book :: PriceBook
  md_collate :: "string \<Rightarrow> nat" \<comment> \<open>place of a name in the collation order\<close>
  md_precise :: "rat \<Rightarrow> rat" \<comment> \<open>credits to millionths, in doubles at twelve digits\<close>
  md_decode :: "string \<Rightarrow> string option" \<comment> \<open>\<^verbatim>\<open>decodeURIComponent\<close>; None is its exception\<close>

definition output_short :: "CallRecord \<Rightarrow> bool" where
  "output_short record \<longleftrightarrow>
     cr_final record \<and> cr_dialect record \<noteq> OpenaiEmbeddings
     \<and> (\<not> cr_complete record \<or> ru_outputTokens (cr_usage record) = None)"

definition metered_usage :: "CallRecord \<Rightarrow> NormalizedUsage" where
  "metered_usage record =
     (let usage = normalizeUsage (cr_dialect record) (cr_usage record)
      in if output_short record
         then usage\<lparr>nu_outputTokens := max (nu_outputTokens usage)
                     (ceil_div (or_zero (cr_replyBytes record)) REPLY_BYTES_PER_TOKEN)\<rparr>
         else usage)"

definition call_price :: "MeasureDeps \<Rightarrow> CallRecord \<Rightarrow> CallPrice" where
  "call_price deps record =
     lookupPrice (md_book deps)
       \<lparr>pq_provider = fst (payingProvider (md_collate deps) (cr_providers record)), pq_replyModel = cr_model record,
        pq_pathModel = bedrockPathModel (md_decode deps) (cr_path record)\<rparr>"

definition estimate_reasons :: "CallRecord \<Rightarrow> bool \<Rightarrow> CallPrice \<Rightarrow> int option \<Rightarrow> EstimateReason list" where
  "estimate_reasons record ambiguous price cost =
     (let reported = hasUsage (cr_usage record)
      in map snd (filter fst
           [(output_short record \<and> \<not> cr_complete record, StreamCut),
            (output_short record \<and> cr_complete record, OutputUncounted),
            (ambiguous, ProvidersAmbiguous),
            (priceSource price = SourceEstimate, ModelUnpriced),
            (cr_final record \<and> \<not> reported, UsageMissing),
            (cr_final record \<and> reported \<and> cost = None, CostUnknown)]))"

definition measureCall :: "MeasureDeps \<Rightarrow> CallRecord \<Rightarrow> CallMeasure" where
  "measureCall deps record =
     (let reported = hasUsage (cr_usage record)
      in if cr_refusedByGate record then ForgetCall
         else if \<not> reported \<and> \<not> cr_final record then SkipRecord
         else if \<not> reported \<and> cr_status record \<noteq> None \<and> \<not> succeeded (cr_status record) then ForgetCall
         else
           let (provider, ambiguous) = payingProvider (md_collate deps) (cr_providers record);
               metered = metered_usage record;
               price = call_price deps record;
               cost = callCostMicros (md_precise deps) price metered;
               reasons = estimate_reasons record ambiguous price cost
           in Measured
                \<lparr>mc_provider = provider, mc_unit = unitOf provider,
                 mc_model = (case cr_model record of None \<Rightarrow> UNKNOWN_MODEL | Some m \<Rightarrow> m),
                 mc_priceSource = priceSource price,
                 mc_needsReferenceCost = (cr_final record \<and> (cost = None \<or> \<not> reported)),
                 mc_estimateReasons = reasons,
                 mc_amounts =
                   \<lparr>am_costMicros = or_zero cost,
                    am_uncachedInputTokens = nu_uncachedInputTokens metered,
                    am_outputTokens = nu_outputTokens metered,
                    am_cacheReadTokens = nu_cacheReadTokens metered,
                    am_cacheWrite5mTokens = nu_cacheWrite5mTokens metered,
                    am_cacheWrite1hTokens = nu_cacheWrite1hTokens metered + nu_cacheWriteUnsplitTokens metered,
                    am_webSearches = nu_webSearches metered,
                    am_calls = 1,
                    am_estimatedCalls = (if reasons \<noteq> [] then 1 else 0),
                    am_durationMs = cr_durationMs record\<rparr>\<rparr>)"


section \<open>Properties\<close>

text \<open>A row whose price has no layer but its base: the prices of the row as they stand.\<close>

definition plain_usage :: "NormalizedUsage \<Rightarrow> bool" where
  "plain_usage usage \<longleftrightarrow>
     nu_uncachedInputTokens usage \<ge> 0 \<and> nu_outputTokens usage \<ge> 0 \<and> nu_cacheReadTokens usage \<ge> 0
     \<and> nu_cacheWrite5mTokens usage \<ge> 0 \<and> nu_cacheWrite1hTokens usage \<ge> 0 \<and> nu_cacheWriteUnsplitTokens usage \<ge> 0
     \<and> nu_webSearches usage \<ge> 0"

definition rates_ok :: "PriceRow \<Rightarrow> NormalizedUsage \<Rightarrow> bool" where
  "rates_ok row usage \<longleftrightarrow>
     (let r = resolveRates row usage in
      rr_input r \<ge> 0 \<and> rr_output r \<ge> 0 \<and> rr_cacheRead r \<ge> 0 \<and> rr_cacheWrite5m r \<ge> 0 \<and> rr_cacheWrite1h r \<ge> 0)
     \<and> or_zero (pr_webSearchMicros row) \<ge> 0
     \<and> (\<forall>f \<in> set (map snd (pr_factors row)). 0 \<le> f)"

lemma scaledFactor_nonneg: "0 \<le> f \<Longrightarrow> 0 \<le> scaledFactor f"
  by (simp add: scaledFactor_def le_floor_iff)

lemma factors_nonneg:
  assumes "\<forall>f \<in> set (map snd (pr_factors row)). 0 \<le> f"
  shows "0 \<le> speedFactor row speed" "0 \<le> geoFactor row geo"
proof -
  have "0 \<le> factor_named row key" for key
    using assms by (auto simp: factor_named_def split: option.split dest!: map_of_SomeD)
  then show "0 \<le> speedFactor row speed" "0 \<le> geoFactor row geo"
    by (auto simp: speedFactor_def geoFactor_def split: option.split)
qed

lemma cost_numerator_nonneg:
  assumes "plain_usage usage" and "rates_ok row usage"
  shows "0 \<le> cost_numerator row usage"
proof -
  have "0 \<le> token_cost (resolveRates row usage) usage"
    using assms by (auto simp: plain_usage_def rates_ok_def token_cost_def Let_def)
  moreover have "0 \<le> scaledFactor (speedFactor row (nu_speed usage)) * scaledFactor (geoFactor row (nu_inferenceGeo usage))"
    using assms(2) by (auto simp: rates_ok_def intro!: mult_nonneg_nonneg scaledFactor_nonneg factors_nonneg)
  ultimately show ?thesis
    using assms by (auto simp: cost_numerator_def plain_usage_def rates_ok_def cost_denominator_def MILLION_def FACTOR_SCALE_def)
qed

lemma ceilDiv_bounds:
  assumes "0 \<le> n" and "0 < d"
  shows "n \<le> ceilDiv n d * d" and "ceilDiv n d * d < n + d"
proof -
  define q where "q = (n + d - 1) div d"
  define r where "r = (n + d - 1) mod d"
  have "n + d - 1 = q * d + r" "0 \<le> r" "r < d" using assms(2) by (simp_all add: q_def r_def)
  moreover have "ceilDiv n d = q" using assms by (simp add: ceilDiv_def trunc_div_def q_def)
  ultimately show "n \<le> ceilDiv n d * d" "ceilDiv n d * d < n + d" by simp_all
qed


definition sample_prices :: "int \<Rightarrow> int option \<Rightarrow> PriceRow" where
  "sample_prices input cacheRead =
     \<lparr>pr_prices = \<lparr>bp_input = input, bp_output = 2 * input, bp_cacheRead = cacheRead, bp_cacheWrite5m = None, bp_cacheWrite1h = None\<rparr>,
      pr_webSearchMicros = None, pr_threshold = None, pr_flex = None, pr_priority = None, pr_factors = []\<rparr>"

definition sample_usage :: "int \<Rightarrow> int \<Rightarrow> NormalizedUsage" where
  "sample_usage input cacheRead =
     \<lparr>nu_uncachedInputTokens = input, nu_outputTokens = 0, nu_cacheReadTokens = cacheRead, nu_cacheWrite5mTokens = 0,
      nu_cacheWrite1hTokens = 0, nu_cacheWriteUnsplitTokens = 0, nu_webSearches = 0, nu_bobCredits = None,
      nu_serviceTier = None, nu_speed = None, nu_inferenceGeo = None\<rparr>"


text \<open>The rates of a row that has only its base prices for a usage.\<close>

definition base_only :: "PriceRow \<Rightarrow> NormalizedUsage \<Rightarrow> bool" where
  "base_only row usage \<longleftrightarrow>
     price_layers row usage = [base_layer (pr_prices row)]
     \<and> speedFactor row (nu_speed usage) = 1 \<and> geoFactor row (nu_inferenceGeo usage) = 1"

lemma base_rates:
  assumes "price_layers row usage = [base_layer (pr_prices row)]"
  shows "resolveRates row usage =
     (let b = pr_prices row; write5m = or_else (bp_cacheWrite5m b) (bp_input b)
      in \<lparr>rr_input = bp_input b, rr_output = bp_output b, rr_cacheRead = or_else (bp_cacheRead b) (bp_input b),
          rr_cacheWrite5m = write5m, rr_cacheWrite1h = or_else (bp_cacheWrite1h b) write5m\<rparr>)"
proof -
  have pick: "pick_price kind [l] = kind l" for kind :: "TokenPrices \<Rightarrow> int option" and l
    by (cases "kind l") (simp_all add: pick_price_def List.map_filter_def)
  show ?thesis unfolding resolveRates_def assms Let_def pick by (simp add: base_layer_def or_else_def)
qed

lemma highestPrices_base_only: "base_only (highestPrices rows) usage"
  by (auto simp: base_only_def price_layers_def tierPrices_def highestPrices_def speedFactor_def geoFactor_def
      factor_named_def Let_def split: option.split)

lemma max_defined_ge:
  assumes "p \<in> set rows" and "pick (pm_row p) = Some v"
  shows "\<exists>w. max_defined pick rows = Some w \<and> v \<le> w"
proof -
  have fold: "x \<le> foldl max x xs \<and> (y \<in> set xs \<longrightarrow> y \<le> foldl max x xs)" for x y :: int and xs
    by (induction xs arbitrary: x) (auto simp: max_def dest: order_trans, (metis max.bounded_iff max_def)+)
  have mem: "v \<in> set (List.map_filter (\<lambda>p. pick (pm_row p)) rows)"
    using assms by (force simp: List.map_filter_def)
  show ?thesis
  proof (cases "List.map_filter (\<lambda>p. pick (pm_row p)) rows")
    case (Cons u us)
    then show ?thesis using mem fold [of u us v] by (auto simp: max_defined_def)
  qed (use mem in simp)
qed

lemma max_defined_nonneg:
  assumes "\<forall>q \<in> set rows. 0 \<le> or_zero (pick (pm_row q))"
  shows "0 \<le> or_zero (max_defined pick rows)"
proof (cases "max_defined pick rows")
  case (Some w)
  then have "filter (\<lambda>q. pick (pm_row q) \<noteq> None) rows \<noteq> []"
    by (auto simp: max_defined_def List.map_filter_def)
  then obtain q v where "q \<in> set rows" "pick (pm_row q) = Some v" by (auto simp: filter_empty_conv)
  with max_defined_ge [of q rows pick v] Some assms show ?thesis by (force simp: or_zero_def)
qed (simp add: or_zero_def)

lemma ceilDiv_mono:
  assumes "0 \<le> m" "m \<le> n" "0 < d" shows "ceilDiv m d \<le> ceilDiv n d"
  using assms by (auto simp: ceilDiv_def trunc_div_def intro: zdiv_mono1)

text \<open>
  The estimate for a model without a price is never below a listed price: a call that is
  priced by the highest prices of a family costs at least what each model of the family would
  have cost at its base prices, as long as the family's rows all carry their cache prices.
\<close>

theorem estimate_covers_family:
  assumes "p \<in> set rows" and "plain_usage usage" and "rates_ok (pm_row p) usage" and "base_only (pm_row p) usage"
    and cache: "\<forall>q \<in> set rows. bp_cacheRead (pr_prices (pm_row q)) \<noteq> None
        \<and> bp_cacheWrite5m (pr_prices (pm_row q)) \<noteq> None \<and> bp_cacheWrite1h (pr_prices (pm_row q)) \<noteq> None"
    and search: "\<forall>q \<in> set rows. 0 \<le> or_zero (pr_webSearchMicros (pm_row q))"
  shows "rowCostMicros (pm_row p) usage \<le> rowCostMicros (highestPrices rows) usage"
proof -
  let ?b = "pr_prices (pm_row p)" and ?h = "highestPrices rows"
  obtain cr w5 w1 where b: "bp_cacheRead ?b = Some cr" "bp_cacheWrite5m ?b = Some w5" "bp_cacheWrite1h ?b = Some w1"
    using cache assms(1) by blast
  note up = max_defined_ge [OF assms(1)]
  have rates: "rr_input (resolveRates (pm_row p) usage) \<le> rr_input (resolveRates ?h usage)"
    "rr_output (resolveRates (pm_row p) usage) \<le> rr_output (resolveRates ?h usage)"
    "rr_cacheRead (resolveRates (pm_row p) usage) \<le> rr_cacheRead (resolveRates ?h usage)"
    "rr_cacheWrite5m (resolveRates (pm_row p) usage) \<le> rr_cacheWrite5m (resolveRates ?h usage)"
    "rr_cacheWrite1h (resolveRates (pm_row p) usage) \<le> rr_cacheWrite1h (resolveRates ?h usage)"
    using assms(4) highestPrices_base_only [of rows usage] b
      up [of "\<lambda>r. Some (bp_input (pr_prices r))"] up [of "\<lambda>r. Some (bp_output (pr_prices r))"]
      up [of "\<lambda>r. bp_cacheRead (pr_prices r)"] up [of "\<lambda>r. bp_cacheWrite5m (pr_prices r)"] up [of "\<lambda>r. bp_cacheWrite1h (pr_prices r)"]
    by (auto simp: base_only_def base_rates Let_def or_else_def or_zero_def highestPrices_def)
  have "token_cost (resolveRates (pm_row p) usage) usage \<le> token_cost (resolveRates ?h usage) usage"
    unfolding token_cost_def using assms(2) rates
    by (intro add_mono mult_left_mono) (auto simp: plain_usage_def)
  moreover have "or_zero (pr_webSearchMicros (pm_row p)) \<le> or_zero (pr_webSearchMicros ?h)"
    using up [of pr_webSearchMicros] max_defined_nonneg [OF search]
    by (cases "pr_webSearchMicros (pm_row p)") (auto simp: or_zero_def highestPrices_def)
  ultimately have "cost_numerator (pm_row p) usage \<le> cost_numerator ?h usage"
    using assms(2,4) highestPrices_base_only [of rows usage]
    by (auto simp: cost_numerator_def base_only_def scaledFactor_def plain_usage_def cost_denominator_def MILLION_def FACTOR_SCALE_def
        intro!: add_mono mult_right_mono mult_left_mono)
  then show ?thesis
    unfolding rowCostMicros_def
    using cost_numerator_nonneg [OF assms(2,3)]
    by (intro ceilDiv_mono) (simp_all add: cost_denominator_def MILLION_def FACTOR_SCALE_def)
qed

definition cached_prices :: "int \<Rightarrow> PriceRow" where
  "cached_prices input = sample_prices input (Some 1)
     \<lparr>pr_prices := \<lparr>bp_input = input, bp_output = 2 * input, bp_cacheRead = Some 1, bp_cacheWrite5m = Some 4, bp_cacheWrite1h = Some 5\<rparr>\<rparr>"

theorem estimate_covers_family_witness:
  "let rows = [\<lparr>pm_provider = ''x'', pm_model = ''m-1'', pm_row = cached_prices 3\<rparr>, \<lparr>pm_provider = ''x'', pm_model = ''m-2'', pm_row = cached_prices 7\<rparr>]
   in rowCostMicros (cached_prices 3) (sample_usage 2000000 0) \<le> rowCostMicros (highestPrices rows) (sample_usage 2000000 0)"
proof -
  let ?p = "\<lparr>pm_provider = ''x'', pm_model = ''m-1'', pm_row = cached_prices 3\<rparr>"
  let ?rows = "[?p, \<lparr>pm_provider = ''x'', pm_model = ''m-2'', pm_row = cached_prices 7\<rparr>]"
  have "plain_usage (sample_usage 2000000 0)" "rates_ok (pm_row ?p) (sample_usage 2000000 0)" "base_only (pm_row ?p) (sample_usage 2000000 0)"
    by code_simp+
  from estimate_covers_family [of ?p ?rows, OF _ this] show ?thesis
    by (simp add: Let_def cached_prices_def sample_prices_def or_zero_def)
qed

text \<open>
  Without that the estimate can be far below a listed price: a row that has no price for
  cached reads charges them as input, but the estimate takes the cached-read price of
  another row of the family, however low it is.
\<close>

theorem estimate_can_undercut_family:
  "\<exists>p q usage. plain_usage usage \<and> base_only (pm_row p) usage \<and> modelFamily (pm_model q) = modelFamily (pm_model p)
     \<and> 10 * rowCostMicros (highestPrices [p, q]) usage \<le> rowCostMicros (pm_row p) usage
     \<and> 0 < rowCostMicros (highestPrices [p, q]) usage"
proof -
  let ?p = "\<lparr>pm_provider = ''x'', pm_model = ''m-1'', pm_row = sample_prices 10 None\<rparr>"
  let ?q = "\<lparr>pm_provider = ''x'', pm_model = ''m-2'', pm_row = sample_prices 5 (Some 1)\<rparr>"
  let ?u = "sample_usage 0 1000000"
  have "plain_usage ?u" "base_only (pm_row ?p) ?u" "modelFamily (pm_model ?q) = modelFamily (pm_model ?p)"
    "10 * rowCostMicros (highestPrices [?p, ?q]) ?u \<le> rowCostMicros (pm_row ?p) ?u" "0 < rowCostMicros (highestPrices [?p, ?q]) ?u"
    by code_simp+
  then show ?thesis by blast
qed

text \<open>
  Every call that was answered is counted, once: the final record of a call that the gate
  let through and that did not fail without usage is measured as one call, is marked as an
  estimate exactly when a reason says so, and a stream that was cut is charged for at least
  the tokens that its reply bytes stand for.
\<close>

theorem answered_call_is_counted:
  assumes "\<not> cr_refusedByGate record" and "cr_final record"
    and "hasUsage (cr_usage record) \<or> cr_status record = None \<or> succeeded (cr_status record)"
  shows "\<exists>m. measureCall deps record = Measured m \<and> am_calls (mc_amounts m) = 1
     \<and> am_estimatedCalls (mc_amounts m) = (if mc_estimateReasons m = [] then 0 else 1)
     \<and> (mc_needsReferenceCost m \<longrightarrow> mc_estimateReasons m \<noteq> [])
     \<and> (\<not> cr_complete record \<and> cr_dialect record \<noteq> OpenaiEmbeddings \<longrightarrow>
          StreamCut \<in> set (mc_estimateReasons m)
          \<and> or_zero (cr_replyBytes record) \<le> am_outputTokens (mc_amounts m) * REPLY_BYTES_PER_TOKEN)"
proof -
  have bytes: "n \<le> max k (ceil_div n 3) * 3" for n k :: int
  proof -
    have "n \<le> ceil_div n 3 * 3" by (simp add: ceil_div_def)
    then show ?thesis by (simp add: max_def)
  qed
  obtain provider ambiguous where paying: "payingProvider (md_collate deps) (cr_providers record) = (provider, ambiguous)"
    by fastforce
  define cost where "cost = callCostMicros (md_precise deps) (call_price deps record) (metered_usage record)"
  define reasons where "reasons = estimate_reasons record ambiguous (call_price deps record) cost"
  obtain m where m: "measureCall deps record = Measured m" "am_calls (mc_amounts m) = 1"
      "am_estimatedCalls (mc_amounts m) = (if reasons \<noteq> [] then 1 else 0)" "mc_estimateReasons m = reasons"
      "mc_needsReferenceCost m \<longleftrightarrow> cost = None \<or> \<not> hasUsage (cr_usage record)"
      "am_outputTokens (mc_amounts m) = nu_outputTokens (metered_usage record)"
    using assms by (auto simp: measureCall_def Let_def paying reasons_def cost_def)
  have "mc_needsReferenceCost m \<longrightarrow> reasons \<noteq> []"
    using assms(2) by (auto simp: m(5) reasons_def estimate_reasons_def Let_def)
  moreover have "StreamCut \<in> set reasons \<and> or_zero (cr_replyBytes record) \<le> nu_outputTokens (metered_usage record) * REPLY_BYTES_PER_TOKEN"
    if "\<not> cr_complete record" "cr_dialect record \<noteq> OpenaiEmbeddings"
  proof -
    have short: "output_short record" using that assms(2) by (simp add: output_short_def)
    then have "StreamCut \<in> set reasons" using that(1) by (simp add: reasons_def estimate_reasons_def Let_def)
    moreover have "nu_outputTokens (metered_usage record) = max (nu_outputTokens (normalizeUsage (cr_dialect record) (cr_usage record)))
        (ceil_div (or_zero (cr_replyBytes record)) 3)"
      using short by (simp add: metered_usage_def Let_def REPLY_BYTES_PER_TOKEN_def)
    ultimately show ?thesis using bytes by (simp add: REPLY_BYTES_PER_TOKEN_def)
  qed
  ultimately show ?thesis using m by auto
qed

definition sample_record :: CallRecord where
  "sample_record = \<lparr>cr_callId = ''c'', cr_agentId = ''a'', cr_payer = ''a'', cr_connectionId = None, cr_providers = [''anthropic''],
     cr_sessionId = None, cr_harness = None, cr_routerCallId = None, cr_path = ''/v1/messages'', cr_dialect = AnthropicMessages,
     cr_model = None, cr_usage = \<lparr>ru_inputTokens = Some 5, ru_outputTokens = None, ru_cacheReadTokens = None, ru_cacheWriteTokens = None,
       ru_cacheWrite5mTokens = None, ru_cacheWrite1hTokens = None, ru_cachedTokens = None, ru_webSearchRequests = None,
       ru_webSearchCalls = None, ru_credits = None, ru_serviceTier = None, ru_speed = None, ru_inferenceGeo = None\<rparr>,
     cr_status = Some 200, cr_replyBytes = Some 10, cr_complete = False,
     cr_proxyCost = \<lparr>px_cost = None, px_original = None, px_discount = None, px_margin = None\<rparr>,
     cr_final = True, cr_refusedByGate = False, cr_startedAt = 7, cr_durationMs = 3\<rparr>"

definition sample_measure_deps :: MeasureDeps where
  "sample_measure_deps = \<lparr>md_book = \<lparr>bk_operatorPrices = [], bk_anthropicTable = []\<rparr>, md_collate = length,
     md_precise = id, md_decode = Some\<rparr>"

theorem answered_call_is_counted_witness:
  "\<exists>m. measureCall sample_measure_deps sample_record = Measured m \<and> StreamCut \<in> set (mc_estimateReasons m)"
proof -
  have "\<not> cr_refusedByGate sample_record" "cr_final sample_record" "hasUsage (cr_usage sample_record)"
    "\<not> cr_complete sample_record" "cr_dialect sample_record \<noteq> OpenaiEmbeddings"
    by (simp_all add: sample_record_def hasUsage_def)
  with answered_call_is_counted [of sample_record sample_measure_deps] show ?thesis by blast
qed

end
