(* ===== verification/Spend_Calls.thy ===== *)
theory Spend_Calls
  imports Spend_Price "HOL-Library.List_Lexorder" "HOL-Library.Char_ord" "HOL-Library.Countable"
begin

text \<open>
  Booking the calls of a day: the state of a call in Redis
  (\<^verbatim>\<open>spend/infrastructure/call-states.ts\<close>), the day counters (\<^verbatim>\<open>day-counters.ts\<close>), the
  ledger in Postgres (\<^verbatim>\<open>spend-ledger.ts\<close>: the statements that change it, and the reads the
  booking needs) and the ingest that moves a call's records into them
  (\<^verbatim>\<open>services/spend-ingest.ts\<close>). Redis hashes and keys are maps, told apart by what their keys
  name; the end of a key's time to live is not a step here. A write that may throw takes its
  outcome as an argument.
\<close>

section \<open>The state of a call\<close>

record CallMeta =
  cm_agentId :: agent_id
  cm_payer :: agent_id
  cm_ownerSub :: user_sub
  cm_connectionId :: "string option"
  cm_providers :: "string list"
  cm_sessionId :: "string option"
  cm_routerCallId :: "string option"
  cm_startedAt :: time_ms

record CallHash =
  ch_meta :: "CallMeta option"
  ch_row :: "SpendRow option"
  ch_amounts :: CallAmounts
  ch_final :: bool
  ch_seen :: "time_ms option"

definition empty_hash :: CallHash where
  "empty_hash = \<lparr>ch_meta = None, ch_row = None, ch_amounts = zero_amounts, ch_final = False, ch_seen = None\<rparr>"

record AppliedCall =
  ac_row :: SpendRow
  ac_previous :: CallAmounts
  ac_previousFinal :: bool

record CallState =
  cs_meta :: "CallMeta option"
  cs_row :: "SpendRow option"
  cs_amounts :: CallAmounts
  cs_final :: bool

text \<open>A row of \<^verbatim>\<open>spend_daily\<close> and one of \<^verbatim>\<open>spend_calls\<close>.\<close>

record DailyRow =
  dr_row :: SpendRow
  dr_amounts :: CallAmounts
  dr_refusedCalls :: int
  dr_maxCallCostMicros :: int

record SettledCall =
  sc_callId :: string
  sc_routerCallId :: string
  sc_callingAgentId :: agent_id
  sc_ownerSub :: user_sub
  sc_payer :: agent_id
  sc_sessionId :: string
  sc_stampedSessionId :: string
  sc_connectionId :: string
  sc_providerTemplate :: string
  sc_model :: string
  sc_startedAt :: time_ms
  sc_unit :: SpendUnit
  sc_costMicros :: int
  sc_uncachedInputTokens :: int
  sc_outputTokens :: int
  sc_cacheReadTokens :: int
  sc_cacheWrite5mTokens :: int
  sc_cacheWrite1hTokens :: int
  sc_webSearches :: int
  sc_durationMs :: int
  sc_estimated :: bool

text \<open>The domain events that the spend services emit.\<close>

datatype WorkChannel = Slack | Telegram

datatype SpendStoppedWork =
    ScheduleWork
  | AmbientWork WorkChannel
  | MentionWork WorkChannel
  | CallWork agent_id "string option"

datatype SpendEvent =
    GatewayCallEnded agent_id "string list" "nat option" bool time_ms agent_id "string option"
  | SpendWorkStopped user_sub agent_id utc_day SpendStop SpendStoppedWork

record SpendState =
  ss_calls :: "string \<Rightarrow> CallHash option"
  ss_inflight :: "(string \<times> time_ms) list"
  ss_agentCalls :: "agent_id \<Rightarrow> string set"
  ss_counters :: "DayCounter \<Rightarrow> int option"
  ss_daily :: "DailyRow table"
  ss_settled :: "SettledCall table"
  ss_events :: "SpendEvent list"

definition CALL_TTL_SECONDS :: int where "CALL_TTL_SECONDS = 2 * 60 * 60"
definition OPEN_CALL_SILENCE_MS :: int where "OPEN_CALL_SILENCE_MS = 10000"

definition hash_of :: "SpendState \<Rightarrow> string \<Rightarrow> CallHash" where
  "hash_of st callId = (case ss_calls st callId of None \<Rightarrow> empty_hash | Some h \<Rightarrow> h)"

definition put_hash :: "string \<Rightarrow> CallHash \<Rightarrow> SpendState \<Rightarrow> SpendState" where
  "put_hash callId h st = st\<lparr>ss_calls := (ss_calls st)(callId := Some h)\<rparr>"

definition zset_add :: "string \<Rightarrow> time_ms \<Rightarrow> (string \<times> time_ms) list \<Rightarrow> (string \<times> time_ms) list" where
  "zset_add member score z = filter (\<lambda>(m, _). m \<noteq> member) z @ [(member, score)]"

definition zset_rem :: "string \<Rightarrow> (string \<times> time_ms) list \<Rightarrow> (string \<times> time_ms) list" where
  "zset_rem member z = filter (\<lambda>(m, _). m \<noteq> member) z"

definition agent_add :: "agent_id \<Rightarrow> string \<Rightarrow> SpendState \<Rightarrow> SpendState" where
  "agent_add agentId callId st =
     st\<lparr>ss_agentCalls := (ss_agentCalls st)(agentId := insert callId (ss_agentCalls st agentId))\<rparr>"

definition agent_rem :: "agent_id option \<Rightarrow> string \<Rightarrow> SpendState \<Rightarrow> SpendState" where
  "agent_rem agentId callId st =
     (case agentId of
        None \<Rightarrow> st
      | Some a \<Rightarrow> if a = [] then st else st\<lparr>ss_agentCalls := (ss_agentCalls st)(a := ss_agentCalls st a - {callId})\<rparr>)"

definition calls_started :: "string \<Rightarrow> CallMeta \<Rightarrow> SpendState \<Rightarrow> SpendState" where
  "calls_started callId meta st =
     (let st1 = (if cm_agentId meta = [] then st else agent_add (cm_agentId meta) callId st)
      in (put_hash callId ((hash_of st1 callId)\<lparr>ch_meta := Some meta\<rparr>) st1)
           \<lparr>ss_inflight := zset_add callId (cm_startedAt meta) (ss_inflight st1)\<rparr>)"

text \<open>\<^verbatim>\<open>APPLY_SCRIPT\<close>: one atomic step; a record that is not final never follows a final one.\<close>

definition calls_apply ::
  "time_ms \<Rightarrow> string \<Rightarrow> SpendRow \<Rightarrow> CallAmounts \<Rightarrow> bool \<Rightarrow> SpendState \<Rightarrow> AppliedCall option \<times> SpendState" where
  "calls_apply now callId row amounts final st =
     (let h = hash_of st callId
      in if ch_final h \<and> \<not> final then (None, st)
         else let stored = (case ch_row h of None \<Rightarrow> row | Some r \<Rightarrow> r)
              in (Some \<lparr>ac_row = stored, ac_previous = ch_amounts h, ac_previousFinal = ch_final h\<rparr>,
                  put_hash callId (h\<lparr>ch_row := Some stored, ch_amounts := amounts, ch_final := (ch_final h \<or> final),
                                      ch_seen := Some now\<rparr>) st))"

definition calls_restore :: "string \<Rightarrow> AppliedCall \<Rightarrow> SpendState \<Rightarrow> SpendState" where
  "calls_restore callId applied st =
     put_hash callId ((hash_of st callId)\<lparr>ch_final := ac_previousFinal applied, ch_amounts := ac_previous applied\<rparr>) st"

text \<open>What \<^verbatim>\<open>read\<close> makes of the stored text: an empty field is absent, and providers are joined by commas.\<close>

definition read_meta :: "CallMeta \<Rightarrow> CallMeta option" where
  "read_meta meta =
     (if cm_payer meta = [] then None
      else Some (meta\<lparr>cm_connectionId := nonempty (cm_connectionId meta),
                      cm_providers := filter (\<lambda>p. p \<noteq> []) (split_char (CHR '','') (join_char (CHR '','') (cm_providers meta))),
                      cm_sessionId := nonempty (cm_sessionId meta),
                      cm_routerCallId := nonempty (cm_routerCallId meta)\<rparr>))"

definition calls_read :: "string \<Rightarrow> SpendState \<Rightarrow> CallState option" where
  "calls_read callId st =
     map_option (\<lambda>h. \<lparr>cs_meta = Option.bind (ch_meta h) read_meta, cs_row = ch_row h, cs_amounts = ch_amounts h,
                      cs_final = ch_final h\<rparr>) (ss_calls st callId)"

text \<open>\<^verbatim>\<open>ZRANGEBYSCORE\<close>: by score, and by the bytes of the member where scores are equal.\<close>

definition calls_overdue :: "time_ms \<Rightarrow> nat \<Rightarrow> SpendState \<Rightarrow> string list" where
  "calls_overdue startedBefore limit st =
     take limit (map fst (sort_key (\<lambda>(member, score). (score, member)) (filter (\<lambda>(_, score). 0 \<le> score \<and> score \<le> startedBefore) (ss_inflight st))))"

definition calls_release :: "string \<Rightarrow> agent_id option \<Rightarrow> SpendState \<Rightarrow> bool \<times> SpendState" where
  "calls_release callId agentId st =
     (callId \<in> fst ` set (ss_inflight st),
      agent_rem agentId callId (st\<lparr>ss_inflight := zset_rem callId (ss_inflight st)\<rparr>))"

definition calls_reclaim :: "string \<Rightarrow> SpendState \<Rightarrow> SpendState" where
  "calls_reclaim callId st =
     st\<lparr>ss_inflight := zset_add callId
          (case Option.bind (ss_calls st callId) ch_meta of None \<Rightarrow> 0 | Some meta \<Rightarrow> cm_startedAt meta) (ss_inflight st)\<rparr>"

definition calls_forget :: "string \<Rightarrow> agent_id option \<Rightarrow> SpendState \<Rightarrow> SpendState" where
  "calls_forget callId agentId st =
     agent_rem agentId callId
       (st\<lparr>ss_inflight := zset_rem callId (ss_inflight st), ss_calls := (ss_calls st)(callId := None)\<rparr>)"

definition calls_rebook :: "string \<Rightarrow> string \<Rightarrow> SpendState \<Rightarrow> SpendState" where
  "calls_rebook callId sessionId st =
     (case ss_calls st callId of
        Some h \<Rightarrow>
          (case ch_row h of
             Some r \<Rightarrow> if sr_sessionId r = [] then put_hash callId (h\<lparr>ch_row := Some (r\<lparr>sr_sessionId := sessionId\<rparr>)\<rparr>) st else st
           | None \<Rightarrow> st)
      | None \<Rightarrow> st)"

definition calls_heard :: "time_ms \<Rightarrow> string \<Rightarrow> SpendState \<Rightarrow> SpendState" where
  "calls_heard now callId st =
     (case ss_calls st callId of None \<Rightarrow> st | Some h \<Rightarrow> put_hash callId (h\<lparr>ch_seen := Some now\<rparr>) st)"

definition call_is_open :: "time_ms \<Rightarrow> SpendState \<Rightarrow> string \<Rightarrow> bool" where
  "call_is_open now st callId \<longleftrightarrow>
     (case ss_calls st callId of
        None \<Rightarrow> False
      | Some h \<Rightarrow>
          (case (case ch_seen h of Some seen \<Rightarrow> Some seen | None \<Rightarrow> map_option cm_startedAt (ch_meta h)) of
             None \<Rightarrow> False | Some heard \<Rightarrow> now - OPEN_CALL_SILENCE_MS \<le> heard))"

definition calls_openCount :: "time_ms \<Rightarrow> agent_id \<Rightarrow> SpendState \<Rightarrow> nat \<times> SpendState" where
  "calls_openCount now agentId st =
     (let members = ss_agentCalls st agentId; inflight = {c \<in> members. c \<in> fst ` set (ss_inflight st)}
      in (card {c \<in> inflight. call_is_open now st c},
          st\<lparr>ss_agentCalls := (ss_agentCalls st)(agentId := inflight)\<rparr>))"


section \<open>Day counters\<close>

definition counters_read :: "DayCounter \<Rightarrow> SpendState \<Rightarrow> int option" where
  "counters_read counter st = ss_counters st counter"

definition counters_addIfPresent :: "DayCounter \<Rightarrow> int \<Rightarrow> SpendState \<Rightarrow> bool \<times> SpendState" where
  "counters_addIfPresent counter deltaMicros st =
     (case ss_counters st counter of
        None \<Rightarrow> (False, st)
      | Some v \<Rightarrow> (True, st\<lparr>ss_counters := (ss_counters st)(counter := Some (v + deltaMicros))\<rparr>))"

definition counters_setIfMissing :: "DayCounter \<Rightarrow> int \<Rightarrow> SpendState \<Rightarrow> SpendState" where
  "counters_setIfMissing counter totalMicros st =
     (case ss_counters st counter of
        None \<Rightarrow> st\<lparr>ss_counters := (ss_counters st)(counter := Some totalMicros)\<rparr>
      | Some _ \<Rightarrow> st)"

definition counters_drop :: "DayCounter \<Rightarrow> SpendState \<Rightarrow> SpendState" where
  "counters_drop counter st = st\<lparr>ss_counters := (ss_counters st)(counter := None)\<rparr>"


section \<open>The ledger\<close>

type_synonym daily_key = "utc_day \<times> agent_id \<times> string \<times> string \<times> string \<times> agent_id"

text \<open>The primary key of \<^verbatim>\<open>spend_daily\<close>; the owner, the provider and the unit are not in it.\<close>

definition row_key :: "SpendRow \<Rightarrow> daily_key" where
  "row_key r = (sr_day r, sr_payer r, sr_connectionId r, sr_model r, sr_sessionId r, sr_callingAgentId r)"

definition daily_upsert :: "SpendRow \<Rightarrow> (DailyRow \<Rightarrow> DailyRow) \<Rightarrow> DailyRow table \<Rightarrow> DailyRow table" where
  "daily_upsert row f t =
     (if \<exists>r \<in> set t. row_key (dr_row r) = row_key row
      then update_where (\<lambda>r. row_key (dr_row r) = row_key row) f t
      else t @ [f \<lparr>dr_row = row, dr_amounts = zero_amounts, dr_refusedCalls = 0, dr_maxCallCostMicros = 0\<rparr>])"

definition ledger_add :: "SpendRow \<Rightarrow> CallAmounts \<Rightarrow> int \<Rightarrow> DailyRow table \<Rightarrow> DailyRow table" where
  "ledger_add row delta callCost t =
     (if \<exists>r \<in> set t. row_key (dr_row r) = row_key row
      then update_where (\<lambda>r. row_key (dr_row r) = row_key row)
             (\<lambda>r. r\<lparr>dr_amounts := zip_amounts (+) (dr_amounts r) delta,
                     dr_maxCallCostMicros := max (dr_maxCallCostMicros r) callCost\<rparr>) t
      else t @ [\<lparr>dr_row = row, dr_amounts = delta, dr_refusedCalls = 0, dr_maxCallCostMicros = callCost\<rparr>])"

definition ledger_addRefusal :: "SpendRow \<Rightarrow> DailyRow table \<Rightarrow> DailyRow table" where
  "ledger_addRefusal row t = daily_upsert row (\<lambda>r. r\<lparr>dr_refusedCalls := dr_refusedCalls r + 1\<rparr>) t"

fun counts_row :: "DayCounter \<Rightarrow> SpendRow \<Rightarrow> bool" where
  "counts_row (AgentCounter day agentId unit) r \<longleftrightarrow> sr_day r = day \<and> sr_payer r = agentId \<and> sr_unit r = unit"
| "counts_row (OwnerCounter day ownerSub unit) r \<longleftrightarrow> sr_day r = day \<and> sr_ownerSub r = ownerSub \<and> sr_unit r = unit"
| "counts_row (ConnectionCounter day agentId connectionId) r \<longleftrightarrow>
     sr_day r = day \<and> sr_payer r = agentId \<and> sr_connectionId r = connectionId"
| "counts_row (OwnerConnectionCounter day ownerSub connectionId) r \<longleftrightarrow>
     sr_day r = day \<and> sr_ownerSub r = ownerSub \<and> sr_connectionId r = connectionId"

definition ledger_total :: "DailyRow table \<Rightarrow> DayCounter \<Rightarrow> int" where
  "ledger_total t counter = sum_list (map (\<lambda>r. am_costMicros (dr_amounts r)) (filter (\<lambda>r. counts_row counter (dr_row r)) t))"

definition highestCall :: "DailyRow table \<Rightarrow> agent_id \<Rightarrow> string \<Rightarrow> utc_day \<Rightarrow> utc_day \<Rightarrow> int option" where
  "highestCall t payer connectionId fromDay toDay =
     (case map dr_maxCallCostMicros
             (filter (\<lambda>r. sr_payer (dr_row r) = payer \<and> sr_connectionId (dr_row r) = connectionId
                        \<and> fromDay \<le> sr_day (dr_row r) \<and> sr_day (dr_row r) \<le> toDay) t) of
        [] \<Rightarrow> None | v # vs \<Rightarrow> Some (foldl max v vs))"

text \<open>An upsert by calling agent and call; a session that is booked is kept.\<close>

definition same_call :: "SettledCall \<Rightarrow> SettledCall \<Rightarrow> bool" where
  "same_call a b \<longleftrightarrow> sc_callId a = sc_callId b \<and> sc_callingAgentId a = sc_callingAgentId b"

definition ledger_putCall :: "SettledCall \<Rightarrow> SettledCall table \<Rightarrow> SettledCall table" where
  "ledger_putCall call t =
     (if \<exists>c \<in> set t. same_call c call
      then update_where (\<lambda>c. same_call c call)
             (\<lambda>c. if sc_sessionId c \<noteq> [] then call\<lparr>sc_sessionId := sc_sessionId c\<rparr> else call) t
      else t @ [call])"

definition ledger_deleteCallsBefore :: "time_ms \<Rightarrow> SettledCall table \<Rightarrow> nat \<times> SettledCall table" where
  "ledger_deleteCallsBefore before t =
     (length (filter (\<lambda>c. sc_startedAt c < before) t), delete_where (\<lambda>c. sc_startedAt c < before) t)"

section \<open>The ingest\<close>

text \<open>
  The outcomes of the writes that may throw. A counter write that throws is followed by a drop of
  the counter, whose own failure is swallowed; a ledger write that throws is followed by a restore
  of the call's state, whose own failure is swallowed too.
\<close>

datatype LedgerOutcome = LedgerWritten | LedgerFailed | LedgerAndRestoreFailed
datatype CounterOutcome = CounterWritten | CounterFailed | CounterAndDropFailed

record IngestFaults =
  if_ledger :: LedgerOutcome
  if_counter :: "DayCounter \<Rightarrow> CounterOutcome"
  if_release :: bool \<comment> \<open>releasing a settled call throws\<close>
  if_putCall :: bool \<comment> \<open>writing the call row throws, which is caught\<close>

definition no_faults :: IngestFaults where
  "no_faults = \<lparr>if_ledger = LedgerWritten, if_counter = \<lambda>_. CounterWritten, if_release = False, if_putCall = False\<rparr>"

record IngestDeps =
  in_measure :: MeasureDeps
  in_ownerOf :: "agent_id \<Rightarrow> user_sub option"
  in_hasSession :: "agent_id \<Rightarrow> string \<Rightarrow> bool option" \<comment> \<open>None: the check throws\<close>

datatype SpendError = LedgerWriteFailed | CallReleaseFailed

record SettledAt =
  sa_startedAt :: time_ms
  sa_routerCallId :: "string option"
  sa_sessionId :: "string option"

definition NO_SESSION :: string where "NO_SESSION = []"
definition UNRECORDED_AFTER_MS :: int where "UNRECORDED_AFTER_MS = 60 * 60 * 1000"
definition UNRECORDED_BATCH :: nat where "UNRECORDED_BATCH = 500"
definition STAMPED_BOOKING_WINDOW_MS :: int where "STAMPED_BOOKING_WINDOW_MS = 2 * 24 * 60 * 60 * 1000"
definition STAMPED_BOOKING_BATCH :: nat where "STAMPED_BOOKING_BATCH = 200"
definition REFERENCE_DAYS :: int where "REFERENCE_DAYS = 7"

definition checkedSession :: "(agent_id \<Rightarrow> string \<Rightarrow> bool option) \<Rightarrow> agent_id \<Rightarrow> string option \<Rightarrow> string" where
  "checkedSession has agentId sessionId =
     (case nonempty sessionId of
        None \<Rightarrow> NO_SESSION
      | Some s \<Rightarrow> if agentId \<noteq> [] \<and> has agentId s = Some True then s else NO_SESSION)"

definition count_one :: "IngestFaults \<Rightarrow> int \<Rightarrow> DayCounter \<Rightarrow> SpendState \<Rightarrow> SpendState" where
  "count_one faults deltaMicros counter st =
     (case if_counter faults counter of
        CounterWritten \<Rightarrow>
          (case counters_addIfPresent counter deltaMicros st of
             (True, st1) \<Rightarrow> st1
           | (False, st1) \<Rightarrow> counters_setIfMissing counter (ledger_total (ss_daily st1) counter) st1)
      | CounterFailed \<Rightarrow> counters_drop counter st
      | CounterAndDropFailed \<Rightarrow> st)"

definition countDay :: "IngestFaults \<Rightarrow> SpendRow \<Rightarrow> int \<Rightarrow> SpendState \<Rightarrow> SpendState" where
  "countDay faults row deltaMicros st = fold (count_one faults deltaMicros) (dayCountersOf row) st"

definition settled_call :: "string \<Rightarrow> SpendRow \<Rightarrow> CallAmounts \<Rightarrow> SettledAt \<Rightarrow> SettledCall" where
  "settled_call callId row amounts call =
     \<lparr>sc_callId = callId,
      sc_routerCallId = (case sa_routerCallId call of None \<Rightarrow> [] | Some r \<Rightarrow> r),
      sc_callingAgentId = sr_callingAgentId row, sc_ownerSub = sr_ownerSub row, sc_payer = sr_payer row,
      sc_sessionId = sr_sessionId row,
      sc_stampedSessionId =
        (if sr_sessionId row = NO_SESSION then (case sa_sessionId call of None \<Rightarrow> [] | Some s \<Rightarrow> s) else []),
      sc_connectionId = sr_connectionId row, sc_providerTemplate = sr_provider row, sc_model = sr_model row,
      sc_startedAt = sa_startedAt call, sc_unit = sr_unit row, sc_costMicros = am_costMicros amounts,
      sc_uncachedInputTokens = am_uncachedInputTokens amounts, sc_outputTokens = am_outputTokens amounts,
      sc_cacheReadTokens = am_cacheReadTokens amounts, sc_cacheWrite5mTokens = am_cacheWrite5mTokens amounts,
      sc_cacheWrite1hTokens = am_cacheWrite1hTokens amounts, sc_webSearches = am_webSearches amounts,
      sc_durationMs = am_durationMs amounts, sc_estimated = (am_estimatedCalls amounts > 0)\<rparr>"

definition ingest_putCall ::
  "IngestFaults \<Rightarrow> string \<Rightarrow> SpendRow \<Rightarrow> CallAmounts \<Rightarrow> SettledAt \<Rightarrow> SpendState \<Rightarrow> SpendState" where
  "ingest_putCall faults callId row amounts call st =
     (if if_putCall faults then st
      else st\<lparr>ss_settled := ledger_putCall (settled_call callId row amounts call) (ss_settled st)\<rparr>)"

text \<open>The part of \<^verbatim>\<open>settle\<close> that books the difference to what the call has booked so far.\<close>

definition book_delta ::
  "IngestFaults \<Rightarrow> string \<Rightarrow> AppliedCall \<Rightarrow> CallAmounts \<Rightarrow> SpendState \<Rightarrow> bool \<times> SpendState" where
  "book_delta faults callId applied amounts st =
     (let delta = amountsDelta amounts (ac_previous applied)
      in if isZero delta then (True, st)
         else case if_ledger faults of
                LedgerWritten \<Rightarrow>
                  let st1 = st\<lparr>ss_daily := ledger_add (ac_row applied) delta (am_costMicros amounts) (ss_daily st)\<rparr>
                  in (True, if am_costMicros delta \<noteq> 0 then countDay faults (ac_row applied) (am_costMicros delta) st1 else st1)
              | LedgerFailed \<Rightarrow> (False, calls_restore callId applied st)
              | LedgerAndRestoreFailed \<Rightarrow> (False, st))"

definition settle ::
  "time_ms \<Rightarrow> IngestFaults \<Rightarrow> string \<Rightarrow> SpendRow \<Rightarrow> CallAmounts \<Rightarrow> bool \<Rightarrow> SettledAt \<Rightarrow> SpendState
   \<Rightarrow> (SpendError + bool) \<times> SpendState" where
  "settle now faults callId row amounts final call st =
     (case calls_apply now callId row amounts final st of
        (None, st1) \<Rightarrow> (Inr False, st1)
      | (Some applied, st1) \<Rightarrow>
          (case book_delta faults callId applied amounts st1 of
             (False, st2) \<Rightarrow> (Inl LedgerWriteFailed, st2)
           | (True, st2) \<Rightarrow>
               if \<not> final then (Inr False, st2)
               else if if_release faults then (Inl CallReleaseFailed, st2)
               else (Inr (\<not> ac_previousFinal applied),
                     ingest_putCall faults callId (ac_row applied) amounts call
                       (snd (calls_release callId (Some (sr_callingAgentId (ac_row applied))) st2)))))"

definition referenceCost :: "DailyRow table \<Rightarrow> SpendRow \<Rightarrow> int" where
  "referenceCost t row =
     (let highestFrom = (\<lambda>fromDay. highestCall t (sr_payer row) (sr_connectionId row) fromDay (sr_day row))
      in case highestFrom (sr_day row) of
           Some highest \<Rightarrow> highest
         | None \<Rightarrow> or_zero (highestFrom (daysBefore (sr_day row) (REFERENCE_DAYS - 1))))"

definition record_owner :: "IngestDeps \<Rightarrow> CallRecord \<Rightarrow> SpendState \<Rightarrow> user_sub option" where
  "record_owner deps r st =
     (case in_ownerOf deps (cr_payer r) of
        Some sub \<Rightarrow> Some sub
      | None \<Rightarrow>
          (case Option.bind (calls_read (cr_callId r) st) cs_meta of
             Some meta \<Rightarrow> Some (cm_ownerSub meta)
           | None \<Rightarrow> in_ownerOf deps (cr_agentId r)))"

definition unknown_or :: "string \<Rightarrow> string option \<Rightarrow> string" where
  "unknown_or unknown s = (case s of None \<Rightarrow> unknown | Some t \<Rightarrow> t)"

text \<open>The call of a state that was released without a final record.\<close>

definition unrecorded_row :: "IngestDeps \<Rightarrow> CallMeta \<Rightarrow> SpendRow" where
  "unrecorded_row deps meta =
     (let provider = fst (payingProvider (md_collate (in_measure deps)) (cm_providers meta))
      in \<lparr>sr_day = utcDay (cm_startedAt meta), sr_payer = cm_payer meta, sr_ownerSub = cm_ownerSub meta,
          sr_connectionId = unknown_or UNKNOWN_CONNECTION (cm_connectionId meta), sr_model = UNKNOWN_MODEL,
          sr_sessionId = checkedSession (in_hasSession deps) (cm_agentId meta) (cm_sessionId meta),
          sr_callingAgentId = cm_agentId meta, sr_provider = provider, sr_unit = unitOf provider\<rparr>)"

definition settleReleased ::
  "IngestDeps \<Rightarrow> time_ms \<Rightarrow> IngestFaults \<Rightarrow> string \<Rightarrow> SpendState \<Rightarrow> (SpendError + bool) \<times> SpendState" where
  "settleReleased deps now faults callId st =
     (case calls_read callId st of
        None \<Rightarrow> (Inr False, st)
      | Some state \<Rightarrow>
          if cs_final state then (Inr False, st)
          else
            (case cs_row state of
               Some row \<Rightarrow>
                 settle now faults callId row ((cs_amounts state)\<lparr>am_estimatedCalls := 1\<rparr>) True
                   \<lparr>sa_startedAt = (case cs_meta state of None \<Rightarrow> sr_day row * 86400000 | Some meta \<Rightarrow> cm_startedAt meta),
                    sa_routerCallId = Option.bind (cs_meta state) cm_routerCallId,
                    sa_sessionId = Option.bind (cs_meta state) cm_sessionId\<rparr> st
             | None \<Rightarrow>
                 (case cs_meta state of
                    None \<Rightarrow> (Inr False, st)
                  | Some meta \<Rightarrow>
                      let row = unrecorded_row deps meta
                      in settle now faults callId row
                           (zero_amounts\<lparr>am_costMicros := referenceCost (ss_daily st) row, am_calls := 1, am_estimatedCalls := 1\<rparr>) True
                           \<lparr>sa_startedAt = cm_startedAt meta, sa_routerCallId = cm_routerCallId meta,
                            sa_sessionId = cm_sessionId meta\<rparr> st)))"

definition settleUnrecorded ::
  "IngestDeps \<Rightarrow> time_ms \<Rightarrow> IngestFaults \<Rightarrow> string \<Rightarrow> SpendState \<Rightarrow> SpendState" where
  "settleUnrecorded deps now faults callId st =
     (case calls_release callId None st of
        (False, st1) \<Rightarrow> st1
      | (True, st1) \<Rightarrow>
          (case settleReleased deps now faults callId st1 of
             (Inl _, st2) \<Rightarrow> calls_reclaim callId st2
           | (Inr _, st2) \<Rightarrow> st2))"

definition settleUnrecordedCalls ::
  "IngestDeps \<Rightarrow> time_ms \<Rightarrow> (string \<Rightarrow> IngestFaults) \<Rightarrow> SpendState \<Rightarrow> SpendState" where
  "settleUnrecordedCalls deps now faults st =
     fold (\<lambda>callId. settleUnrecorded deps now (faults callId) callId)
       (calls_overdue (now - UNRECORDED_AFTER_MS) UNRECORDED_BATCH st) st"

text \<open>A start that Redis does not take is only logged.\<close>

definition callStarted :: "bool \<Rightarrow> string \<Rightarrow> CallMeta \<Rightarrow> SpendState \<Rightarrow> SpendState" where
  "callStarted fails callId meta st = (if fails then st else calls_started callId meta st)"

definition record_row :: "IngestDeps \<Rightarrow> CallRecord \<Rightarrow> MeasuredCall \<Rightarrow> user_sub \<Rightarrow> SpendRow" where
  "record_row deps r measured ownerSub =
     \<lparr>sr_day = utcDay (cr_startedAt r), sr_payer = cr_payer r, sr_ownerSub = ownerSub,
      sr_connectionId = unknown_or UNKNOWN_CONNECTION (cr_connectionId r), sr_model = mc_model measured,
      sr_sessionId = checkedSession (in_hasSession deps) (cr_agentId r) (cr_sessionId r),
      sr_callingAgentId = cr_agentId r, sr_provider = mc_provider measured, sr_unit = mc_unit measured\<rparr>"

definition call_ended :: "CallRecord \<Rightarrow> SpendState \<Rightarrow> SpendState" where
  "call_ended r st =
     (if cr_final r
      then st\<lparr>ss_events := ss_events st @
             [GatewayCallEnded (cr_payer r) (cr_providers r) (cr_status r) (cr_refusedByGate r)
                (cr_startedAt r + cr_durationMs r) (cr_agentId r) (cr_sessionId r)]\<rparr>
      else st)"

definition ingest_record ::
  "IngestDeps \<Rightarrow> time_ms \<Rightarrow> IngestFaults \<Rightarrow> CallRecord \<Rightarrow> SpendState \<Rightarrow> (SpendError + unit) \<times> SpendState" where
  "ingest_record deps now faults r st =
     (let st1 = call_ended r st
      in case measureCall (in_measure deps) r of
           SkipRecord \<Rightarrow> (Inr (), calls_heard now (cr_callId r) st1)
         | ForgetCall \<Rightarrow> (Inr (), calls_forget (cr_callId r) (Some (cr_agentId r)) st1)
         | Measured measured \<Rightarrow>
             (case nonempty (record_owner deps r st1) of
                None \<Rightarrow> (Inr (), st1)
              | Some ownerSub \<Rightarrow>
                  let row = record_row deps r measured ownerSub;
                      amounts = (if mc_needsReferenceCost measured
                                 then (mc_amounts measured)\<lparr>am_costMicros := referenceCost (ss_daily st1) row\<rparr>
                                 else mc_amounts measured)
                  in (case settle now faults (cr_callId r) row amounts (cr_final r)
                             \<lparr>sa_startedAt = cr_startedAt r, sa_routerCallId = cr_routerCallId r, sa_sessionId = cr_sessionId r\<rparr> st1 of
                        (Inl e, st2) \<Rightarrow> (Inl e, st2)
                      | (Inr _, st2) \<Rightarrow> (Inr (), st2))))"

section \<open>Booking calls late\<close>

text \<open>The order of the database on text: \<open>collate\<close> gives each text its place.\<close>

definition stamp_key :: "SettledCall \<Rightarrow> string \<times> string" where
  "stamp_key c = (sc_callingAgentId c, sc_stampedSessionId c)"

definition stamp_place :: "(string \<Rightarrow> nat) \<Rightarrow> string \<times> string \<Rightarrow> nat \<times> nat" where
  "stamp_place collate stamp = (collate (fst stamp), collate (snd stamp))"

definition is_unbooked :: "time_ms \<Rightarrow> SettledCall \<Rightarrow> bool" where
  "is_unbooked since c \<longleftrightarrow> sc_sessionId c = [] \<and> sc_stampedSessionId c \<noteq> [] \<and> since \<le> sc_startedAt c"

definition is_after :: "(string \<Rightarrow> nat) \<Rightarrow> (string \<times> string) option \<Rightarrow> string \<times> string \<Rightarrow> bool" where
  "is_after collate after stamp \<longleftrightarrow>
     (case after of None \<Rightarrow> True | Some a \<Rightarrow> stamp_place collate a < stamp_place collate stamp)"

definition unbookedStamps ::
  "(string \<Rightarrow> nat) \<Rightarrow> SettledCall table \<Rightarrow> time_ms \<Rightarrow> (string \<times> string) option \<Rightarrow> nat \<Rightarrow> (string \<times> string) list" where
  "unbookedStamps collate t since after limit =
     take limit (sort_key (stamp_place collate)
       (remdups (filter (is_after collate after) (map stamp_key (filter (is_unbooked since) t)))))"

text \<open>The rows of \<^verbatim>\<open>per_row\<close>: the moved calls of one day, payer, connection, model, owner, provider and unit.\<close>

definition call_amounts :: "SettledCall \<Rightarrow> CallAmounts" where
  "call_amounts c =
     \<lparr>am_costMicros = sc_costMicros c, am_uncachedInputTokens = sc_uncachedInputTokens c,
      am_outputTokens = sc_outputTokens c, am_cacheReadTokens = sc_cacheReadTokens c,
      am_cacheWrite5mTokens = sc_cacheWrite5mTokens c, am_cacheWrite1hTokens = sc_cacheWrite1hTokens c,
      am_webSearches = sc_webSearches c, am_calls = 1,
      am_estimatedCalls = (if sc_estimated c then 1 else 0), am_durationMs = sc_durationMs c\<rparr>"

definition daily_row_of :: "string \<Rightarrow> SettledCall \<Rightarrow> SpendRow" where
  "daily_row_of sessionId c =
     \<lparr>sr_day = utcDay (sc_startedAt c), sr_payer = sc_payer c, sr_ownerSub = sc_ownerSub c,
      sr_connectionId = sc_connectionId c, sr_model = sc_model c, sr_sessionId = sessionId,
      sr_callingAgentId = sc_callingAgentId c, sr_provider = sc_providerTemplate c, sr_unit = sc_unit c\<rparr>"

definition sum_amounts :: "CallAmounts list \<Rightarrow> CallAmounts" where
  "sum_amounts as = foldr (zip_amounts (+)) as zero_amounts"

definition per_row :: "string \<Rightarrow> SettledCall list \<Rightarrow> (SpendRow \<times> SettledCall list) list" where
  "per_row sessionId moved =
     map (\<lambda>row. (row, filter (\<lambda>c. daily_row_of sessionId c = row) moved)) (remdups (map (daily_row_of sessionId) moved))"

definition group_amounts :: "SpendRow \<times> SettledCall list \<Rightarrow> CallAmounts" where
  "group_amounts g = sum_amounts (map call_amounts (snd g))"

definition group_max :: "SpendRow \<times> SettledCall list \<Rightarrow> int" where
  "group_max g = foldr (\<lambda>c m. max (sc_costMicros c) m) (tl (snd g)) (sc_costMicros (hd (snd g)))"

definition take_group :: "DailyRow table \<Rightarrow> SpendRow \<times> SettledCall list \<Rightarrow> DailyRow table" where
  "take_group t g =
     update_where (\<lambda>d. row_key (dr_row d) = row_key ((fst g)\<lparr>sr_sessionId := []\<rparr>))
       (\<lambda>d. d\<lparr>dr_amounts := zip_amounts (-) (dr_amounts d) (group_amounts g)\<rparr>) t"

definition add_group :: "DailyRow table \<Rightarrow> SpendRow \<times> SettledCall list \<Rightarrow> DailyRow table" where
  "add_group t g = ledger_add (fst g) (group_amounts g) (group_max g) t"

definition is_moved :: "agent_id \<Rightarrow> string \<Rightarrow> time_ms \<Rightarrow> SettledCall \<Rightarrow> bool" where
  "is_moved callingAgentId sessionId since c \<longleftrightarrow>
     sc_callingAgentId c = callingAgentId \<and> sc_sessionId c = [] \<and> sc_stampedSessionId c = sessionId \<and> since \<le> sc_startedAt c"

text \<open>
  One transaction. Two groups with one key of \<^verbatim>\<open>spend_daily\<close> make its insert fail, since a
  conflict update may not meet a row twice; nothing is changed then (None).
\<close>

definition bookCalls ::
  "agent_id \<Rightarrow> string \<Rightarrow> time_ms \<Rightarrow> SpendState \<Rightarrow> string list option \<times> SpendState" where
  "bookCalls callingAgentId sessionId since st =
     (let moved = filter (is_moved callingAgentId sessionId since) (ss_settled st);
          groups = per_row sessionId moved
      in if \<not> distinct (map (row_key \<circ> fst) groups) then (None, st)
         else (Some (map sc_callId moved),
               st\<lparr>ss_settled := update_where (is_moved callingAgentId sessionId since) (\<lambda>c. c\<lparr>sc_sessionId := sessionId\<rparr>) (ss_settled st),
                  ss_daily := delete_where
                    (\<lambda>d. sr_sessionId (dr_row d) = [] \<and> sr_callingAgentId (dr_row d) = callingAgentId
                        \<and> am_calls (dr_amounts d) = 0 \<and> dr_refusedCalls d = 0)
                    (foldl add_group (foldl take_group (ss_daily st) groups) groups)\<rparr>))"

text \<open>\<open>fails\<close>: the database is not reached for this stamp.\<close>

definition bookStamp ::
  "IngestDeps \<Rightarrow> (string \<times> string \<Rightarrow> bool) \<Rightarrow> time_ms \<Rightarrow> string \<times> string \<Rightarrow> SpendState \<Rightarrow> SpendState" where
  "bookStamp deps fails since stamp st =
     (if checkedSession (in_hasSession deps) (fst stamp) (Some (snd stamp)) = NO_SESSION then st
      else if fails stamp then st
      else case bookCalls (fst stamp) (snd stamp) since st of
             (None, st1) \<Rightarrow> st1
           | (Some moved, st1) \<Rightarrow> fold (\<lambda>callId. calls_rebook callId (snd stamp)) moved st1)"

lemma ss_settled_rebook [simp]: "ss_settled (calls_rebook callId s st) = ss_settled st"
  by (simp add: calls_rebook_def put_hash_def split: option.splits)

lemma ss_settled_rebooks [simp]: "ss_settled (fold (\<lambda>callId. calls_rebook callId s) ids st) = ss_settled st"
  by (induction ids arbitrary: st) simp_all

lemma stamp_keys_bookStamp [simp]: "map stamp_key (ss_settled (bookStamp deps fails since stamp st)) = map stamp_key (ss_settled st)"
  by (simp add: bookStamp_def bookCalls_def Let_def stamp_key_def update_where_def)

lemma stamp_keys_bookStamps [simp]:
  "map stamp_key (ss_settled (fold (bookStamp deps fails since) stamps st)) = map stamp_key (ss_settled st)"
  by (induction stamps arbitrary: st) simp_all

text \<open>
  The loop over the pages. It ends: each page starts after the last stamp of the page before, and
  booking adds no call, so fewer calls are left after the cursor.
\<close>

definition left_after :: "(string \<Rightarrow> nat) \<Rightarrow> (string \<times> string) option \<Rightarrow> SettledCall table \<Rightarrow> nat" where
  "left_after collate after t = length (filter (is_after collate after) (map stamp_key t))"

lemma left_after_decreases:
  assumes "stamp \<in> set (unbookedStamps collate t since after limit)"
  shows "left_after collate (Some stamp) t < left_after collate after t"
proof -
  have "stamp \<in> set (map stamp_key t)" "is_after collate after stamp"
    using assms by (auto simp: unbookedStamps_def dest!: in_set_takeD)
  moreover have "\<not> is_after collate (Some stamp) stamp" by (simp add: is_after_def)
  moreover have mono: "is_after collate after s" if "is_after collate (Some stamp) s" for s
    using that \<open>is_after collate after stamp\<close> by (auto simp: is_after_def split: option.splits)
  ultimately have "length (filter (is_after collate (Some stamp)) (filter (is_after collate after) (map stamp_key t)))
                   < length (filter (is_after collate after) (map stamp_key t))"
    by (intro length_filter_less [of stamp]) simp_all
  moreover have "filter (is_after collate (Some stamp)) (filter (is_after collate after) (map stamp_key t))
                 = filter (is_after collate (Some stamp)) (map stamp_key t)"
    using mono by (auto simp: filter_filter intro: filter_cong)
  ultimately show ?thesis unfolding left_after_def by metis
qed

function book_pages ::
  "IngestDeps \<Rightarrow> (string \<Rightarrow> nat) \<Rightarrow> (string \<times> string \<Rightarrow> bool) \<Rightarrow> time_ms \<Rightarrow> (string \<times> string) option \<Rightarrow> SpendState \<Rightarrow> SpendState" where
  "book_pages deps collate fails since after st =
     (let stamps = unbookedStamps collate (ss_settled st) since after STAMPED_BOOKING_BATCH;
          st1 = fold (bookStamp deps fails since) stamps st
      in if length stamps < STAMPED_BOOKING_BATCH then st1
         else book_pages deps collate fails since (Some (last stamps)) st1)"
  by pat_completeness auto
termination
proof (relation "measure (\<lambda>(_, collate, _, _, after, st). left_after collate after (ss_settled st))", simp, clarsimp simp: Let_def)
  fix deps :: IngestDeps and collate fails since after and st :: SpendState
  let ?stamps = "unbookedStamps collate (ss_settled st) since after STAMPED_BOOKING_BATCH"
  assume "\<not> length ?stamps < STAMPED_BOOKING_BATCH"
  then have "?stamps \<noteq> []" by (auto simp: STAMPED_BOOKING_BATCH_def)
  then have "left_after collate (Some (last ?stamps)) (ss_settled st) < left_after collate after (ss_settled st)"
    by (intro left_after_decreases [of _ _ _ since _ STAMPED_BOOKING_BATCH]) simp
  then show "left_after collate (Some (last ?stamps)) (ss_settled (fold (bookStamp deps fails since) ?stamps st))
             < left_after collate after (ss_settled st)"
    by (simp add: left_after_def)
qed

declare book_pages.simps [simp del]

definition bookStampedCalls ::
  "IngestDeps \<Rightarrow> (string \<Rightarrow> nat) \<Rightarrow> (string \<times> string \<Rightarrow> bool) \<Rightarrow> time_ms \<Rightarrow> SpendState \<Rightarrow> SpendState" where
  "bookStampedCalls deps collate fails now st =
     book_pages deps collate fails (now - STAMPED_BOOKING_WINDOW_MS) None st"

section \<open>What the ledger sums to\<close>

definition AMOUNT_FIELDS :: "(CallAmounts \<Rightarrow> int) list" where
  "AMOUNT_FIELDS =
     [am_costMicros, am_uncachedInputTokens, am_outputTokens, am_cacheReadTokens, am_cacheWrite5mTokens,
      am_cacheWrite1hTokens, am_webSearches, am_calls, am_estimatedCalls, am_durationMs]"

lemma field_zip_amounts: "f \<in> set AMOUNT_FIELDS \<Longrightarrow> f (zip_amounts g a b) = g (f a) (f b)"
  by (auto simp: AMOUNT_FIELDS_def zip_amounts_def)

lemma field_zero_amounts: "f \<in> set AMOUNT_FIELDS \<Longrightarrow> f zero_amounts = 0"
  by (auto simp: AMOUNT_FIELDS_def zero_amounts_def)

lemma field_amountsDelta: "f \<in> set AMOUNT_FIELDS \<Longrightarrow> f (amountsDelta a b) = f a - f b"
  by (simp add: amountsDelta_def field_zip_amounts)

lemma cost_is_field: "am_costMicros \<in> set AMOUNT_FIELDS"
  by (simp add: AMOUNT_FIELDS_def)

definition ledger_sum :: "(CallAmounts \<Rightarrow> int) \<Rightarrow> DailyRow table \<Rightarrow> int" where
  "ledger_sum f t = sum_list (map (f \<circ> dr_amounts) t)"

text \<open>The primary key of \<^verbatim>\<open>spend_daily\<close>.\<close>

definition daily_ok :: "DailyRow table \<Rightarrow> bool" where
  "daily_ok t \<longleftrightarrow> distinct (map (\<lambda>r. row_key (dr_row r)) t)"

lemma sum_update_where_unique:
  fixes h :: "'r \<Rightarrow> int"
  assumes "distinct (map k t)" and "x \<in> k ` set t" and "\<And>r. r \<in> set t \<Longrightarrow> k r = x \<Longrightarrow> h (g r) = h r + e"
  shows "sum_list (map h (update_where (\<lambda>r. k r = x) g t)) = sum_list (map h t) + e"
  using assms
proof (induction t)
  case (Cons r t)
  show ?case
  proof (cases "k r = x")
    case True
    then have "update_where (\<lambda>r. k r = x) g t = t" using Cons.prems(1) by (intro update_where_none) (auto simp: notin_image_iff)
    then show ?thesis using True Cons.prems(3) [of r] by simp
  next
    case False
    then show ?thesis using Cons by auto
  qed
qed simp

lemma ledger_add_sum:
  fixes h :: "DailyRow \<Rightarrow> int"
  assumes "daily_ok t"
    and "\<And>r. r \<in> set t \<Longrightarrow> row_key (dr_row r) = row_key row \<Longrightarrow>
           h (r\<lparr>dr_amounts := zip_amounts (+) (dr_amounts r) delta, dr_maxCallCostMicros := max (dr_maxCallCostMicros r) c\<rparr>) = h r + e"
    and "h \<lparr>dr_row = row, dr_amounts = delta, dr_refusedCalls = 0, dr_maxCallCostMicros = c\<rparr> = e"
  shows "sum_list (map h (ledger_add row delta c t)) = sum_list (map h t) + e"
proof (cases "\<exists>r \<in> set t. row_key (dr_row r) = row_key row")
  case True
  then have "row_key row \<in> (\<lambda>r. row_key (dr_row r)) ` set t" by force
  then show ?thesis using True assms
    by (simp add: ledger_add_def daily_ok_def sum_update_where_unique [where k = "\<lambda>r. row_key (dr_row r)"])
next
  case False
  then show ?thesis using assms(3) by (auto simp: ledger_add_def)
qed

lemma ledger_sum_add:
  assumes "daily_ok t" and "f \<in> set AMOUNT_FIELDS"
  shows "ledger_sum f (ledger_add row delta c t) = ledger_sum f t + f delta"
  unfolding ledger_sum_def using assms by (intro ledger_add_sum) (simp_all add: field_zip_amounts)

lemma daily_ok_ledger_add: "daily_ok t \<Longrightarrow> daily_ok (ledger_add row delta c t)"
  by (auto simp: daily_ok_def ledger_add_def map_update_where)

definition rows_agree :: "DailyRow table \<Rightarrow> SpendRow \<Rightarrow> bool" where
  "rows_agree t row \<longleftrightarrow>
     (\<forall>r \<in> set t. row_key (dr_row r) = row_key row \<longrightarrow> sr_ownerSub (dr_row r) = sr_ownerSub row \<and> sr_unit (dr_row r) = sr_unit row)"

lemma ledger_total_sum:
  "ledger_total t counter = sum_list (map (\<lambda>r. if counts_row counter (dr_row r) then am_costMicros (dr_amounts r) else 0) t)"
  unfolding ledger_total_def by (induction t) simp_all

lemma counts_row_cong:
  "row_key r = row_key row \<Longrightarrow> sr_ownerSub r = sr_ownerSub row \<Longrightarrow> sr_unit r = sr_unit row \<Longrightarrow>
   counts_row counter r = counts_row counter row"
  by (cases counter) (auto simp: row_key_def)

lemma ledger_total_add:
  assumes "daily_ok t" and "rows_agree t row"
  shows "ledger_total (ledger_add row delta c t) counter
         = ledger_total t counter + (if counts_row counter row then am_costMicros delta else 0)"
  unfolding ledger_total_sum
proof (rule ledger_add_sum [OF assms(1)])
  fix r assume "r \<in> set t" and "row_key (dr_row r) = row_key row"
  then have "counts_row counter (dr_row r) = counts_row counter row"
    using assms(2) by (intro counts_row_cong) (auto simp: rows_agree_def)
  then show "(if counts_row counter (dr_row (r\<lparr>dr_amounts := zip_amounts (+) (dr_amounts r) delta, dr_maxCallCostMicros := max (dr_maxCallCostMicros r) c\<rparr>))
      then am_costMicros (dr_amounts (r\<lparr>dr_amounts := zip_amounts (+) (dr_amounts r) delta, dr_maxCallCostMicros := max (dr_maxCallCostMicros r) c\<rparr>)) else 0)
     = (if counts_row counter (dr_row r) then am_costMicros (dr_amounts r) else 0) + (if counts_row counter row then am_costMicros delta else 0)"
    by (simp add: zip_amounts_def)
qed simp

lemma counts_row_iff: "counts_row counter row \<longleftrightarrow> counter \<in> set (dayCountersOf row)"
  by (cases counter) (auto simp: dayCountersOf_def)

section \<open>Booked once\<close>

definition booked :: "SpendState \<Rightarrow> string \<Rightarrow> CallAmounts" where
  "booked st callId = ch_amounts (hash_of st callId)"

lemma counter_ops_keep [simp]:
  "ss_daily (snd (counters_addIfPresent c d st)) = ss_daily st" "ss_calls (snd (counters_addIfPresent c d st)) = ss_calls st"
  "ss_daily (counters_setIfMissing c v st) = ss_daily st" "ss_calls (counters_setIfMissing c v st) = ss_calls st"
  "ss_daily (counters_drop c st) = ss_daily st" "ss_calls (counters_drop c st) = ss_calls st"
  by (simp_all add: counters_addIfPresent_def counters_setIfMissing_def counters_drop_def split: option.splits)

lemma count_one_keeps [simp]:
  "ss_daily (count_one faults d c st) = ss_daily st" "ss_calls (count_one faults d c st) = ss_calls st"
  by (simp_all add: count_one_def case_prod_beta split: CounterOutcome.splits bool.splits)

lemma countDay_keeps [simp]:
  "ss_daily (countDay faults row d st) = ss_daily st" "ss_calls (countDay faults row d st) = ss_calls st"
  by (simp_all add: countDay_def dayCountersOf_def)

lemma agent_ops_keep [simp]:
  "ss_daily (agent_rem a c st) = ss_daily st" "ss_calls (agent_rem a c st) = ss_calls st"
  "ss_counters (agent_rem a c st) = ss_counters st"
  "ss_daily (agent_add b c st) = ss_daily st" "ss_calls (agent_add b c st) = ss_calls st"
  by (simp_all add: agent_rem_def agent_add_def split: option.splits)

lemma call_ops_keep [simp]:
  "ss_daily (snd (calls_release c a st)) = ss_daily st" "ss_calls (snd (calls_release c a st)) = ss_calls st"
  "ss_counters (snd (calls_release c a st)) = ss_counters st"
  "ss_daily (calls_reclaim c st) = ss_daily st" "ss_calls (calls_reclaim c st) = ss_calls st"
  "ss_daily (put_hash c h st) = ss_daily st" "ss_counters (put_hash c h st) = ss_counters st"
  "ss_daily (ingest_putCall faults c row am call st) = ss_daily st" "ss_calls (ingest_putCall faults c row am call st) = ss_calls st"
  "ss_counters (ingest_putCall faults c row am call st) = ss_counters st"
  "ss_daily (call_ended r st) = ss_daily st" "ss_calls (call_ended r st) = ss_calls st"
  by (simp_all add: calls_release_def calls_reclaim_def put_hash_def ingest_putCall_def call_ended_def)

lemma hash_of_cong: "ss_calls st = ss_calls st' \<Longrightarrow> hash_of st c = hash_of st' c"
  by (simp add: hash_of_def)

lemma hash_of_put [simp]: "hash_of (put_hash c h st) c' = (if c' = c then h else hash_of st c')"
  by (simp add: hash_of_def put_hash_def)

text \<open>What \<^const>\<open>settle\<close> does to the ledger and to what the calls have booked, on all its branches.\<close>

definition books_call :: "string \<Rightarrow> SpendState \<Rightarrow> SpendState \<Rightarrow> bool" where
  "books_call callId st st' \<longleftrightarrow>
     daily_ok (ss_daily st')
     \<and> (\<forall>f \<in> set AMOUNT_FIELDS. ledger_sum f (ss_daily st') = ledger_sum f (ss_daily st) + (f (booked st' callId) - f (booked st callId)))
     \<and> (\<forall>c. c \<noteq> callId \<longrightarrow> booked st' c = booked st c)"

lemma books_call_same:
  "\<lbrakk>daily_ok (ss_daily st); ss_daily st' = ss_daily st; \<And>c. booked st' c = booked st c\<rbrakk> \<Longrightarrow> books_call callId st st'"
  by (simp add: books_call_def)

lemma books_call_cong:
  "\<lbrakk>books_call callId st st'; ss_daily st1 = ss_daily st; ss_calls st1 = ss_calls st;
    ss_daily st2 = ss_daily st'; ss_calls st2 = ss_calls st'\<rbrakk> \<Longrightarrow> books_call callId st1 st2"
  by (simp add: books_call_def booked_def hash_of_def)

lemma isZero_delta: "isZero (amountsDelta a b) \<Longrightarrow> f \<in> set AMOUNT_FIELDS \<Longrightarrow> f a = f b"
  using field_amountsDelta [of f a b] by (simp add: isZero_def field_zero_amounts)

lemma booked_apply:
  assumes "calls_apply now c row am final st = (Some applied, st1)"
  shows "booked st1 c' = (if c' = c then am else booked st c')" and "ac_previous applied = booked st c"
    and "ss_daily st1 = ss_daily st" and "ss_counters st1 = ss_counters st"
    and "ac_row applied = (case ch_row (hash_of st c) of None \<Rightarrow> row | Some r \<Rightarrow> r)"
  using assms by (auto simp: calls_apply_def Let_def booked_def split: if_splits)

lemma book_delta_books:
  assumes ok: "daily_ok (ss_daily st)" and applied: "calls_apply now c row am final st = (Some applied, st1)"
    and faults: "if_ledger faults \<noteq> LedgerAndRestoreFailed"
  shows "books_call c st (snd (book_delta faults c applied am st1))"
proof (cases "isZero (amountsDelta am (ac_previous applied))")
  case True
  then show ?thesis using ok booked_apply [OF applied]
    by (auto simp: book_delta_def books_call_def dest: isZero_delta)
next
  case False
  then show ?thesis using ok faults booked_apply [OF applied]
    by (cases "if_ledger faults")
       (auto simp: book_delta_def books_call_def Let_def booked_def hash_of_def calls_restore_def put_hash_def
          ledger_sum_add daily_ok_ledger_add field_amountsDelta)
qed

lemma settle_books:
  assumes "daily_ok (ss_daily st)" and "if_ledger faults \<noteq> LedgerAndRestoreFailed"
  shows "books_call c st (snd (settle now faults c row am final call st))"
proof (cases "calls_apply now c row am final st")
  case (Pair applied st1)
  show ?thesis
  proof (cases applied)
    case None
    then have "st1 = st" using Pair by (simp add: calls_apply_def Let_def split: if_splits)
    then show ?thesis using None Pair assms(1) by (simp add: settle_def books_call_same)
  next
    case (Some a)
    then have "books_call c st (snd (book_delta faults c a am st1))" using book_delta_books assms Pair by blast
    then show ?thesis using Some Pair
      by (cases "book_delta faults c a am st1") (auto simp: settle_def elim!: books_call_cong split: bool.split)
  qed
qed

lemma heard_keeps [simp]: "ss_daily (calls_heard now c st) = ss_daily st" "booked (calls_heard now c st) c' = booked st c'"
  by (auto simp: calls_heard_def booked_def hash_of_def put_hash_def split: option.splits)

lemma started_keeps [simp]: "ss_daily (calls_started c meta st) = ss_daily st" "booked (calls_started c meta st) c' = booked st c'"
  by (auto simp: calls_started_def booked_def hash_of_def put_hash_def Let_def)

lemma booked_cong: "ss_calls st = ss_calls st' \<Longrightarrow> booked st c = booked st' c"
  by (simp add: booked_def hash_of_def)

lemma settleReleased_books:
  assumes "daily_ok (ss_daily st)" and "if_ledger faults \<noteq> LedgerAndRestoreFailed"
  shows "books_call c st (snd (settleReleased deps now faults c st))"
  using settle_books [OF assms] books_call_same [OF assms(1), of st]
  by (simp add: settleReleased_def Let_def split: option.split)

lemma settleUnrecorded_books:
  assumes "daily_ok (ss_daily st)" and "if_ledger faults \<noteq> LedgerAndRestoreFailed"
  shows "books_call c st (settleUnrecorded deps now faults c st)"
proof (cases "calls_release c None st")
  case (Pair b st1)
  then have st1: "ss_daily st1 = ss_daily st" "ss_calls st1 = ss_calls st"
    using call_ops_keep(1,2) [of c None st] by simp_all
  have "books_call c st1 (snd (settleReleased deps now faults c st1))"
    using settleReleased_books [of st1 faults c deps now] assms st1 by simp
  moreover have "books_call c st st1" using assms(1) st1 by (intro books_call_same booked_cong) simp_all
  ultimately show ?thesis using Pair st1
    by (cases "settleReleased deps now faults c st1")
       (auto simp: settleUnrecorded_def elim!: books_call_cong split: bool.split sum.split)
qed

lemma record_books:
  assumes "daily_ok (ss_daily st)" and "if_ledger faults \<noteq> LedgerAndRestoreFailed"
    and "measureCall (in_measure deps) r \<noteq> ForgetCall"
  shows "books_call (cr_callId r) st (snd (ingest_record deps now faults r st))"
proof -
  let ?st1 = "call_ended r st"
  have same: "books_call (cr_callId r) st ?st1" "books_call (cr_callId r) st (calls_heard now (cr_callId r) ?st1)"
    using assms(1) booked_cong [of ?st1 st] by (simp_all add: books_call_same)
  have "books_call (cr_callId r) st (snd (settle now faults (cr_callId r) row am final call ?st1))" for row am final call
    using settle_books [of ?st1 faults "cr_callId r" now row am final call] assms(1,2) by (auto elim: books_call_cong)
  then show ?thesis using same assms(3)
    by (auto simp: ingest_record_def Let_def case_prod_beta split: CallMeasure.split option.split sum.split)
qed

text \<open>The steps of the ingest, each with the time and the faults it meets.\<close>

datatype IngestStep =
    StepStarted bool string CallMeta
  | StepRecord time_ms IngestFaults CallRecord
  | StepUnrecorded time_ms IngestFaults string

fun ingest_step :: "IngestDeps \<Rightarrow> IngestStep \<Rightarrow> SpendState \<Rightarrow> SpendState" where
  "ingest_step deps (StepStarted fails callId meta) st = callStarted fails callId meta st"
| "ingest_step deps (StepRecord now faults r) st = snd (ingest_record deps now faults r st)"
| "ingest_step deps (StepUnrecorded now faults callId) st = settleUnrecorded deps now faults callId st"

fun step_call :: "IngestStep \<Rightarrow> string" where
  "step_call (StepStarted _ callId _) = callId"
| "step_call (StepRecord _ _ r) = cr_callId r"
| "step_call (StepUnrecorded _ _ callId) = callId"

fun step_ok :: "IngestDeps \<Rightarrow> IngestStep \<Rightarrow> bool" where
  "step_ok deps (StepStarted _ _ _) \<longleftrightarrow> True"
| "step_ok deps (StepRecord _ faults r) \<longleftrightarrow>
     if_ledger faults \<noteq> LedgerAndRestoreFailed \<and> measureCall (in_measure deps) r \<noteq> ForgetCall"
| "step_ok deps (StepUnrecorded _ faults _) \<longleftrightarrow> if_ledger faults \<noteq> LedgerAndRestoreFailed"

lemma ingest_step_books:
  assumes "daily_ok (ss_daily st)" and "step_ok deps s"
  shows "books_call (step_call s) st (ingest_step deps s st)"
  using assms record_books settleUnrecorded_books
  by (cases s) (simp_all add: callStarted_def books_call_same)

lemma books_call_sum:
  assumes "books_call c st st'" and "finite C" and "c \<in> C" and "f \<in> set AMOUNT_FIELDS"
  shows "ledger_sum f (ss_daily st') = ledger_sum f (ss_daily st) + (\<Sum>c \<in> C. f (booked st' c) - f (booked st c))"
proof -
  have "(\<Sum>c \<in> C. f (booked st' c) - f (booked st c)) = f (booked st' c) - f (booked st c) + (\<Sum>c \<in> C - {c}. f (booked st' c) - f (booked st c))"
    using assms(2,3) by (simp add: sum.remove)
  also have "(\<Sum>c \<in> C - {c}. f (booked st' c) - f (booked st c)) = 0"
    using assms(1) by (intro sum.neutral) (simp add: books_call_def)
  finally show ?thesis using assms(1,4) by (simp add: books_call_def)
qed


definition empty_spend :: SpendState where
  "empty_spend = \<lparr>ss_calls = \<lambda>_. None, ss_inflight = [], ss_agentCalls = \<lambda>_. {}, ss_counters = \<lambda>_. None,
     ss_daily = [], ss_settled = [], ss_events = []\<rparr>"

definition sample_ingest :: IngestDeps where
  "sample_ingest = \<lparr>in_measure = sample_measure_deps, in_ownerOf = \<lambda>_. Some ''u'', in_hasSession = \<lambda>_ s. Some (s = ''s1'')\<rparr>"


section \<open>Counters\<close>

definition counters_ok :: "SpendState \<Rightarrow> bool" where
  "counters_ok st \<longleftrightarrow> (\<forall>c v. ss_counters st c = Some v \<longrightarrow> v = ledger_total (ss_daily st) c)"

definition stored_row :: "SpendState \<Rightarrow> string \<Rightarrow> SpendRow \<Rightarrow> SpendRow" where
  "stored_row st callId row = (case ch_row (hash_of st callId) of None \<Rightarrow> row | Some r \<Rightarrow> r)"

lemma count_one_other: "c' \<noteq> c \<Longrightarrow> ss_counters (count_one faults d c st) c' = ss_counters st c'"
  by (simp add: count_one_def counters_addIfPresent_def counters_setIfMissing_def counters_drop_def
      split: CounterOutcome.split option.split)

lemma count_one_own:
  assumes "if_counter faults c \<noteq> CounterAndDropFailed" and "\<forall>v. ss_counters st c = Some v \<longrightarrow> v + d = ledger_total (ss_daily st) c"
  shows "ss_counters (count_one faults d c st) c \<in> {None, Some (ledger_total (ss_daily st) c)}"
  using assms
  by (auto simp: count_one_def counters_addIfPresent_def counters_setIfMissing_def counters_drop_def
      split: CounterOutcome.split option.split)

lemma fold_count_other: "c \<notin> set cs \<Longrightarrow> ss_counters (fold (count_one faults d) cs st) c = ss_counters st c"
  by (induction cs arbitrary: st) (simp_all add: count_one_other)

lemma fold_count_daily [simp]: "ss_daily (fold (count_one faults d) cs st) = ss_daily st"
  by (induction cs arbitrary: st) simp_all

lemma fold_count_own:
  assumes "distinct cs" and "c \<in> set cs" and "if_counter faults c \<noteq> CounterAndDropFailed"
    and "\<forall>v. ss_counters st c = Some v \<longrightarrow> v + d = ledger_total (ss_daily st) c"
  shows "ss_counters (fold (count_one faults d) cs st) c \<in> {None, Some (ledger_total (ss_daily st) c)}"
  using assms
proof (induction cs arbitrary: st)
  case (Cons a cs)
  show ?case
  proof (cases "a = c")
    case True
    then show ?thesis using Cons.prems count_one_own [OF Cons.prems(3,4)] by (simp add: fold_count_other)
  next
    case False
    then show ?thesis using Cons.prems Cons.IH [of "count_one faults d a st"] by (simp add: count_one_other)
  qed
qed simp

lemma distinct_dayCountersOf: "distinct (dayCountersOf row)"
  by (simp add: dayCountersOf_def)

lemma counters_ok_add:
  assumes "daily_ok (ss_daily st)" and "counters_ok st" and "rows_agree (ss_daily st) row"
    and "\<forall>c. if_counter faults c \<noteq> CounterAndDropFailed"
  shows "counters_ok (countDay faults row (am_costMicros delta) (st\<lparr>ss_daily := ledger_add row delta m (ss_daily st)\<rparr>))"
  unfolding counters_ok_def
proof (intro allI impI)
  let ?st = "st\<lparr>ss_daily := ledger_add row delta m (ss_daily st)\<rparr>"
  fix c v assume v: "ss_counters (countDay faults row (am_costMicros delta) ?st) c = Some v"
  have total: "ledger_total (ss_daily ?st) c
      = ledger_total (ss_daily st) c + (if c \<in> set (dayCountersOf row) then am_costMicros delta else 0)"
    using ledger_total_add [OF assms(1,3)] by (simp add: counts_row_iff)
  show "v = ledger_total (ss_daily (countDay faults row (am_costMicros delta) ?st)) c"
  proof (cases "c \<in> set (dayCountersOf row)")
    case True
    have "\<forall>w. ss_counters ?st c = Some w \<longrightarrow> w + am_costMicros delta = ledger_total (ss_daily ?st) c"
      using True total assms(2) by (simp add: counters_ok_def)
    from fold_count_own [OF distinct_dayCountersOf True _ this, of faults] show ?thesis
      using assms(4) v by (simp add: countDay_def)
  next
    case False
    then show ?thesis using v total assms(2) by (simp add: countDay_def fold_count_other counters_ok_def)
  qed
qed

lemma counters_ok_cong:
  "counters_ok st \<Longrightarrow> ss_daily st' = ss_daily st \<Longrightarrow> ss_counters st' = ss_counters st \<Longrightarrow> counters_ok st'"
  by (simp add: counters_ok_def)

lemma counters_ok_add_free:
  assumes "daily_ok (ss_daily st)" and "counters_ok st" and "rows_agree (ss_daily st) row" and "am_costMicros delta = 0"
  shows "counters_ok (st\<lparr>ss_daily := ledger_add row delta m (ss_daily st)\<rparr>)"
  using assms by (simp add: counters_ok_def ledger_total_add)

lemma book_delta_counters:
  assumes "daily_ok (ss_daily st)" and "counters_ok st" and "rows_agree (ss_daily st) (ac_row applied)"
    and "\<forall>c. if_counter faults c \<noteq> CounterAndDropFailed"
  shows "counters_ok (snd (book_delta faults callId applied am st))"
  using counters_ok_add [OF assms] counters_ok_add_free [OF assms(1-3)] assms(2)
  by (auto simp: book_delta_def Let_def calls_restore_def intro: counters_ok_cong split: LedgerOutcome.split)


definition sample_daily :: "SpendUnit \<Rightarrow> int \<Rightarrow> DailyRow" where
  "sample_daily unit cost =
     \<lparr>dr_row = \<lparr>sr_day = 3, sr_payer = ''a'', sr_ownerSub = ''u'', sr_connectionId = UNKNOWN_CONNECTION, sr_model = UNKNOWN_MODEL,
        sr_sessionId = [], sr_callingAgentId = ''a'', sr_provider = ''anthropic'', sr_unit = unit\<rparr>,
      dr_amounts = zero_amounts\<lparr>am_costMicros := cost, am_calls := 1\<rparr>, dr_refusedCalls = 0, dr_maxCallCostMicros = cost\<rparr>"


text \<open>
  The unit of a call is not in the key of the ledger, so a call that shares the key of a row of
  another unit is added to that row: its cost does not reach the total of its own unit, which
  the limits of that unit are read from, and raises the total of the row's unit.
\<close>

theorem second_unit_is_lost:
  assumes "daily_ok t" and "r \<in> set t" and "row_key (dr_row r) = row_key row" and "sr_unit (dr_row r) \<noteq> sr_unit row"
  shows "ledger_total (ledger_add row delta m t) (AgentCounter (sr_day row) (sr_payer row) (sr_unit row))
           = ledger_total t (AgentCounter (sr_day row) (sr_payer row) (sr_unit row))
       \<and> ledger_total (ledger_add row delta m t) (AgentCounter (sr_day row) (sr_payer row) (sr_unit (dr_row r)))
           = ledger_total t (AgentCounter (sr_day row) (sr_payer row) (sr_unit (dr_row r))) + am_costMicros delta"
proof -
  have only: "x = r" if "x \<in> set t" "row_key (dr_row x) = row_key row" for x
    using assms(1-3) that inj_onD [of "\<lambda>r. row_key (dr_row r)" "set t" x r] by (simp add: daily_ok_def distinct_map)
  have key: "sr_day (dr_row r) = sr_day row" "sr_payer (dr_row r) = sr_payer row" using assms(3) by (simp_all add: row_key_def)
  have added: "ledger_add row delta m t = update_where (\<lambda>x. row_key (dr_row x) = row_key row)
      (\<lambda>x. x\<lparr>dr_amounts := zip_amounts (+) (dr_amounts x) delta, dr_maxCallCostMicros := max (dr_maxCallCostMicros x) m\<rparr>) t"
    using assms(2,3) by (auto simp: ledger_add_def)
  have present: "row_key row \<in> (\<lambda>x. row_key (dr_row x)) ` set t" using assms(2,3) by force
  have "ledger_total (ledger_add row delta m t) (AgentCounter (sr_day row) (sr_payer row) u)
        = ledger_total t (AgentCounter (sr_day row) (sr_payer row) u) + (if sr_unit (dr_row r) = u then am_costMicros delta else 0)" for u
    unfolding ledger_total_sum added
    by (rule sum_update_where_unique [where k = "\<lambda>x. row_key (dr_row x)"])
       (use assms(1) present key only in \<open>auto simp: daily_ok_def zip_amounts_def\<close>)
  then show ?thesis using assms(4) by simp
qed

theorem second_unit_is_lost_witness:
  "ledger_total (ledger_add (dr_row (sample_daily Usd 0)) (zero_amounts\<lparr>am_costMicros := 90\<rparr>) 90 [sample_daily Bobcoin 5])
     (AgentCounter 3 ''a'' Usd) = 0
   \<and> ledger_total (ledger_add (dr_row (sample_daily Usd 0)) (zero_amounts\<lparr>am_costMicros := 90\<rparr>) 90 [sample_daily Bobcoin 5])
     (AgentCounter 3 ''a'' Bobcoin) = 95"
proof -
  have "daily_ok [sample_daily Bobcoin 5]" "row_key (dr_row (sample_daily Bobcoin 5)) = row_key (dr_row (sample_daily Usd 0))"
    "sr_unit (dr_row (sample_daily Bobcoin 5)) \<noteq> sr_unit (dr_row (sample_daily Usd 0))" by code_simp+
  with second_unit_is_lost [of "[sample_daily Bobcoin 5]" "sample_daily Bobcoin 5" "dr_row (sample_daily Usd 0)"
      "zero_amounts\<lparr>am_costMicros := 90\<rparr>" 90]
  show ?thesis by (simp add: sample_daily_def ledger_total_def zero_amounts_def)
qed

text \<open>
  A refused call hides the reference cost of the week: where today has no call of the
  connection yet, a call without usage is estimated at the highest call of the last seven days;
  once a refusal is counted today, the row of the refusal counts as a call of cost zero and the
  same call is estimated at zero.
\<close>

theorem refusal_hides_reference:
  assumes today: "highestCall t (sr_payer row) (sr_connectionId row) (sr_day row) (sr_day row) = None"
    and week: "highestCall t (sr_payer row) (sr_connectionId row) (sr_day row - 6) (sr_day row) = Some highest"
  shows "referenceCost t row = highest \<and> referenceCost (ledger_addRefusal row t) row = 0"
proof -
  have none: "filter (\<lambda>r. sr_payer (dr_row r) = sr_payer row \<and> sr_connectionId (dr_row r) = sr_connectionId row
                        \<and> sr_day row \<le> sr_day (dr_row r) \<and> sr_day (dr_row r) \<le> sr_day row) t = []"
    using today by (simp add: highestCall_def split: list.splits)
  then have "\<not> (\<exists>r \<in> set t. row_key (dr_row r) = row_key row)" by (auto simp: filter_empty_conv row_key_def)
  then have "ledger_addRefusal row t = t @ [\<lparr>dr_row = row, dr_amounts = zero_amounts, dr_refusedCalls = 1, dr_maxCallCostMicros = 0\<rparr>]"
    by (auto simp: ledger_addRefusal_def daily_upsert_def)
  then show ?thesis using none today week
    by (simp add: referenceCost_def Let_def daysBefore_def REFERENCE_DAYS_def or_zero_def highestCall_def)
qed

theorem refusal_hides_reference_witness:
  "let row = (dr_row (sample_daily Usd 0))\<lparr>sr_day := 5\<rparr>
   in referenceCost [sample_daily Usd 70] row = 70 \<and> referenceCost (ledger_addRefusal row [sample_daily Usd 70]) row = 0"
proof -
  let ?row = "(dr_row (sample_daily Usd 0))\<lparr>sr_day := 5\<rparr>"
  have "highestCall [sample_daily Usd 70] (sr_payer ?row) (sr_connectionId ?row) (sr_day ?row) (sr_day ?row) = None"
    "highestCall [sample_daily Usd 70] (sr_payer ?row) (sr_connectionId ?row) (sr_day ?row - 6) (sr_day ?row) = Some 70"
    by code_simp+
  from refusal_hides_reference [OF this] show ?thesis by (simp add: Let_def)
qed

section \<open>Late booking reaches every call\<close>

definition stamp_known :: "IngestDeps \<Rightarrow> string \<times> string \<Rightarrow> bool" where
  "stamp_known deps stamp \<longleftrightarrow> fst stamp \<noteq> [] \<and> snd stamp \<noteq> [] \<and> in_hasSession deps (fst stamp) (snd stamp) = Some True"

lemma checkedSession_known: "checkedSession (in_hasSession deps) (fst stamp) (Some (snd stamp)) \<noteq> NO_SESSION \<longleftrightarrow> stamp_known deps stamp"
  by (auto simp: checkedSession_def nonempty_def NO_SESSION_def stamp_known_def)

text \<open>No two of the calls that wait for one stamp fall into one row of the ledger but differ in owner, provider or unit.\<close>

definition clash_free :: "time_ms \<Rightarrow> SettledCall table \<Rightarrow> bool" where
  "clash_free since t \<longleftrightarrow>
     (\<forall>stamp. distinct (map (row_key \<circ> fst) (per_row (snd stamp) (filter (is_moved (fst stamp) (snd stamp) since) t))))"

lemma settled_bookStamp:
  assumes "clash_free since (ss_settled st)"
  shows "ss_settled (bookStamp deps (\<lambda>_. False) since stamp st) =
     (if stamp_known deps stamp
      then update_where (is_moved (fst stamp) (snd stamp) since) (\<lambda>c. c\<lparr>sc_sessionId := snd stamp\<rparr>) (ss_settled st)
      else ss_settled st)"
  using assms checkedSession_known [of deps stamp]
  by (cases "stamp_known deps stamp") (simp_all add: bookStamp_def bookCalls_def Let_def clash_free_def)

lemma per_row_Nil [simp]: "per_row s [] = []"
  by (simp add: per_row_def)

lemma filter_moved_update:
  assumes "snd stamp \<noteq> []"
  shows "filter (is_moved a s since) (update_where (is_moved (fst stamp) (snd stamp) since) (\<lambda>c. c\<lparr>sc_sessionId := snd stamp\<rparr>) t)
         = (if (a, s) = stamp then [] else filter (is_moved a s since) t)"
  using assms by (induction t) (auto simp: is_moved_def)

lemma clash_free_bookStamp:
  assumes "clash_free since (ss_settled st)"
  shows "clash_free since (ss_settled (bookStamp deps (\<lambda>_. False) since stamp st))"
  using assms filter_moved_update [of stamp]
  by (simp add: settled_bookStamp clash_free_def stamp_known_def)

lemma unbooked_after_bookStamp:
  assumes "clash_free since (ss_settled st)"
    and "c \<in> set (ss_settled (bookStamp deps (\<lambda>_. False) since stamp st))" and "is_unbooked since c"
  shows "c \<in> set (ss_settled st) \<and> \<not> (stamp_key c = stamp \<and> stamp_known deps stamp)"
  using assms by (auto simp: settled_bookStamp set_update_where is_unbooked_def is_moved_def stamp_key_def stamp_known_def split: if_splits)

lemma unbooked_after_page:
  assumes "clash_free since (ss_settled st)"
    and "c \<in> set (ss_settled (fold (bookStamp deps (\<lambda>_. False) since) stamps st))" and "is_unbooked since c"
  shows "c \<in> set (ss_settled st) \<and> \<not> (stamp_key c \<in> set stamps \<and> stamp_known deps (stamp_key c))"
  using assms(1,2)
proof (induction stamps arbitrary: st)
  case (Cons s stamps)
  from Cons.IH [of "bookStamp deps (\<lambda>_. False) since s st"] Cons.prems
  have "c \<in> set (ss_settled (bookStamp deps (\<lambda>_. False) since s st))" "\<not> (stamp_key c \<in> set stamps \<and> stamp_known deps (stamp_key c))"
    using clash_free_bookStamp by auto
  then show ?case using unbooked_after_bookStamp [of since st c deps s] Cons.prems(1) assms(3) by auto
qed simp

lemma clash_free_page:
  assumes "clash_free since (ss_settled st)"
  shows "clash_free since (ss_settled (fold (bookStamp deps (\<lambda>_. False) since) stamps st))"
  using assms by (induction stamps arbitrary: st) (simp_all add: clash_free_bookStamp)

lemma stamp_place_inj: "inj collate \<Longrightarrow> stamp_place collate a = stamp_place collate b \<Longrightarrow> a = b"
  by (cases a; cases b) (simp add: stamp_place_def inj_eq)

text \<open>A stamp that waits after the cursor is on the page or comes after its last stamp.\<close>

lemma unbooked_on_page_or_after:
  assumes "inj collate" and "c \<in> set t" and "is_unbooked since c" and "is_after collate after (stamp_key c)"
    and page: "stamps = unbookedStamps collate t since after limit" and "stamp_key c \<notin> set stamps"
  shows "length stamps = limit \<and> (stamps \<noteq> [] \<longrightarrow> is_after collate (Some (last stamps)) (stamp_key c))"
proof -
  define all where "all = sort_key (stamp_place collate) (remdups (filter (is_after collate after) (map stamp_key (filter (is_unbooked since) t))))"
  have stamps: "stamps = take limit all" using page by (simp add: unbookedStamps_def all_def)
  have mem: "stamp_key c \<in> set all" using assms(2-4) by (auto simp: all_def)
  then have rest: "stamp_key c \<in> set (drop limit all)"
    using assms(6) stamps by (metis Un_iff append_take_drop_id set_append)
  then have "limit < length all" by (cases "limit < length all") simp_all
  moreover have "stamp_place collate (last stamps) < stamp_place collate (stamp_key c)" if "stamps \<noteq> []"
  proof -
    have "sorted (map (stamp_place collate) (take limit all @ drop limit all))" by (simp add: all_def)
    moreover have "last stamps \<in> set (take limit all)" using that stamps by simp
    ultimately have "stamp_place collate (last stamps) \<le> stamp_place collate (stamp_key c)"
      using rest unfolding map_append sorted_append by auto
    moreover have "last stamps \<noteq> stamp_key c" using that assms(6) last_in_set by metis
    ultimately show ?thesis using stamp_place_inj [OF assms(1), of "last stamps" "stamp_key c"] by (auto simp: order.order_iff_strict)
  qed
  ultimately show ?thesis using stamps by (simp add: is_after_def)
qed

lemma book_pages_reaches:
  assumes "inj collate" and "fails = (\<lambda>_. False)" and "clash_free since (ss_settled st)"
    and "\<And>c. c \<in> set (ss_settled st) \<Longrightarrow> is_unbooked since c \<Longrightarrow> stamp_known deps (stamp_key c) \<Longrightarrow> is_after collate after (stamp_key c)"
    and "c \<in> set (ss_settled (book_pages deps collate fails since after st))" and "is_unbooked since c"
  shows "\<not> stamp_known deps (stamp_key c)"
  using assms
proof (induction deps collate fails since after st rule: book_pages.induct)
  case (1 deps collate fails since after st)
  define stamps where "stamps = unbookedStamps collate (ss_settled st) since after STAMPED_BOOKING_BATCH"
  define st1 where "st1 = fold (bookStamp deps fails since) stamps st"
  have step: "book_pages deps collate fails since after st =
      (if length stamps < STAMPED_BOOKING_BATCH then st1 else book_pages deps collate fails since (Some (last stamps)) st1)"
    by (subst book_pages.simps) (simp add: stamps_def st1_def Let_def)
  have left: "length stamps = STAMPED_BOOKING_BATCH \<and> (stamps \<noteq> [] \<longrightarrow> is_after collate (Some (last stamps)) (stamp_key c'))"
    if "c' \<in> set (ss_settled st1)" "is_unbooked since c'" "stamp_known deps (stamp_key c')" for c'
  proof -
    from unbooked_after_page [of since st c' deps stamps] that
    have "c' \<in> set (ss_settled st)" "stamp_key c' \<notin> set stamps" using "1.prems"(2,3) by (auto simp: st1_def)
    then show ?thesis using that "1.prems"(1,4) by (intro unbooked_on_page_or_after [OF _ _ _ _ stamps_def]) simp_all
  qed
  show ?case
  proof (cases "length stamps < STAMPED_BOOKING_BATCH")
    case True
    then show ?thesis using left [of c] step "1.prems"(5,6) by auto
  next
    case False
    then have "stamps \<noteq> []" by (auto simp: STAMPED_BOOKING_BATCH_def)
    have "\<not> stamp_known deps (stamp_key c)"
    proof (rule "1.IH" [OF stamps_def st1_def False "1.prems"(1,2)])
      show "clash_free since (ss_settled st1)" using clash_free_page "1.prems"(2,3) by (simp add: st1_def)
      show "is_after collate (Some (last stamps)) (stamp_key c')"
        if "c' \<in> set (ss_settled st1)" "is_unbooked since c'" "stamp_known deps (stamp_key c')" for c'
        using left [OF that] \<open>stamps \<noteq> []\<close> by simp
    qed (use step False "1.prems"(5,6) in simp_all)
    then show ?thesis .
  qed
qed

text \<open>What a pass leaves of a call: the call itself, or the call with its stamp as its session.\<close>

definition late_booked :: "SettledCall \<Rightarrow> SettledCall \<Rightarrow> bool" where
  "late_booked c c' \<longleftrightarrow> c' = c \<or> sc_sessionId c = [] \<and> c' = c\<lparr>sc_sessionId := sc_stampedSessionId c\<rparr>"

lemma late_booked_trans: "late_booked a b \<Longrightarrow> late_booked b c \<Longrightarrow> late_booked a c"
  by (auto simp: late_booked_def)

lemma late_booked_bookStamp: "list_all2 late_booked (ss_settled st) (ss_settled (bookStamp deps fails since stamp st))"
  by (simp add: bookStamp_def bookCalls_def Let_def update_where_def list_all2_map2 list_all2_same late_booked_def is_moved_def)

lemma late_booked_refl: "list_all2 late_booked t t"
  by (simp add: list_all2_same late_booked_def)

lemma late_booked_page: "list_all2 late_booked (ss_settled st) (ss_settled (fold (bookStamp deps fails since) stamps st))"
proof (induction stamps arbitrary: st)
  case (Cons s stamps)
  from list_all2_trans [OF late_booked_trans late_booked_bookStamp Cons [of "bookStamp deps fails since s st"]]
  show ?case by simp
qed (simp add: late_booked_refl)

lemma late_booked_pages: "list_all2 late_booked (ss_settled st) (ss_settled (book_pages deps collate fails since after st))"
proof (induction deps collate fails since after st rule: book_pages.induct)
  case (1 deps collate fails since after st)
  define stamps where "stamps = unbookedStamps collate (ss_settled st) since after STAMPED_BOOKING_BATCH"
  define st1 where "st1 = fold (bookStamp deps fails since) stamps st"
  have "list_all2 late_booked (ss_settled st) (ss_settled st1)" unfolding st1_def by (rule late_booked_page)
  moreover have "list_all2 late_booked (ss_settled st) (ss_settled (book_pages deps collate fails since (Some (last stamps)) st1))"
    if "\<not> length stamps < STAMPED_BOOKING_BATCH"
    by (rule list_all2_trans [OF late_booked_trans calculation "1.IH" [OF stamps_def st1_def that]])
  ultimately show ?case by (subst book_pages.simps) (simp add: stamps_def st1_def Let_def)
qed

lemma list_all2_memberD: "list_all2 P xs ys \<Longrightarrow> x \<in> set xs \<Longrightarrow> \<exists>y \<in> set ys. P x y"
  by (induction rule: list_all2_induct) auto


definition sample_settled :: "SpendUnit \<Rightarrow> string \<Rightarrow> SettledCall" where
  "sample_settled unit callId =
     settled_call callId ((dr_row (sample_daily unit 0))) (zero_amounts\<lparr>am_costMicros := 4, am_calls := 1\<rparr>)
       \<lparr>sa_startedAt = 3 * 86400000, sa_routerCallId = None, sa_sessionId = Some ''s1''\<rparr>"


text \<open>
  Calls of one stamp that share a row of the ledger but not its owner, provider or unit block
  each other: the booking of the stamp fails as a whole and changes nothing, on every pass.
\<close>

theorem stamp_clash_blocks_booking:
  assumes "c \<in> set (ss_settled st)" and "c' \<in> set (ss_settled st)"
    and "is_moved (fst stamp) (snd stamp) since c" and "is_moved (fst stamp) (snd stamp) since c'"
    and "row_key (daily_row_of (snd stamp) c) = row_key (daily_row_of (snd stamp) c')"
    and "daily_row_of (snd stamp) c \<noteq> daily_row_of (snd stamp) c'"
  shows "bookStamp deps fails since stamp st = st"
proof -
  let ?moved = "filter (is_moved (fst stamp) (snd stamp) since) (ss_settled st)"
  let ?rows = "remdups (map (daily_row_of (snd stamp)) ?moved)"
  have "daily_row_of (snd stamp) c \<in> set ?rows" "daily_row_of (snd stamp) c' \<in> set ?rows" using assms(1-4) by auto
  then have "\<not> inj_on row_key (set ?rows)" using assms(5,6) by (meson inj_onD)
  then have "\<not> distinct (map row_key ?rows)" unfolding distinct_map by blast
  moreover have "map (row_key \<circ> fst) (per_row (snd stamp) ?moved) = map row_key ?rows" by (simp add: per_row_def)
  ultimately have "\<not> distinct (map (row_key \<circ> fst) (per_row (snd stamp) ?moved))" by (simp only: not_False_eq_True)
  then show ?thesis by (simp add: bookStamp_def bookCalls_def Let_def)
qed

theorem stamp_clash_blocks_booking_witness:
  "let st = empty_spend\<lparr>ss_settled := [sample_settled Usd ''c1'', sample_settled Bobcoin ''c2'']\<rparr>
   in bookStamp sample_ingest (\<lambda>_. False) 0 (''a'', ''s1'') st = st \<and> stamp_known sample_ingest (''a'', ''s1'')"
proof -
  have "is_moved (fst (''a'', ''s1'')) (snd (''a'', ''s1'')) 0 (sample_settled Usd ''c1'')"
    "is_moved (fst (''a'', ''s1'')) (snd (''a'', ''s1'')) 0 (sample_settled Bobcoin ''c2'')"
    "row_key (daily_row_of (snd (''a'', ''s1'')) (sample_settled Usd ''c1''))
       = row_key (daily_row_of (snd (''a'', ''s1'')) (sample_settled Bobcoin ''c2''))"
    "daily_row_of (snd (''a'', ''s1'')) (sample_settled Usd ''c1'') \<noteq> daily_row_of (snd (''a'', ''s1'')) (sample_settled Bobcoin ''c2'')"
    "stamp_known sample_ingest (''a'', ''s1'')"
    by code_simp+
  then show ?thesis unfolding Let_def by (intro conjI stamp_clash_blocks_booking) simp_all
qed

end
