(* ===== verification/Sql_Like.thy ===== *)
theory Sql_Like
  imports Platform_Prelude
begin

text \<open>
  Path patterns. A rule's \<^verbatim>\<open>path_pattern\<close> is matched in two places: by SQL, as
  \<^verbatim>\<open>path LIKE replace(path_pattern, '*', '%')\<close> in
  \<^verbatim>\<open>egress-rules-repository.ts\<close>, and in TypeScript by \<^verbatim>\<open>pathMatches\<close> of
  \<^verbatim>\<open>provider-egress-scopes.ts\<close>, which turns the same pattern into a regular expression.
  The theory holds both and shows that they agree.
\<close>

section \<open>SQL's LIKE\<close>

text \<open>
  \<^verbatim>\<open>%\<close> stands for any text, \<^verbatim>\<open>_\<close> for any one character, a backslash makes the next
  character literal. A pattern that ends in an unpaired backslash is an error of the query
  (\<open>like_escape_ok\<close> is false).
\<close>

abbreviation backslash :: char where
  "backslash \<equiv> CHR 0x5C"

fun sql_like :: "string \<Rightarrow> string \<Rightarrow> bool" where
  "sql_like [] t = (t = [])"
| "sql_like (p # ps) [] = (p = CHR ''%'' \<and> sql_like ps [])"
| "sql_like (p # ps) (c # t) =
     (if p = CHR ''%'' then sql_like ps (c # t) \<or> sql_like (p # ps) t
      else if p = CHR ''_'' then sql_like ps t
      else if p = backslash then (case ps of [] \<Rightarrow> False | q # qs \<Rightarrow> c = q \<and> sql_like qs t)
      else c = p \<and> sql_like ps t)"

definition sql_ilike :: "string \<Rightarrow> string \<Rightarrow> bool" where
  "sql_ilike p t = sql_like (to_lower p) (to_lower t)"

fun like_escape_ok :: "string \<Rightarrow> bool" where
  "like_escape_ok [] = True"
| "like_escape_ok [c] = (c \<noteq> backslash)"
| "like_escape_ok (c # d # s) = (if c = backslash then like_escape_ok s else like_escape_ok (d # s))"

definition like_pattern :: "string \<Rightarrow> string" where
  "like_pattern pathPattern = replace_char CHR ''*'' CHR ''%'' pathPattern"

lemma like_pattern_simps [simp]:
  "like_pattern [] = []"
  "like_pattern (c # s) = (if c = CHR ''*'' then CHR ''%'' else c) # like_pattern s"
  by (simp_all add: like_pattern_def)

text \<open>A character that no pattern gives a meaning to.\<close>

definition plain_char :: "char \<Rightarrow> bool" where
  "plain_char c \<longleftrightarrow> c \<noteq> CHR ''%'' \<and> c \<noteq> CHR ''_'' \<and> c \<noteq> CHR ''*'' \<and> c \<noteq> backslash"

text \<open>How each kind of pattern character consumes text.\<close>

lemma sql_like_percent_Cons:
  "sql_like (CHR ''%'' # ps) t \<longleftrightarrow> (\<exists>u v. t = u @ v \<and> sql_like ps v)"
proof (induction t)
  case (Cons c t)
  have "(\<exists>u v. c # t = u @ v \<and> sql_like ps v)
        \<longleftrightarrow> sql_like ps (c # t) \<or> (\<exists>u v. t = u @ v \<and> sql_like ps v)"
    by (auto simp: Cons_eq_append_conv)
  with Cons show ?case by simp
qed simp

lemma sql_like_underscore_Cons:
  "sql_like (CHR ''_'' # ps) t \<longleftrightarrow> (\<exists>c t'. t = c # t' \<and> sql_like ps t')"
  by (cases t) simp_all

lemma sql_like_escape_Cons:
  "sql_like (backslash # q # qs) t \<longleftrightarrow> (\<exists>t'. t = q # t' \<and> sql_like qs t')"
  by (cases t) auto

lemma sql_like_literal_Cons:
  "\<lbrakk>p \<noteq> CHR ''%''; p \<noteq> CHR ''_''; p \<noteq> backslash\<rbrakk> \<Longrightarrow>
   sql_like (p # ps) t \<longleftrightarrow> (\<exists>t'. t = p # t' \<and> sql_like ps t')"
  by (cases t) auto

lemma plain_charD:
  "plain_char c \<Longrightarrow> c \<noteq> CHR ''%'' \<and> c \<noteq> CHR ''_'' \<and> c \<noteq> CHR ''*'' \<and> c \<noteq> backslash"
  by (simp add: plain_char_def)

lemma sql_like_plain_Cons:
  "plain_char p \<Longrightarrow> sql_like (p # ps) t \<longleftrightarrow> (\<exists>t'. t = p # t' \<and> sql_like ps t')"
  using plain_charD sql_like_literal_Cons by blast

declare sql_like.simps(2,3) [simp del]

lemma sql_like_percent [simp]: "sql_like [CHR ''%''] t"
  by (simp add: sql_like_percent_Cons)

lemma sql_like_plain: "list_all plain_char p \<Longrightarrow> sql_like p t \<longleftrightarrow> t = p"
  by (induction p arbitrary: t) (simp_all add: sql_like_plain_Cons)

lemma like_pattern_plain [simp]: "list_all plain_char p \<Longrightarrow> like_pattern p = p"
  by (induction p) (auto dest: plain_charD)

lemma like_pattern_append [simp]: "like_pattern (p @ q) = like_pattern p @ like_pattern q"
  by (simp add: like_pattern_def replace_char_def)

lemma sql_like_plain_prefix:
  "list_all plain_char p \<Longrightarrow> sql_like (p @ [CHR ''%'']) t \<longleftrightarrow> prefix p t"
  by (induction p arbitrary: t) (auto simp: sql_like_plain_Cons prefix_def)

lemma like_escape_ok_no_escape: "backslash \<notin> set p \<Longrightarrow> like_escape_ok p"
  by (induction p rule: like_escape_ok.induct) auto

lemma sql_like_self: "backslash \<notin> set p \<Longrightarrow> sql_like p p"
proof (induction p)
  case (Cons c p)
  consider "c = CHR ''%''" | "c = CHR ''_''" | "c \<noteq> CHR ''%''" "c \<noteq> CHR ''_''" "c \<noteq> backslash"
    using Cons.prems by auto
  then show ?case
  proof cases
    case 1
    have "\<exists>u v. c # p = u @ v \<and> sql_like p v"
      using Cons by (intro exI [of _ "[c]"] exI [of _ p]) simp
    with 1 show ?thesis by (simp only: sql_like_percent_Cons)
  qed (use Cons in \<open>simp_all add: sql_like_underscore_Cons sql_like_literal_Cons\<close>)
qed simp


text \<open>
  A path read as a pattern accepts every text that agrees with it character by character,
  except that anything may stand where it has an underscore.
\<close>

lemma sql_like_pointwise:
  "\<lbrakk>list_all2 (\<lambda>p c. c = p \<or> p = CHR ''_'') path t; backslash \<notin> set path\<rbrakk> \<Longrightarrow>
   sql_like (like_pattern path) t"
proof (induction path t rule: list_all2_induct)
  case (Cons p ps c t)
  then have IH: "sql_like (like_pattern ps) t" by simp
  consider "p = CHR ''*'' \<or> p = CHR ''%''" | "p = CHR ''_''"
    | "p \<noteq> CHR ''*''" "p \<noteq> CHR ''%''" "p \<noteq> CHR ''_''" "p \<noteq> backslash"
    using Cons.prems by auto
  then show ?case
  proof cases
    case 1
    have "\<exists>u v. c # t = u @ v \<and> sql_like (like_pattern ps) v"
      using IH by (intro exI [of _ "[c]"] exI [of _ t]) simp
    with 1 show ?thesis by (auto simp: sql_like_percent_Cons)
  qed (use Cons.hyps IH in \<open>simp_all add: sql_like_underscore_Cons sql_like_literal_Cons\<close>)
qed simp


section \<open>The same pattern as a regular expression\<close>

text \<open>
  \<^verbatim>\<open>pathMatches\<close> builds a regular expression of three kinds of pieces: \<^verbatim>\<open>.*\<close>,
  \<^verbatim>\<open>.\<close> and an escaped literal, anchored at both ends, with the flag that lets a dot
  stand for every character.
\<close>

datatype regex_piece = DotStar | Dot | Literal char

fun pathMatches_source :: "string \<Rightarrow> regex_piece list" where
  "pathMatches_source [] = []"
| "pathMatches_source [ch] =
     (if ch = CHR ''%'' then [DotStar] else if ch = CHR ''_'' then [Dot] else [Literal ch])"
| "pathMatches_source (ch # next_ch # rest) =
     (if ch = backslash then Literal next_ch # pathMatches_source rest
      else (if ch = CHR ''%'' then DotStar else if ch = CHR ''_'' then Dot else Literal ch)
           # pathMatches_source (next_ch # rest))"

fun regex_test :: "regex_piece list \<Rightarrow> string \<Rightarrow> bool" where
  "regex_test [] t = (t = [])"
| "regex_test (DotStar # ps) [] = regex_test ps []"
| "regex_test (DotStar # ps) (c # t) = (regex_test ps (c # t) \<or> regex_test (DotStar # ps) t)"
| "regex_test (Dot # ps) t = (case t of [] \<Rightarrow> False | _ # t' \<Rightarrow> regex_test ps t')"
| "regex_test (Literal l # ps) t = (case t of [] \<Rightarrow> False | c # t' \<Rightarrow> c = l \<and> regex_test ps t')"

definition pathMatches :: "string \<Rightarrow> string \<Rightarrow> bool" where
  "pathMatches pattern path = regex_test (pathMatches_source (like_pattern pattern)) path"

lemma regex_test_DotStar_Cons:
  "regex_test (DotStar # ps) t \<longleftrightarrow> (\<exists>u v. t = u @ v \<and> regex_test ps v)"
proof (induction t)
  case (Cons c t)
  have "(\<exists>u v. c # t = u @ v \<and> regex_test ps v)
        \<longleftrightarrow> regex_test ps (c # t) \<or> (\<exists>u v. t = u @ v \<and> regex_test ps v)"
    by (auto simp: Cons_eq_append_conv)
  with Cons show ?case by simp
qed simp

lemma regex_test_Dot_Cons: "regex_test (Dot # ps) t \<longleftrightarrow> (\<exists>c t'. t = c # t' \<and> regex_test ps t')"
  by (cases t) auto

lemma regex_test_Literal_Cons:
  "regex_test (Literal l # ps) t \<longleftrightarrow> (\<exists>t'. t = l # t' \<and> regex_test ps t')"
  by (cases t) auto

declare regex_test.simps(2-5) [simp del]

lemmas regex_test_Cons = regex_test_DotStar_Cons regex_test_Dot_Cons regex_test_Literal_Cons
lemmas sql_like_Cons =
  sql_like_percent_Cons sql_like_underscore_Cons sql_like_escape_Cons sql_like_literal_Cons

lemma regex_test_sql_like:
  "like_escape_ok p \<Longrightarrow> regex_test (pathMatches_source p) t = sql_like p t"
proof (induction p arbitrary: t rule: pathMatches_source.induct)
  case (2 ch)
  then show ?case by (auto simp: regex_test_Cons sql_like_Cons)
next
  case (3 ch next_ch rest)
  show ?case
  proof (cases "ch = backslash")
    case True
    with 3 show ?thesis by (simp add: regex_test_Cons sql_like_Cons)
  next
    case False
    with 3 have IH: "regex_test (pathMatches_source (next_ch # rest)) t = sql_like (next_ch # rest) t"
      for t by auto
    consider "ch = CHR ''%''" | "ch = CHR ''_''" | "ch \<noteq> CHR ''%''" "ch \<noteq> CHR ''_''"
      by blast
    then show ?thesis
      by cases (use False IH in \<open>simp_all add: regex_test_Cons sql_like_Cons\<close>)
  qed
qed simp

end
