(* ===== verification/Egress_Match.thy ===== *)
theory Egress_Match
  imports Sql_Like "HOL-Library.List_Lexorder" "HOL-Library.Char_ord"
begin

text \<open>
  The egress rules: what a stored rule is, which rules speak for a request, and which of them
  decides it. Models \<^verbatim>\<open>egress-rules/domain/\<close>, \<^verbatim>\<open>findMatch\<close> of
  \<^verbatim>\<open>egress-rules/infrastructure/egress-rules-repository.ts\<close>,
  \<^verbatim>\<open>approvals/domain/dot-segment.ts\<close> and the provider scopes of
  \<^verbatim>\<open>connections/domain/provider-egress-scopes.ts\<close>.
\<close>

section \<open>Rules\<close>

datatype RuleVerdict = Allow | Deny

datatype RuleStatus = Active | Revoked

datatype EgressRuleSource =
    Manual
  | Inbox
  | Kit
  | Connection string
  | PresetTrusted
  | PresetAll
  | PlatformEnvironments

text \<open>The text a source is stored as.\<close>

fun source_text :: "EgressRuleSource \<Rightarrow> string" where
  "source_text Manual = ''manual''"
| "source_text Inbox = ''inbox''"
| "source_text Kit = ''kit''"
| "source_text (Connection c) = ''connection:'' @ c"
| "source_text PresetTrusted = ''preset:trusted''"
| "source_text PresetAll = ''preset:all''"
| "source_text PlatformEnvironments = ''platform:environments''"

definition is_connection_source :: "EgressRuleSource \<Rightarrow> bool" where
  "is_connection_source s = sql_like ''connection:%'' (source_text s)"

definition is_preset_source :: "EgressRuleSource \<Rightarrow> bool" where
  "is_preset_source s = sql_like ''preset:%'' (source_text s)"

record EgressRuleRow =
  er_id :: string
  er_agentId :: agent_id
  er_host :: string
  er_port :: "nat option"
  er_method :: string
  er_pathPattern :: string
  er_verdict :: RuleVerdict
  er_decidedBy :: user_sub
  er_decidedAt :: time_ms
  er_status :: RuleStatus
  er_source :: EgressRuleSource
  er_presetSource :: "EgressRuleSource option"

text \<open>\<^verbatim>\<open>toRow\<close>: a stored port of 0 is falsy in JavaScript and reads as no port.\<close>

definition toRow :: "EgressRuleRow \<Rightarrow> EgressRuleRow" where
  "toRow r = r\<lparr>er_port := (case er_port r of Some 0 \<Rightarrow> None | p \<Rightarrow> p)\<rparr>"


section \<open>Hosts, ports and the letter case of paths\<close>

definition canonicalEgressHost :: "string \<Rightarrow> string" where
  "canonicalEgressHost host = to_lower host"

definition hostMatchCandidates :: "string \<Rightarrow> string list" where
  "hostMatchCandidates host =
     (let parent = (case dropWhile (\<lambda>c. c \<noteq> CHR ''.'') host of [] \<Rightarrow> host | _ # p \<Rightarrow> p)
      in if CHR ''.'' \<in> set host then [host, ''*.'' @ parent, ''*''] else [host, ''*''])"

definition GITHUB_HOSTS :: "string list" where
  "GITHUB_HOSTS =
     [''github.com'', ''api.github.com'', ''codeload.github.com'', ''raw.githubusercontent.com'']"

definition denyIgnoresPathCase :: "string \<Rightarrow> bool" where
  "denyIgnoresPathCase host \<longleftrightarrow> host \<in> set GITHUB_HOSTS \<or> suffix ''.ghe.com'' host"

definition rulePortCovers :: "nat option \<Rightarrow> nat \<Rightarrow> bool \<Rightarrow> bool" where
  "rulePortCovers rulePort port tls \<longleftrightarrow>
     (case rulePort of None \<Rightarrow> if tls then 443 else 80 | Some p \<Rightarrow> p) = port"


section \<open>Dot segments\<close>

text \<open>
  The path up to its query is split at slashes and backslashes, raw or percent-encoded; a
  segment's name is what precedes its first semicolon, with \<^verbatim>\<open>%2e\<close> read as a dot.
\<close>

definition is_hex_pair :: "char \<Rightarrow> char \<Rightarrow> string \<Rightarrow> bool" where
  "is_hex_pair a b pair \<longleftrightarrow> to_lower [a, b] = pair"

fun path_segments :: "string \<Rightarrow> string list" where
  "path_segments [] = [[]]"
| "path_segments (c # s) =
     (if c = CHR ''/'' \<or> c = backslash then [] # path_segments s
      else (case s of
         a # b # rest \<Rightarrow>
           if c = CHR ''%'' \<and> (is_hex_pair a b ''2f'' \<or> is_hex_pair a b ''5c'')
           then [] # path_segments rest
           else (case path_segments s of [] \<Rightarrow> [[c]] | p # ps \<Rightarrow> (c # p) # ps)
       | _ \<Rightarrow> (case path_segments s of [] \<Rightarrow> [[c]] | p # ps \<Rightarrow> (c # p) # ps)))"

fun decode_dots :: "string \<Rightarrow> string" where
  "decode_dots (c # a # b # s) =
     (if c = CHR ''%'' \<and> is_hex_pair a b ''2e'' then CHR ''.'' # decode_dots s
      else c # decode_dots (a # b # s))"
| "decode_dots s = s"

definition segment_name :: "string \<Rightarrow> string" where
  "segment_name segment = hd (split_char CHR '';'' (decode_dots segment))"

definition path_names :: "string \<Rightarrow> string list" where
  "path_names path = map segment_name (path_segments (takeWhile (\<lambda>c. c \<noteq> CHR ''?'') path))"

definition is_dot_name :: "string \<Rightarrow> bool" where
  "is_dot_name name \<longleftrightarrow> name = ''.'' \<or> name = ''..''"

definition hasDotSegment :: "string \<Rightarrow> bool" where
  "hasDotSegment path \<longleftrightarrow> (\<exists>name \<in> set (path_names path). is_dot_name name)"


section \<open>The rule that decides a request\<close>

datatype QueryError = LikePatternEndsInEscape

text \<open>
  The conditions of \<^verbatim>\<open>findMatch\<close>'s \<^verbatim>\<open>WHERE\<close>: everything but the path, then the
  path.
\<close>

definition speaks_for :: "agent_id \<Rightarrow> string \<Rightarrow> string \<Rightarrow> EgressRuleRow \<Rightarrow> bool" where
  "speaks_for agentId host method r \<longleftrightarrow>
     er_agentId r = agentId
     \<and> to_lower (er_host r) \<in> set (hostMatchCandidates host)
     \<and> er_status r = Active
     \<and> (er_method r = method \<or> er_method r = ''*'')"

definition rule_path_matches :: "string \<Rightarrow> string \<Rightarrow> EgressRuleRow \<Rightarrow> bool" where
  "rule_path_matches host path r \<longleftrightarrow>
     (let pattern = like_pattern (er_pathPattern r)
      in sql_like pattern path
         \<or> (denyIgnoresPathCase host \<and> er_verdict r = Deny \<and> sql_ilike pattern path))"

text \<open>\<^verbatim>\<open>ORDER BY\<close>: host class, then method, then path, longer patterns first.\<close>

definition match_rank :: "string \<Rightarrow> EgressRuleRow \<Rightarrow> nat \<times> nat \<times> nat \<times> int" where
  "match_rank host r =
     ((if to_lower (er_host r) = host then 0 else if er_host r = ''*'' then 2 else 1),
      (if er_method r = ''*'' then 1 else 0),
      (if er_pathPattern r = ''*'' then 1 else 0),
      - int (length (er_pathPattern r)))"

text \<open>
  Rows of equal rank come in the order of the scan, which SQL leaves open; the table is any
  list, so a statement about every table covers every such order. The query does not read
  \<^verbatim>\<open>preset_source\<close>, so the row it returns has none.
\<close>

definition findMatch ::
  "EgressRuleRow table \<Rightarrow> agent_id \<Rightarrow> string \<Rightarrow> nat \<Rightarrow> bool \<Rightarrow> string \<Rightarrow> string
   \<Rightarrow> QueryError + EgressRuleRow option" where
  "findMatch t agentId requestHost port tls method path =
     (let host = canonicalEgressHost requestHost;
          candidates = filter (speaks_for agentId host method) t
      in if \<exists>r \<in> set candidates. \<not> like_escape_ok (like_pattern (er_pathPattern r))
         then Inl LikePatternEndsInEscape
         else Inr (find (\<lambda>r. rulePortCovers (er_port r) port tls)
                (map (\<lambda>r. (toRow r)\<lparr>er_presetSource := None\<rparr>)
                  (sort_key (match_rank host) (filter (rule_path_matches host path) candidates)))))"

text \<open>What the query is for: the rules that cover a request.\<close>

definition rule_covers ::
  "agent_id \<Rightarrow> string \<Rightarrow> nat \<Rightarrow> bool \<Rightarrow> string \<Rightarrow> string \<Rightarrow> EgressRuleRow \<Rightarrow> bool" where
  "rule_covers agentId requestHost port tls method path r \<longleftrightarrow>
     speaks_for agentId (canonicalEgressHost requestHost) method r
     \<and> rule_path_matches (canonicalEgressHost requestHost) path r
     \<and> rulePortCovers (er_port (toRow r)) port tls"


section \<open>Provider scopes\<close>

record ProviderEgressScope =
  sc_host :: string
  sc_port :: "nat option"
  sc_pathPattern :: string

record ProviderEgressRequest =
  rq_host :: string
  rq_port :: nat
  rq_tls :: bool
  rq_path :: string

datatype Contribution =
    EgressContribution string "nat option" "string option"
    \<comment> \<open>\<^verbatim>\<open>egress-allow\<close>, \<^verbatim>\<open>egress-inject\<close>, \<^verbatim>\<open>egress-sign\<close>: host, port, path pattern\<close>
  | EnvContribution string \<comment> \<open>the variable's name\<close>
  | OtherContribution

definition CLAUDE_CODE_ENV :: "string list" where
  "CLAUDE_CODE_ENV =
     [''ANTHROPIC_API_KEY'', ''ANTHROPIC_AUTH_TOKEN'', ''ANTHROPIC_BASE_URL'',
      ''CLAUDE_CODE_OAUTH_TOKEN'']"

definition egress_scope_of :: "Contribution \<Rightarrow> ProviderEgressScope list" where
  "egress_scope_of c =
     (case c of
        EgressContribution host port pathPattern \<Rightarrow>
          [\<lparr>sc_host = canonicalEgressHost host,
            sc_port = (case port of Some 0 \<Rightarrow> None | p \<Rightarrow> p),
            sc_pathPattern = (case pathPattern of None \<Rightarrow> ''*'' | Some p \<Rightarrow> if p = [] then ''*'' else p)\<rparr>]
      | _ \<Rightarrow> [])"

definition sets_claude_code_env :: "Contribution \<Rightarrow> bool" where
  "sets_claude_code_env c =
     (case c of EnvContribution name \<Rightarrow> name \<in> set CLAUDE_CODE_ENV | _ \<Rightarrow> False)"

text \<open>A Connection is its template id and its contributions; the provider templates are a set.\<close>

definition providerEgressScopes ::
  "(string \<Rightarrow> bool) \<Rightarrow> (string \<times> Contribution list) list \<Rightarrow> ProviderEgressScope list" where
  "providerEgressScopes providerTemplate connections =
     concat (map (\<lambda>(_, contributions).
         concat (map egress_scope_of contributions)
         @ (if list_ex sets_claude_code_env contributions
            then [\<lparr>sc_host = ''api.anthropic.com'', sc_port = None, sc_pathPattern = ''*''\<rparr>]
            else []))
       (filter (\<lambda>(templateId, _). providerTemplate templateId) connections))"

definition scopeCovers :: "ProviderEgressScope \<Rightarrow> ProviderEgressRequest \<Rightarrow> bool" where
  "scopeCovers scope request \<longleftrightarrow>
     sc_host scope = canonicalEgressHost (rq_host request)
     \<and> rulePortCovers (sc_port scope) (rq_port request) (rq_tls request)
     \<and> pathMatches (sc_pathPattern scope) (rq_path request)"


section \<open>Hosts whose traffic the gateway must inspect\<close>

definition needsL7Promotion :: "string \<Rightarrow> string \<Rightarrow> nat option \<Rightarrow> bool" where
  "needsL7Promotion method pathPattern port \<longleftrightarrow>
     method \<noteq> ''*'' \<or> pathPattern \<noteq> ''*'' \<or> port \<noteq> None"

definition promotes :: "EgressRuleRow \<Rightarrow> bool" where
  "promotes r \<longleftrightarrow> er_host r \<noteq> ''*'' \<and> \<not> prefix ''connection:'' (source_text (er_source r))
     \<and> needsL7Promotion (er_method r) (er_pathPattern r) (er_port r)"

definition promotedHosts :: "EgressRuleRow list \<Rightarrow> string list" where
  "promotedHosts rules = sort (remdups (map er_host (filter promotes rules)))"

record GatewayRestartImpact =
  gi_promoted :: "string list"
  gi_demoted :: "string list"
  gi_willRestart :: bool

definition gatewayRestartImpact ::
  "EgressRuleRow list \<Rightarrow> EgressRuleRow list \<Rightarrow> string list \<Rightarrow> GatewayRestartImpact" where
  "gatewayRestartImpact current adds removeIds =
     (let before = promotedHosts current;
          after = promotedHosts (filter (\<lambda>r. er_id r \<notin> set removeIds) current @ adds);
          promoted = filter (\<lambda>h. h \<notin> set before) after;
          demoted = filter (\<lambda>h. h \<notin> set after) before
      in \<lparr>gi_promoted = promoted, gi_demoted = demoted,
          gi_willRestart = (promoted \<noteq> [] \<or> demoted \<noteq> [])\<rparr>)"


section \<open>Lemmas: sources, hosts, ports\<close>

lemma is_connection_source_iff [simp]:
  "is_connection_source s \<longleftrightarrow> (\<exists>c. s = Connection c)"
proof -
  have "sql_like (''connection:'' @ [CHR ''%'']) (source_text s) \<longleftrightarrow> prefix ''connection:'' (source_text s)"
    by (rule sql_like_plain_prefix) (simp add: plain_char_def)
  then show ?thesis by (cases s) (simp_all add: is_connection_source_def)
qed

lemma is_preset_source_iff [simp]:
  "is_preset_source s \<longleftrightarrow> s = PresetTrusted \<or> s = PresetAll"
proof -
  have "sql_like (''preset:'' @ [CHR ''%'']) (source_text s) \<longleftrightarrow> prefix ''preset:'' (source_text s)"
    by (rule sql_like_plain_prefix) (simp add: plain_char_def)
  then show ?thesis by (cases s) (simp_all add: is_preset_source_def)
qed

lemma source_kind_code [code]:
  "is_connection_source s = (case s of Connection _ \<Rightarrow> True | _ \<Rightarrow> False)"
  "is_preset_source s = (case s of PresetTrusted \<Rightarrow> True | PresetAll \<Rightarrow> True | _ \<Rightarrow> False)"
  by (simp_all split: EgressRuleSource.split)

lemma toRow_simps [simp]:
  "er_id (toRow r) = er_id r" "er_agentId (toRow r) = er_agentId r" "er_host (toRow r) = er_host r"
  "er_method (toRow r) = er_method r" "er_pathPattern (toRow r) = er_pathPattern r"
  "er_verdict (toRow r) = er_verdict r" "er_status (toRow r) = er_status r"
  "er_source (toRow r) = er_source r" "er_presetSource (toRow r) = er_presetSource r"
  "er_decidedBy (toRow r) = er_decidedBy r" "er_decidedAt (toRow r) = er_decidedAt r"
  by (simp_all add: toRow_def)

lemma canonicalEgressHost_idem [simp]:
  "canonicalEgressHost (canonicalEgressHost h) = canonicalEgressHost h"
  by (simp add: canonicalEgressHost_def)

lemma label_split:
  "CHR ''.'' \<notin> set label \<Longrightarrow>
   dropWhile (\<lambda>c. c \<noteq> CHR ''.'') (label @ CHR ''.'' # parent) = CHR ''.'' # parent
   \<and> takeWhile (\<lambda>c. c \<noteq> CHR ''.'') (label @ CHR ''.'' # parent) = label"
  by (induction label) auto

lemma hostMatchCandidates_dotted:
  "CHR ''.'' \<notin> set label \<Longrightarrow>
   hostMatchCandidates (label @ CHR ''.'' # parent)
     = [label @ CHR ''.'' # parent, ''*.'' @ parent, ''*'']"
  by (simp add: hostMatchCandidates_def label_split)

lemma hostMatchCandidates_undotted:
  "CHR ''.'' \<notin> set host \<Longrightarrow> hostMatchCandidates host = [host, ''*'']"
  by (simp add: hostMatchCandidates_def)

lemma label_split_unique:
  assumes "l @ CHR ''.'' # p = l' @ CHR ''.'' # p'"
    and "CHR ''.'' \<notin> set l" and "CHR ''.'' \<notin> set l'"
  shows "l = l' \<and> p = p'"
  using label_split [OF assms(2), of p, unfolded assms(1)] label_split [OF assms(3), of p']
  by simp


section \<open>Lemmas: the deciding rule\<close>

text \<open>The first match in a list sorted by a key has the least key of all matches.\<close>

lemma find_sorted_min:
  "\<lbrakk>sorted (map k xs); find p xs = Some x; y \<in> set xs; p y\<rbrakk> \<Longrightarrow> k x \<le> k y"
proof (induction xs)
  case (Cons a xs)
  then show ?case by (cases "p a") auto
qed simp

lemma find_sort_key:
  assumes "find p (sort_key k xs) = Some x"
  shows "x \<in> set xs \<and> p x \<and> (\<forall>y \<in> set xs. p y \<longrightarrow> k x \<le> k y)"
proof (intro conjI ballI impI)
  from find_SomeD [OF assms] show "x \<in> set xs" "p x" by auto
  fix y assume "y \<in> set xs" "p y"
  then show "k x \<le> k y"
    using find_sorted_min [OF sorted_sort_key assms, of y] by simp
qed

lemma find_map: "find p (map f xs) = map_option f (find (p \<circ> f) xs)"
  by (induction xs) auto

text \<open>The row the query returns, as a function of the stored one.\<close>

definition queried :: "EgressRuleRow \<Rightarrow> EgressRuleRow" where
  "queried r = (toRow r)\<lparr>er_presetSource := None\<rparr>"

lemma queried_simps [simp]:
  "er_id (queried r) = er_id r" "er_agentId (queried r) = er_agentId r"
  "er_host (queried r) = er_host r" "er_port (queried r) = er_port (toRow r)"
  "er_method (queried r) = er_method r" "er_pathPattern (queried r) = er_pathPattern r"
  "er_verdict (queried r) = er_verdict r" "er_status (queried r) = er_status r"
  by (simp_all add: queried_def)

lemma findMatch_unfold:
  "findMatch t a h port tls m path =
     (if \<exists>r \<in> set t. speaks_for a (canonicalEgressHost h) m r
            \<and> \<not> like_escape_ok (like_pattern (er_pathPattern r))
      then Inl LikePatternEndsInEscape
      else Inr (map_option queried
             (find (\<lambda>r. rulePortCovers (er_port (toRow r)) port tls)
               (sort_key (match_rank (canonicalEgressHost h))
                 (filter (rule_path_matches (canonicalEgressHost h) path)
                   (filter (speaks_for a (canonicalEgressHost h) m) t))))))"
  by (auto simp: findMatch_def Let_def find_map comp_def queried_def [abs_def])

lemma findMatch_answers_iff:
  "(\<exists>d. findMatch t a h port tls m path = Inr d) \<longleftrightarrow>
     \<not> (\<exists>r \<in> set t. speaks_for a (canonicalEgressHost h) m r
            \<and> \<not> like_escape_ok (like_pattern (er_pathPattern r)))"
  by (simp add: findMatch_unfold)

lemma findMatch_Some:
  assumes "findMatch t a h port tls m path = Inr (Some r)"
  obtains row where "row \<in> set t" and "rule_covers a h port tls m path row" and "r = queried row"
    and "\<And>row'. \<lbrakk>row' \<in> set t; rule_covers a h port tls m path row'\<rbrakk> \<Longrightarrow>
           match_rank (canonicalEgressHost h) row \<le> match_rank (canonicalEgressHost h) row'"
proof -
  let ?rows = "filter (rule_path_matches (canonicalEgressHost h) path)
                 (filter (speaks_for a (canonicalEgressHost h) m) t)"
  from assms obtain row where
    found: "find (\<lambda>r. rulePortCovers (er_port (toRow r)) port tls)
              (sort_key (match_rank (canonicalEgressHost h)) ?rows) = Some row"
    and r: "r = queried row"
    by (auto simp: findMatch_unfold split: if_splits)
  from find_sort_key [OF found] show ?thesis
    by (intro that [of row]) (auto simp: rule_covers_def r)
qed

lemma findMatch_None:
  assumes "findMatch t a h port tls m path = Inr None" and "row \<in> set t"
  shows "\<not> rule_covers a h port tls m path row"
proof -
  from assms(1) have "find (\<lambda>r. rulePortCovers (er_port (toRow r)) port tls)
      (sort_key (match_rank (canonicalEgressHost h))
        (filter (rule_path_matches (canonicalEgressHost h) path)
          (filter (speaks_for a (canonicalEgressHost h) m) t))) = None"
    by (simp add: findMatch_unfold split: if_splits)
  with assms(2) show ?thesis
    by (auto simp: find_None_iff rule_covers_def)
qed

lemma findMatch_no_error:
  "(\<And>r. r \<in> set t \<Longrightarrow> backslash \<notin> set (er_pathPattern r)) \<Longrightarrow>
   \<exists>d. findMatch t a h port tls m path = Inr d"
proof -
  assume no_escape: "\<And>r. r \<in> set t \<Longrightarrow> backslash \<notin> set (er_pathPattern r)"
  have "like_escape_ok (like_pattern (er_pathPattern r))" if "r \<in> set t" for r
    using no_escape [OF that]
    by (intro like_escape_ok_no_escape) (auto simp: like_pattern_def replace_char_def)
  then show ?thesis by (simp add: findMatch_unfold)
qed


section \<open>Properties: which rule decides\<close>

text \<open>
  C1. The rule that decides a request is an active rule of that agent that covers the request,
  and no covering rule is more specific: among the rules for the host itself, its wildcard and
  the bare star, the query answers with one of least rank (host class, then method, then path,
  then longest pattern). When it answers with no rule, no rule of the table covers the request.
\<close>

theorem findMatch_most_specific:
  assumes "findMatch t a h port tls m path = Inr d"
  shows "case d of
      None \<Rightarrow> \<forall>row \<in> set t. \<not> rule_covers a h port tls m path row
    | Some r \<Rightarrow> er_status r = Active \<and> er_agentId r = a \<and>
        (\<exists>row \<in> set t. rule_covers a h port tls m path row \<and> r = (toRow row)\<lparr>er_presetSource := None\<rparr>
          \<and> (\<forall>row' \<in> set t. rule_covers a h port tls m path row' \<longrightarrow>
               match_rank (canonicalEgressHost h) row \<le> match_rank (canonicalEgressHost h) row'))"
proof (cases d)
  case None
  from findMatch_None [OF assms [unfolded None]] show ?thesis by (simp add: None)
next
  case (Some r)
  from findMatch_Some [OF assms [unfolded Some]] obtain row where row: "row \<in> set t" "rule_covers a h port tls m path row"
    and r: "r = queried row" and least: "\<And>row'. \<lbrakk>row' \<in> set t; rule_covers a h port tls m path row'\<rbrakk> \<Longrightarrow>
           match_rank (canonicalEgressHost h) row \<le> match_rank (canonicalEgressHost h) row'"
    by metis
  from row(2) have "er_status row = Active \<and> er_agentId row = a"
    by (simp add: rule_covers_def speaks_for_def)
  with row least show ?thesis
    unfolding Some r by (auto simp: queried_def [symmetric] intro!: bexI [of _ row])
qed

definition sample_rule :: "string \<Rightarrow> string \<Rightarrow> string \<Rightarrow> string \<Rightarrow> RuleVerdict \<Rightarrow> EgressRuleRow" where
  "sample_rule i host method pathPattern verdict =
     \<lparr>er_id = i, er_agentId = ''a'', er_host = host, er_port = None, er_method = method,
      er_pathPattern = pathPattern, er_verdict = verdict, er_decidedBy = ''u'', er_decidedAt = 0,
      er_status = Active, er_source = Manual, er_presetSource = None\<rparr>"

lemma sample_rule_sel [simp]:
  "er_id (sample_rule i h m p v) = i" "er_agentId (sample_rule i h m p v) = ''a''"
  "er_host (sample_rule i h m p v) = h" "er_port (sample_rule i h m p v) = None"
  "er_method (sample_rule i h m p v) = m" "er_pathPattern (sample_rule i h m p v) = p"
  "er_verdict (sample_rule i h m p v) = v" "er_status (sample_rule i h m p v) = Active"
  by (simp_all add: sample_rule_def)


theorem findMatch_most_specific_witness:
  "let t = [sample_rule ''r1'' ''*'' ''*'' ''*'' Allow, sample_rule ''r2'' ''x.io'' ''*'' ''/a'' Deny]
   in findMatch t ''a'' ''X.io'' 443 True ''GET'' ''/a'' = Inr (Some (queried (t ! 1)))
      \<and> er_agentId (queried (t ! 1)) = ''a''"
proof -
  let ?t = "[sample_rule ''r1'' ''*'' ''*'' ''*'' Allow, sample_rule ''r2'' ''x.io'' ''*'' ''/a'' Deny]"
  have "findMatch ?t ''a'' ''X.io'' 443 True ''GET'' ''/a'' = Inr (Some (queried (?t ! 1)))"
    by code_simp
  from findMatch_most_specific [OF this] this show ?thesis by (simp add: Let_def)
qed


section \<open>Properties: hosts, ports and paths\<close>

text \<open>
  The stored hosts that speak for a request's host are the host itself, the bare star, and
  the wildcard that replaces exactly its first label.
\<close>

theorem hostMatchCandidates_iff:
  "x \<in> set (hostMatchCandidates host) \<longleftrightarrow>
     x = host \<or> x = ''*'' \<or>
     (\<exists>label parent. host = label @ ''.'' @ parent \<and> CHR ''.'' \<notin> set label \<and> x = ''*.'' @ parent)"
proof (cases "CHR ''.'' \<in> set host")
  case True
  then obtain label parent where
    host: "host = label @ CHR ''.'' # parent" and label: "CHR ''.'' \<notin> set label"
    by (metis split_list_first)
  have "(\<exists>l p. host = l @ ''.'' @ p \<and> CHR ''.'' \<notin> set l \<and> x = ''*.'' @ p) \<longleftrightarrow> x = ''*.'' @ parent"
    using host label label_split_unique [of label parent] by auto
  then show ?thesis by (simp add: host hostMatchCandidates_dotted [OF label]) blast
next
  case False
  then show ?thesis by (auto simp: hostMatchCandidates_undotted)
qed

text \<open>What an upstream that resolves dot segments makes of the names of a path.\<close>

fun resolve_names :: "string list \<Rightarrow> string list \<Rightarrow> string list" where
  "resolve_names seen [] = rev seen"
| "resolve_names seen (name # names) =
     (if name = ''.'' then resolve_names seen names
      else if name = ''..'' then resolve_names (tl seen) names
      else resolve_names (name # seen) names)"

lemma resolve_names_no_dots:
  "\<forall>name \<in> set names. \<not> is_dot_name name \<Longrightarrow> resolve_names seen names = rev seen @ names"
  by (induction names arbitrary: seen) (simp_all add: is_dot_name_def)

lemma set_resolve_names:
  "name \<in> set (resolve_names seen names) \<Longrightarrow> name \<in> set seen \<or> \<not> is_dot_name name"
proof (induction names arbitrary: seen)
  case (Cons n names)
  have "name \<in> set (tl seen) \<Longrightarrow> name \<in> set seen" by (cases seen) auto
  with Cons.IH [of seen] Cons.IH [of "tl seen"] Cons.IH [of "n # seen"] Cons.prems show ?case
    by (auto simp: is_dot_name_def split: if_splits)
qed simp


text \<open>
  The regular expression that a provider scope is matched with and the \<^verbatim>\<open>LIKE\<close> that a
  rule is matched with read a path pattern alike: a scope covers a request exactly when its host
  and port do and the SQL pattern accepts the path, for every pattern SQL accepts.
\<close>

theorem scopeCovers_as_rule:
  assumes "like_escape_ok (like_pattern (sc_pathPattern scope))"
  shows "scopeCovers scope request \<longleftrightarrow>
           sc_host scope = canonicalEgressHost (rq_host request)
           \<and> rulePortCovers (sc_port scope) (rq_port request) (rq_tls request)
           \<and> sql_like (like_pattern (sc_pathPattern scope)) (rq_path request)"
  using regex_test_sql_like [OF assms] by (simp add: scopeCovers_def pathMatches_def)

theorem scopeCovers_as_rule_witness:
  "scopeCovers \<lparr>sc_host = ''x.io'', sc_port = None, sc_pathPattern = ''/v1/*''\<rparr>
     \<lparr>rq_host = ''X.io'', rq_port = 443, rq_tls = True, rq_path = ''/v1/chat''\<rparr>
   = sql_like ''/v1/%'' ''/v1/chat''"
  by (subst scopeCovers_as_rule) (code_simp, code_simp)

text \<open>
  On GitHub's hosts a deny covers its path in every letter case, so a request whose path
  differs from a denied one only in case is denied too, whatever the case; an allow never
  covers a path it does not name in that case.
\<close>

lemma github_deny_ignores_case:
  assumes "denyIgnoresPathCase host"
  shows "rule_path_matches host path r =
     (case er_verdict r of
        Deny \<Rightarrow> sql_like (like_pattern (er_pathPattern r)) path
                \<or> sql_like (to_lower (like_pattern (er_pathPattern r))) (to_lower path)
      | Allow \<Rightarrow> sql_like (like_pattern (er_pathPattern r)) path)"
  using assms by (cases "er_verdict r") (auto simp: rule_path_matches_def sql_ilike_def Let_def)

lemma findMatch_verdict:
  assumes "findMatch t a h port tls m path = Inr d" and "findMatch t' a h port tls m path = Inr d'"
    and "set t' = set t"
    and agree: "\<And>r r'. \<lbrakk>r \<in> set t; r' \<in> set t; rule_covers a h port tls m path r;
        rule_covers a h port tls m path r';
        match_rank (canonicalEgressHost h) r = match_rank (canonicalEgressHost h) r'\<rbrakk> \<Longrightarrow>
        er_verdict r = er_verdict r'"
  shows "map_option er_verdict d' = map_option er_verdict d"
proof (cases d; cases d')
  fix r r' assume "d = Some r" and "d' = Some r'"
  with assms(1,2) obtain row row' where
    row: "row \<in> set t" "rule_covers a h port tls m path row" "r = queried row"
    and row': "row' \<in> set t'" "rule_covers a h port tls m path row'" "r' = queried row'"
    and "match_rank (canonicalEgressHost h) row \<le> match_rank (canonicalEgressHost h) row'"
    and "match_rank (canonicalEgressHost h) row' \<le> match_rank (canonicalEgressHost h) row"
    by (metis findMatch_Some assms(3))
  with agree [of row row'] assms(3) have "er_verdict row = er_verdict row'" by simp
  then show ?thesis using \<open>d = Some r\<close> \<open>d' = Some r'\<close> row(3) row'(3) by simp
next
  fix r assume "d = Some r" and "d' = None"
  then show ?thesis using assms(1-3) by (metis findMatch_Some findMatch_None)
next
  fix r' assume "d = None" and "d' = Some r'"
  then show ?thesis using assms(1-3) by (metis findMatch_Some findMatch_None)
qed simp

text \<open>
  The order in which the database scans the rules does not change the verdict, as long as
  the covering rules of one rank agree on it.
\<close>

theorem findMatch_scan_order:
  assumes "set t' = set t"
    and "\<And>r r'. \<lbrakk>r \<in> set t; r' \<in> set t; rule_covers a h port tls m path r;
        rule_covers a h port tls m path r';
        match_rank (canonicalEgressHost h) r = match_rank (canonicalEgressHost h) r'\<rbrakk> \<Longrightarrow>
        er_verdict r = er_verdict r'"
  shows "map_sum id (map_option er_verdict) (findMatch t' a h port tls m path)
       = map_sum id (map_option er_verdict) (findMatch t a h port tls m path)"
proof (cases "\<exists>r \<in> set t. speaks_for a (canonicalEgressHost h) m r
            \<and> \<not> like_escape_ok (like_pattern (er_pathPattern r))")
  case True
  then show ?thesis by (simp add: findMatch_unfold assms(1))
next
  case False
  then have "\<exists>d. findMatch t a h port tls m path = Inr d" and "\<exists>d. findMatch t' a h port tls m path = Inr d"
    by (simp_all only: findMatch_answers_iff assms(1)) simp_all
  then obtain d d' where
    found: "findMatch t a h port tls m path = Inr d" "findMatch t' a h port tls m path = Inr d'"
    by blast
  have "map_option er_verdict d' = map_option er_verdict d"
    by (rule findMatch_verdict [OF found assms(1)]) (rule assms(2))
  then show ?thesis by (simp add: found)
qed

theorem findMatch_scan_order_witness:
  "let r1 = sample_rule ''r1'' ''*'' ''*'' ''*'' Allow; r2 = sample_rule ''r2'' ''x.io'' ''*'' ''/a'' Deny
   in map_sum id (map_option er_verdict) (findMatch [r1, r2] ''a'' ''x.io'' 443 True ''GET'' ''/a'')
    = map_sum id (map_option er_verdict) (findMatch [r2, r1] ''a'' ''x.io'' 443 True ''GET'' ''/a'')"
proof -
  let ?r1 = "sample_rule ''r1'' ''*'' ''*'' ''*'' Allow"
  let ?r2 = "sample_rule ''r2'' ''x.io'' ''*'' ''/a'' Deny"
  have "match_rank (canonicalEgressHost ''x.io'') ?r1 \<noteq> match_rank (canonicalEgressHost ''x.io'') ?r2"
    by code_simp
  then show ?thesis
    unfolding Let_def by (intro findMatch_scan_order) auto
qed

text \<open>
  Rules of one rank that disagree leave the verdict to the order of the scan. Two rules for
  one host whose different patterns have one length can both cover a request: the same two
  rules allow it in one order and deny it in the other.
\<close>

theorem findMatch_equal_rank_depends_on_scan:
  "\<exists>allow deny path. er_verdict allow = Allow \<and> er_verdict deny = Deny
     \<and> er_host allow = er_host deny \<and> er_pathPattern allow \<noteq> er_pathPattern deny
     \<and> map_sum id (map_option er_verdict) (findMatch [allow, deny] ''a'' ''x.io'' 443 True ''GET'' path)
         = Inr (Some Allow)
     \<and> map_sum id (map_option er_verdict) (findMatch [deny, allow] ''a'' ''x.io'' 443 True ''GET'' path)
         = Inr (Some Deny)"
proof -
  let ?allow = "sample_rule ''r1'' ''x.io'' ''*'' ''/v1/*/x'' Allow"
  let ?deny = "sample_rule ''r2'' ''x.io'' ''*'' ''/v1/a/*'' Deny"
  have "map_sum id (map_option er_verdict) (findMatch [?allow, ?deny] ''a'' ''x.io'' 443 True ''GET'' ''/v1/a/x'')
          = Inr (Some Allow)"
    and "map_sum id (map_option er_verdict) (findMatch [?deny, ?allow] ''a'' ''x.io'' 443 True ''GET'' ''/v1/a/x'')
          = Inr (Some Deny)"
    by code_simp+
  then show ?thesis
    by (intro exI [of _ ?allow] exI [of _ ?deny] exI [of _ "''/v1/a/x''"]) simp
qed

text \<open>
  A path written into a rule as it was sent covers that path, but not only that path: its
  underscores stand for any character, so a rule for \<^verbatim>\<open>/v1/user_data\<close> also covers
  \<^verbatim>\<open>/v1/user-data\<close>.
\<close>

theorem literal_path_rule_covers:
  assumes "backslash \<notin> set (er_pathPattern r)"
    and "list_all2 (\<lambda>p c. c = p \<or> p = CHR ''_'') (er_pathPattern r) path"
  shows "rule_path_matches host path r"
  using sql_like_pointwise [OF assms(2,1)] by (simp add: rule_path_matches_def Let_def)

theorem literal_path_rule_covers_witness:
  "rule_path_matches ''x.io'' ''/v1/user_data'' (sample_rule ''r'' ''x.io'' ''*'' ''/v1/user_data'' Allow)
   \<and> rule_path_matches ''x.io'' ''/v1/user-data'' (sample_rule ''r'' ''x.io'' ''*'' ''/v1/user_data'' Allow)"
  by (intro conjI literal_path_rule_covers) simp_all

end
