(* ===== verification/Egress_Repository.thy ===== *)
theory Egress_Repository
  imports Egress_Match
begin

text \<open>
  The table of egress rules and every operation of
  \<^verbatim>\<open>egress-rules/infrastructure/egress-rules-repository.ts\<close> on it, with the two
  constraints of its schema (\<^verbatim>\<open>db/src/schema.ts\<close>): the id is the primary key, and the
  active rules are unique on agent, host, port, method and path pattern. A step relation of the
  operations that change the table carries the invariant to every reachable table.
\<close>

section \<open>The table and its constraints\<close>

datatype RulesError =
    UniqueViolation \<comment> \<open>the database refuses an update that repeats an active tuple\<close>
  | NoRowAfterConflict \<comment> \<open>\<^verbatim>\<open>insert returned no row and no match found\<close>\<close>

record NewEgressRule =
  ne_id :: string
  ne_agentId :: agent_id
  ne_host :: string
  ne_port :: "nat option"
  ne_method :: string
  ne_pathPattern :: string
  ne_verdict :: RuleVerdict
  ne_decidedBy :: user_sub
  ne_source :: EgressRuleSource

text \<open>The row an insert writes: the columns it leaves out take the defaults of the schema.\<close>

definition stored_rule :: "time_ms \<Rightarrow> NewEgressRule \<Rightarrow> EgressRuleRow" where
  "stored_rule now row =
     \<lparr>er_id = ne_id row, er_agentId = ne_agentId row, er_host = ne_host row, er_port = ne_port row,
      er_method = ne_method row, er_pathPattern = ne_pathPattern row, er_verdict = ne_verdict row,
      er_decidedBy = ne_decidedBy row, er_decidedAt = now, er_status = Active,
      er_source = ne_source row, er_presetSource = None\<rparr>"

text \<open>The columns of the unique index; a missing port counts as 0.\<close>

type_synonym rule_key = "agent_id \<times> string \<times> nat \<times> string \<times> string"

definition lookup_key :: "EgressRuleRow \<Rightarrow> rule_key" where
  "lookup_key r =
     (er_agentId r, er_host r, (case er_port r of None \<Rightarrow> 0 | Some p \<Rightarrow> p), er_method r, er_pathPattern r)"

definition is_active :: "EgressRuleRow \<Rightarrow> bool" where
  "is_active r \<longleftrightarrow> er_status r = Active"

definition rule_conflicts :: "EgressRuleRow table \<Rightarrow> EgressRuleRow \<Rightarrow> bool" where
  "rule_conflicts t r \<longleftrightarrow>
     (\<exists>x \<in> set t. er_id x = er_id r \<or> is_active x \<and> is_active r \<and> lookup_key x = lookup_key r)"

text \<open>\<^verbatim>\<open>INSERT \<dots> ON CONFLICT DO NOTHING RETURNING *\<close>.\<close>

definition insert_or_nothing ::
  "EgressRuleRow table \<Rightarrow> EgressRuleRow \<Rightarrow> EgressRuleRow option \<times> EgressRuleRow table" where
  "insert_or_nothing t r = (if rule_conflicts t r then (None, t) else (Some r, t @ [r]))"


section \<open>The operations of the repository\<close>

definition getById :: "EgressRuleRow table \<Rightarrow> string \<Rightarrow> EgressRuleRow option" where
  "getById t i = map_option toRow (find (\<lambda>r. er_id r = i) t)"

definition same_tuple ::
  "agent_id \<Rightarrow> string \<Rightarrow> nat option \<Rightarrow> string \<Rightarrow> string \<Rightarrow> EgressRuleRow \<Rightarrow> bool" where
  "same_tuple agentId host port method pathPattern r \<longleftrightarrow>
     er_agentId r = agentId \<and> er_host r = host \<and> er_port r = port
     \<and> er_method r = method \<and> er_pathPattern r = pathPattern \<and> is_active r"

definition getActiveByTuple ::
  "EgressRuleRow table \<Rightarrow> agent_id \<Rightarrow> string \<Rightarrow> nat option \<Rightarrow> string \<Rightarrow> string \<Rightarrow> EgressRuleRow option" where
  "getActiveByTuple t agentId host port method pathPattern =
     map_option toRow (find (same_tuple agentId host port method pathPattern) t)"

definition hasUserOwnedRuleForHost :: "EgressRuleRow table \<Rightarrow> agent_id \<Rightarrow> string \<Rightarrow> bool" where
  "hasUserOwnedRuleForHost t agentId host \<longleftrightarrow>
     (\<exists>r \<in> set t. er_agentId r = agentId \<and> er_host r = host \<and> is_active r
        \<and> (er_source r = Manual \<or> er_source r = Inbox))"

definition listConnectionDerivedForAgent :: "EgressRuleRow table \<Rightarrow> agent_id \<Rightarrow> EgressRuleRow list" where
  "listConnectionDerivedForAgent t agentId =
     map toRow (filter (\<lambda>r. er_agentId r = agentId \<and> is_active r \<and> is_connection_source (er_source r)) t)"

definition revokePresetRowsForAgent :: "EgressRuleRow table \<Rightarrow> agent_id \<Rightarrow> EgressRuleRow table" where
  "revokePresetRowsForAgent t agentId =
     update_where (\<lambda>r. er_agentId r = agentId \<and> is_active r \<and> is_preset_source (er_source r))
       (er_status_update (\<lambda>_. Revoked))
       (update_where (\<lambda>r. er_agentId r = agentId \<and> is_active r \<and> er_presetSource r \<noteq> None)
         (er_presetSource_update (\<lambda>_. None)) t)"

text \<open>A connection row that stands where the preset would have put its own.\<close>

definition under_connection :: "string list \<Rightarrow> EgressRuleRow \<Rightarrow> bool" where
  "under_connection hosts r \<longleftrightarrow>
     is_active r \<and> is_connection_source (er_source r)
     \<and> to_lower (er_host r) \<in> set (map canonicalEgressHost hosts)
     \<and> er_port r = None \<and> er_method r = ''*'' \<and> er_pathPattern r = ''*''"

definition markPresetUnderConnections ::
  "EgressRuleRow table \<Rightarrow> agent_id \<Rightarrow> string list \<Rightarrow> EgressRuleSource \<Rightarrow> EgressRuleRow table" where
  "markPresetUnderConnections t agentId hosts source =
     (if hosts = [] then t
      else update_where (\<lambda>r. er_agentId r = agentId \<and> under_connection hosts r)
             (er_presetSource_update (\<lambda>_. Some source)) t)"

definition seeded_beside :: "EgressRuleRow table \<Rightarrow> EgressRuleSource \<Rightarrow> EgressRuleRow \<Rightarrow> bool" where
  "seeded_beside t source taken \<longleftrightarrow>
     (\<exists>seeded \<in> set t. er_agentId seeded = er_agentId taken \<and> er_source seeded = source
        \<and> er_decidedAt taken - 5000 \<le> er_decidedAt seeded \<and> er_decidedAt seeded \<le> er_decidedAt taken + 5000)
     \<and> (\<exists>current \<in> set t. er_agentId current = er_agentId taken \<and> is_active current
        \<and> er_source current = source)"

definition markSeededConnectionRows ::
  "EgressRuleRow table \<Rightarrow> string list \<Rightarrow> EgressRuleSource \<Rightarrow> nat \<times> EgressRuleRow table" where
  "markSeededConnectionRows t hosts source =
     (if hosts = [] then (0, t)
      else let taken = (\<lambda>r. under_connection hosts r \<and> er_presetSource r = None \<and> seeded_beside t source r)
           in (length (filter taken t), update_where taken (er_presetSource_update (\<lambda>_. Some source)) t))"

datatype EgressPreset = PresetNone | Trusted | All

definition getPresetForAgent :: "EgressRuleRow table \<Rightarrow> agent_id \<Rightarrow> EgressPreset" where
  "getPresetForAgent t agentId =
     (let sources = map er_source (filter (\<lambda>r. er_agentId r = agentId \<and> is_active r
                      \<and> is_preset_source (er_source r)) t)
      in if PresetAll \<in> set sources then All
         else if PresetTrusted \<in> set sources then Trusted else PresetNone)"

definition insert_rule ::
  "EgressRuleRow table \<Rightarrow> time_ms \<Rightarrow> NewEgressRule \<Rightarrow> RulesError + EgressRuleRow \<times> EgressRuleRow table" where
  "insert_rule t now row =
     (case insert_or_nothing t (stored_rule now row) of
        (Some inserted, t') \<Rightarrow> Inr (toRow inserted, t')
      | (None, t') \<Rightarrow>
          (case getActiveByTuple t' (ne_agentId row) (ne_host row) (ne_port row) (ne_method row) (ne_pathPattern row) of
             None \<Rightarrow> Inl NoRowAfterConflict
           | Some existing \<Rightarrow> Inr (existing, t')))"

text \<open>One statement; a row that conflicts with an earlier one of the same list is skipped too.\<close>

definition insertAll :: "EgressRuleRow table \<Rightarrow> time_ms \<Rightarrow> NewEgressRule list \<Rightarrow> EgressRuleRow table" where
  "insertAll t now rows = foldl (\<lambda>t row. snd (insert_or_nothing t (stored_rule now row))) t rows"

definition promotable :: "NewEgressRule \<Rightarrow> EgressRuleRow \<Rightarrow> bool" where
  "promotable row r \<longleftrightarrow>
     same_tuple (ne_agentId row) (ne_host row) (ne_port row) (ne_method row) (ne_pathPattern row) r
     \<and> is_preset_source (er_source r)"

definition promote_row :: "NewEgressRule \<Rightarrow> EgressRuleRow \<Rightarrow> EgressRuleRow" where
  "promote_row row r =
     r\<lparr>er_presetSource := (if is_connection_source (ne_source row) then Some (er_source r) else None),
       er_source := ne_source row, er_decidedBy := ne_decidedBy row\<rparr>"

definition insertOrPromoteFromPreset ::
  "EgressRuleRow table \<Rightarrow> time_ms \<Rightarrow> NewEgressRule \<Rightarrow> RulesError + EgressRuleRow \<times> EgressRuleRow table" where
  "insertOrPromoteFromPreset t now row =
     (case insert_or_nothing t (stored_rule now row) of
        (Some inserted, t') \<Rightarrow> Inr (toRow inserted, t')
      | (None, t') \<Rightarrow>
          let promoted = map (promote_row row) (filter (promotable row) t');
              t'' = update_where (promotable row) (promote_row row) t'
          in (case promoted of
                first # _ \<Rightarrow> Inr ((toRow first)\<lparr>er_presetSource := None\<rparr>, t'')
              | [] \<Rightarrow>
                  (case getActiveByTuple t'' (ne_agentId row) (ne_host row) (ne_port row) (ne_method row) (ne_pathPattern row) of
                     None \<Rightarrow> Inl NoRowAfterConflict
                   | Some existing \<Rightarrow> Inr (existing, t''))))"

record TakeOwnershipInput =
  to_id :: string
  to_method :: string
  to_pathPattern :: string
  to_verdict :: RuleVerdict
  to_decidedBy :: user_sub
  to_source :: EgressRuleSource

definition take_ownership :: "TakeOwnershipInput \<Rightarrow> EgressRuleRow \<Rightarrow> EgressRuleRow" where
  "take_ownership input r =
     r\<lparr>er_method := to_method input, er_pathPattern := to_pathPattern input,
       er_verdict := to_verdict input, er_decidedBy := to_decidedBy input,
       er_source := to_source input, er_presetSource := None\<rparr>"

text \<open>The one update that writes columns of the unique index, so the one the index can refuse.\<close>

definition updateTakeOwnership ::
  "EgressRuleRow table \<Rightarrow> TakeOwnershipInput \<Rightarrow> RulesError + EgressRuleRow option \<times> EgressRuleRow table" where
  "updateTakeOwnership t input =
     (case find (\<lambda>r. er_id r = to_id input \<and> is_active r) t of
        None \<Rightarrow> Inr (None, t)
      | Some r \<Rightarrow>
          if \<exists>x \<in> set t. er_id x \<noteq> er_id r \<and> is_active x \<and> lookup_key x = lookup_key (take_ownership input r)
          then Inl UniqueViolation
          else Inr (Some (toRow (take_ownership input r)),
                    update_where (\<lambda>r. er_id r = to_id input \<and> is_active r) (take_ownership input) t))"

definition platformRule :: "EgressRuleRow table \<Rightarrow> agent_id \<Rightarrow> EgressRuleRow option \<times> bool" where
  "platformRule t agentId =
     (let rows = filter (\<lambda>r. er_agentId r = agentId \<and> er_source r = PlatformEnvironments) t
      in (map_option toRow (find is_active rows), rows \<noteq> []))"

definition listForAgent :: "EgressRuleRow table \<Rightarrow> agent_id \<Rightarrow> EgressRuleRow list" where
  "listForAgent t agentId =
     map toRow (sort_key (\<lambda>r. - er_decidedAt r) (filter (\<lambda>r. er_agentId r = agentId \<and> is_active r) t))"

text \<open>The scan keeps a port of 0, unlike \<^const>\<open>toRow\<close>.\<close>

definition listActiveForPromotionScan :: "EgressRuleRow table \<Rightarrow> EgressRuleRow list" where
  "listActiveForPromotionScan t = filter is_active t"

definition reassignActiveSource ::
  "EgressRuleRow table \<Rightarrow> agent_id \<Rightarrow> EgressRuleSource list \<Rightarrow> EgressRuleSource \<Rightarrow> EgressRuleRow table" where
  "reassignActiveSource t agentId fromSources toSource =
     (if fromSources = [] then t
      else update_where (\<lambda>r. er_agentId r = agentId \<and> is_active r \<and> er_source r \<in> set fromSources)
             (er_source_update (\<lambda>_. toSource)) t)"

definition restore_preset :: "EgressRuleRow \<Rightarrow> EgressRuleRow" where
  "restore_preset r =
     (case er_presetSource r of None \<Rightarrow> r | Some p \<Rightarrow> r\<lparr>er_source := p, er_presetSource := None\<rparr>)"

definition restorePresetSource :: "EgressRuleRow table \<Rightarrow> string \<Rightarrow> EgressRuleRow table" where
  "restorePresetSource t i =
     update_where (\<lambda>r. er_id r = i \<and> is_active r \<and> er_presetSource r \<noteq> None) restore_preset t"

definition revoke_rule :: "EgressRuleRow table \<Rightarrow> string \<Rightarrow> EgressRuleRow table" where
  "revoke_rule t i = update_where (\<lambda>r. er_id r = i) (er_status_update (\<lambda>_. Revoked)) t"

definition deleteForAgent :: "EgressRuleRow table \<Rightarrow> agent_id \<Rightarrow> EgressRuleRow table" where
  "deleteForAgent t agentId = delete_where (\<lambda>r. er_agentId r = agentId) t"

definition listDistinctAgentIds :: "EgressRuleRow table \<Rightarrow> agent_id list" where
  "listDistinctAgentIds t = remdups (map er_agentId t)"


section \<open>The invariant of the table\<close>

definition preset_ok :: "EgressRuleRow \<Rightarrow> bool" where
  "preset_ok r \<longleftrightarrow> (case er_presetSource r of
       None \<Rightarrow> True
     | Some p \<Rightarrow> is_connection_source (er_source r) \<and> is_preset_source p)"

definition rules_inv :: "EgressRuleRow table \<Rightarrow> bool" where
  "rules_inv t \<longleftrightarrow> distinct (map er_id t) \<and> distinct (map lookup_key (filter is_active t))
     \<and> list_all preset_ok t"

text \<open>How the update functions act on what the invariant reads.\<close>

named_theorems rule_simps "the columns of the rows that the operations write"

lemma stored_rule_simps [simp, rule_simps]:
  "er_id (stored_rule now row) = ne_id row" "er_agentId (stored_rule now row) = ne_agentId row"
  "er_host (stored_rule now row) = ne_host row" "er_port (stored_rule now row) = ne_port row"
  "er_method (stored_rule now row) = ne_method row" "er_pathPattern (stored_rule now row) = ne_pathPattern row"
  "er_verdict (stored_rule now row) = ne_verdict row" "er_source (stored_rule now row) = ne_source row"
  "er_status (stored_rule now row) = Active" "er_presetSource (stored_rule now row) = None"
  "is_active (stored_rule now row)" "preset_ok (stored_rule now row)"
  by (simp_all add: stored_rule_def is_active_def preset_ok_def)

lemma promote_row_simps [simp, rule_simps]:
  "er_id (promote_row row r) = er_id r" "lookup_key (promote_row row r) = lookup_key r"
  "er_status (promote_row row r) = er_status r" "is_active (promote_row row r) = is_active r"
  "er_source (promote_row row r) = ne_source row" "er_verdict (promote_row row r) = er_verdict r"
  by (simp_all add: promote_row_def lookup_key_def is_active_def)

lemma restore_preset_simps [simp, rule_simps]:
  "er_id (restore_preset r) = er_id r" "lookup_key (restore_preset r) = lookup_key r"
  "er_status (restore_preset r) = er_status r" "is_active (restore_preset r) = is_active r"
  "er_presetSource (restore_preset r) = None" "er_verdict (restore_preset r) = er_verdict r"
  by (simp_all add: restore_preset_def lookup_key_def is_active_def split: option.split)

lemma take_ownership_simps [simp, rule_simps]:
  "er_id (take_ownership input r) = er_id r" "er_status (take_ownership input r) = er_status r"
  "is_active (take_ownership input r) = is_active r" "preset_ok (take_ownership input r)"
  "er_agentId (take_ownership input r) = er_agentId r" "er_host (take_ownership input r) = er_host r"
  "er_port (take_ownership input r) = er_port r" "er_source (take_ownership input r) = to_source input"
  "er_verdict (take_ownership input r) = to_verdict input"
  by (simp_all add: take_ownership_def is_active_def preset_ok_def)

lemma lookup_key_update [simp, rule_simps]:
  "lookup_key (r\<lparr>er_status := s\<rparr>) = lookup_key r" "lookup_key (r\<lparr>er_presetSource := p\<rparr>) = lookup_key r"
  "lookup_key (r\<lparr>er_source := e\<rparr>) = lookup_key r" "lookup_key (toRow r) = lookup_key r"
  "is_active (r\<lparr>er_presetSource := p\<rparr>) = is_active r" "is_active (r\<lparr>er_source := e\<rparr>) = is_active r"
  "is_active (toRow r) = is_active r" "\<not> is_active (r\<lparr>er_status := Revoked\<rparr>)"
  by (simp_all add: lookup_key_def is_active_def toRow_def split: option.split nat.split)

text \<open>
  Every bulk update of the repository keeps ids and index columns and never makes a row active.
\<close>

lemma active_keys_update_where:
  assumes "\<And>r. p r \<Longrightarrow> lookup_key (f r) = lookup_key r"
    and "\<And>r. p r \<Longrightarrow> is_active (f r) \<Longrightarrow> is_active r"
  shows "set (map lookup_key (filter is_active (update_where p f t))) \<subseteq> set (map lookup_key (filter is_active t))"
  using assms by (auto simp: set_update_where image_iff split: if_splits)

lemma rules_inv_update_where:
  assumes "\<And>r. er_id (f r) = er_id r"
    and "\<And>r. p r \<Longrightarrow> lookup_key (f r) = lookup_key r"
    and "\<And>r. p r \<Longrightarrow> is_active (f r) \<Longrightarrow> is_active r"
    and "\<And>r. p r \<Longrightarrow> preset_ok r \<Longrightarrow> preset_ok (f r)"
    and "rules_inv t"
  shows "rules_inv (update_where p f t)"
proof -
  have "distinct (map lookup_key (filter is_active (update_where p f t)))"
    if "distinct (map lookup_key (filter is_active t))"
    using that
  proof (induction t)
    case (Cons r t)
    have "lookup_key r \<notin> set (map lookup_key (filter is_active (update_where p f t)))" if "is_active r"
      using that Cons.prems active_keys_update_where [of p f t] assms(2,3) by auto
    with Cons assms(2,3) [of r] show ?case by (auto split: if_splits)
  qed simp
  with assms show ?thesis
    by (auto simp: rules_inv_def map_update_where list_all_iff set_update_where)
qed

lemma rules_inv_append:
  "rules_inv (t @ [r]) \<longleftrightarrow> rules_inv t \<and> preset_ok r \<and> \<not> rule_conflicts t r"
  by (auto simp: rules_inv_def rule_conflicts_def notin_image_iff)

lemma rules_inv_delete_where: "rules_inv t \<Longrightarrow> rules_inv (delete_where p t)"
proof -
  assume "rules_inv t"
  moreover have "filter is_active (delete_where p t) = delete_where p (filter is_active t)"
    by (simp add: delete_where_def conj_commute)
  ultimately show ?thesis
    by (simp add: rules_inv_def distinct_map_delete_where)
       (simp add: delete_where_def list_all_iff)
qed

lemma rules_inv_insert_or_nothing:
  "\<lbrakk>rules_inv t; preset_ok r; insert_or_nothing t r = (d, t')\<rbrakk> \<Longrightarrow> rules_inv t'"
  by (auto simp: insert_or_nothing_def rules_inv_append split: if_splits)

lemma rules_inv_insertAll: "rules_inv t \<Longrightarrow> rules_inv (insertAll t now rows)"
proof (induction rows arbitrary: t)
  case (Cons row rows)
  have "rules_inv (snd (insert_or_nothing t (stored_rule now row)))"
    using rules_inv_insert_or_nothing [OF Cons.prems, of "stored_rule now row"] by (simp add: prod_eq_iff)
  from Cons.IH [OF this] show ?case by (simp add: insertAll_def)
qed (simp add: insertAll_def)

lemma insert_ruleE:
  assumes "insert_rule t now row = Inr (r, t')"
  obtains (inserted) "\<not> rule_conflicts t (stored_rule now row)" "r = toRow (stored_rule now row)"
      "t' = t @ [stored_rule now row]"
    | (existing) "rule_conflicts t (stored_rule now row)" "t' = t"
      "getActiveByTuple t (ne_agentId row) (ne_host row) (ne_port row) (ne_method row) (ne_pathPattern row) = Some r"
  using assms by (auto simp: insert_rule_def insert_or_nothing_def split: if_splits option.splits)

lemma insertOrPromoteFromPresetE:
  assumes "insertOrPromoteFromPreset t now row = Inr (r, t')"
  obtains (inserted) "\<not> rule_conflicts t (stored_rule now row)" "r = toRow (stored_rule now row)"
      "t' = t @ [stored_rule now row]"
    | (promoted) "rule_conflicts t (stored_rule now row)"
      "t' = update_where (promotable row) (promote_row row) t"
  using assms
  by (auto simp: insertOrPromoteFromPreset_def insert_or_nothing_def Let_def
           split: if_splits option.splits list.splits)

text \<open>Operations of one table row at a time, for the proofs of the services.\<close>

lemma find_active_by_id:
  assumes "rules_inv t" and "r \<in> set t" and "er_id r = i" and "is_active r"
  shows "find (\<lambda>r. er_id r = i \<and> is_active r) t = Some r"
  using assms(2-4) assms(1) [unfolded rules_inv_def, THEN conjunct1]
  by (induction t) (auto simp: notin_image_iff)

lemma same_tuple_key:
  "same_tuple a h p m pp r \<Longrightarrow> is_active r \<and> lookup_key r = (a, h, (case p of None \<Rightarrow> 0 | Some p \<Rightarrow> p), m, pp)"
  by (auto simp: same_tuple_def lookup_key_def)

lemma active_key_unique:
  "\<lbrakk>rules_inv t; x \<in> set t; y \<in> set t; is_active x; is_active y; lookup_key x = lookup_key y\<rbrakk> \<Longrightarrow> x = y"
  by (rule distinct_filter_unique [of lookup_key is_active t]) (simp_all add: rules_inv_def)

lemma id_unique: "\<lbrakk>rules_inv t; x \<in> set t; y \<in> set t; er_id x = er_id y\<rbrakk> \<Longrightarrow> x = y"
  by (rule distinct_filter_unique [of er_id "\<lambda>_. True" t]) (simp_all add: rules_inv_def)

lemma find_same_tuple:
  assumes "rules_inv t" and "r \<in> set t" and "same_tuple a h p m pp r"
  shows "find (same_tuple a h p m pp) t = Some r"
proof (cases "find (same_tuple a h p m pp) t")
  case None
  with assms(2,3) show ?thesis by (auto simp: find_None_iff)
next
  case (Some x)
  from find_SomeD [OF Some] have "x \<in> set t" "same_tuple a h p m pp x" by simp_all
  with assms have "x = r"
    by (metis active_key_unique same_tuple_key)
  with Some show ?thesis by simp
qed

lemma rules_inv_updateTakeOwnership:
  assumes "rules_inv t" and upd: "updateTakeOwnership t input = Inr (d, t')"
  shows "rules_inv t'"
proof (cases "find (\<lambda>r. er_id r = to_id input \<and> is_active r) t")
  case None
  with assms show ?thesis by (simp add: updateTakeOwnership_def)
next
  case (Some r)
  let ?p = "\<lambda>r. er_id r = to_id input \<and> is_active r" and ?f = "take_ownership input"
  from find_SomeD [OF Some] have r: "r \<in> set t" "er_id r = to_id input" "is_active r" by simp_all
  from upd Some have t': "t' = update_where ?p ?f t"
    and free: "\<And>x. \<lbrakk>x \<in> set t; er_id x \<noteq> er_id r; is_active x\<rbrakk> \<Longrightarrow> lookup_key x \<noteq> lookup_key (?f r)"
    by (auto simp: updateTakeOwnership_def split: if_splits)
  obtain us vs where t: "t = us @ r # vs" using r(1) by (auto simp: in_set_conv_decomp)
  have others: "er_id x \<noteq> er_id r" if "x \<in> set us \<union> set vs" for x
    using that assms(1) by (auto simp: t rules_inv_def notin_image_iff)
  have keep: "update_where ?p ?f xs = xs" if "set xs \<subseteq> set us \<union> set vs" for xs
    using that others r(2) by (intro update_where_none) auto
  have "t' = us @ ?f r # vs"
    using r by (simp add: t' t keep)
  moreover have "lookup_key (?f r) \<notin> lookup_key ` {x \<in> set us. is_active x}"
    and "lookup_key (?f r) \<notin> lookup_key ` {x \<in> set vs. is_active x}"
    using free others by (auto simp: notin_image_iff t)
  ultimately show ?thesis
    using assms(1) r(3) by (simp add: t rules_inv_def)
qed


section \<open>Reachable tables\<close>

inductive rules_step :: "EgressRuleRow table \<Rightarrow> EgressRuleRow table \<Rightarrow> bool" where
  step_insert: "insert_rule t now row = Inr (r, t') \<Longrightarrow> rules_step t t'"
| step_insertAll: "rules_step t (insertAll t now rows)"
| step_insertOrPromote: "insertOrPromoteFromPreset t now row = Inr (r, t') \<Longrightarrow> rules_step t t'"
| step_takeOwnership: "updateTakeOwnership t input = Inr (d, t') \<Longrightarrow> rules_step t t'"
| step_revokePresetRows: "rules_step t (revokePresetRowsForAgent t a)"
| step_markPreset: "is_preset_source s \<Longrightarrow> rules_step t (markPresetUnderConnections t a hosts s)"
| step_markSeeded: "is_preset_source s \<Longrightarrow> rules_step t (snd (markSeededConnectionRows t hosts s))"
| step_reassign: "is_connection_source s \<Longrightarrow> rules_step t (reassignActiveSource t a from_sources s)"
| step_restorePreset: "rules_step t (restorePresetSource t i)"
| step_revoke: "rules_step t (revoke_rule t i)"
| step_deleteForAgent: "rules_step t (deleteForAgent t a)"
| step_scan_order: "set t' = set t \<Longrightarrow> length t' = length t \<Longrightarrow> distinct t \<Longrightarrow> rules_step t t'"

lemma rules_inv_permute:
  assumes "rules_inv t" and "set t' = set t" and "length t' = length t" and "distinct t"
  shows "rules_inv t'"
proof -
  have "distinct t'" using assms(2-4) by (metis card_distinct distinct_card)
  with assms show ?thesis by (simp add: rules_inv_def distinct_map list_all_iff)
qed

lemma preset_ok_promote:
  "promotable row r \<Longrightarrow> preset_ok (promote_row row r)"
  by (auto simp: preset_ok_def promote_row_def promotable_def)

lemma rules_step_inv:
  assumes "rules_step t t'" and "rules_inv t" shows "rules_inv t'"
  using assms
proof cases
  case (step_insert now row r)
  then show ?thesis using assms(2) by (auto elim!: insert_ruleE simp: rules_inv_append)
next
  case (step_insertOrPromote now row r)
  then show ?thesis
  proof (cases rule: insertOrPromoteFromPresetE)
    case promoted
    then show ?thesis using assms(2) by (auto intro: rules_inv_update_where preset_ok_promote)
  qed (use assms(2) in \<open>simp add: rules_inv_append\<close>)
next
  case (step_takeOwnership input d)
  then show ?thesis using assms(2) by (blast intro: rules_inv_updateTakeOwnership)
next
  case (step_scan_order)
  then show ?thesis using assms(2) by (blast intro: rules_inv_permute)
qed (auto simp: revokePresetRowsForAgent_def markPresetUnderConnections_def markSeededConnectionRows_def
       reassignActiveSource_def restorePresetSource_def revoke_rule_def deleteForAgent_def Let_def
       preset_ok_def restore_preset_def under_connection_def
     intro!: rules_inv_update_where rules_inv_delete_where rules_inv_insertAll split: option.splits)

interpretation rules_table: invariant_system "\<lambda>t. t = []" rules_step rules_inv
  by unfold_locales (auto simp: rules_inv_def [of "[]"] intro: rules_step_inv)


section \<open>Properties\<close>

text \<open>
  C26. In every table the operations can produce, an active rule is the only one with its agent,
  host, port, method and path, and its id names it alone: looking it up by either finds that
  very rule. Only a connection's rule remembers a preset under it.
\<close>

theorem reachable_rule_is_unique:
  assumes "reachable (\<lambda>t. t = []) rules_step t" and "r \<in> set t" and "is_active r"
  shows "getActiveByTuple t (er_agentId r) (er_host r) (er_port r) (er_method r) (er_pathPattern r)
           = Some (toRow r)
     \<and> getById t (er_id r) = Some (toRow r)
     \<and> (\<forall>r' \<in> set t. is_active r' \<and> lookup_key r' = lookup_key r \<longrightarrow> r' = r)
     \<and> (\<forall>p. er_presetSource r = Some p \<longrightarrow> is_connection_source (er_source r) \<and> is_preset_source p)"
proof -
  have inv: "rules_inv t" by (rule rules_table.reachable_inv [OF assms(1)])
  then have "preset_ok r" and ids: "distinct (map er_id t)"
    using assms(2) by (auto simp: rules_inv_def list_all_iff)
  have tuple: "same_tuple (er_agentId r) (er_host r) (er_port r) (er_method r) (er_pathPattern r) r"
    using assms(3) by (simp add: same_tuple_def)
  show ?thesis
    using find_same_tuple [OF inv assms(2) tuple] find_distinct_key [OF ids assms(2) refl] \<open>preset_ok r\<close>
      active_key_unique [OF inv _ assms(2) _ assms(3)]
    by (auto simp: getActiveByTuple_def getById_def preset_ok_def)
qed

definition sample_new :: "string \<Rightarrow> string \<Rightarrow> RuleVerdict \<Rightarrow> EgressRuleSource \<Rightarrow> NewEgressRule" where
  "sample_new i host verdict source =
     \<lparr>ne_id = i, ne_agentId = ''a'', ne_host = host, ne_port = None, ne_method = ''*'',
      ne_pathPattern = ''*'', ne_verdict = verdict, ne_decidedBy = ''u'', ne_source = source\<rparr>"

theorem reachable_rule_is_unique_witness:
  "getById [stored_rule 0 (sample_new ''r'' ''x.io'' Allow Manual)] ''r''
     = Some (toRow (stored_rule 0 (sample_new ''r'' ''x.io'' Allow Manual)))"
proof -
  let ?r = "stored_rule 0 (sample_new ''r'' ''x.io'' Allow Manual)"
  have "rules_step [] [?r]"
    by (rule rules_step.step_insertAll [of "[]" 0 "[sample_new ''r'' ''x.io'' Allow Manual]",
          simplified insertAll_def insert_or_nothing_def rule_conflicts_def, simplified])
  then have "reachable (\<lambda>t. t = []) rules_step [?r]"
    by (auto intro: reachable.intros)
  from reachable_rule_is_unique [OF this, of ?r] show ?thesis by (simp add: sample_new_def)
qed

text \<open>
  Writing a rule never overwrites or duplicates one. With a fresh id, the insert answers
  with the one active rule of that tuple, which is the new row when there was none and else the
  row that was there, and every other row of the table stays as it was.
\<close>

theorem insert_rule_result:
  assumes "rules_inv t" and "ne_id row \<notin> er_id ` set t"
    and "\<forall>r \<in> set t. er_port r \<noteq> Some 0" and "ne_port row \<noteq> Some 0"
  shows "\<exists>r t'. insert_rule t now row = Inr (r, t')
     \<and> getActiveByTuple t' (ne_agentId row) (ne_host row) (ne_port row) (ne_method row) (ne_pathPattern row) = Some r
     \<and> (t' = (if er_id r = ne_id row then t @ [stored_rule now row] else t))
     \<and> (er_id r = ne_id row \<longleftrightarrow>
          getActiveByTuple t (ne_agentId row) (ne_host row) (ne_port row) (ne_method row) (ne_pathPattern row) = None)"
proof -
  let ?r = "stored_rule now row"
  let ?same = "same_tuple (ne_agentId row) (ne_host row) (ne_port row) (ne_method row) (ne_pathPattern row)"
  have key: "is_active x \<and> lookup_key x = lookup_key ?r \<longleftrightarrow> ?same x" if "x \<in> set t" for x
    using assms(3,4) that by (auto simp: same_tuple_def lookup_key_def split: option.splits)
  have conflicts: "rule_conflicts t ?r \<longleftrightarrow> (\<exists>x \<in> set t. ?same x)"
    using assms(2) key by (auto simp: rule_conflicts_def notin_image_iff)
  have "?same ?r" by (simp add: same_tuple_def)
  show ?thesis
  proof (cases "find ?same t")
    case None
    then have "\<not> rule_conflicts t ?r" by (auto simp: conflicts find_None_iff)
    moreover from this have "rules_inv (t @ [?r])" using assms(1) by (simp add: rules_inv_append)
    ultimately show ?thesis
      using None find_same_tuple [of "t @ [?r]" ?r] \<open>?same ?r\<close>
      by (simp add: insert_rule_def insert_or_nothing_def getActiveByTuple_def)
  next
    case (Some x)
    from find_SomeD [OF this] have x: "x \<in> set t" "?same x" by simp_all
    with assms(2) have "er_id x \<noteq> ne_id row" by (simp add: notin_image_iff)
    moreover have "rule_conflicts t ?r" using x by (auto simp: conflicts)
    ultimately show ?thesis
      using Some by (simp add: insert_rule_def insert_or_nothing_def getActiveByTuple_def)
  qed
qed

theorem insert_rule_result_witness:
  "\<exists>r t'. insert_rule [stored_rule 0 (sample_new ''r'' ''x.io'' Allow Manual)] 1
       (sample_new ''s'' ''x.io'' Deny Inbox) = Inr (r, t') \<and> er_id r = ''r''"
proof -
  let ?r = "stored_rule 0 (sample_new ''r'' ''x.io'' Allow Manual)"
  have "rules_inv [?r]" by (simp add: rules_inv_def)
  from insert_rule_result [OF this, of "sample_new ''s'' ''x.io'' Deny Inbox" 1] show ?thesis
    by (auto simp: sample_new_def getActiveByTuple_def same_tuple_def)
qed

lemma promote_then_restore_row:
  assumes "promotable row r" and "preset_ok r" and "is_connection_source (ne_source row)"
  shows "restore_preset (promote_row row r) = r\<lparr>er_decidedBy := ne_decidedBy row\<rparr>"
  using assms by (cases r) (auto simp: promotable_def preset_ok_def promote_row_def restore_preset_def
      split: option.splits)

text \<open>
  A connection that takes over a preset's rule gives it back: taking the row over and
  then restoring it leaves the table as it was, except that the row remembers who granted the
  connection.
\<close>

theorem promote_restore_roundtrip:
  assumes "rules_inv t" and "x \<in> set t" and "promotable row x"
    and "is_connection_source (ne_source row)"
  shows "\<exists>r t'. insertOrPromoteFromPreset t now row = Inr (r, t')
     \<and> er_source r = ne_source row \<and> er_id r = er_id x
     \<and> restorePresetSource t' (er_id x)
         = update_where (\<lambda>r. er_id r = er_id x) (\<lambda>r. r\<lparr>er_decidedBy := ne_decidedBy row\<rparr>) t"
proof -
  let ?t' = "update_where (promotable row) (promote_row row) t"
  have active: "is_active x" and key: "lookup_key x = lookup_key (stored_rule now row)"
    using assms(3) by (auto simp: promotable_def same_tuple_def lookup_key_def)
  then have conflicts: "rule_conflicts t (stored_rule now row)"
    using assms(2) by (auto simp: rule_conflicts_def)
  have only: "promotable row r \<longleftrightarrow> r = x" if "r \<in> set t" for r
  proof
    assume "promotable row r"
    then have "is_active r" and "lookup_key r = lookup_key x"
      using assms(3) by (auto simp: promotable_def same_tuple_def lookup_key_def)
    then show "r = x" using active_key_unique [OF assms(1) that assms(2)] active by blast
  qed (simp add: assms(3))
  have "x \<in> set (filter (promotable row) t)" and "\<And>r. r \<in> set (filter (promotable row) t) \<Longrightarrow> r = x"
    using assms(2,3) only by auto
  then obtain rest where rows: "filter (promotable row) t = x # rest"
    by (cases "filter (promotable row) t") auto
  have "restorePresetSource ?t' (er_id x)
      = update_where (\<lambda>r. er_id r = er_id x) (\<lambda>r. r\<lparr>er_decidedBy := ne_decidedBy row\<rparr>) t"
  proof -
    have "(if er_id r' = er_id x \<and> is_active r' \<and> er_presetSource r' \<noteq> None then restore_preset r' else r')
        = (if er_id r = er_id x then r\<lparr>er_decidedBy := ne_decidedBy row\<rparr> else r)"
      if "r \<in> set t" and r': "r' = (if promotable row r then promote_row row r else r)" for r r'
    proof (cases "r = x")
      case True
      with that have "r' = promote_row row x" using only by simp
      moreover have "preset_ok x" using assms(1,2) by (simp add: rules_inv_def list_all_iff)
      moreover have "er_presetSource (promote_row row x) \<noteq> None"
        using assms(4) by (simp add: promote_row_def)
      ultimately show ?thesis
        using True active promote_then_restore_row [OF assms(3) _ assms(4)] by simp
    next
      case False
      with that only have "r' = r" by simp
      moreover have "er_id r \<noteq> er_id x"
        using False id_unique [OF assms(1) that(1) assms(2)] by blast
      ultimately show ?thesis by simp
    qed
    then show ?thesis by (simp add: restorePresetSource_def update_where_def)
  qed
  with rows conflicts show ?thesis
    by (simp add: insertOrPromoteFromPreset_def insert_or_nothing_def Let_def)
qed

theorem promote_restore_roundtrip_witness:
  "\<exists>r t'. insertOrPromoteFromPreset [stored_rule 0 (sample_new ''r'' ''x.io'' Allow PresetTrusted)] 1
       (sample_new ''s'' ''x.io'' Allow (Connection ''c'')) = Inr (r, t')
     \<and> restorePresetSource t' ''r'' = [stored_rule 0 (sample_new ''r'' ''x.io'' Allow PresetTrusted)]"
proof -
  let ?r = "stored_rule 0 (sample_new ''r'' ''x.io'' Allow PresetTrusted)"
  have "rules_inv [?r]" by (simp add: rules_inv_def)
  from promote_restore_roundtrip [OF this, of ?r "sample_new ''s'' ''x.io'' Allow (Connection ''c'')" 1]
  show ?thesis
    by (auto simp: promotable_def same_tuple_def sample_new_def stored_rule_def is_active_def)
qed

end
