(* ===== verification/Agent_Keys.thy ===== *)
theory Agent_Keys
  imports Egress_Repository
begin

text \<open>
  Agent access to Environments: the platform's own egress rule of an Agent and the Agent Key
  that follows it. Models \<^verbatim>\<open>agent-keys/services/agent-access.ts\<close>,
  \<^verbatim>\<open>agent-keys/infrastructure/agent-keys-repository.ts\<close> and the write and delete of
  \<^verbatim>\<open>agent-keys/infrastructure/agent-key-secret-port.ts\<close>. The HMAC is a parameter, and a
  minted key is an argument.
\<close>

section \<open>State\<close>

record AgentKeyRow =
  ak_agentId :: agent_id
  ak_ownerSub :: user_sub
  ak_hash :: string

text \<open>The Secret of an Agent's key: the owner and host it is labelled with, and its key.\<close>

record AgentKeySecret =
  ks_ownerSub :: user_sub
  ks_host :: string
  ks_key :: string

record AccessState =
  as_rules :: "EgressRuleRow table"
  as_keys :: "AgentKeyRow table"
  as_secrets :: "agent_id \<rightharpoonup> AgentKeySecret"

record AccessConfig =
  ac_domain :: "string option"
  ac_port :: "nat option"
  ac_hash :: "string \<Rightarrow> string" \<comment> \<open>\<^verbatim>\<open>codec.hash\<close>: an HMAC under the install's pepper\<close>

datatype AccessError = RulesFailed RulesError | HashTaken


section \<open>Keys\<close>

definition environmentsWildcard :: "string \<Rightarrow> string" where
  "environmentsWildcard domain = ''*.'' @ to_lower domain"

text \<open>
  \<^verbatim>\<open>put\<close>: one row per Agent, replaced by a second write; the hash is unique in the table.
\<close>

definition keys_put :: "AgentKeyRow table \<Rightarrow> agent_id \<Rightarrow> user_sub \<Rightarrow> string \<Rightarrow> AccessError + AgentKeyRow table" where
  "keys_put t agentId ownerSub hash =
     (if \<exists>r \<in> set t. ak_agentId r \<noteq> agentId \<and> ak_hash r = hash then Inl HashTaken
      else if \<exists>r \<in> set t. ak_agentId r = agentId
      then Inr (update_where (\<lambda>r. ak_agentId r = agentId)
                  (\<lambda>r. r\<lparr>ak_ownerSub := ownerSub, ak_hash := hash\<rparr>) t)
      else Inr (t @ [\<lparr>ak_agentId = agentId, ak_ownerSub = ownerSub, ak_hash = hash\<rparr>]))"

definition keys_findByHash :: "AgentKeyRow table \<Rightarrow> string \<Rightarrow> (agent_id \<times> user_sub) option" where
  "keys_findByHash t hash =
     map_option (\<lambda>r. (ak_agentId r, ak_ownerSub r)) (find (\<lambda>r. ak_hash r = hash) t)"

definition keys_has :: "AgentKeyRow table \<Rightarrow> agent_id \<Rightarrow> bool" where
  "keys_has t agentId \<longleftrightarrow> (\<exists>r \<in> set t. ak_agentId r = agentId)"

definition keys_delete :: "AgentKeyRow table \<Rightarrow> agent_id \<Rightarrow> AgentKeyRow table" where
  "keys_delete t agentId = delete_where (\<lambda>r. ak_agentId r = agentId) t"


section \<open>The rule and the key that follows it\<close>

text \<open>The Secret is written before the hash, so a refused hash leaves the Secret written.\<close>

definition writeKey ::
  "AccessConfig \<Rightarrow> string \<Rightarrow> string \<Rightarrow> agent_id \<Rightarrow> user_sub \<Rightarrow> 'a AccessState_scheme
   \<Rightarrow> (AccessError + unit) \<times> 'a AccessState_scheme" where
  "writeKey cfg domain key agentId ownerSub st =
     (let st1 = st\<lparr>as_secrets := (as_secrets st)(agentId \<mapsto>
                   \<lparr>ks_ownerSub = ownerSub, ks_host = environmentsWildcard domain, ks_key = key\<rparr>)\<rparr>
      in case keys_put (as_keys st1) agentId ownerSub (ac_hash cfg key) of
           Inl e \<Rightarrow> (Inl e, st1)
         | Inr ks \<Rightarrow> (Inr (), st1\<lparr>as_keys := ks\<rparr>))"

definition platform_rule ::
  "AccessConfig \<Rightarrow> string \<Rightarrow> string \<Rightarrow> agent_id \<Rightarrow> user_sub \<Rightarrow> NewEgressRule" where
  "platform_rule cfg domain ruleId agentId ownerSub =
     \<lparr>ne_id = ruleId, ne_agentId = agentId, ne_host = environmentsWildcard domain,
      ne_port = (case ac_port cfg of Some 0 \<Rightarrow> None | p \<Rightarrow> p), ne_method = ''*'',
      ne_pathPattern = ''*'', ne_verdict = Allow, ne_decidedBy = ownerSub,
      ne_source = PlatformEnvironments\<rparr>"

definition addRule ::
  "AccessConfig \<Rightarrow> string \<Rightarrow> string \<Rightarrow> time_ms \<Rightarrow> agent_id \<Rightarrow> user_sub \<Rightarrow> 'a AccessState_scheme
   \<Rightarrow> (AccessError + EgressRuleRow) \<times> 'a AccessState_scheme" where
  "addRule cfg domain ruleId now agentId ownerSub st =
     (case insert_rule (as_rules st) now (platform_rule cfg domain ruleId agentId ownerSub) of
        Inl e \<Rightarrow> (Inl (RulesFailed e), st)
      | Inr (row, t) \<Rightarrow> (Inr row, st\<lparr>as_rules := t\<rparr>))"

definition access_issue ::
  "AccessConfig \<Rightarrow> string \<Rightarrow> string \<Rightarrow> time_ms \<Rightarrow> agent_id \<Rightarrow> user_sub \<Rightarrow> 'a AccessState_scheme
   \<Rightarrow> (AccessError + unit) \<times> 'a AccessState_scheme" where
  "access_issue cfg key ruleId now agentId ownerSub st =
     (case ac_domain cfg of
        None \<Rightarrow> (Inr (), st)
      | Some domain \<Rightarrow>
          let (active, everHeld) = platformRule (as_rules st) agentId
          in if everHeld \<and> active = None then (Inr (), st)
             else case (if active = None then addRule cfg domain ruleId now agentId ownerSub st
                        else (Inr (the active), st)) of
                    (Inl e, st1) \<Rightarrow> (Inl e, st1)
                  | (Inr _, st1) \<Rightarrow>
                      if keys_has (as_keys st1) agentId then (Inr (), st1)
                      else writeKey cfg domain key agentId ownerSub st1)"

definition access_restore ::
  "AccessConfig \<Rightarrow> string \<Rightarrow> string \<Rightarrow> time_ms \<Rightarrow> agent_id \<Rightarrow> user_sub \<Rightarrow> 'a AccessState_scheme
   \<Rightarrow> (AccessError + EgressRuleRow option) \<times> 'a AccessState_scheme" where
  "access_restore cfg key ruleId now agentId ownerSub st =
     (case ac_domain cfg of
        None \<Rightarrow> (Inr None, st)
      | Some domain \<Rightarrow>
          (case (case fst (platformRule (as_rules st) agentId) of
                   Some row \<Rightarrow> (Inr row, st)
                 | None \<Rightarrow> addRule cfg domain ruleId now agentId ownerSub st) of
             (Inl e, st1) \<Rightarrow> (Inl e, st1)
           | (Inr row, st1) \<Rightarrow>
               (case writeKey cfg domain key agentId ownerSub st1 of
                  (Inl e, st2) \<Rightarrow> (Inl e, st2)
                | (Inr _, st2) \<Rightarrow> (Inr (Some row), st2))))"

definition access_withdraw :: "agent_id \<Rightarrow> 'a AccessState_scheme \<Rightarrow> 'a AccessState_scheme" where
  "access_withdraw agentId st =
     st\<lparr>as_secrets := (as_secrets st)(agentId := None), as_keys := keys_delete (as_keys st) agentId\<rparr>"

datatype PlatformRuleState = RuleActive string | RuleRemoved string | RuleUnavailable

definition access_state :: "AccessConfig \<Rightarrow> agent_id \<Rightarrow> 'a AccessState_scheme \<Rightarrow> PlatformRuleState" where
  "access_state cfg agentId st =
     (case ac_domain cfg of
        None \<Rightarrow> RuleUnavailable
      | Some domain \<Rightarrow>
          (case fst (platformRule (as_rules st) agentId) of
             Some _ \<Rightarrow> RuleActive (environmentsWildcard domain)
           | None \<Rightarrow> RuleRemoved (environmentsWildcard domain)))"

definition access_resolve :: "AccessConfig \<Rightarrow> string \<Rightarrow> 'a AccessState_scheme \<Rightarrow> (agent_id \<times> user_sub) option" where
  "access_resolve cfg key st = keys_findByHash (as_keys st) (ac_hash cfg key)"

definition access_forget :: "agent_id \<Rightarrow> 'a AccessState_scheme \<Rightarrow> 'a AccessState_scheme" where
  "access_forget agentId st = access_withdraw agentId st"


section \<open>Lemmas\<close>

definition keys_inv :: "AgentKeyRow table \<Rightarrow> bool" where
  "keys_inv t \<longleftrightarrow> distinct (map ak_agentId t) \<and> distinct (map ak_hash t)"

text \<open>After a write, exactly the new hash names the Agent, and the other rows stay.\<close>

lemma keys_put_set:
  assumes "keys_put t a sub h = Inr t'" and "keys_inv t"
  shows "set t' = {r \<in> set t. ak_agentId r \<noteq> a} \<union> {\<lparr>ak_agentId = a, ak_ownerSub = sub, ak_hash = h\<rparr>}"
proof (cases "\<exists>r \<in> set t. ak_agentId r = a")
  case True
  then obtain r where "r \<in> set t" "ak_agentId r = a" by blast
  moreover have "r\<lparr>ak_ownerSub := sub, ak_hash := h\<rparr> = \<lparr>ak_agentId = ak_agentId r, ak_ownerSub = sub, ak_hash = h\<rparr>"
    for r :: AgentKeyRow by simp
  ultimately show ?thesis
    using assms(1) by (auto simp: keys_put_def set_update_where image_iff split: if_splits)
next
  case False
  with assms(1) show ?thesis by (auto simp: keys_put_def split: if_splits)
qed

lemma keys_put_inv:
  assumes "keys_put t a sub h = Inr t'" and "keys_inv t"
  shows "keys_inv t'"
proof -
  let ?others = "{r \<in> set t. ak_agentId r \<noteq> a}"
  have "h \<notin> ak_hash ` ?others"
    using assms(1) by (auto simp: keys_put_def split: if_splits)
  moreover have "inj_on ak_hash ?others"
    using assms(2) by (auto simp: keys_inv_def distinct_map intro: inj_on_subset)
  ultimately have "inj_on ak_hash (set t')"
    by (auto simp: keys_put_set [OF assms] notin_image_iff)
  moreover have "distinct (map ak_agentId t')"
    using assms by (auto simp: keys_put_def keys_inv_def map_update_where notin_image_iff split: if_splits)
  ultimately show ?thesis
    by (simp add: keys_inv_def distinct_map)
qed

lemma keys_findByHash_iff:
  assumes "keys_inv t"
  shows "keys_findByHash t h = Some (a, sub) \<longleftrightarrow> \<lparr>ak_agentId = a, ak_ownerSub = sub, ak_hash = h\<rparr> \<in> set t"
proof
  assume "keys_findByHash t h = Some (a, sub)"
  then obtain r where "find (\<lambda>r. ak_hash r = h) t = Some r" "ak_agentId r = a" "ak_ownerSub r = sub"
    by (auto simp: keys_findByHash_def)
  with find_SomeD [OF this(1)] show "\<lparr>ak_agentId = a, ak_ownerSub = sub, ak_hash = h\<rparr> \<in> set t"
    by (metis AgentKeyRow.surjective old.unit.exhaust)
next
  assume row: "\<lparr>ak_agentId = a, ak_ownerSub = sub, ak_hash = h\<rparr> \<in> set t"
  from assms have "distinct (map ak_hash t)" by (simp add: keys_inv_def)
  from find_distinct_key [OF this row, of h] show "keys_findByHash t h = Some (a, sub)"
    by (simp add: keys_findByHash_def)
qed


lemma writeKey_keys:
  assumes "writeKey cfg domain key a sub st = (Inr u, st')" and "keys_inv (as_keys st)"
  shows "keys_inv (as_keys st')"
    and "set (as_keys st') = {r \<in> set (as_keys st). ak_agentId r \<noteq> a}
           \<union> {\<lparr>ak_agentId = a, ak_ownerSub = sub, ak_hash = ac_hash cfg key\<rparr>}"
    and "as_rules st' = as_rules st"
  using assms keys_put_inv keys_put_set
  by (auto simp: writeKey_def Let_def split: sum.splits)

lemma access_restoreE:
  assumes "access_restore cfg key ruleId now a sub st = (Inr (Some row), st')"
  obtains domain t where "ac_domain cfg = Some domain"
    and "writeKey cfg domain key a sub (st\<lparr>as_rules := t\<rparr>) = (Inr (), st')"
proof -
  from assms that [of _ "as_rules st"] that show ?thesis
    unfolding access_restore_def addRule_def
    by (auto split: option.splits sum.splits prod.splits)
qed


section \<open>Properties\<close>

text \<open>
  Restoring the rule gives the Agent a new key and ends the old one: the new key names the
  Agent, a key of another hash that named it before names nobody, and the keys of every other
  Agent are as they were.
\<close>

theorem restore_replaces_key:
  assumes "keys_inv (as_keys st)"
    and "access_restore cfg key ruleId now a sub st = (Inr (Some row), st')"
  shows "access_resolve cfg key st' = Some (a, sub)
    \<and> (\<forall>old s. access_resolve cfg old st = Some (a, s) \<and> ac_hash cfg old \<noteq> ac_hash cfg key \<longrightarrow>
          access_resolve cfg old st' = None)
    \<and> (\<forall>k b s. b \<noteq> a \<longrightarrow> (access_resolve cfg k st' = Some (b, s) \<longleftrightarrow> access_resolve cfg k st = Some (b, s)))"
proof -
  obtain domain t where written: "writeKey cfg domain key a sub (st\<lparr>as_rules := t\<rparr>) = (Inr (), st')"
    using assms(2) by (rule access_restoreE)
  from writeKey_keys [OF written] assms(1)
  have inv': "keys_inv (as_keys st')"
    and set': "set (as_keys st') = {r \<in> set (as_keys st). ak_agentId r \<noteq> a}
           \<union> {\<lparr>ak_agentId = a, ak_ownerSub = sub, ak_hash = ac_hash cfg key\<rparr>}"
    by simp_all
  have resolves: "access_resolve cfg k st' = Some (b, s) \<longleftrightarrow>
      (if b = a then s = sub \<and> ac_hash cfg k = ac_hash cfg key else access_resolve cfg k st = Some (b, s))" for k b s
    by (auto simp: access_resolve_def keys_findByHash_iff [OF inv'] keys_findByHash_iff [OF assms(1)] set')
  have "access_resolve cfg old st' = None"
    if "access_resolve cfg old st = Some (a, s)" and "ac_hash cfg old \<noteq> ac_hash cfg key" for old s
  proof (cases "access_resolve cfg old st'")
    case (Some n)
    then obtain b s' where n: "n = (b, s')" by (cases n)
    with Some that show ?thesis using resolves [of old b s'] by (auto split: if_splits)
  qed
  with resolves show ?thesis by auto
qed

definition sample_access :: "EgressRuleRow table \<Rightarrow> AgentKeyRow table \<Rightarrow> AccessState" where
  "sample_access rules ks = \<lparr>as_rules = rules, as_keys = ks, as_secrets = (\<lambda>_. None)\<rparr>"

definition sample_config :: AccessConfig where
  "sample_config = \<lparr>ac_domain = Some ''env.io'', ac_port = None, ac_hash = rev\<rparr>"

theorem restore_replaces_key_witness:
  "\<exists>row st'. access_restore sample_config ''new'' ''r'' 0 ''a'' ''u''
       (sample_access [] [\<lparr>ak_agentId = ''a'', ak_ownerSub = ''u'', ak_hash = rev ''old''\<rparr>]) = (Inr (Some row), st')
     \<and> access_resolve sample_config ''old'' st' = None"
proof -
  let ?st = "sample_access [] [\<lparr>ak_agentId = ''a'', ak_ownerSub = ''u'', ak_hash = rev ''old''\<rparr>]"
  have "\<exists>row st'. access_restore sample_config ''new'' ''r'' 0 ''a'' ''u'' ?st = (Inr (Some row), st')"
    by (simp add: access_restore_def sample_config_def sample_access_def platformRule_def addRule_def
        insert_rule_def insert_or_nothing_def rule_conflicts_def writeKey_def keys_put_def Let_def)
  then obtain row st' where
    restored: "access_restore sample_config ''new'' ''r'' 0 ''a'' ''u'' ?st = (Inr (Some row), st')"
    by blast
  have "keys_inv (as_keys ?st)" by (simp add: sample_access_def keys_inv_def)
  from restore_replaces_key [OF this restored]
  have "access_resolve sample_config ''old'' ?st = Some (''a'', ''u'') \<longrightarrow>
          access_resolve sample_config ''old'' st' = None"
    by (simp add: sample_config_def)
  with restored show ?thesis
    by (simp add: access_resolve_def keys_findByHash_def sample_config_def sample_access_def)
qed

text \<open>
  The platform never adds back a rule its owner removed, and a withdrawn key opens nothing:
  issuing access to an Agent that once held the rule and holds none now changes nothing, and
  after a withdrawal no key names the Agent.
\<close>

theorem removed_rule_stays_removed:
  assumes "r \<in> set (as_rules st)" and "er_agentId r = a" and "er_source r = PlatformEnvironments"
    and "\<forall>r \<in> set (as_rules st). er_agentId r = a \<and> er_source r = PlatformEnvironments \<longrightarrow> \<not> is_active r"
  shows "access_issue cfg key ruleId now a sub st = (Inr (), st)
    \<and> access_resolve cfg k (access_withdraw a st) \<noteq> Some (a, s)"
proof -
  have "platformRule (as_rules st) a = (None, True)"
    using assms by (auto simp: platformRule_def Let_def find_None_iff filter_empty_conv)
  moreover have "access_resolve cfg k (access_withdraw a st) \<noteq> Some (a, s)"
    by (auto simp: access_resolve_def access_withdraw_def keys_findByHash_def keys_delete_def
        delete_where_def dest: find_SomeD)
  ultimately show ?thesis
    by (simp add: access_issue_def split: option.split)
qed

theorem removed_rule_stays_removed_witness:
  "let r = (stored_rule 0 (platform_rule sample_config ''env.io'' ''r'' ''a'' ''u''))\<lparr>er_status := Revoked\<rparr>;
       st = sample_access [r] []
   in access_issue sample_config ''k'' ''s'' 1 ''a'' ''u'' st = (Inr (), st)"
proof -
  let ?r = "(stored_rule 0 (platform_rule sample_config ''env.io'' ''r'' ''a'' ''u''))\<lparr>er_status := Revoked\<rparr>"
  show ?thesis
    using removed_rule_stays_removed [of ?r "sample_access [?r] []" "''a''" sample_config "''k''" "''s''" 1 "''u''"]
    by (simp add: sample_access_def platform_rule_def Let_def)
qed

text \<open>
  The key does not always follow the rule. When another rule of the Agent already holds
  the platform rule's tuple, restoring adds no platform rule, yet it writes a key and answers
  with the other rule, even a deny: the state still reads removed.
\<close>

theorem restore_writes_key_without_rule:
  "\<exists>(st :: AccessState) row st'. rules_inv (as_rules st)
     \<and> access_restore sample_config ''key'' ''r2'' 1 ''a'' ''u'' st = (Inr (Some row), st')
     \<and> er_verdict row = Deny
     \<and> access_state sample_config ''a'' st' = RuleRemoved (environmentsWildcard ''env.io'')
     \<and> access_resolve sample_config ''key'' st' = Some (''a'', ''u'')"
proof -
  let ?deny = "stored_rule 0 (platform_rule sample_config ''env.io'' ''r1'' ''a'' ''u''
                 \<lparr>ne_verdict := Deny, ne_source := Manual\<rparr>)"
  let ?st = "sample_access [?deny] []"
  have "rules_inv (as_rules ?st)" by (simp add: rules_inv_def sample_access_def)
  then show ?thesis
    by (intro exI [of _ ?st])
       (auto simp: access_restore_def sample_config_def sample_access_def platformRule_def addRule_def
        insert_rule_def insert_or_nothing_def rule_conflicts_def writeKey_def keys_put_def Let_def
        platform_rule_def lookup_key_def getActiveByTuple_def same_tuple_def access_state_def
        access_resolve_def keys_findByHash_def)
qed

end
