(* ===== verification/Egress_Services.thy ===== *)
theory Egress_Services
  imports Agent_Keys "HOL-Library.AList"
begin

text \<open>
  The services over the egress rules: the hosts an Agent's gateway must inspect
  (\<^verbatim>\<open>k8s-agent-l7-hosts-port.ts\<close>, \<^verbatim>\<open>l7-promotion-reconcile.ts\<close>), the writer
  every new rule goes through, the owner's service, the preset and kit seeders, and the sync of
  the rules that an Agent's Connections need. The state is the rules and keys of
  \<^verbatim>\<open>Agent_Keys\<close> with the inspected hosts of each Agent's resource beside them.
  The Kubernetes API is a parameter: what the n-th patch of a call stores, or that it fails.
\<close>

section \<open>The hosts a gateway inspects\<close>

record EgressState = AccessState +
  es_l7 :: "agent_id \<rightharpoonup> string list" \<comment> \<open>\<^verbatim>\<open>spec.l7Hosts\<close> of the Agents that exist\<close>

type_synonym l7_patch = "nat \<Rightarrow> agent_id \<Rightarrow> string list \<Rightarrow> string list option"

definition PATCH_ATTEMPTS :: nat where
  "PATCH_ATTEMPTS = 3"

definition l7_same_set :: "string list \<Rightarrow> string list \<Rightarrow> bool" where
  "l7_same_set current desired \<longleftrightarrow>
     length (remdups current) = length desired \<and> (\<forall>h \<in> set desired. h \<in> set current)"

text \<open>The attempts that are left; running out of them is the error of the last one.\<close>

fun l7_attempts ::
  "l7_patch \<Rightarrow> nat \<Rightarrow> agent_id \<Rightarrow> string list \<Rightarrow> (agent_id \<rightharpoonup> string list) \<Rightarrow> bool \<times> (agent_id \<rightharpoonup> string list)" where
  "l7_attempts patch 0 agentId desired w = (False, w)"
| "l7_attempts patch (Suc k) agentId desired w =
     (case w agentId of
        None \<Rightarrow> (True, w)
      | Some current \<Rightarrow>
          if l7_same_set current desired then (True, w)
          else (case patch k agentId desired of
                  None \<Rightarrow> l7_attempts patch k agentId desired w
                | Some written \<Rightarrow>
                    let w' = w(agentId \<mapsto> written)
                    in if l7_same_set written desired then (True, w')
                       else l7_attempts patch k agentId desired w'))"

definition l7_set ::
  "l7_patch \<Rightarrow> agent_id \<Rightarrow> string list \<Rightarrow> (agent_id \<rightharpoonup> string list) \<Rightarrow> bool \<times> (agent_id \<rightharpoonup> string list)" where
  "l7_set patch agentId hosts w = l7_attempts patch PATCH_ATTEMPTS agentId (sort (remdups hosts)) w"

datatype EgressError =
    NotFound string
  | Conflict string
  | BadRequest string
  | PreconditionFailed string
  | RulesErr RulesError
  | AccessErr AccessError
  | KitClash NewEgressRule RuleVerdict
  | L7Failed

definition reconvergeAgentL7Hosts ::
  "l7_patch \<Rightarrow> agent_id \<Rightarrow> EgressState \<Rightarrow> (EgressError + unit) \<times> EgressState" where
  "reconvergeAgentL7Hosts patch agentId st =
     (case l7_set patch agentId (promotedHosts (listForAgent (as_rules st) agentId)) (es_l7 st) of
        (ok, w) \<Rightarrow> (if ok then Inr () else Inl L7Failed, st\<lparr>es_l7 := w\<rparr>))"

record AgentL7State =
  al_agentId :: agent_id
  al_current :: "string list"
  al_environmentOf :: "agent_id option"

definition reconcile_same_set :: "string list \<Rightarrow> string list \<Rightarrow> bool" where
  "reconcile_same_set a b \<longleftrightarrow> length a = length b \<and> (\<forall>h \<in> set b. h \<in> set a)"

definition desired_l7 :: "EgressRuleRow list \<Rightarrow> AgentL7State \<Rightarrow> string list" where
  "desired_l7 rules agent =
     promotedHosts (filter (\<lambda>r. er_agentId r =
        (case al_environmentOf agent of Some owner \<Rightarrow> owner | None \<Rightarrow> al_agentId agent)) rules)"

fun reconcile_agents ::
  "l7_patch \<Rightarrow> EgressRuleRow list \<Rightarrow> AgentL7State list \<Rightarrow> (agent_id \<rightharpoonup> string list)
   \<Rightarrow> nat \<times> nat \<times> (agent_id \<rightharpoonup> string list)" where
  "reconcile_agents patch rules [] w = (0, 0, w)"
| "reconcile_agents patch rules (agent # agents) w =
     (let desired = desired_l7 rules agent
      in if reconcile_same_set (al_current agent) desired then reconcile_agents patch rules agents w
         else (case l7_set patch (al_agentId agent) desired w of
                 (ok, w1) \<Rightarrow>
                   (case reconcile_agents patch rules agents w1 of
                      (drifted, failed, w2) \<Rightarrow> (drifted + 1, if ok then failed else failed + 1, w2))))"

text \<open>The scan of the agents is an argument, \<^const>\<open>None\<close> when it throws.\<close>

definition reconcileL7Promotions ::
  "l7_patch \<Rightarrow> AgentL7State list option \<Rightarrow> EgressState \<Rightarrow> (nat \<times> nat \<times> nat) \<times> EgressState" where
  "reconcileL7Promotions patch scan st =
     (case scan of
        None \<Rightarrow> ((0, 0, 1), st)
      | Some agents \<Rightarrow>
          (case reconcile_agents patch (listActiveForPromotionScan (as_rules st)) agents (es_l7 st) of
             (drifted, failed, w) \<Rightarrow> ((length agents, drifted, failed), st\<lparr>es_l7 := w\<rparr>)))"


section \<open>The writer\<close>

datatype EgressRuleWriteOutcome =
    Inserted EgressRuleRow
  | Duplicate EgressRuleRow "EgressRuleSource option" \<comment> \<open>\<^verbatim>\<open>tookOwnershipFrom\<close>\<close>
  | VerdictClash EgressRuleRow

definition written_by_a_person :: "EgressRuleSource \<Rightarrow> bool" where
  "written_by_a_person s \<longleftrightarrow> s = Manual \<or> s = Inbox"

definition takes_over :: "EgressRuleSource \<Rightarrow> EgressRuleSource \<Rightarrow> bool" where
  "takes_over new old \<longleftrightarrow>
     \<not> written_by_a_person old \<and> old \<noteq> PlatformEnvironments \<and> written_by_a_person new"

text \<open>What the write does to the table, and then to the gateway unless the verdicts clash.\<close>

definition write_rule ::
  "EgressRuleRow table \<Rightarrow> time_ms \<Rightarrow> NewEgressRule \<Rightarrow> (RulesError + EgressRuleWriteOutcome) \<times> EgressRuleRow table" where
  "write_rule t now input =
     (case insert_rule t now input of
        Inl e \<Rightarrow> (Inl e, t)
      | Inr (row, t1) \<Rightarrow>
          if er_verdict row \<noteq> ne_verdict input then (Inr (VerdictClash row), t1)
          else if er_id row = ne_id input then (Inr (Inserted row), t1)
          else if takes_over (ne_source input) (er_source row)
          then (case updateTakeOwnership t1
                   \<lparr>to_id = er_id row, to_method = er_method row, to_pathPattern = er_pathPattern row,
                    to_verdict = er_verdict row, to_decidedBy = ne_decidedBy input,
                    to_source = ne_source input\<rparr> of
                  Inl e \<Rightarrow> (Inl e, t1)
                | Inr (Some promoted, t2) \<Rightarrow> (Inr (Duplicate promoted (Some (er_source row))), t2)
                | Inr (None, t2) \<Rightarrow> (Inr (Duplicate row None), t2))
          else (Inr (Duplicate row None), t1))"

definition writer_insert ::
  "l7_patch \<Rightarrow> time_ms \<Rightarrow> NewEgressRule \<Rightarrow> EgressState
   \<Rightarrow> (EgressError + EgressRuleWriteOutcome) \<times> EgressState" where
  "writer_insert patch now input st =
     (case write_rule (as_rules st) now input of
        (Inl e, t) \<Rightarrow> (Inl (RulesErr e), st\<lparr>as_rules := t\<rparr>)
      | (Inr (VerdictClash row), t) \<Rightarrow> (Inr (VerdictClash row), st\<lparr>as_rules := t\<rparr>)
      | (Inr outcome, t) \<Rightarrow>
          (case reconvergeAgentL7Hosts patch (ne_agentId input) (st\<lparr>as_rules := t\<rparr>) of
             (Inl e, st1) \<Rightarrow> (Inl e, st1)
           | (Inr _, st1) \<Rightarrow> (Inr outcome, st1)))"


section \<open>Seeders\<close>

text \<open>The ids that \<^verbatim>\<open>randomUUID\<close> yields are arguments, one per rule in order.\<close>

definition preset_rule ::
  "agent_id \<Rightarrow> user_sub \<Rightarrow> EgressRuleSource \<Rightarrow> string \<Rightarrow> string \<Rightarrow> NewEgressRule" where
  "preset_rule agentId decidedBy source ruleId host =
     \<lparr>ne_id = ruleId, ne_agentId = agentId, ne_host = host, ne_port = None, ne_method = ''*'',
      ne_pathPattern = ''*'', ne_verdict = Allow, ne_decidedBy = decidedBy, ne_source = source\<rparr>"

definition preset_seed ::
  "string list \<Rightarrow> string list \<Rightarrow> time_ms \<Rightarrow> agent_id \<Rightarrow> EgressPreset \<Rightarrow> user_sub \<Rightarrow> EgressRuleRow table
   \<Rightarrow> (RulesError option) \<times> EgressRuleRow table" where
  "preset_seed trustedHosts ids now agentId preset decidedBy t =
     (let t1 = revokePresetRowsForAgent t agentId
      in case preset of
           PresetNone \<Rightarrow> (None, t1)
         | All \<Rightarrow>
             (case insert_rule t1 now (preset_rule agentId decidedBy PresetAll (hd ids) ''*'') of
                Inl e \<Rightarrow> (Some e, t1)
              | Inr (_, t2) \<Rightarrow> (None, t2))
         | Trusted \<Rightarrow>
             (None, markPresetUnderConnections
                      (insertAll t1 now (map2 (preset_rule agentId decidedBy PresetTrusted) ids trustedHosts))
                      agentId trustedHosts PresetTrusted))"

definition markTrustedRowsTakenOver :: "string list \<Rightarrow> EgressRuleRow table \<Rightarrow> nat \<times> EgressRuleRow table" where
  "markTrustedRowsTakenOver trustedHosts t = markSeededConnectionRows t trustedHosts PresetTrusted"

record StarterKitEgressRule =
  kr_host :: string
  kr_port :: "nat option"
  kr_method :: string
  kr_pathPattern :: string
  kr_verdict :: RuleVerdict

definition kit_rule :: "agent_id \<Rightarrow> user_sub \<Rightarrow> string \<Rightarrow> StarterKitEgressRule \<Rightarrow> NewEgressRule" where
  "kit_rule agentId decidedBy ruleId rule =
     \<lparr>ne_id = ruleId, ne_agentId = agentId, ne_host = kr_host rule,
      ne_port = (case kr_port rule of Some 0 \<Rightarrow> None | p \<Rightarrow> p), ne_method = kr_method rule,
      ne_pathPattern = kr_pathPattern rule, ne_verdict = kr_verdict rule, ne_decidedBy = decidedBy,
      ne_source = Kit\<rparr>"

text \<open>The loop ends at the first clash and keeps what it wrote before it.\<close>

fun kit_seed_rules ::
  "time_ms \<Rightarrow> NewEgressRule list \<Rightarrow> EgressRuleRow table \<Rightarrow> (EgressError option) \<times> EgressRuleRow table" where
  "kit_seed_rules now [] t = (None, t)"
| "kit_seed_rules now (rule # rules) t =
     (case insertOrPromoteFromPreset t now rule of
        Inl e \<Rightarrow> (Some (RulesErr e), t)
      | Inr (row, t') \<Rightarrow>
          if er_verdict row \<noteq> ne_verdict rule then (Some (KitClash rule (er_verdict row)), t')
          else kit_seed_rules now rules t')"

definition kit_seed ::
  "l7_patch \<Rightarrow> string list \<Rightarrow> time_ms \<Rightarrow> agent_id \<Rightarrow> StarterKitEgressRule list \<Rightarrow> user_sub \<Rightarrow> EgressState
   \<Rightarrow> (EgressError + unit) \<times> EgressState" where
  "kit_seed patch ids now agentId rules decidedBy st =
     (if rules = [] then (Inr (), st)
      else case kit_seed_rules now (map2 (kit_rule agentId decidedBy) ids rules) (as_rules st) of
             (Some e, t) \<Rightarrow> (Inl e, st\<lparr>as_rules := t\<rparr>)
           | (None, t) \<Rightarrow> reconvergeAgentL7Hosts patch agentId (st\<lparr>as_rules := t\<rparr>))"


section \<open>The rules of an Agent's Connections\<close>

record EgressHostRule =
  hr_host :: string
  hr_port :: "nat option"
  hr_pathPattern :: "string option"

definition tripleKey :: "string \<Rightarrow> string \<Rightarrow> string \<Rightarrow> string" where
  "tripleKey connId host pathPattern = connId @ '' '' @ host @ '' '' @ pathPattern"

definition normalizePath :: "string option \<Rightarrow> string" where
  "normalizePath p = (case p of None \<Rightarrow> ''*'' | Some p \<Rightarrow> if p = [] then ''*'' else p)"

text \<open>The Connection a row is from; \<^const>\<open>None\<close> also for an empty id.\<close>

definition row_connection :: "EgressRuleRow \<Rightarrow> string option" where
  "row_connection r = (case er_source r of Connection c \<Rightarrow> if c = [] then None else Some c | _ \<Rightarrow> None)"

definition row_triple :: "string \<Rightarrow> EgressRuleRow \<Rightarrow> string" where
  "row_triple connId r = tripleKey connId (er_host r) (normalizePath (Some (er_pathPattern r)))"

text \<open>A JavaScript \<^verbatim>\<open>Map\<close> keeps the place of a key's first write and the value of its last.\<close>

definition current_by_triple :: "EgressRuleRow list \<Rightarrow> (string \<times> EgressRuleRow) list" where
  "current_by_triple rows =
     foldl (\<lambda>m row. case row_connection row of
              None \<Rightarrow> m
            | Some connId \<Rightarrow> AList.update (row_triple connId row) row m) [] rows"

type_synonym grants = "(string \<times> EgressHostRule list) list"

definition granted :: "grants \<Rightarrow> (string \<times> EgressHostRule) list" where
  "granted grants = concat (map (\<lambda>(connId, hosts). map (\<lambda>rule. (connId, rule)) hosts) grants)"

definition grant_triple :: "string \<times> EgressHostRule \<Rightarrow> string" where
  "grant_triple g = tripleKey (fst g) (hr_host (snd g)) (normalizePath (hr_pathPattern (snd g)))"

text \<open>The first loop: the rows no grant asks for any more, of the sources this sync owns.\<close>

definition sync_drop_row ::
  "string set \<Rightarrow> (string \<Rightarrow> bool) \<Rightarrow> EgressRuleRow table \<Rightarrow> string \<times> EgressRuleRow \<Rightarrow> EgressRuleRow table" where
  "sync_drop_row desired owned t entry =
     (let row = snd entry
      in if fst entry \<in> desired then t
         else if \<not> owned (case er_source row of Connection c \<Rightarrow> c | _ \<Rightarrow> []) then t
         else if er_presetSource row \<noteq> None then restorePresetSource t (er_id row)
         else revoke_rule t (er_id row))"

definition connection_rule ::
  "agent_id \<Rightarrow> user_sub \<Rightarrow> string \<Rightarrow> string \<times> EgressHostRule \<Rightarrow> NewEgressRule" where
  "connection_rule agentId decidedBy ruleId g =
     \<lparr>ne_id = ruleId, ne_agentId = agentId, ne_host = hr_host (snd g),
      ne_port = (case hr_port (snd g) of Some 0 \<Rightarrow> None | p \<Rightarrow> p), ne_method = ''*'',
      ne_pathPattern = normalizePath (hr_pathPattern (snd g)), ne_verdict = Allow,
      ne_decidedBy = decidedBy, ne_source = Connection (fst g)\<rparr>"

text \<open>The second loop: the grants that no row stands for yet, unless a person's rule names the host.\<close>

fun sync_add_rows ::
  "time_ms \<Rightarrow> agent_id \<Rightarrow> user_sub \<Rightarrow> string set \<Rightarrow> (string \<times> string \<times> EgressHostRule) list
   \<Rightarrow> EgressRuleRow table \<Rightarrow> (RulesError option) \<times> EgressRuleRow table" where
  "sync_add_rows now agentId decidedBy present [] t = (None, t)"
| "sync_add_rows now agentId decidedBy present ((ruleId, g) # gs) t =
     (if grant_triple g \<in> present then sync_add_rows now agentId decidedBy present gs t
      else if hasUserOwnedRuleForHost t agentId (hr_host (snd g))
      then sync_add_rows now agentId decidedBy present gs t
      else case insertOrPromoteFromPreset t now (connection_rule agentId decidedBy ruleId g) of
             Inl e \<Rightarrow> (Some e, t)
           | Inr (_, t') \<Rightarrow> sync_add_rows now agentId decidedBy present gs t')"

definition syncForAgent ::
  "time_ms \<Rightarrow> string list \<Rightarrow> agent_id \<Rightarrow> user_sub \<Rightarrow> grants \<Rightarrow> (string \<Rightarrow> bool) \<Rightarrow> EgressRuleRow table
   \<Rightarrow> (RulesError option) \<times> EgressRuleRow table" where
  "syncForAgent now ids agentId decidedBy grants ownedSourceIds t =
     (let current = current_by_triple (listConnectionDerivedForAgent t agentId);
          desired = set (map grant_triple (granted grants));
          t1 = foldl (sync_drop_row desired ownedSourceIds) t current
      in sync_add_rows now agentId decidedBy (set (map fst current)) (zip ids (granted grants)) t1)"

definition adoptSources ::
  "agent_id \<Rightarrow> EgressRuleSource list \<Rightarrow> EgressRuleSource \<Rightarrow> EgressRuleRow table \<Rightarrow> EgressRuleRow table" where
  "adoptSources agentId fromSources toSource t = reassignActiveSource t agentId fromSources toSource"


section \<open>The owner's service\<close>

record EgressRuleView =
  ev_id :: string
  ev_agentId :: agent_id
  ev_host :: string
  ev_port :: "nat option"
  ev_method :: string
  ev_pathPattern :: string
  ev_verdict :: RuleVerdict
  ev_decidedBy :: user_sub
  ev_decidedByEmail :: "string option"
  ev_decidedAt :: time_ms \<comment> \<open>rendered as ISO text by the code\<close>
  ev_source :: EgressRuleSource

definition toView :: "EgressRuleRow \<Rightarrow> EgressRuleView" where
  "toView row =
     \<lparr>ev_id = er_id row, ev_agentId = er_agentId row, ev_host = er_host row,
      ev_port = (case er_port row of Some 0 \<Rightarrow> None | p \<Rightarrow> p), ev_method = er_method row,
      ev_pathPattern = er_pathPattern row, ev_verdict = er_verdict row,
      ev_decidedBy = er_decidedBy row, ev_decidedByEmail = None, ev_decidedAt = er_decidedAt row,
      ev_source = er_source row\<rparr>"

record EgressDeps =
  ed_patch :: l7_patch
  ed_trustedHosts :: "string list"
  ed_owned :: "agent_id \<Rightarrow> user_sub \<Rightarrow> bool"
  ed_ownerSub :: user_sub
  ed_actor :: user_sub
  ed_email :: "user_sub \<Rightarrow> string option"
  ed_seeds :: bool \<comment> \<open>a preset seeder is wired\<close>
  ed_access :: "AccessConfig option" \<comment> \<open>\<^verbatim>\<open>platformAccess\<close>\<close>

definition mine :: "EgressDeps \<Rightarrow> agent_id \<Rightarrow> bool" where
  "mine deps agentId = ed_owned deps agentId (ed_ownerSub deps)"

definition svc_listForAgent :: "EgressDeps \<Rightarrow> agent_id \<Rightarrow> EgressState \<Rightarrow> EgressRuleView list" where
  "svc_listForAgent deps agentId st =
     (if \<not> mine deps agentId then []
      else map (\<lambda>row. (toView row)\<lparr>ev_decidedByEmail :=
               (if written_by_a_person (er_source row)
                then (case ed_email deps (er_decidedBy row) of Some [] \<Rightarrow> None | e \<Rightarrow> e) else None)\<rparr>)
             (listForAgent (as_rules st) agentId))"

definition owned_rule :: "EgressDeps \<Rightarrow> string \<Rightarrow> EgressState \<Rightarrow> EgressRuleRow option" where
  "owned_rule deps ruleId st =
     (case getById (as_rules st) ruleId of
        None \<Rightarrow> None
      | Some rule \<Rightarrow> if mine deps (er_agentId rule) then Some rule else None)"

definition svc_get :: "EgressDeps \<Rightarrow> string \<Rightarrow> EgressState \<Rightarrow> EgressError + EgressRuleView" where
  "svc_get deps ruleId st =
     (case owned_rule deps ruleId st of
        None \<Rightarrow> Inl (NotFound ''egress rule not found'')
      | Some rule \<Rightarrow> Inr (toView rule))"

definition svc_currentPreset :: "EgressDeps \<Rightarrow> agent_id \<Rightarrow> EgressState \<Rightarrow> EgressPreset" where
  "svc_currentPreset deps agentId st =
     (if mine deps agentId then getPresetForAgent (as_rules st) agentId else PresetNone)"

record EgressRuleCreateInput =
  ci_agentId :: agent_id
  ci_host :: string
  ci_port :: "nat option"
  ci_method :: string
  ci_pathPattern :: string
  ci_verdict :: RuleVerdict

definition create_rule :: "EgressDeps \<Rightarrow> string \<Rightarrow> EgressRuleCreateInput \<Rightarrow> NewEgressRule" where
  "create_rule deps ruleId input =
     \<lparr>ne_id = ruleId, ne_agentId = ci_agentId input, ne_host = ci_host input,
      ne_port = (case ci_port input of Some 0 \<Rightarrow> None | p \<Rightarrow> p), ne_method = ci_method input,
      ne_pathPattern = ci_pathPattern input, ne_verdict = ci_verdict input,
      ne_decidedBy = ed_actor deps, ne_source = Manual\<rparr>"

definition svc_create ::
  "EgressDeps \<Rightarrow> string \<Rightarrow> time_ms \<Rightarrow> EgressRuleCreateInput \<Rightarrow> EgressState
   \<Rightarrow> (EgressError + EgressRuleView) \<times> EgressState" where
  "svc_create deps ruleId now input st =
     (if \<not> mine deps (ci_agentId input) then (Inl (NotFound ''agent not found''), st)
      else case writer_insert (ed_patch deps) now (create_rule deps ruleId input) st of
             (Inl e, st1) \<Rightarrow> (Inl e, st1)
           | (Inr outcome, st1) \<Rightarrow>
               let accept = (\<lambda>row. if er_port row \<noteq> ci_port input
                      then (Inl (Conflict ''an equivalent rule already exists for another port''), st1)
                      else (Inr (toView row), st1))
               in (case outcome of
                     VerdictClash existing \<Rightarrow>
                       (Inl (Conflict ''an equivalent rule already exists with the other verdict''), st1)
                   | Inserted row \<Rightarrow> accept row
                   | Duplicate row _ \<Rightarrow> accept row))"

record EgressRuleUpdateInput =
  ui_id :: string
  ui_method :: "string option"
  ui_pathPattern :: "string option"
  ui_verdict :: "RuleVerdict option"

definition update_input :: "EgressDeps \<Rightarrow> EgressRuleUpdateInput \<Rightarrow> EgressRuleRow \<Rightarrow> TakeOwnershipInput" where
  "update_input deps input rule =
     \<lparr>to_id = ui_id input,
      to_method = (case ui_method input of None \<Rightarrow> er_method rule | Some m \<Rightarrow> m),
      to_pathPattern = (case ui_pathPattern input of None \<Rightarrow> er_pathPattern rule | Some p \<Rightarrow> p),
      to_verdict = (case ui_verdict input of None \<Rightarrow> er_verdict rule | Some v \<Rightarrow> v),
      to_decidedBy = ed_actor deps, to_source = Manual\<rparr>"

definition svc_update ::
  "EgressDeps \<Rightarrow> EgressRuleUpdateInput \<Rightarrow> EgressState \<Rightarrow> (EgressError + EgressRuleView) \<times> EgressState" where
  "svc_update deps input st =
     (case owned_rule deps (ui_id input) st of
        None \<Rightarrow> (Inl (NotFound ''egress rule not found''), st)
      | Some rule \<Rightarrow>
          if er_source rule = PlatformEnvironments
          then (Inl (BadRequest ''the platform rule cannot be edited''), st)
          else (case updateTakeOwnership (as_rules st) (update_input deps input rule) of
                  Inl e \<Rightarrow> (Inl (RulesErr e), st)
                | Inr (None, t) \<Rightarrow> (Inl (NotFound ''egress rule not found''), st\<lparr>as_rules := t\<rparr>)
                | Inr (Some updated, t) \<Rightarrow>
                    (case reconvergeAgentL7Hosts (ed_patch deps) (er_agentId updated) (st\<lparr>as_rules := t\<rparr>) of
                       (Inl e, st2) \<Rightarrow> (Inl e, st2)
                     | (Inr _, st2) \<Rightarrow> (Inr (toView updated), st2))))"

definition svc_revoke :: "EgressDeps \<Rightarrow> string \<Rightarrow> EgressState \<Rightarrow> (EgressError + unit) \<times> EgressState" where
  "svc_revoke deps ruleId st =
     (case owned_rule deps ruleId st of
        None \<Rightarrow> (Inr (), st)
      | Some rule \<Rightarrow>
          let st1 = st\<lparr>as_rules := revoke_rule (as_rules st) ruleId\<rparr>;
              st2 = (if er_source rule = PlatformEnvironments \<and> ed_access deps \<noteq> None
                     then access_withdraw (er_agentId rule) st1 else st1)
          in reconvergeAgentL7Hosts (ed_patch deps) (er_agentId rule) st2)"

definition svc_platformRule :: "EgressDeps \<Rightarrow> agent_id \<Rightarrow> EgressState \<Rightarrow> PlatformRuleState" where
  "svc_platformRule deps agentId st =
     (case ed_access deps of
        None \<Rightarrow> RuleUnavailable
      | Some cfg \<Rightarrow> if mine deps agentId then access_state cfg agentId st else RuleUnavailable)"

definition svc_restorePlatformRule ::
  "EgressDeps \<Rightarrow> string \<Rightarrow> string \<Rightarrow> time_ms \<Rightarrow> agent_id \<Rightarrow> EgressState
   \<Rightarrow> (EgressError + EgressRuleView) \<times> EgressState" where
  "svc_restorePlatformRule deps key ruleId now agentId st =
     (if \<not> mine deps agentId then (Inl (NotFound ''agent not found''), st)
      else case (case ed_access deps of
                   None \<Rightarrow> (Inr None, st)
                 | Some cfg \<Rightarrow> access_restore cfg key ruleId now agentId (ed_ownerSub deps) st) of
             (Inl e, st1) \<Rightarrow> (Inl (AccessErr e), st1)
           | (Inr None, st1) \<Rightarrow> (Inl (PreconditionFailed ''this install serves no Environments''), st1)
           | (Inr (Some row), st1) \<Rightarrow> (Inr (toView row), st1))"

definition svc_applyPreset ::
  "EgressDeps \<Rightarrow> string list \<Rightarrow> time_ms \<Rightarrow> agent_id \<Rightarrow> EgressPreset \<Rightarrow> EgressState
   \<Rightarrow> (EgressError + unit) \<times> EgressState" where
  "svc_applyPreset deps ids now agentId preset st =
     (if \<not> mine deps agentId then (Inl (NotFound ''agent not found''), st)
      else if \<not> ed_seeds deps then (Inr (), st)
      else case preset_seed (ed_trustedHosts deps) ids now agentId preset (ed_ownerSub deps) (as_rules st) of
             (Some e, t) \<Rightarrow> (Inl (RulesErr e), st\<lparr>as_rules := t\<rparr>)
           | (None, t) \<Rightarrow> (Inr (), st\<lparr>as_rules := t\<rparr>))"


section \<open>Lemmas: inspected hosts\<close>

lemma l7_same_set_iff: "distinct desired \<Longrightarrow> l7_same_set current desired \<longleftrightarrow> set current = set desired"
proof -
  assume "distinct desired"
  then have "length desired = card (set desired)" by (simp add: distinct_card)
  moreover have "length (remdups current) = card (set current)" by (simp add: length_remdups_card_conv)
  ultimately have "l7_same_set current desired \<longleftrightarrow>
      set desired \<subseteq> set current \<and> card (set desired) = card (set current)"
    by (auto simp: l7_same_set_def)
  also have "\<dots> \<longleftrightarrow> set current = set desired"
    using card_subset_eq [of "set current" "set desired"] by auto
  finally show ?thesis .
qed

lemma l7_attempts_ok:
  "\<lbrakk>l7_attempts patch k a desired w = (True, w'); distinct desired; w' a = Some current\<rbrakk> \<Longrightarrow>
   set current = set desired"
  by (induction k arbitrary: w)
     (auto simp: l7_same_set_iff Let_def split: option.splits if_splits)

lemma l7_set_ok:
  "\<lbrakk>l7_set patch a hosts w = (True, w'); w' a = Some current\<rbrakk> \<Longrightarrow> set current = set hosts"
  unfolding l7_set_def by (drule (1) l7_attempts_ok [rotated 2]) simp_all

text \<open>
  The gateway of an Agent inspects exactly the hosts that its active rules need inspected.
\<close>

definition l7_consistent :: "agent_id \<Rightarrow> EgressState \<Rightarrow> bool" where
  "l7_consistent a st \<longleftrightarrow>
     (case es_l7 st a of None \<Rightarrow> True
      | Some hosts \<Rightarrow> set hosts = set (promotedHosts (listForAgent (as_rules st) a)))"

lemma reconverge_consistent:
  "reconvergeAgentL7Hosts patch a st = (Inr u, st') \<Longrightarrow>
   l7_consistent a st' \<and> as_rules st' = as_rules st \<and> as_keys st' = as_keys st"
  by (auto simp: reconvergeAgentL7Hosts_def l7_consistent_def dest: l7_set_ok
      split: prod.splits if_splits option.splits)

lemma writer_insert_consistent:
  assumes "writer_insert patch now input st = (Inr outcome, st')" and "\<And>row. outcome \<noteq> VerdictClash row"
  shows "l7_consistent (ne_agentId input) st'"
  using assms
  by (auto simp: writer_insert_def dest: reconverge_consistent
      split: sum.splits prod.splits EgressRuleWriteOutcome.splits)


lemma reconverge_rules: "as_rules (snd (reconvergeAgentL7Hosts patch a st)) = as_rules st"
  by (simp add: reconvergeAgentL7Hosts_def split: prod.split)

lemma reconverge_case_rules:
  "as_rules (snd (case reconvergeAgentL7Hosts patch a st of (Inl e, st1) \<Rightarrow> (Inl e, st1) | (Inr _, st1) \<Rightarrow> (Inr x, st1)))
     = as_rules st"
  using reconverge_rules [of patch a st]
  by (cases "reconvergeAgentL7Hosts patch a st") (auto split: sum.split)

lemma writer_insert_table: "as_rules (snd (writer_insert patch now input st)) = snd (write_rule (as_rules st) now input)"
proof -
  obtain res t where wrote: "write_rule (as_rules st) now input = (res, t)" by (cases "write_rule (as_rules st) now input")
  show ?thesis
  proof (cases res)
    case (Inr outcome)
    with wrote show ?thesis by (cases outcome) (simp_all add: writer_insert_def reconverge_case_rules)
  qed (simp add: writer_insert_def wrote)
qed

lemma writer_insert_outcome:
  assumes "writer_insert patch now input st = (Inr outcome, st')"
  shows "write_rule (as_rules st) now input = (Inr outcome, as_rules st')"
proof -
  have "fst (write_rule (as_rules st) now input) = Inr outcome"
    using assms by (auto simp: writer_insert_def split: prod.splits sum.splits EgressRuleWriteOutcome.splits)
  with writer_insert_table [of patch now input st] assms show ?thesis
    by (cases "write_rule (as_rules st) now input") simp
qed

text \<open>After a write without a clash, the tuple has an active rule of the verdict written.\<close>

lemma take_ownership_same_tuple:
  "same_tuple a h p m pp r \<Longrightarrow> to_method input = m \<Longrightarrow> to_pathPattern input = pp \<Longrightarrow>
   same_tuple a h p m pp (take_ownership input r)"
  by (auto simp: same_tuple_def take_ownership_def is_active_def)

lemma write_rule_active:
  assumes "rules_inv t" and "write_rule t now input = (Inr outcome, t')" and "\<And>row. outcome \<noteq> VerdictClash row"
  obtains r where "r \<in> set t'" "er_verdict r = ne_verdict input"
    "same_tuple (ne_agentId input) (ne_host input) (ne_port input) (ne_method input) (ne_pathPattern input) r"
proof -
  let ?same = "same_tuple (ne_agentId input) (ne_host input) (ne_port input) (ne_method input) (ne_pathPattern input)"
  obtain row t1 where ins: "insert_rule t now input = Inr (row, t1)" and verdict: "er_verdict row = ne_verdict input"
    using assms(2,3) by (auto simp: write_rule_def split: sum.splits prod.splits if_splits)
  from ins show ?thesis
  proof (cases rule: insert_ruleE)
    case inserted
    with assms(2) have "t' = t1" by (simp add: write_rule_def ins split: if_splits)
    with inserted show ?thesis by (intro that [of "stored_rule now input"]) (simp_all add: same_tuple_def)
  next
    case existing
    then obtain x where x: "find ?same t = Some x" "row = toRow x" by (auto simp: getActiveByTuple_def)
    from find_SomeD [OF x(1)] have mem: "x \<in> set t" "?same x" by simp_all
    then have own: "find (\<lambda>r. er_id r = er_id x \<and> is_active r) t = Some x"
      by (intro find_active_by_id [OF assms(1)]) (auto simp: same_tuple_def)
    let ?in = "\<lparr>to_id = er_id row, to_method = er_method row, to_pathPattern = er_pathPattern row,
       to_verdict = er_verdict row, to_decidedBy = ne_decidedBy input, to_source = ne_source input\<rparr>"
    have "?same (take_ownership ?in x)"
      using mem(2) x(2) by (intro take_ownership_same_tuple) (auto simp: same_tuple_def)
    moreover have "take_ownership ?in x \<in> set (update_where (\<lambda>r. er_id r = er_id x \<and> is_active r) (take_ownership ?in) t)"
      using mem by (auto simp: set_update_where image_iff same_tuple_def intro!: bexI [of _ x])
    moreover have "t' = t \<or> t' = update_where (\<lambda>r. er_id r = er_id x \<and> is_active r) (take_ownership ?in) t"
      using assms(2) own x(2) existing(2)
      by (auto simp: write_rule_def ins updateTakeOwnership_def split: if_splits)
    ultimately show ?thesis
      using mem verdict x(2) that [of x] that [of "take_ownership ?in x"] by auto
  qed
qed


lemma rules_inv_write_rule: "rules_inv t \<Longrightarrow> rules_inv (snd (write_rule t now input))"
  by (auto simp: write_rule_def split: sum.split prod.split option.split
      intro: rules_step_inv rules_step.step_insert rules_inv_updateTakeOwnership)

section \<open>Lemmas: what the sync and the seeders leave alone\<close>

lemma set_insert_or_nothing: "insert_or_nothing t r = (d, t') \<Longrightarrow> set t \<subseteq> set t'"
  by (auto simp: insert_or_nothing_def split: if_splits)

lemma set_insertAll: "set t \<subseteq> set (insertAll t now rows)"
proof (induction rows arbitrary: t)
  case (Cons row rows)
  have "set t \<subseteq> set (snd (insert_or_nothing t (stored_rule now row)))"
    by (simp add: insert_or_nothing_def subset_insertI2)
  with Cons.IH show ?case by (simp add: insertAll_def) blast
qed (simp add: insertAll_def)

lemma person_rule:
  assumes "written_by_a_person (er_source r)"
  shows "\<not> is_preset_source (er_source r)" "\<not> is_connection_source (er_source r)" "er_source r \<noteq> Connection c"
  using assms by (auto simp: written_by_a_person_def)

lemma person_rule_no_preset:
  "\<lbrakk>rules_inv t; r \<in> set t; written_by_a_person (er_source r)\<rbrakk> \<Longrightarrow> er_presetSource r = None"
  by (auto simp: rules_inv_def list_all_iff preset_ok_def written_by_a_person_def split: option.splits)

lemma preset_seed_keeps:
  assumes "rules_inv t" and "r \<in> set t" and "written_by_a_person (er_source r)"
  shows "r \<in> set (snd (preset_seed trusted ids now a preset sub t))"
proof -
  have "r \<in> set (revokePresetRowsForAgent t a)"
    unfolding revokePresetRowsForAgent_def
    using assms person_rule_no_preset [OF assms] person_rule [OF assms(3)]
    by (auto intro!: update_where_keeps)
  then have kept: "r \<in> set (insertAll (revokePresetRowsForAgent t a) now rows)"
    "insert_rule (revokePresetRowsForAgent t a) now row = Inr (x, t') \<Longrightarrow> r \<in> set t'" for rows row x t'
    using set_insertAll by (auto elim: insert_ruleE)
  have "r \<in> set (markPresetUnderConnections t' a trusted s)" if "r \<in> set t'" for t' s
    using that person_rule(2) [OF assms(3)]
    by (auto simp: markPresetUnderConnections_def under_connection_def intro!: update_where_keeps)
  with kept \<open>r \<in> set (revokePresetRowsForAgent t a)\<close> show ?thesis
    by (auto simp: preset_seed_def Let_def split: EgressPreset.split sum.split)
qed

lemma insertOrPromote_keeps:
  "\<lbrakk>insertOrPromoteFromPreset t now row = Inr (x, t'); r \<in> set t; \<not> is_preset_source (er_source r)\<rbrakk> \<Longrightarrow>
   r \<in> set t'"
  by (erule insertOrPromoteFromPresetE) (auto intro!: update_where_keeps simp: promotable_def)

lemma sync_add_rows_keeps:
  "\<lbrakk>r \<in> set t; \<not> is_preset_source (er_source r)\<rbrakk> \<Longrightarrow>
   r \<in> set (snd (sync_add_rows now a sub present gs t))"
proof (induction gs arbitrary: t)
  case (Cons g gs)
  obtain ruleId c rule where g: "g = (ruleId, c, rule)" by (cases g)
  show ?case
  proof (cases "insertOrPromoteFromPreset t now (connection_rule a sub ruleId (c, rule))")
    case (Inr xt)
    then obtain x t' where new: "insertOrPromoteFromPreset t now (connection_rule a sub ruleId (c, rule)) = Inr (x, t')"
      by (cases xt) simp
    from insertOrPromote_keeps [OF new Cons.prems] have "r \<in> set t'" .
    with Cons.IH Cons.prems show ?thesis by (simp add: g new)
  qed (use Cons in \<open>simp add: g\<close>)
qed simp

lemma sync_drop_row_keeps:
  "\<lbrakk>r \<in> set t; er_id r \<noteq> er_id (snd e)\<rbrakk> \<Longrightarrow> r \<in> set (sync_drop_row desired owned t e)"
  by (auto simp: sync_drop_row_def Let_def restorePresetSource_def revoke_rule_def intro!: update_where_keeps)

lemma sync_drop_rows_keeps:
  "\<lbrakk>r \<in> set t; \<forall>e \<in> set es. er_id r \<noteq> er_id (snd e)\<rbrakk> \<Longrightarrow>
   r \<in> set (foldl (sync_drop_row desired owned) t es)"
  by (induction es arbitrary: t) (auto intro: sync_drop_row_keeps)

lemma AList_update_set: "set (AList.update k v al) \<subseteq> insert (k, v) (set al)"
  by (induction al) auto

lemma current_by_triple_rows:
  "snd ` set (current_by_triple rows) \<subseteq> set rows"
proof -
  have "snd ` set (foldl (\<lambda>m row. case row_connection row of None \<Rightarrow> m
          | Some connId \<Rightarrow> AList.update (row_triple connId row) row m) m rows) \<subseteq> snd ` set m \<union> set rows" for m
  proof (induction rows arbitrary: m)
    case (Cons row rows)
    let ?m = "case row_connection row of None \<Rightarrow> m | Some connId \<Rightarrow> AList.update (row_triple connId row) row m"
    have "snd ` set ?m \<subseteq> insert row (snd ` set m)"
    proof (cases "row_connection row")
      case (Some c)
      with AList_update_set [of "row_triple c row" row m] show ?thesis by auto
    qed auto
    with Cons.IH [of ?m] show ?case by auto
  qed simp
  from this [of "[]"] show ?thesis by (simp add: current_by_triple_def)
qed

lemma current_row_stored:
  assumes "e \<in> set (current_by_triple (listConnectionDerivedForAgent t a))"
  obtains x where "x \<in> set t" "snd e = toRow x" "er_agentId x = a" "is_active x" "is_connection_source (er_source x)"
  using assms current_by_triple_rows [of "listConnectionDerivedForAgent t a"]
  by (auto simp: listConnectionDerivedForAgent_def image_iff subset_iff)


section \<open>Lemmas: what the sync removes\<close>

definition live_connection_row :: "EgressRuleRow \<Rightarrow> bool" where
  "live_connection_row r \<longleftrightarrow> is_active r \<and> is_connection_source (er_source r)"

text \<open>A row that an update of the first loop writes is no live row of a Connection any more.\<close>

lemma restored_not_live: "preset_ok r \<Longrightarrow> er_presetSource r \<noteq> None \<Longrightarrow> \<not> live_connection_row (restore_preset r)"
  by (auto simp: live_connection_row_def restore_preset_def preset_ok_def split: option.splits)

lemma sync_drop_row_live:
  assumes "rules_inv t" and "x \<in> set (sync_drop_row desired owned t e)" and "live_connection_row x"
  shows "x \<in> set t \<and> (er_id x = er_id (snd e) \<and> er_presetSource x = er_presetSource (snd e) \<longrightarrow>
     fst e \<in> desired \<or> \<not> owned (case er_source (snd e) of Connection c \<Rightarrow> c | _ \<Rightarrow> []))"
proof -
  have ok: "preset_ok r" if "r \<in> set t" for r
    using assms(1) that by (simp add: rules_inv_def list_all_iff)
  have live: "is_active x" "is_connection_source (er_source x)"
    using assms(3) by (simp_all add: live_connection_row_def)
  show ?thesis
    using assms(2) live restored_not_live ok assms(3)
    by (auto simp: sync_drop_row_def Let_def restorePresetSource_def revoke_rule_def set_update_where
        simp del: is_connection_source_iff split: if_splits)
qed

lemma rules_inv_sync_drop_row: "rules_inv t \<Longrightarrow> rules_inv (sync_drop_row desired owned t e)"
  by (auto simp: sync_drop_row_def Let_def
      intro: rules_step_inv rules_step.step_restorePreset rules_step.step_revoke)

lemma rules_inv_sync_drop_rows:
  "rules_inv t \<Longrightarrow> rules_inv (foldl (sync_drop_row desired owned) t es)"
  by (induction es arbitrary: t) (auto intro: rules_inv_sync_drop_row)

lemma sync_drop_rows_live:
  "\<lbrakk>rules_inv t; x \<in> set (foldl (sync_drop_row desired owned) t es); live_connection_row x\<rbrakk> \<Longrightarrow>
   x \<in> set t \<and> (\<forall>e \<in> set es. er_id x = er_id (snd e) \<and> er_presetSource x = er_presetSource (snd e) \<longrightarrow>
     fst e \<in> desired \<or> \<not> owned (case er_source (snd e) of Connection c \<Rightarrow> c | _ \<Rightarrow> []))"
proof (induction es arbitrary: t)
  case (Cons e es)
  from Cons.IH [of "sync_drop_row desired owned t e"] Cons.prems rules_inv_sync_drop_row
  have "x \<in> set (sync_drop_row desired owned t e)" by simp
  from sync_drop_row_live [OF Cons.prems(1) this Cons.prems(3)]
    Cons.IH [of "sync_drop_row desired owned t e"] Cons.prems rules_inv_sync_drop_row
  show ?case by simp
qed simp

text \<open>With one row per triple, the map of the current rows holds them all.\<close>

lemma AList_update_fresh: "k \<notin> fst ` set al \<Longrightarrow> AList.update k v al = al @ [(k, v)]"
  by (induction al) auto

lemma current_by_triple_complete:
  assumes "distinct (map (\<lambda>r. row_triple (the (row_connection r)) r) (filter (\<lambda>r. row_connection r \<noteq> None) rows))"
  shows "current_by_triple rows =
     map (\<lambda>r. (row_triple (the (row_connection r)) r, r)) (filter (\<lambda>r. row_connection r \<noteq> None) rows)"
  using assms
proof (induction rows rule: rev_induct)
  case (snoc r rows)
  show ?case
  proof (cases "row_connection r")
    case (Some c)
    with snoc have "row_triple c r \<notin> fst ` set (current_by_triple rows)"
      by (auto simp: image_iff)
    with Some snoc show ?thesis
      by (simp add: current_by_triple_def AList_update_fresh)
  qed (use snoc in \<open>simp add: current_by_triple_def\<close>)
qed (simp add: current_by_triple_def)

lemma normalizePath_idem [simp]: "normalizePath (Some (normalizePath p)) = normalizePath p"
  by (auto simp: normalizePath_def split: option.splits)

lemma sync_add_row_live:
  assumes "insertOrPromoteFromPreset t now (connection_rule a sub ruleId g) = Inr (y, t')"
    and "x \<in> set t'" and "live_connection_row x"
  shows "x \<in> set t \<or> (er_source x = Connection (fst g) \<and> row_triple (fst g) x = grant_triple g)"
  using assms(1)
proof (cases rule: insertOrPromoteFromPresetE)
  case inserted
  then show ?thesis
    using assms(2) by (auto simp: row_triple_def grant_triple_def connection_rule_def)
next
  case promoted
  from assms(2) consider "x \<in> set t"
    | z where "promotable (connection_rule a sub ruleId g) z" "x = promote_row (connection_rule a sub ruleId g) z"
    by (auto simp: promoted set_update_where split: if_splits)
  then show ?thesis
    by cases (auto simp: row_triple_def grant_triple_def connection_rule_def promotable_def
        same_tuple_def promote_row_def)
qed

lemma sync_add_rows_live:
  assumes "x \<in> set (snd (sync_add_rows now a sub present gs t))" and "live_connection_row x"
  shows "x \<in> set t \<or> (\<exists>g \<in> snd ` set gs. er_source x = Connection (fst g) \<and> row_triple (fst g) x = grant_triple g)"
  using assms(1)
proof (induction gs arbitrary: t)
  case (Cons g gs)
  obtain ruleId c rule where g: "g = (ruleId, c, rule)" by (cases g)
  show ?case
  proof (cases "insertOrPromoteFromPreset t now (connection_rule a sub ruleId (c, rule))")
    case (Inr xt)
    then obtain y t' where new: "insertOrPromoteFromPreset t now (connection_rule a sub ruleId (c, rule)) = Inr (y, t')"
      by (cases xt) simp
    from sync_add_row_live [OF new _ assms(2)] Cons.IH Cons.prems
    show ?thesis by (auto simp: g new split: if_splits)
  qed (use Cons in \<open>auto simp: g split: if_splits\<close>)
qed simp



section \<open>Properties: rules that others write\<close>


definition sample_state :: "EgressRuleRow table \<Rightarrow> EgressState" where
  "sample_state rules = \<lparr>as_rules = rules, as_keys = [], as_secrets = (\<lambda>_. None), es_l7 = (\<lambda>_. None)\<rparr>"




definition two_ports :: grants where
  "two_ports =
     [(''c'', [\<lparr>hr_host = ''x.io'', hr_port = Some 81, hr_pathPattern = None\<rparr>,
               \<lparr>hr_host = ''x.io'', hr_port = Some 82, hr_pathPattern = None\<rparr>])]"

text \<open>
  Without that proviso a rule can outlive its grant. Two hosts granted on two ports share
  one entry of the map, so when the grant goes, a sync revokes one of the two rows and leaves
  the other active.
\<close>

theorem sync_leaves_second_port_active:
  "let t1 = snd (syncForAgent 1 [''r1'', ''r2''] ''a'' ''u'' two_ports (\<lambda>_. True) []);
       t2 = snd (syncForAgent 2 [] ''a'' ''u'' [] (\<lambda>_. True) t1)
   in length t1 = 2
      \<and> map er_port (filter is_active t2) = [Some 81]
      \<and> list_all (\<lambda>r. er_source r = Connection ''c'') (filter is_active t2)"
  by code_simp



section \<open>Properties: the owner's service\<close>


definition sample_deps :: EgressDeps where
  "sample_deps = \<lparr>ed_patch = (\<lambda>_ _ desired. Some desired), ed_trustedHosts = [], ed_owned = (\<lambda>_ u. u = ''u''),
     ed_ownerSub = ''u'', ed_actor = ''u'', ed_email = (\<lambda>_. None), ed_seeds = True, ed_access = None\<rparr>"

definition sample_create :: "string \<Rightarrow> EgressRuleCreateInput" where
  "sample_create pathPattern = \<lparr>ci_agentId = ''a'', ci_host = ''x.io'', ci_port = None, ci_method = ''*'',
     ci_pathPattern = pathPattern, ci_verdict = Allow\<rparr>"


text \<open>
  C25. Someone who does not own an Agent changes nothing of it: every operation of the service
  on that Agent or on a rule of it leaves the whole state as it was, and shows none of its rules.
\<close>

theorem stranger_changes_nothing:
  assumes "\<not> mine deps (ci_agentId input)"
    and "\<And>rule. getById (as_rules st) ruleId = Some rule \<Longrightarrow> \<not> mine deps (er_agentId rule)"
    and "ui_id upd = ruleId"
  shows "snd (svc_create deps newId now input st) = st
     \<and> snd (svc_applyPreset deps ids now (ci_agentId input) preset st) = st
     \<and> snd (svc_restorePlatformRule deps key newId now (ci_agentId input) st) = st
     \<and> svc_update deps upd st = (Inl (NotFound ''egress rule not found''), st)
     \<and> svc_revoke deps ruleId st = (Inr (), st)
     \<and> svc_get deps ruleId st = Inl (NotFound ''egress rule not found'')
     \<and> svc_listForAgent deps (ci_agentId input) st = []"
proof -
  have "owned_rule deps ruleId st = None"
    using assms(2) by (auto simp: owned_rule_def split: option.split)
  with assms(1,3) show ?thesis
    by (simp add: svc_create_def svc_applyPreset_def svc_restorePlatformRule_def svc_update_def
        svc_revoke_def svc_get_def svc_listForAgent_def)
qed

theorem stranger_changes_nothing_witness:
  "let r = stored_rule 0 (sample_new ''r'' ''x.io'' Deny Manual);
       deps = sample_deps\<lparr>ed_ownerSub := ''mallory''\<rparr>
   in svc_revoke deps ''r'' (sample_state [r]) = (Inr (), sample_state [r])"
proof -
  let ?r = "stored_rule 0 (sample_new ''r'' ''x.io'' Deny Manual)"
  let ?deps = "sample_deps\<lparr>ed_ownerSub := ''mallory''\<rparr>"
  have "\<not> mine ?deps x" for x by (simp add: mine_def sample_deps_def)
  with stranger_changes_nothing [of ?deps "sample_create ''/v1''" "sample_state [?r]" "''r''"
      "\<lparr>ui_id = ''r'', ui_method = None, ui_pathPattern = None, ui_verdict = None\<rparr>"]
  show ?thesis by (simp add: Let_def)
qed

text \<open>
  Writing a rule never turns a decision around: when the tuple already has an active rule
  of the other verdict, the writer reports the clash with that rule and no rule of the table
  changes.
\<close>

theorem writer_reports_clash:
  assumes "rules_inv (as_rules st)" and "r \<in> set (as_rules st)"
    and "same_tuple (ne_agentId input) (ne_host input) (ne_port input) (ne_method input) (ne_pathPattern input) r"
    and "er_verdict r \<noteq> ne_verdict input"
  shows "writer_insert patch now input st = (Inr (VerdictClash (toRow r)), st)"
proof -
  have "rule_conflicts (as_rules st) (stored_rule now input)"
    using assms(2,3) by (auto simp: rule_conflicts_def same_tuple_def lookup_key_def)
  moreover have "find (same_tuple (ne_agentId input) (ne_host input) (ne_port input) (ne_method input)
      (ne_pathPattern input)) (as_rules st) = Some r"
    by (rule find_same_tuple [OF assms(1-3)])
  ultimately show ?thesis
    using assms(4)
    by (simp add: writer_insert_def write_rule_def insert_rule_def insert_or_nothing_def getActiveByTuple_def)
qed

theorem writer_reports_clash_witness:
  "let r = stored_rule 0 (sample_new ''r'' ''x.io'' Deny Manual)
   in writer_insert (\<lambda>_ _ d. Some d) 1 (sample_new ''s'' ''x.io'' Allow Inbox) (sample_state [r])
        = (Inr (VerdictClash (toRow r)), sample_state [r])"
  unfolding Let_def
  by (rule writer_reports_clash)
     (simp_all add: sample_state_def rules_inv_def same_tuple_def sample_new_def)

lemma l7_attempts_succeed:
  "\<lbrakk>\<And>k. patch k a desired \<in> {None, Some desired}; j < k; patch j a desired = Some desired;
    distinct desired\<rbrakk> \<Longrightarrow> fst (l7_attempts patch k a desired w)"
proof (induction k arbitrary: w)
  case (Suc k)
  show ?case
  proof (cases "patch k a desired")
    case None
    with Suc.prems(2,3) have "j < k" by (auto simp: less_Suc_eq)
    with Suc None show ?thesis by (auto split: option.split)
  next
    case (Some written)
    with Suc.prems(1) [of k] Suc.prems(4) show ?thesis
      by (auto simp: l7_same_set_iff Let_def split: option.split)
  qed
qed simp

text \<open>
  The write of the inspected hosts survives conflicts: when each patch that the Kubernetes
  API accepts stores what it was sent and one of the three attempts is accepted, the call
  succeeds, and the resource then names exactly the hosts asked for.
\<close>

theorem l7_set_succeeds:
  assumes "\<And>k. patch k a (sort (remdups hosts)) \<in> {None, Some (sort (remdups hosts))}"
    and "j < PATCH_ATTEMPTS" and "patch j a (sort (remdups hosts)) = Some (sort (remdups hosts))"
  shows "\<exists>w'. l7_set patch a hosts w = (True, w') \<and> (\<forall>current. w' a = Some current \<longrightarrow> set current = set hosts)"
proof -
  have "fst (l7_set patch a hosts w)"
    unfolding l7_set_def by (rule l7_attempts_succeed [where j = j]) (use assms in simp_all)
  then obtain w' where "l7_set patch a hosts w = (True, w')"
    by (cases "l7_set patch a hosts w") auto
  with l7_set_ok show ?thesis by blast
qed

theorem l7_set_succeeds_witness:
  "\<exists>w'. l7_set (\<lambda>k _ desired. if k = 0 then Some desired else None) ''a'' [''x.io''] [''a'' \<mapsto> []] = (True, w')
     \<and> (\<forall>current. w' ''a'' = Some current \<longrightarrow> set current = {''x.io''})"
  using l7_set_succeeds [of "\<lambda>k _ desired. if k = 0 then Some desired else None" "''a''" "[''x.io'']" 0 "[''a'' \<mapsto> []]"]
  by (simp add: PATCH_ATTEMPTS_def)

end
