(* ===== verification/Approvals_Repository.thy ===== *)
theory Approvals_Repository
  imports Spend_Limits
begin

text \<open>
  The approvals: requests that wait for an owner's verdict, and every operation of
  \<^verbatim>\<open>approvals/infrastructure/approvals-repository.ts\<close> on their table. The operations
  that settle a row are compare-and-set updates on its status; a step relation of all of them
  carries the table's invariant to every reachable table.
\<close>

section \<open>Rows\<close>

datatype ApprovalType = ExtAuthz | AcpNative | SpendLimitType | EgressProposal

datatype ApprovalStatus = Pending | Resolved | Expired

datatype ApprovalVerdict = AllowOnce | AllowAlways | DenyOnce | DenyAlways

datatype AcpPermissionOptionKind = KindAllowOnce | KindAllowAlways | KindRejectOnce | KindRejectAlways

record AcpPermissionOption =
  po_optionId :: string
  po_kind :: "AcpPermissionOptionKind option"

datatype RpcId = RpcNumber int | RpcText string

record ExtAuthzRequest =
  xp_host :: string
  xp_port :: "nat option"
  xp_method :: string
  xp_path :: string
  xp_viaAgentId :: "agent_id option"
  xp_viaEnvironment :: "string option"

record AcpNativeRequest =
  np_toolName :: string
  np_toolCallId :: "string option"
  np_args :: string \<comment> \<open>the JSON text of the arguments\<close>
  np_rpcId :: "RpcId option"
  np_options :: "AcpPermissionOption list"
  np_optionsWhole :: bool

record SpendLimitQuestion =
  sq_limitId :: string
  sq_scope :: LimitScope
  sq_unit :: SpendUnit
  sq_day :: utc_day
  sq_amountMicros :: int
  sq_extensions :: int

record EgressProposalRequest =
  ep_host :: string
  ep_port :: "nat option"
  ep_method :: string
  ep_path :: string
  ep_reason :: string

datatype ApprovalPayload =
    ExtAuthzPayload ExtAuthzRequest
  | AcpNativePayload AcpNativeRequest
  | SpendLimitPayload SpendLimitQuestion
  | EgressProposalPayload EgressProposalRequest

record PendingApprovalRow =
  pa_id :: string
  pa_type :: ApprovalType
  pa_agentId :: agent_id
  pa_ownerSub :: user_sub
  pa_sessionId :: "string option"
  pa_payload :: ApprovalPayload
  pa_createdAt :: time_ms
  pa_expiresAt :: time_ms
  pa_resolvedAt :: "time_ms option"
  pa_verdict :: "ApprovalVerdict option"
  pa_decidedBy :: "user_sub option"
  pa_status :: ApprovalStatus
  pa_deliveredAt :: "time_ms option"

record NewPendingApproval =
  na_id :: string
  na_type :: ApprovalType
  na_agentId :: agent_id
  na_ownerSub :: user_sub
  na_sessionId :: "string option"
  na_payload :: ApprovalPayload
  na_expiresAt :: time_ms

type_synonym approvals = "PendingApprovalRow table"

text \<open>The row an insert writes, with the defaults of the schema.\<close>

definition pending_row :: "time_ms \<Rightarrow> NewPendingApproval \<Rightarrow> PendingApprovalRow" where
  "pending_row now row =
     \<lparr>pa_id = na_id row, pa_type = na_type row, pa_agentId = na_agentId row, pa_ownerSub = na_ownerSub row,
      pa_sessionId = na_sessionId row, pa_payload = na_payload row, pa_createdAt = now,
      pa_expiresAt = na_expiresAt row, pa_resolvedAt = None, pa_verdict = None, pa_decidedBy = None,
      pa_status = Pending, pa_deliveredAt = None\<rparr>"


section \<open>The operations\<close>

definition has_id :: "string \<Rightarrow> PendingApprovalRow \<Rightarrow> bool" where
  "has_id i r \<longleftrightarrow> pa_id r = i"

text \<open>\<^verbatim>\<open>insertPending\<close> writes over a row that is over: expired, or resolved and delivered.\<close>

definition is_over :: "PendingApprovalRow \<Rightarrow> bool" where
  "is_over r \<longleftrightarrow> pa_status r = Expired \<or> pa_status r = Resolved \<and> pa_deliveredAt r \<noteq> None"

definition insertPending :: "approvals \<Rightarrow> time_ms \<Rightarrow> NewPendingApproval \<Rightarrow> bool \<times> approvals" where
  "insertPending t now row =
     (if \<exists>r \<in> set t. has_id (na_id row) r
      then (list_ex (\<lambda>r. has_id (na_id row) r \<and> is_over r) t,
            update_where (\<lambda>r. has_id (na_id row) r \<and> is_over r) (\<lambda>_. pending_row now row) t)
      else (True, t @ [pending_row now row]))"

definition insertIfAbsent :: "approvals \<Rightarrow> time_ms \<Rightarrow> NewPendingApproval \<Rightarrow> bool \<times> approvals" where
  "insertIfAbsent t now row =
     (if \<exists>r \<in> set t. has_id (na_id row) r then (False, t) else (True, t @ [pending_row now row]))"

text \<open>The settlement of a row that is written already over: a verdict, or \<^const>\<open>None\<close> for expired.\<close>

definition settled_row :: "time_ms \<Rightarrow> NewPendingApproval \<Rightarrow> ApprovalVerdict option \<Rightarrow> PendingApprovalRow" where
  "settled_row now row verdict =
     (pending_row now row)\<lparr>pa_status := (if verdict = None then Expired else Resolved), pa_verdict := verdict,
        pa_decidedBy := Some ''in-session'', pa_resolvedAt := Some now, pa_deliveredAt := Some now\<rparr>"

definition insertSettled ::
  "approvals \<Rightarrow> time_ms \<Rightarrow> NewPendingApproval \<Rightarrow> ApprovalVerdict option \<Rightarrow> bool \<times> approvals" where
  "insertSettled t now row verdict =
     (if \<exists>r \<in> set t. has_id (na_id row) r then (False, t) else (True, t @ [settled_row now row verdict]))"

definition getPending :: "approvals \<Rightarrow> string \<Rightarrow> PendingApprovalRow option" where
  "getPending t i = find (has_id i) t"

definition same_ext_authz ::
  "agent_id \<Rightarrow> string \<Rightarrow> nat option \<Rightarrow> string \<Rightarrow> string \<Rightarrow> PendingApprovalRow \<Rightarrow> bool" where
  "same_ext_authz agentId host port method path r \<longleftrightarrow>
     pa_agentId r = agentId \<and> pa_status r = Pending \<and> pa_type r = ExtAuthz
     \<and> (case pa_payload r of
          ExtAuthzPayload p \<Rightarrow> xp_host p = host \<and> xp_port p = port \<and> xp_method p = method \<and> xp_path p = path
        | EgressProposalPayload p \<Rightarrow> ep_host p = host \<and> ep_port p = port \<and> ep_method p = method \<and> ep_path p = path
        | _ \<Rightarrow> False)"

definition findActivePendingExtAuthz ::
  "approvals \<Rightarrow> agent_id \<Rightarrow> string \<Rightarrow> nat option \<Rightarrow> string \<Rightarrow> string \<Rightarrow> PendingApprovalRow option" where
  "findActivePendingExtAuthz t agentId host port method path =
     (case sort_key (\<lambda>r. - pa_createdAt r) (filter (same_ext_authz agentId host port method path) t) of
        [] \<Rightarrow> None | r # _ \<Rightarrow> Some r)"

definition DEFAULT_LIST_LIMIT :: int where "DEFAULT_LIST_LIMIT = 100"
definition MAX_LIST_LIMIT :: int where "MAX_LIST_LIMIT = 500"

definition clampLimit :: "int option \<Rightarrow> int" where
  "clampLimit requested =
     (case requested of
        None \<Rightarrow> DEFAULT_LIST_LIMIT
      | Some n \<Rightarrow> if n < 1 then DEFAULT_LIST_LIMIT else min n MAX_LIST_LIMIT)"

definition newest :: "int option \<Rightarrow> approvals \<Rightarrow> PendingApprovalRow list" where
  "newest limit rows = take (nat (clampLimit limit)) (sort_key (\<lambda>r. - pa_createdAt r) rows)"

definition status_matches :: "ApprovalStatus option \<Rightarrow> PendingApprovalRow \<Rightarrow> bool" where
  "status_matches status r \<longleftrightarrow> (case status of None \<Rightarrow> True | Some s \<Rightarrow> pa_status r = s)"

definition listPendingForOwner ::
  "approvals \<Rightarrow> user_sub \<Rightarrow> int option \<Rightarrow> ApprovalStatus option \<Rightarrow> PendingApprovalRow list" where
  "listPendingForOwner t ownerSub limit status =
     newest limit (filter (\<lambda>r. pa_ownerSub r = ownerSub \<and> status_matches status r) t)"

definition listPendingForInstance ::
  "approvals \<Rightarrow> agent_id \<Rightarrow> int option \<Rightarrow> ApprovalStatus option \<Rightarrow> PendingApprovalRow list" where
  "listPendingForInstance t agentId limit status =
     newest limit (filter (\<lambda>r. pa_agentId r = agentId \<and> status_matches status r) t)"

text \<open>A conditional update of one row: whether it found the row, and the table after it.\<close>

definition cas_update ::
  "(PendingApprovalRow \<Rightarrow> bool) \<Rightarrow> (PendingApprovalRow \<Rightarrow> PendingApprovalRow) \<Rightarrow> string \<Rightarrow> approvals \<Rightarrow> bool \<times> approvals" where
  "cas_update guard f i t =
     (list_ex (\<lambda>r. has_id i r \<and> guard r) t, update_where (\<lambda>r. has_id i r \<and> guard r) f t)"

definition resolvePending ::
  "approvals \<Rightarrow> time_ms \<Rightarrow> string \<Rightarrow> ApprovalVerdict \<Rightarrow> user_sub \<Rightarrow> bool \<Rightarrow> bool \<times> approvals" where
  "resolvePending t now i verdict decidedBy marksDelivered =
     cas_update (\<lambda>r. pa_status r = Pending)
       (\<lambda>r. r\<lparr>pa_status := Resolved, pa_verdict := Some verdict, pa_decidedBy := Some decidedBy,
               pa_resolvedAt := Some now,
               pa_deliveredAt := (if marksDelivered then Some now else pa_deliveredAt r)\<rparr>) i t"

definition resolveExpired ::
  "approvals \<Rightarrow> time_ms \<Rightarrow> string \<Rightarrow> ApprovalVerdict \<Rightarrow> user_sub \<Rightarrow> bool \<times> approvals" where
  "resolveExpired t now i verdict decidedBy =
     cas_update (\<lambda>r. pa_status r = Expired)
       (\<lambda>r. r\<lparr>pa_status := Resolved, pa_verdict := Some verdict, pa_decidedBy := Some decidedBy,
               pa_resolvedAt := Some now, pa_deliveredAt := Some now\<rparr>) i t"

definition markDelivered :: "approvals \<Rightarrow> time_ms \<Rightarrow> string \<Rightarrow> approvals" where
  "markDelivered t now i =
     snd (cas_update (\<lambda>r. pa_status r = Resolved \<and> pa_deliveredAt r = None)
            (\<lambda>r. r\<lparr>pa_deliveredAt := Some now\<rparr>) i t)"

text \<open>\<^verbatim>\<open>verdict <> $1\<close> is not true of a null verdict.\<close>

definition correctResolvedVerdict :: "approvals \<Rightarrow> time_ms \<Rightarrow> string \<Rightarrow> ApprovalVerdict \<Rightarrow> bool \<times> approvals" where
  "correctResolvedVerdict t now i verdict =
     cas_update (\<lambda>r. pa_status r = Resolved \<and> pa_verdict r \<noteq> None \<and> pa_verdict r \<noteq> Some verdict)
       (\<lambda>r. r\<lparr>pa_verdict := Some verdict, pa_resolvedAt := Some now\<rparr>) i t"

definition listResolvedUndelivered :: "approvals \<Rightarrow> time_ms \<Rightarrow> int \<Rightarrow> nat \<Rightarrow> PendingApprovalRow list" where
  "listResolvedUndelivered t now staleMs limit =
     take limit (sort_key (\<lambda>r. case pa_resolvedAt r of None \<Rightarrow> 0 | Some at \<Rightarrow> at)
       (filter (\<lambda>r. pa_status r = Resolved \<and> pa_deliveredAt r = None
                  \<and> (case pa_resolvedAt r of None \<Rightarrow> False | Some at \<Rightarrow> at < now - staleMs)) t))"

definition expirePending :: "approvals \<Rightarrow> time_ms \<Rightarrow> string \<Rightarrow> bool \<times> approvals" where
  "expirePending t now i =
     cas_update (\<lambda>r. pa_status r = Pending) (\<lambda>r. r\<lparr>pa_status := Expired, pa_resolvedAt := Some now\<rparr>) i t"

definition expireOverdue :: "approvals \<Rightarrow> time_ms \<Rightarrow> PendingApprovalRow list \<times> approvals" where
  "expireOverdue t now =
     (let overdue = (\<lambda>r. pa_status r = Pending \<and> pa_expiresAt r < now)
      in (filter overdue t, update_where overdue (\<lambda>r. r\<lparr>pa_status := Expired, pa_resolvedAt := Some now\<rparr>) t))"

definition approvals_deleteForAgent :: "approvals \<Rightarrow> agent_id \<Rightarrow> approvals" where
  "approvals_deleteForAgent t agentId = delete_where (\<lambda>r. pa_agentId r = agentId) t"

definition is_open_question :: "user_sub \<Rightarrow> string \<Rightarrow> PendingApprovalRow \<Rightarrow> bool" where
  "is_open_question ownerSub limitId r \<longleftrightarrow>
     pa_ownerSub r = ownerSub \<and> pa_type r = SpendLimitType \<and> pa_status r = Pending
     \<and> (case pa_payload r of SpendLimitPayload q \<Rightarrow> sq_limitId q = limitId | _ \<Rightarrow> False)"

definition deletePendingSpendQuestions ::
  "approvals \<Rightarrow> user_sub \<Rightarrow> string \<Rightarrow> (string \<times> agent_id) list \<times> approvals" where
  "deletePendingSpendQuestions t ownerSub limitId =
     (map (\<lambda>r. (pa_id r, pa_agentId r)) (filter (is_open_question ownerSub limitId) t),
      delete_where (is_open_question ownerSub limitId) t)"

definition approvals_listDistinctAgentIds :: "approvals \<Rightarrow> agent_id list" where
  "approvals_listDistinctAgentIds t = remdups (map pa_agentId t)"


section \<open>The invariant of the table\<close>

text \<open>
  A pending row has no verdict and is not delivered; an expired one has no verdict; a resolved
  one has a verdict, its author and its time.
\<close>

definition row_ok :: "PendingApprovalRow \<Rightarrow> bool" where
  "row_ok r \<longleftrightarrow>
     (case pa_status r of
        Pending \<Rightarrow> pa_verdict r = None \<and> pa_resolvedAt r = None \<and> pa_decidedBy r = None \<and> pa_deliveredAt r = None
      | Expired \<Rightarrow> pa_verdict r = None \<and> pa_resolvedAt r \<noteq> None
      | Resolved \<Rightarrow> pa_verdict r \<noteq> None \<and> pa_resolvedAt r \<noteq> None \<and> pa_decidedBy r \<noteq> None)"

definition approvals_inv :: "approvals \<Rightarrow> bool" where
  "approvals_inv t \<longleftrightarrow> distinct (map pa_id t) \<and> list_all row_ok t"


text \<open>What each operation does to the row of one id.\<close>

lemma getPending_update_where:
  "(\<And>r. p r \<Longrightarrow> pa_id (f r) = pa_id r) \<Longrightarrow>
   getPending (update_where p f t) i = map_option (\<lambda>r. if p r then f r else r) (getPending t i)"
  unfolding getPending_def has_id_def by (rule find_update_where_key)

lemma getPending_append:
  "getPending (t @ [r]) i = (case getPending t i of None \<Rightarrow> if pa_id r = i then Some r else None | Some x \<Rightarrow> Some x)"
  unfolding getPending_def by (induction t) (auto simp: has_id_def)

lemma getPending_SomeD: "getPending t i = Some r \<Longrightarrow> r \<in> set t \<and> pa_id r = i"
  unfolding getPending_def by (auto dest: find_SomeD simp: has_id_def)

lemma getPending_None_iff: "getPending t i = None \<longleftrightarrow> (\<forall>r \<in> set t. pa_id r \<noteq> i)"
  by (auto simp: getPending_def find_None_iff has_id_def)

lemma getPending_in_table: "\<lbrakk>approvals_inv t; r \<in> set t\<rbrakk> \<Longrightarrow> getPending t (pa_id r) = Some r"
  unfolding getPending_def has_id_def approvals_inv_def by (blast intro: find_distinct_key)

lemma approval_id_unique: "\<lbrakk>approvals_inv t; x \<in> set t; y \<in> set t; pa_id x = pa_id y\<rbrakk> \<Longrightarrow> x = y"
  by (metis getPending_in_table option.inject)

lemma getPending_delete_where:
  "approvals_inv t \<Longrightarrow> getPending (delete_where p t) i =
     (case getPending t i of None \<Rightarrow> None | Some r \<Rightarrow> if p r then None else Some r)"
  unfolding approvals_inv_def getPending_def delete_where_def
  by (induction t) (auto simp: has_id_def find_None_iff notin_image_iff split: option.splits dest!: find_SomeD)

lemma cas_update_getPending:
  assumes "approvals_inv t" and "\<And>r. guard r \<Longrightarrow> pa_id (f r) = pa_id r"
  shows "fst (cas_update guard f i t) = (case getPending t i of None \<Rightarrow> False | Some r \<Rightarrow> guard r)"
    and "getPending (snd (cas_update guard f i t)) j =
           map_option (\<lambda>r. if j = i \<and> guard r then f r else r) (getPending t j)"
proof -
  have "getPending (update_where (\<lambda>r. has_id i r \<and> guard r) f t) j =
      map_option (\<lambda>r. if has_id i r \<and> guard r then f r else r) (getPending t j)"
    by (rule getPending_update_where) (use assms(2) in blast)
  then show "getPending (snd (cas_update guard f i t)) j =
           map_option (\<lambda>r. if j = i \<and> guard r then f r else r) (getPending t j)"
    by (cases "getPending t j") (auto simp: cas_update_def has_id_def dest: getPending_SomeD)
  show "fst (cas_update guard f i t) = (case getPending t i of None \<Rightarrow> False | Some r \<Rightarrow> guard r)"
  proof (cases "getPending t i")
    case None
    then have "\<forall>r \<in> set t. pa_id r \<noteq> i" by (simp add: getPending_None_iff)
    with None show ?thesis by (auto simp: cas_update_def list_ex_iff has_id_def)
  next
    case (Some r)
    then have "x = r" if "x \<in> set t" "pa_id x = i" for x
      using getPending_in_table [OF assms(1) that(1)] that(2) by simp
    with Some getPending_SomeD [OF Some] show ?thesis
      by (auto simp: cas_update_def list_ex_iff has_id_def)
  qed
qed

lemma cas_update_miss:
  "(\<And>r. r \<in> set t \<Longrightarrow> pa_id r = i \<Longrightarrow> \<not> guard r) \<Longrightarrow> cas_update guard f i t = (False, t)"
  by (auto simp: cas_update_def has_id_def list_ex_iff intro: update_where_none)

lemma pending_row_simps [simp]:
  "pa_id (pending_row now row) = na_id row" "pa_status (pending_row now row) = Pending"
  "pa_verdict (pending_row now row) = None" "pa_agentId (pending_row now row) = na_agentId row"
  "pa_ownerSub (pending_row now row) = na_ownerSub row" "pa_payload (pending_row now row) = na_payload row"
  "pa_type (pending_row now row) = na_type row" "pa_sessionId (pending_row now row) = na_sessionId row"
  "pa_createdAt (pending_row now row) = now" "pa_expiresAt (pending_row now row) = na_expiresAt row"
  "row_ok (pending_row now row)"
  by (simp_all add: pending_row_def row_ok_def)

lemma approvals_inv_update_where:
  assumes "approvals_inv t" and "\<And>r. p r \<Longrightarrow> pa_id (f r) = pa_id r"
    and "\<And>r. p r \<Longrightarrow> row_ok r \<Longrightarrow> row_ok (f r)"
  shows "approvals_inv (update_where p f t)"
  using assms by (auto simp: approvals_inv_def map_update_where list_all_iff set_update_where)

lemma approvals_inv_append:
  "approvals_inv (t @ [r]) \<longleftrightarrow> approvals_inv t \<and> row_ok r \<and> (\<forall>x \<in> set t. pa_id x \<noteq> pa_id r)"
  by (auto simp: approvals_inv_def notin_image_iff)

lemma approvals_inv_delete_where: "approvals_inv t \<Longrightarrow> approvals_inv (delete_where p t)"
  by (simp add: approvals_inv_def distinct_map_delete_where) (simp add: delete_where_def list_all_iff)


section \<open>Reachable tables\<close>

text \<open>
  The flag says whether the runtime's corrections of a verdict are among the steps.
\<close>

inductive approvals_step :: "bool \<Rightarrow> approvals \<Rightarrow> approvals \<Rightarrow> bool" for corrections :: bool where
  step_insertPending: "approvals_step corrections t (snd (insertPending t now row))"
| step_insertIfAbsent: "approvals_step corrections t (snd (insertIfAbsent t now row))"
| step_insertSettled: "approvals_step corrections t (snd (insertSettled t now row v))"
| step_resolvePending: "approvals_step corrections t (snd (resolvePending t now i verdict by d))"
| step_resolveExpired: "approvals_step corrections t (snd (resolveExpired t now i verdict by))"
| step_markDelivered: "approvals_step corrections t (markDelivered t now i)"
| step_correct: "corrections \<Longrightarrow> approvals_step corrections t (snd (correctResolvedVerdict t now i verdict))"
| step_expirePending: "approvals_step corrections t (snd (expirePending t now i))"
| step_expireOverdue: "approvals_step corrections t (snd (expireOverdue t now))"
| step_deleteAgent: "approvals_step corrections t (approvals_deleteForAgent t a)"
| step_deleteQuestions: "approvals_step corrections t (snd (deletePendingSpendQuestions t sub limitId))"

inductive_cases approvals_stepE: "approvals_step corrections t t'"

lemmas approvals_ops =
  insertPending_def insertIfAbsent_def insertSettled_def resolvePending_def resolveExpired_def
  markDelivered_def correctResolvedVerdict_def expirePending_def expireOverdue_def
  approvals_deleteForAgent_def deletePendingSpendQuestions_def

lemma approvals_step_inv:
  assumes "approvals_step corrections t t'" and "approvals_inv t" shows "approvals_inv t'"
  using assms
proof cases
  case (step_insertPending now row)
  with assms(2) show ?thesis
    by (auto simp: insertPending_def approvals_inv_append has_id_def intro!: approvals_inv_update_where)
next
  case (step_insertIfAbsent now row)
  with assms(2) show ?thesis by (auto simp: insertIfAbsent_def approvals_inv_append has_id_def)
next
  case (step_insertSettled now row v)
  with assms(2) show ?thesis
    by (auto simp: insertSettled_def approvals_inv_append has_id_def settled_row_def row_ok_def)
next
  case (step_deleteAgent a)
  with assms(2) show ?thesis by (simp add: approvals_deleteForAgent_def approvals_inv_delete_where)
next
  case (step_deleteQuestions sub limitId)
  with assms(2) show ?thesis by (simp add: deletePendingSpendQuestions_def approvals_inv_delete_where)
qed (use assms(2) in \<open>auto simp: resolvePending_def resolveExpired_def markDelivered_def
      correctResolvedVerdict_def expirePending_def expireOverdue_def cas_update_def Let_def row_ok_def
      intro!: approvals_inv_update_where split: ApprovalStatus.splits\<close>)

interpretation approvals_table: invariant_system "\<lambda>t. t = []" "approvals_step True" approvals_inv
  by unfold_locales (auto simp: approvals_inv_def [of "[]"] intro: approvals_step_inv)


text \<open>The row of an id after each conditional update, and the update's answer.\<close>

lemma cas_ops_getPending:
  assumes "approvals_inv t"
  shows "getPending (snd (resolvePending t now i v by d)) j =
      map_option (\<lambda>r. if j = i \<and> pa_status r = Pending
          then r\<lparr>pa_status := Resolved, pa_verdict := Some v, pa_decidedBy := Some by, pa_resolvedAt := Some now,
                  pa_deliveredAt := (if d then Some now else pa_deliveredAt r)\<rparr> else r) (getPending t j)"
    and "getPending (snd (correctResolvedVerdict t now i v)) j =
      map_option (\<lambda>r. if j = i \<and> pa_status r = Resolved \<and> pa_verdict r \<noteq> None \<and> pa_verdict r \<noteq> Some v
          then r\<lparr>pa_verdict := Some v, pa_resolvedAt := Some now\<rparr> else r) (getPending t j)"
    and "getPending (markDelivered t now i) j =
      map_option (\<lambda>r. if j = i \<and> pa_status r = Resolved \<and> pa_deliveredAt r = None
          then r\<lparr>pa_deliveredAt := Some now\<rparr> else r) (getPending t j)"
    and "getPending (snd (expirePending t now i)) j =
      map_option (\<lambda>r. if j = i \<and> pa_status r = Pending
          then r\<lparr>pa_status := Expired, pa_resolvedAt := Some now\<rparr> else r) (getPending t j)"
  unfolding resolvePending_def correctResolvedVerdict_def markDelivered_def expirePending_def
  by (rule cas_update_getPending(2) [OF assms], simp)+

lemma cas_ops_won:
  assumes "approvals_inv t"
  shows "fst (resolvePending t now i v by d) = (case getPending t i of None \<Rightarrow> False | Some r \<Rightarrow> pa_status r = Pending)"
    and "fst (expirePending t now i) = (case getPending t i of None \<Rightarrow> False | Some r \<Rightarrow> pa_status r = Pending)"
  unfolding resolvePending_def expirePending_def
  by (rule cas_update_getPending(1) [OF assms], simp)+

lemma ex_id_iff: "(\<exists>r \<in> set t. has_id i r) \<longleftrightarrow> getPending t i \<noteq> None"
  by (auto simp: getPending_None_iff has_id_def simp del: not_None_eq)

lemma insertIfAbsent_getPending:
  "fst (insertIfAbsent t now row) = (getPending t (na_id row) = None)"
  "getPending (snd (insertIfAbsent t now row)) j =
     (if j = na_id row \<and> getPending t j = None then Some (pending_row now row) else getPending t j)"
  "getPending (snd (insertSettled t now row v)) j =
     (if j = na_id row \<and> getPending t j = None then Some (settled_row now row v) else getPending t j)"
  "fst (insertSettled t now row v) = (getPending t (na_id row) = None)"
  by (auto simp: insertIfAbsent_def insertSettled_def settled_row_def ex_id_iff getPending_append split: option.split)

lemmas approvals_inv_ops =
  approvals_step_inv [OF step_resolvePending] approvals_step_inv [OF step_correct [OF TrueI]]
  approvals_step_inv [OF step_markDelivered] approvals_step_inv [OF step_expirePending]
  approvals_step_inv [OF step_insertIfAbsent] approvals_step_inv [OF step_insertSettled]
  approvals_step_inv [OF step_insertPending] approvals_step_inv [OF step_expireOverdue]


section \<open>Properties\<close>

text \<open>
  In every table the operations can produce, an approval has a verdict exactly when it is
  resolved, then with its author and time, and an id names one approval.
\<close>

theorem reachable_approval_ok:
  assumes "reachable (\<lambda>t. t = []) (approvals_step True) t" and "r \<in> set t"
  shows "(pa_verdict r \<noteq> None \<longleftrightarrow> pa_status r = Resolved)
     \<and> (pa_status r = Resolved \<longrightarrow> pa_decidedBy r \<noteq> None \<and> pa_resolvedAt r \<noteq> None)
     \<and> (pa_status r = Pending \<longrightarrow> pa_resolvedAt r = None \<and> pa_deliveredAt r = None)
     \<and> getPending t (pa_id r) = Some r"
proof -
  have inv: "approvals_inv t" by (rule approvals_table.reachable_inv [OF assms(1)])
  then have "row_ok r" using assms(2) by (simp add: approvals_inv_def list_all_iff)
  with getPending_in_table [OF inv assms(2)] show ?thesis
    by (auto simp: row_ok_def split: ApprovalStatus.splits)
qed

definition sample_approval :: "string \<Rightarrow> NewPendingApproval" where
  "sample_approval i = \<lparr>na_id = i, na_type = ExtAuthz, na_agentId = ''a'', na_ownerSub = ''u'', na_sessionId = None,
     na_payload = ExtAuthzPayload \<lparr>xp_host = ''x.io'', xp_port = None, xp_method = ''GET'', xp_path = ''/'',
        xp_viaAgentId = None, xp_viaEnvironment = None\<rparr>, na_expiresAt = 1000\<rparr>"

lemma sample_pending_inv: "approvals_inv [pending_row 0 (sample_approval ''p'')]"
  by (simp add: approvals_inv_def)

theorem reachable_approval_ok_witness:
  "let r = pending_row 0 (sample_approval ''p'') in getPending [r] ''p'' = Some r \<and> pa_verdict r = None"
proof -
  let ?r = "pending_row 0 (sample_approval ''p'')"
  have "approvals_step True [] (snd (insertIfAbsent [] 0 (sample_approval ''p'')))"
    by (rule approvals_step.step_insertIfAbsent)
  then have "approvals_step True [] [?r]" by (simp add: insertIfAbsent_def)
  then have "reachable (\<lambda>t. t = []) (approvals_step True) [?r]" by (auto intro: reachable.intros)
  from reachable_approval_ok [OF this, of ?r] show ?thesis by (simp add: sample_approval_def)
qed



text \<open>
  No step but a correction by the runtime changes a verdict that still has to be
  delivered: the approval stays resolved with the same verdict and author, unless its agent's
  approvals are deleted.
\<close>

theorem undelivered_verdict_is_stable:
  assumes "approvals_step False t t'" and "approvals_inv t"
    and "getPending t i = Some r" and "pa_status r = Resolved" and "pa_deliveredAt r = None"
  shows "(\<exists>r'. getPending t' i = Some r' \<and> pa_status r' = Resolved \<and> pa_verdict r' = pa_verdict r
            \<and> pa_decidedBy r' = pa_decidedBy r)
         \<or> t' = approvals_deleteForAgent t (pa_agentId r)"
proof -
  have id: "pa_id r = i" "r \<in> set t" using getPending_SomeD [OF assms(3)] by simp_all
  then have known: "\<exists>r \<in> set t. pa_id r = i" by blast
  show ?thesis
    using assms(1)
  proof cases
    case (step_insertPending now row)
    show ?thesis
    proof (cases "na_id row = i")
      case True
      then have "getPending t' i = map_option (\<lambda>r. if has_id i r \<and> is_over r then pending_row now row else r) (getPending t i)"
        using known by (auto simp: step_insertPending insertPending_def has_id_def intro!: getPending_update_where)
      with assms(3-5) show ?thesis by (simp add: is_over_def)
    next
      case False
      have "getPending (update_where (\<lambda>r. has_id (na_id row) r \<and> is_over r) (\<lambda>_. pending_row now row) t) i
          = map_option (\<lambda>r. if has_id (na_id row) r \<and> is_over r then pending_row now row else r) (getPending t i)"
        by (rule getPending_update_where) (simp add: has_id_def)
      with False assms(3) id have "getPending t' i = Some r"
        by (auto simp: step_insertPending insertPending_def getPending_append has_id_def)
      with assms(4) show ?thesis by blast
    qed
  next
    case (step_deleteAgent a)
    then show ?thesis
      using assms(3,4) getPending_delete_where [OF assms(2)] by (auto simp: approvals_deleteForAgent_def)
  next
    case (step_deleteQuestions sub limitId)
    then show ?thesis
      using assms(3,4) getPending_delete_where [OF assms(2)]
      by (auto simp: deletePendingSpendQuestions_def is_open_question_def)
  qed (use assms(2-4) in \<open>auto simp: insertIfAbsent_def insertSettled_def resolvePending_def resolveExpired_def
        markDelivered_def expirePending_def expireOverdue_def Let_def cas_update_getPending(2)
        getPending_append getPending_update_where\<close>)
qed

theorem undelivered_verdict_is_stable_witness:
  "let t = snd (resolvePending [pending_row 0 (sample_approval ''p'')] 1 ''p'' DenyOnce ''u'' False)
   in \<exists>r'. getPending (snd (expireOverdue t 9999)) ''p'' = Some r' \<and> pa_verdict r' = Some DenyOnce"
proof -
  let ?t0 = "[pending_row 0 (sample_approval ''p'')]"
  let ?t = "snd (resolvePending ?t0 1 ''p'' DenyOnce ''u'' False)"
  let ?r = "(pending_row 0 (sample_approval ''p''))\<lparr>pa_status := Resolved, pa_verdict := Some DenyOnce,
     pa_decidedBy := Some ''u'', pa_resolvedAt := Some 1, pa_deliveredAt := None\<rparr>"
  have t: "?t = [?r]"
    by (simp add: resolvePending_def cas_update_def has_id_def sample_approval_def pending_row_def)
  have inv: "approvals_inv ?t"
    by (rule approvals_step_inv [OF approvals_step.step_resolvePending sample_pending_inv])
  have "getPending ?t ''p'' = Some ?r" unfolding t by (simp add: getPending_def has_id_def sample_approval_def)
  from undelivered_verdict_is_stable [OF approvals_step.step_expireOverdue inv this, of 9999]
  show ?thesis
    unfolding t Let_def by (auto simp: approvals_deleteForAgent_def delete_where_def expireOverdue_def)
qed

end
