(* ===== verification/Approvals_Service.thy ===== *)
theory Approvals_Service
  imports Egress_Services Approvals_Repository
begin

text \<open>
  What an owner's verdict does: \<^verbatim>\<open>approvals/services/approvals-service.ts\<close>, the frames a
  verdict becomes (\<^verbatim>\<open>approvals/infrastructure/wrapper-response-frames.ts\<close> and the option
  picking of \<^verbatim>\<open>api-server-api/src/modules/approvals/format.ts\<close>) and the sweeper that
  delivers late verdicts and expires overdue rows. A helper that runs after a row was loaded
  takes the row and the state apart, so what is shown of it holds for a state that other calls
  have changed since the load.
\<close>

section \<open>Frames\<close>

definition TOOL_CALL_ID_MAX :: nat where "TOOL_CALL_ID_MAX = 512"
definition TOOL_NAME_MAX :: nat where "TOOL_NAME_MAX = 4096"
definition PERMISSION_OPTIONS_MAX :: nat where "PERMISSION_OPTIONS_MAX = 16"

definition answerable :: "AcpPermissionOptionKind \<Rightarrow> bool \<Rightarrow> AcpPermissionOption \<Rightarrow> bool" where
  "answerable kind idsWhole o' \<longleftrightarrow>
     po_kind o' = Some kind \<and> (idsWhole \<or> length (po_optionId o') < TOOL_CALL_ID_MAX)"

definition answerableOption ::
  "AcpPermissionOption list \<Rightarrow> AcpPermissionOptionKind \<Rightarrow> bool \<Rightarrow> AcpPermissionOption option" where
  "answerableOption options kind idsWhole = find (answerable kind idsWhole) options"

fun kind_of_verdict :: "ApprovalVerdict \<Rightarrow> AcpPermissionOptionKind" where
  "kind_of_verdict DenyAlways = KindRejectAlways"
| "kind_of_verdict DenyOnce = KindRejectOnce"
| "kind_of_verdict AllowAlways = KindAllowAlways"
| "kind_of_verdict AllowOnce = KindAllowOnce"

definition pickOptionId :: "AcpPermissionOption list \<Rightarrow> ApprovalVerdict \<Rightarrow> bool \<Rightarrow> string option" where
  "pickOptionId options verdict idsWhole =
     map_option po_optionId (answerableOption options (kind_of_verdict verdict) idsWhole)"

text \<open>What a client or the runtime reports as the outcome of a prompt; only the runtime's kind counts.\<close>

record ReportedOutcome =
  ro_cancelled :: bool
  ro_optionId :: "string option"
  ro_kind :: "AcpPermissionOptionKind option"

definition verdictOfOutcome :: "AcpPermissionOption list \<Rightarrow> ReportedOutcome \<Rightarrow> bool \<Rightarrow> ApprovalVerdict" where
  "verdictOfOutcome options outcome reportedByRuntime =
     (if ro_cancelled outcome then DenyOnce
      else let recorded = (case find (\<lambda>o'. Some (po_optionId o') = ro_optionId outcome) options of
                             None \<Rightarrow> None | Some o' \<Rightarrow> po_kind o');
               kind = (case (if reportedByRuntime then ro_kind outcome else None) of
                         Some k \<Rightarrow> Some k | None \<Rightarrow> recorded)
           in case kind of
                Some KindAllowAlways \<Rightarrow> AllowAlways
              | Some KindRejectOnce \<Rightarrow> DenyOnce
              | Some KindRejectAlways \<Rightarrow> DenyAlways
              | _ \<Rightarrow> AllowOnce)"

record Sender =
  sn_sub :: user_sub
  sn_email :: "string option"

datatype FrameOutcome = FrameSelected string "Sender option" | FrameCancelled

record WrapperResponseFrame =
  fr_id :: RpcId
  fr_outcome :: FrameOutcome

definition buildAcpPermissionResponse :: "RpcId \<Rightarrow> string option \<Rightarrow> Sender option \<Rightarrow> WrapperResponseFrame" where
  "buildAcpPermissionResponse rpcId optionId answeredBy =
     \<lparr>fr_id = rpcId,
      fr_outcome = (case optionId of
                      None \<Rightarrow> FrameCancelled
                    | Some oid \<Rightarrow> if oid = [] then FrameCancelled else FrameSelected oid answeredBy)\<rparr>"


section \<open>State\<close>

datatype Resolution = ResolvedWith ApprovalVerdict | ResolvedExpired | ResolvedSuperseded

datatype ApprovalEvent =
    ApprovalRequested string agent_id user_sub
  | ApprovalResolved string agent_id user_sub Resolution

record ApprovalsState =
  ap_egress :: EgressState
  ap_approvals :: approvals
  ap_events :: "ApprovalEvent list" \<comment> \<open>emitted so far, oldest first\<close>
  ap_frames :: "(agent_id \<times> WrapperResponseFrame) list" \<comment> \<open>handed to a runtime so far\<close>

definition emit :: "ApprovalEvent \<Rightarrow> ApprovalsState \<Rightarrow> ApprovalsState" where
  "emit e st = st\<lparr>ap_events := ap_events st @ [e]\<rparr>"

definition emitResolved :: "PendingApprovalRow \<Rightarrow> ApprovalVerdict \<Rightarrow> ApprovalsState \<Rightarrow> ApprovalsState" where
  "emitResolved row verdict st =
     emit (ApprovalResolved (pa_id row) (pa_agentId row) (pa_ownerSub row) (ResolvedWith verdict)) st"

datatype AgentBinding = AnyAgent | OnlyAgents "agent_id list"

definition matchesBinding :: "AgentBinding \<Rightarrow> agent_id \<Rightarrow> bool" where
  "matchesBinding binding agentId = (case binding of AnyAgent \<Rightarrow> True | OnlyAgents ids \<Rightarrow> agentId \<in> set ids)"

record ApprovalsDeps =
  ad_patch :: l7_patch
  ad_owned :: "agent_id \<Rightarrow> user_sub \<Rightarrow> bool"
  ad_ownerSub :: user_sub
  ad_actor :: user_sub
  ad_actorEmail :: "string option"
  ad_agentBinding :: AgentBinding
  ad_sends :: "agent_id \<Rightarrow> WrapperResponseFrame \<Rightarrow> bool" \<comment> \<open>whether the runtime takes a frame\<close>

datatype ApprovalError =
    NotBound agent_id
  | SpendNeedsUnrestricted
  | SpendDenied
  | RuleVerdictConflict EgressRuleRow
  | RuleWriteFailed EgressError

datatype ActionOutcome = Applied | RuleWrittenExpired | NotActionable

record ActionRule =
  ar_host :: string
  ar_port :: "nat option"
  ar_method :: string
  ar_pathPattern :: string
  ar_verdict :: RuleVerdict

record ApprovalActionOutcome =
  ao_outcome :: ActionOutcome
  ao_type :: "ApprovalType option"
  ao_rule :: "ActionRule option"

definition NOT_ACTIONABLE :: ApprovalActionOutcome where
  "NOT_ACTIONABLE = \<lparr>ao_outcome = NotActionable, ao_type = None, ao_rule = None\<rparr>"

definition applied_if :: "bool \<Rightarrow> PendingApprovalRow \<Rightarrow> ApprovalActionOutcome" where
  "applied_if won row =
     (if won then \<lparr>ao_outcome = Applied, ao_type = Some (pa_type row), ao_rule = None\<rparr> else NOT_ACTIONABLE)"

type_synonym action_result = "(ApprovalError + ApprovalActionOutcome) \<times> ApprovalsState"


section \<open>Helpers of the service\<close>

definition loadOwned :: "ApprovalsDeps \<Rightarrow> string \<Rightarrow> approvals \<Rightarrow> ApprovalError + PendingApprovalRow option" where
  "loadOwned deps i t =
     (case getPending t i of
        None \<Rightarrow> Inr None
      | Some row \<Rightarrow>
          if pa_ownerSub row \<noteq> ad_ownerSub deps then Inr None
          else if \<not> matchesBinding (ad_agentBinding deps) (pa_agentId row) then Inl (NotBound (pa_agentId row))
          else Inr (Some row))"

text \<open>The compare-and-set with the event that only its winner emits.\<close>

definition resolve_and_emit ::
  "ApprovalsDeps \<Rightarrow> time_ms \<Rightarrow> PendingApprovalRow \<Rightarrow> ApprovalVerdict \<Rightarrow> bool \<Rightarrow> ApprovalsState \<Rightarrow> bool \<times> ApprovalsState" where
  "resolve_and_emit deps now row verdict marksDelivered st =
     (case resolvePending (ap_approvals st) now (pa_id row) verdict (ad_actor deps) marksDelivered of
        (won, t) \<Rightarrow>
          let st1 = st\<lparr>ap_approvals := t\<rparr> in (won, if won then emitResolved row verdict st1 else st1))"

definition declineProposal :: "ApprovalsDeps \<Rightarrow> time_ms \<Rightarrow> PendingApprovalRow \<Rightarrow> ApprovalsState \<Rightarrow> action_result" where
  "declineProposal deps now row st =
     (if pa_status row \<noteq> Pending then (Inr NOT_ACTIONABLE, st)
      else case resolve_and_emit deps now row DenyAlways True st of
             (won, st1) \<Rightarrow> (Inr (applied_if won row), st1))"

definition answerSpendQuestion :: "ApprovalsDeps \<Rightarrow> time_ms \<Rightarrow> PendingApprovalRow \<Rightarrow> ApprovalsState \<Rightarrow> action_result" where
  "answerSpendQuestion deps now row st =
     (if pa_status row \<noteq> Pending then (Inr NOT_ACTIONABLE, st)
      else if ad_agentBinding deps \<noteq> AnyAgent then (Inl SpendNeedsUnrestricted, st)
      else case resolve_and_emit deps now row AllowAlways False st of
             (won, st1) \<Rightarrow> (Inr (applied_if won row), st1))"

definition resolveOnce ::
  "ApprovalsDeps \<Rightarrow> time_ms \<Rightarrow> PendingApprovalRow \<Rightarrow> ApprovalVerdict \<Rightarrow> ApprovalsState \<Rightarrow> action_result" where
  "resolveOnce deps now row verdict st =
     (case resolve_and_emit deps now row verdict False st of
        (won, st1) \<Rightarrow> (Inr (applied_if won row), st1))"

fun approval_verdict_of :: "RuleVerdict \<Rightarrow> ApprovalVerdict" where
  "approval_verdict_of Allow = AllowAlways" | "approval_verdict_of Deny = DenyAlways"

definition inbox_rule :: "ApprovalsDeps \<Rightarrow> string \<Rightarrow> PendingApprovalRow \<Rightarrow> ActionRule \<Rightarrow> NewEgressRule" where
  "inbox_rule deps ruleId row rule =
     \<lparr>ne_id = ruleId, ne_agentId = pa_agentId row, ne_host = ar_host rule, ne_port = ar_port rule,
      ne_method = ar_method rule, ne_pathPattern = ar_pathPattern rule, ne_verdict = ar_verdict rule,
      ne_decidedBy = ad_actor deps, ne_source = Inbox\<rparr>"

text \<open>The rule is written first; the verdict follows, on a pending row or on one that expired.\<close>

definition writeRuleAndResolve ::
  "ApprovalsDeps \<Rightarrow> string \<Rightarrow> time_ms \<Rightarrow> PendingApprovalRow \<Rightarrow> ActionRule \<Rightarrow> ApprovalsState \<Rightarrow> action_result" where
  "writeRuleAndResolve deps ruleId now row rule st =
     (case writer_insert (ad_patch deps) now (inbox_rule deps ruleId row rule) (ap_egress st) of
        (Inl e, eg) \<Rightarrow> (Inl (RuleWriteFailed e), st\<lparr>ap_egress := eg\<rparr>)
      | (Inr (VerdictClash existing), eg) \<Rightarrow> (Inl (RuleVerdictConflict existing), st\<lparr>ap_egress := eg\<rparr>)
      | (Inr _, eg) \<Rightarrow>
          let verdict = approval_verdict_of (ar_verdict rule);
              st1 = st\<lparr>ap_egress := eg\<rparr>
          in (case resolvePending (ap_approvals st1) now (pa_id row) verdict (ad_actor deps) (pa_type row = EgressProposal) of
                (won, t1) \<Rightarrow>
                  (case (if won then (False, t1)
                         else resolveExpired t1 now (pa_id row) verdict (ad_actor deps)) of
                     (flipped, t2) \<Rightarrow>
                       let st2 = st1\<lparr>ap_approvals := t2\<rparr>
                       in (Inr \<lparr>ao_outcome = (if won then Applied else RuleWrittenExpired),
                                ao_type = Some (pa_type row), ao_rule = Some rule\<rparr>,
                           if won \<or> flipped then emitResolved row verdict st2 else st2))))"

definition resolveAndDeliverAcpNative ::
  "ApprovalsDeps \<Rightarrow> time_ms \<Rightarrow> PendingApprovalRow \<Rightarrow> ApprovalVerdict \<Rightarrow> ApprovalsState \<Rightarrow> action_result" where
  "resolveAndDeliverAcpNative deps now row verdict st =
     (case pa_payload row of
        AcpNativePayload p \<Rightarrow>
          (case resolve_and_emit deps now row verdict False st of
             (won, st1) \<Rightarrow>
               if \<not> won then (Inr NOT_ACTIONABLE, st1)
               else (case np_rpcId p of
                       None \<Rightarrow> (Inr (applied_if True row), st1)
                     | Some rpcId \<Rightarrow>
                         let frame = buildAcpPermissionResponse rpcId
                                       (pickOptionId (np_options p) verdict (np_optionsWhole p))
                                       (Some \<lparr>sn_sub = ad_actor deps, sn_email = ad_actorEmail deps\<rparr>)
                         in (Inr (applied_if True row),
                             if ad_sends deps (pa_agentId row) frame
                             then st1\<lparr>ap_frames := ap_frames st1 @ [(pa_agentId row, frame)],
                                      ap_approvals := markDelivered (ap_approvals st1) now (pa_id row)\<rparr>
                             else st1)))
      | _ \<Rightarrow> (Inr NOT_ACTIONABLE, st))"

text \<open>The rule that a payload asks for, if it asks for one: its own path, or the whole host.\<close>

definition requested_rule :: "RuleVerdict \<Rightarrow> ApprovalPayload \<Rightarrow> ActionRule option" where
  "requested_rule verdict payload =
     (case payload of
        ExtAuthzPayload p \<Rightarrow> Some \<lparr>ar_host = xp_host p, ar_port = xp_port p, ar_method = xp_method p,
          ar_pathPattern = xp_path p, ar_verdict = verdict\<rparr>
      | EgressProposalPayload p \<Rightarrow> Some \<lparr>ar_host = ep_host p, ar_port = ep_port p, ar_method = ep_method p,
          ar_pathPattern = ep_path p, ar_verdict = verdict\<rparr>
      | _ \<Rightarrow> None)"

definition host_wide :: "ActionRule \<Rightarrow> ActionRule" where
  "host_wide rule = rule\<lparr>ar_method := ''*'', ar_pathPattern := ''*''\<rparr>"

definition is_proposal :: "PendingApprovalRow \<Rightarrow> bool" where
  "is_proposal row \<longleftrightarrow> (case pa_payload row of EgressProposalPayload _ \<Rightarrow> True | _ \<Rightarrow> False)"

definition dismissOne :: "ApprovalsDeps \<Rightarrow> time_ms \<Rightarrow> PendingApprovalRow option \<Rightarrow> ApprovalsState \<Rightarrow> action_result" where
  "dismissOne deps now loaded st =
     (case loaded of
        None \<Rightarrow> (Inr NOT_ACTIONABLE, st)
      | Some row \<Rightarrow>
          if pa_status row \<noteq> Pending then (Inr NOT_ACTIONABLE, st)
          else if is_proposal row then declineProposal deps now row st
          else if pa_type row = ExtAuthz then resolveOnce deps now row DenyOnce st
          else resolveAndDeliverAcpNative deps now row DenyOnce st)"


section \<open>The owner's actions\<close>

text \<open>Each action loads its row and goes on with what its type and status allow.\<close>

definition with_owned ::
  "ApprovalsDeps \<Rightarrow> string \<Rightarrow> (PendingApprovalRow option \<Rightarrow> ApprovalsState \<Rightarrow> (ApprovalError + 'a) \<times> ApprovalsState)
   \<Rightarrow> ApprovalsState \<Rightarrow> (ApprovalError + 'a) \<times> ApprovalsState" where
  "with_owned deps i act st =
     (case loadOwned deps i (ap_approvals st) of Inl e \<Rightarrow> (Inl e, st) | Inr row \<Rightarrow> act row st)"

definition approveOnce :: "ApprovalsDeps \<Rightarrow> time_ms \<Rightarrow> string \<Rightarrow> ApprovalsState \<Rightarrow> action_result" where
  "approveOnce deps now i =
     with_owned deps i (\<lambda>loaded st.
       case loaded of
         None \<Rightarrow> (Inr NOT_ACTIONABLE, st)
       | Some row \<Rightarrow>
           if pa_type row = SpendLimitType then answerSpendQuestion deps now row st
           else if pa_status row \<noteq> Pending then (Inr NOT_ACTIONABLE, st)
           else if is_proposal row then (Inr NOT_ACTIONABLE, st)
           else if pa_type row = ExtAuthz then resolveOnce deps now row AllowOnce st
           else resolveAndDeliverAcpNative deps now row AllowOnce st)"

definition approve_rule ::
  "(ActionRule \<Rightarrow> ActionRule) \<Rightarrow> ApprovalsDeps \<Rightarrow> string \<Rightarrow> time_ms \<Rightarrow> string \<Rightarrow> ApprovalsState \<Rightarrow> action_result" where
  "approve_rule widen deps ruleId now i =
     with_owned deps i (\<lambda>loaded st.
       case loaded of
         None \<Rightarrow> (Inr NOT_ACTIONABLE, st)
       | Some row \<Rightarrow>
           if pa_type row = SpendLimitType then answerSpendQuestion deps now row st
           else if pa_status row = Resolved then (Inr NOT_ACTIONABLE, st)
           else (case requested_rule Allow (pa_payload row) of
                   Some rule \<Rightarrow> writeRuleAndResolve deps ruleId now row (widen rule) st
                 | None \<Rightarrow> resolveAndDeliverAcpNative deps now row AllowAlways st))"

definition approvePermanent :: "ApprovalsDeps \<Rightarrow> string \<Rightarrow> time_ms \<Rightarrow> string \<Rightarrow> ApprovalsState \<Rightarrow> action_result" where
  "approvePermanent = approve_rule id"

definition approveHost :: "ApprovalsDeps \<Rightarrow> string \<Rightarrow> time_ms \<Rightarrow> string \<Rightarrow> ApprovalsState \<Rightarrow> action_result" where
  "approveHost = approve_rule host_wide"

definition denyForever :: "ApprovalsDeps \<Rightarrow> string \<Rightarrow> time_ms \<Rightarrow> string \<Rightarrow> ApprovalsState \<Rightarrow> action_result" where
  "denyForever deps ruleId now i =
     with_owned deps i (\<lambda>loaded st.
       case loaded of
         None \<Rightarrow> (Inr NOT_ACTIONABLE, st)
       | Some row \<Rightarrow>
           if pa_type row = SpendLimitType then (Inl SpendDenied, st)
           else if pa_status row = Resolved then (Inr NOT_ACTIONABLE, st)
           else if is_proposal row then declineProposal deps now row st
           else (case (pa_type row, pa_payload row) of
                   (ExtAuthz, ExtAuthzPayload p) \<Rightarrow>
                     writeRuleAndResolve deps ruleId now row (the (requested_rule Deny (pa_payload row))) st
                 | _ \<Rightarrow> resolveAndDeliverAcpNative deps now row DenyAlways st))"

definition dismiss :: "ApprovalsDeps \<Rightarrow> time_ms \<Rightarrow> string \<Rightarrow> ApprovalsState \<Rightarrow> action_result" where
  "dismiss deps now i =
     with_owned deps i (\<lambda>loaded st.
       if map_option pa_type loaded = Some SpendLimitType then (Inl SpendDenied, st)
       else dismissOne deps now loaded st)"

text \<open>The loop over the ids, each once; a key that is not bound to an agent ends it.\<close>

fun dismiss_ids :: "ApprovalsDeps \<Rightarrow> time_ms \<Rightarrow> string list \<Rightarrow> nat \<Rightarrow> ApprovalsState \<Rightarrow> (ApprovalError + nat) \<times> ApprovalsState" where
  "dismiss_ids deps now [] applied st = (Inr applied, st)"
| "dismiss_ids deps now (i # is) applied st =
     (case loadOwned deps i (ap_approvals st) of
        Inl e \<Rightarrow> (Inl e, st)
      | Inr loaded \<Rightarrow>
          if map_option pa_type loaded = Some SpendLimitType then dismiss_ids deps now is applied st
          else (case dismissOne deps now loaded st of
                  (Inl e, st1) \<Rightarrow> (Inl e, st1)
                | (Inr outcome, st1) \<Rightarrow>
                    dismiss_ids deps now is (if ao_outcome outcome = Applied then applied + 1 else applied) st1))"

definition dismissMany :: "ApprovalsDeps \<Rightarrow> time_ms \<Rightarrow> string list \<Rightarrow> ApprovalsState \<Rightarrow> (ApprovalError + nat) \<times> ApprovalsState" where
  "dismissMany deps now ids st = dismiss_ids deps now (rev (remdups (rev ids))) 0 st"

definition listForOwner ::
  "ApprovalsDeps \<Rightarrow> int option \<Rightarrow> ApprovalStatus option \<Rightarrow> ApprovalsState \<Rightarrow> PendingApprovalRow list" where
  "listForOwner deps limit status st =
     filter (\<lambda>r. matchesBinding (ad_agentBinding deps) (pa_agentId r))
       (listPendingForOwner (ap_approvals st) (ad_ownerSub deps) limit status)"

definition listForInstance ::
  "ApprovalsDeps \<Rightarrow> agent_id \<Rightarrow> int option \<Rightarrow> ApprovalStatus option \<Rightarrow> ApprovalsState \<Rightarrow> PendingApprovalRow list" where
  "listForInstance deps agentId limit status st =
     (if \<not> ad_owned deps agentId (ad_ownerSub deps) then []
      else filter (\<lambda>r. pa_ownerSub r = ad_ownerSub deps)
             (listPendingForInstance (ap_approvals st) agentId limit status))"


section \<open>The sweeper\<close>

text \<open>One late row: its frame goes out again, and a runtime that takes it settles the delivery.\<close>

definition late_frame :: "PendingApprovalRow \<Rightarrow> WrapperResponseFrame option" where
  "late_frame row =
     (case (pa_payload row, pa_verdict row) of
        (AcpNativePayload p, Some verdict) \<Rightarrow>
          map_option (\<lambda>rpcId.
            buildAcpPermissionResponse rpcId
              (pickOptionId (np_options p) verdict (np_optionsWhole p))
              (map_option (\<lambda>sub. \<lparr>sn_sub = sub, sn_email = None\<rparr>) (pa_decidedBy row))) (np_rpcId p)
      | _ \<Rightarrow> None)"

definition sweep_row ::
  "(agent_id \<Rightarrow> WrapperResponseFrame \<Rightarrow> bool) \<Rightarrow> time_ms \<Rightarrow> ApprovalsState \<Rightarrow> PendingApprovalRow \<Rightarrow> ApprovalsState" where
  "sweep_row sends now st row =
     (case late_frame row of
        None \<Rightarrow> st
      | Some frame \<Rightarrow>
          if sends (pa_agentId row) frame
          then st\<lparr>ap_frames := ap_frames st @ [(pa_agentId row, frame)],
                  ap_approvals := markDelivered (ap_approvals st) now (pa_id row)\<rparr>
          else st)"

definition sweeper_tick ::
  "(agent_id \<Rightarrow> WrapperResponseFrame \<Rightarrow> bool) \<Rightarrow> int \<Rightarrow> nat \<Rightarrow> time_ms \<Rightarrow> ApprovalsState \<Rightarrow> ApprovalsState" where
  "sweeper_tick sends staleMs batchSize now st =
     (let st1 = foldl (sweep_row sends now) st (listResolvedUndelivered (ap_approvals st) now staleMs batchSize)
      in case expireOverdue (ap_approvals st1) now of
           (expired, t) \<Rightarrow>
             foldl (\<lambda>st r. emit (ApprovalResolved (pa_id r) (pa_agentId r) (pa_ownerSub r) ResolvedExpired) st)
               (st1\<lparr>ap_approvals := t\<rparr>) expired)"


section \<open>Lemmas\<close>

lemma emit_simps [simp]:
  "ap_approvals (emit e st) = ap_approvals st" "ap_egress (emit e st) = ap_egress st"
  "ap_approvals (emitResolved row v st) = ap_approvals st" "ap_egress (emitResolved row v st) = ap_egress st"
  "ap_frames (emit e st) = ap_frames st" "ap_frames (emitResolved row v st) = ap_frames st"
  by (simp_all add: emit_def emitResolved_def)

lemma resolve_and_emit_result:
  "fst (resolve_and_emit deps now row v d st) = fst (resolvePending (ap_approvals st) now (pa_id row) v (ad_actor deps) d)"
  "ap_approvals (snd (resolve_and_emit deps now row v d st))
     = snd (resolvePending (ap_approvals st) now (pa_id row) v (ad_actor deps) d)"
  "ap_egress (snd (resolve_and_emit deps now row v d st)) = ap_egress st"
  by (simp_all add: resolve_and_emit_def Let_def split: prod.split)

text \<open>The verdict a successful resolve leaves behind.\<close>

lemma resolvePending_wins:
  assumes "approvals_inv t" and "fst (resolvePending t now i v by d)"
  shows "\<exists>r. getPending t i = Some r \<and> pa_status r = Pending
     \<and> getPending (snd (resolvePending t now i v by d)) i
         = Some (r\<lparr>pa_status := Resolved, pa_verdict := Some v, pa_decidedBy := Some by,
                   pa_resolvedAt := Some now, pa_deliveredAt := (if d then Some now else pa_deliveredAt r)\<rparr>)"
  using assms cas_update_getPending [OF assms(1)]
  by (auto simp: resolvePending_def split: option.splits)

lemma loadOwned_Some:
  "loadOwned deps i t = Inr (Some row) \<longleftrightarrow>
     getPending t i = Some row \<and> pa_ownerSub row = ad_ownerSub deps
     \<and> matchesBinding (ad_agentBinding deps) (pa_agentId row)"
  by (auto simp: loadOwned_def split: option.split)

text \<open>An action without an owned row changes nothing.\<close>

lemma with_owned_none:
  assumes "\<And>row. loadOwned deps i (ap_approvals st) \<noteq> Inr (Some row)" and "\<And>st. snd (act None st) = st"
  shows "snd (with_owned deps i act st) = st"
  using assms by (auto simp: with_owned_def split: sum.split) (metis option.exhaust)

lemma with_owned_some:
  "loadOwned deps i (ap_approvals st) = Inr (Some row) \<Longrightarrow> with_owned deps i act st = act (Some row) st"
  by (simp add: with_owned_def)


lemma sweep_row_simps:
  assumes "approvals_inv (ap_approvals st)"
  shows "approvals_inv (ap_approvals (sweep_row sends now st row))"
    and "getPending (ap_approvals (sweep_row sends now st row)) i =
      map_option (\<lambda>r. if i = pa_id row \<and> (\<exists>f. late_frame row = Some f \<and> sends (pa_agentId row) f)
                        \<and> pa_status r = Resolved \<and> pa_deliveredAt r = None
                     then r\<lparr>pa_deliveredAt := Some now\<rparr> else r) (getPending (ap_approvals st) i)"
    and "set (ap_frames st) \<subseteq> set (ap_frames (sweep_row sends now st row))"
  using assms cas_update_getPending(2) [OF assms,
      of "\<lambda>r. pa_status r = Resolved \<and> pa_deliveredAt r = None" "\<lambda>r. r\<lparr>pa_deliveredAt := Some now\<rparr>" "pa_id row" i]
  by (auto simp: sweep_row_def markDelivered_def map_option.identity option.map_ident
      intro: approvals_step_inv approvals_step.step_markDelivered [unfolded markDelivered_def] split: option.split)

text \<open>A row that is delivered stays as it is for the rest of a sweep.\<close>

lemma sweep_keeps_delivered:
  assumes "approvals_inv (ap_approvals st)" and "getPending (ap_approvals st) i = Some r" and "pa_deliveredAt r \<noteq> None"
  shows "getPending (ap_approvals (foldl (sweep_row sends now) st rows)) i = Some r
     \<and> set (ap_frames st) \<subseteq> set (ap_frames (foldl (sweep_row sends now) st rows))"
  using assms(1,2)
proof (induction rows arbitrary: st)
  case (Cons row rows)
  from Cons.IH [of "sweep_row sends now st row"] Cons.prems assms(3)
    sweep_row_simps(2) [OF Cons.prems(1), of sends now row i] sweep_row_simps(1,3) [OF Cons.prems(1), of sends now row]
  show ?case by auto
qed simp

lemma sweep_delivers:
  assumes "approvals_inv (ap_approvals st)" and "row \<in> set rows"
    and "getPending (ap_approvals st) (pa_id row) = Some row" and "pa_status row = Resolved" "pa_deliveredAt row = None"
    and "late_frame row = Some f" "sends (pa_agentId row) f"
    and "\<And>x. x \<in> set rows \<Longrightarrow> pa_id x = pa_id row \<Longrightarrow> x = row"
  shows "getPending (ap_approvals (foldl (sweep_row sends now) st rows)) (pa_id row)
       = Some (row\<lparr>pa_deliveredAt := Some now\<rparr>)
     \<and> (pa_agentId row, f) \<in> set (ap_frames (foldl (sweep_row sends now) st rows))"
  using assms
proof (induction rows arbitrary: st)
  case (Cons x rows)
  note step = sweep_row_simps(1) [OF Cons.prems(1), of sends now x]
    sweep_row_simps(2) [OF Cons.prems(1), of sends now x "pa_id row"]
  show ?case
  proof (cases "x = row")
    case True
    with step(2) Cons.prems(3-7) have delivered: "getPending (ap_approvals (sweep_row sends now st x)) (pa_id row)
        = Some (row\<lparr>pa_deliveredAt := Some now\<rparr>)" by simp
    moreover have "(pa_agentId row, f) \<in> set (ap_frames (sweep_row sends now st x))"
      using True Cons.prems(6,7) by (simp add: sweep_row_def)
    ultimately show ?thesis using sweep_keeps_delivered [OF step(1) delivered, of sends now rows] by auto
  next
    case False
    with Cons.prems(8) [of x] have "pa_id x \<noteq> pa_id row" by auto
    with step(2) Cons.prems(3) have same: "getPending (ap_approvals (sweep_row sends now st x)) (pa_id row) = Some row" by simp
    have mem: "row \<in> set rows" using False Cons.prems(2) by simp
    have "getPending (ap_approvals (foldl (sweep_row sends now) (sweep_row sends now st x) rows)) (pa_id row)
         = Some (row\<lparr>pa_deliveredAt := Some now\<rparr>)
       \<and> (pa_agentId row, f) \<in> set (ap_frames (foldl (sweep_row sends now) (sweep_row sends now st x) rows))"
      by (rule Cons.IH [OF step(1) mem same Cons.prems(4-7)]) (rule Cons.prems(8), simp_all)
    then show ?thesis by simp
  qed
qed simp

lemma emit_expired_simps [simp]:
  "ap_approvals (foldl (\<lambda>st r. emit (g r) st) st rs) = ap_approvals st"
  "ap_frames (foldl (\<lambda>st r. emit (g r) st) st rs) = ap_frames st"
  by (induction rs arbitrary: st) simp_all

lemma listed_undelivered:
  "r \<in> set (listResolvedUndelivered t now staleMs limit) \<Longrightarrow> r \<in> set t \<and> pa_status r = Resolved \<and> pa_deliveredAt r = None"
  by (auto simp: listResolvedUndelivered_def dest!: in_set_takeD)

text \<open>What a tick leaves of the table after its sweep.\<close>

lemma sweeper_tick_simps:
  fixes sends now st staleMs batchSize
  defines "st1 \<equiv> foldl (sweep_row sends now) st (listResolvedUndelivered (ap_approvals st) now staleMs batchSize)"
  shows "ap_approvals (sweeper_tick sends staleMs batchSize now st) = snd (expireOverdue (ap_approvals st1) now)"
    and "ap_frames (sweeper_tick sends staleMs batchSize now st) = ap_frames st1"
  by (simp_all add: sweeper_tick_def Let_def st1_def split: prod.split)


section \<open>Properties\<close>

text \<open>
  C28. Only the owner decides. An action on an approval of someone else, or on an agent that the
  caller's key is not bound to, changes nothing at all: no verdict, no rule, no event, no frame.
\<close>

theorem only_owner_decides:
  assumes "\<And>row. getPending (ap_approvals st) i = Some row \<Longrightarrow>
      pa_ownerSub row \<noteq> ad_ownerSub deps \<or> \<not> matchesBinding (ad_agentBinding deps) (pa_agentId row)"
  shows "snd (approveOnce deps now i st) = st \<and> snd (approvePermanent deps ruleId now i st) = st
     \<and> snd (approveHost deps ruleId now i st) = st \<and> snd (denyForever deps ruleId now i st) = st
     \<and> snd (dismiss deps now i st) = st \<and> snd (dismissMany deps now [i] st) = st"
proof -
  have none: "loadOwned deps i (ap_approvals st) \<noteq> Inr (Some row)" for row
    using assms by (auto simp: loadOwned_Some)
  then have "snd (dismissMany deps now [i] st) = st"
    by (auto simp: dismissMany_def dismissOne_def split: sum.split option.split)
  with none show ?thesis
    by (simp add: approveOnce_def approvePermanent_def approveHost_def approve_rule_def denyForever_def
        dismiss_def dismissOne_def with_owned_none)
qed

definition sample_approvals_deps :: ApprovalsDeps where
  "sample_approvals_deps = \<lparr>ad_patch = (\<lambda>_ _ desired. Some desired), ad_owned = (\<lambda>_ u. u = ''u''), ad_ownerSub = ''u'',
     ad_actor = ''u'', ad_actorEmail = None, ad_agentBinding = AnyAgent, ad_sends = (\<lambda>_ _. True)\<rparr>"

definition sample_approvals_state :: "approvals \<Rightarrow> ApprovalsState" where
  "sample_approvals_state t = \<lparr>ap_egress = sample_state [], ap_approvals = t, ap_events = [], ap_frames = []\<rparr>"

theorem only_owner_decides_witness:
  "let st = sample_approvals_state [pending_row 0 (sample_approval ''p'')];
       deps = sample_approvals_deps\<lparr>ad_ownerSub := ''mallory''\<rparr>
   in snd (approvePermanent deps ''r'' 1 ''p'' st) = st"
proof -
  let ?st = "sample_approvals_state [pending_row 0 (sample_approval ''p'')]"
  have "\<And>row. getPending (ap_approvals ?st) ''p'' = Some row \<Longrightarrow> pa_ownerSub row \<noteq> ''mallory''"
    by (auto simp: sample_approvals_state_def getPending_def has_id_def sample_approval_def split: if_splits)
  with only_owner_decides [of ?st "''p''" "sample_approvals_deps\<lparr>ad_ownerSub := ''mallory''\<rparr>"] show ?thesis
    by (simp add: Let_def)
qed

text \<open>
  C3. A permanent approval that is applied leaves both the rule and the verdict: the agent has
  an active rule of the verdict for exactly the tuple the row asks for, the row is resolved with
  it, and an approval in the meantime cannot have been decided by someone else. The helper is
  shown for every state it may run in, so for every interleaving between the load of the row
  and the write.
\<close>

theorem rule_and_verdict_together:
  assumes "rules_inv (as_rules (ap_egress st))" and "approvals_inv (ap_approvals st)"
    and "writeRuleAndResolve deps ruleId now row rule st = (Inr out, st')" and "ao_outcome out = Applied"
  shows "(\<exists>r \<in> set (as_rules (ap_egress st')). er_verdict r = ar_verdict rule
            \<and> same_tuple (pa_agentId row) (ar_host rule) (ar_port rule) (ar_method rule) (ar_pathPattern rule) r)
     \<and> (\<exists>p p'. getPending (ap_approvals st) (pa_id row) = Some p \<and> pa_status p = Pending
            \<and> getPending (ap_approvals st') (pa_id row) = Some p' \<and> pa_status p' = Resolved
            \<and> pa_verdict p' = Some (approval_verdict_of (ar_verdict rule)) \<and> pa_decidedBy p' = Some (ad_actor deps))"
proof -
  let ?v = "approval_verdict_of (ar_verdict rule)"
  let ?resolve = "resolvePending (ap_approvals st) now (pa_id row) ?v (ad_actor deps) (pa_type row = EgressProposal)"
  obtain outcome eg where wrote: "writer_insert (ad_patch deps) now (inbox_rule deps ruleId row rule) (ap_egress st) = (Inr outcome, eg)"
    and clear: "\<And>x. outcome \<noteq> VerdictClash x"
    using assms(3) by (auto simp: writeRuleAndResolve_def split: prod.splits sum.splits EgressRuleWriteOutcome.splits)
  have st': "ap_egress st' = eg \<and> fst ?resolve \<and> ap_approvals st' = snd ?resolve"
  proof (cases outcome)
    case (VerdictClash x)
    with clear show ?thesis by blast
  qed (use assms(3,4) wrote in \<open>auto simp: writeRuleAndResolve_def Let_def split: prod.splits if_splits\<close>)
  obtain r where "r \<in> set (as_rules eg)" "er_verdict r = ne_verdict (inbox_rule deps ruleId row rule)"
    "same_tuple (pa_agentId row) (ar_host rule) (ar_port rule) (ar_method rule) (ar_pathPattern rule) r"
    using write_rule_active [OF assms(1) writer_insert_outcome [OF wrote] clear] by (auto simp: inbox_rule_def)
  moreover from resolvePending_wins [OF assms(2) conjunct1 [OF conjunct2 [OF st']]] conjunct2 [OF conjunct2 [OF st']]
  obtain p where "getPending (ap_approvals st) (pa_id row) = Some p" "pa_status p = Pending"
    "getPending (ap_approvals st') (pa_id row) = Some (p\<lparr>pa_status := Resolved, pa_verdict := Some ?v,
        pa_decidedBy := Some (ad_actor deps), pa_resolvedAt := Some now,
        pa_deliveredAt := (if pa_type row = EgressProposal then Some now else pa_deliveredAt p)\<rparr>)"
    by auto
  ultimately show ?thesis using st' by (auto simp: inbox_rule_def)
qed

theorem rule_and_verdict_together_witness:
  "let row = pending_row 0 (sample_approval ''p''); st = sample_approvals_state [row];
       rule = the (requested_rule Allow (pa_payload row))
   in \<exists>out st'. writeRuleAndResolve sample_approvals_deps ''r'' 1 row rule st = (Inr out, st')
        \<and> (\<exists>r \<in> set (as_rules (ap_egress st')). er_verdict r = Allow)"
proof -
  let ?row = "pending_row 0 (sample_approval ''p'')" and ?st = "sample_approvals_state [pending_row 0 (sample_approval ''p'')]"
  let ?rule = "the (requested_rule Allow (pa_payload ?row))"
  let ?res = "writeRuleAndResolve sample_approvals_deps ''r'' 1 ?row ?rule ?st"
  have "(case fst ?res of Inl _ \<Rightarrow> False | Inr out \<Rightarrow> ao_outcome out = Applied)" by code_simp
  then obtain out st' where res: "?res = (Inr out, st')" "ao_outcome out = Applied"
    by (cases ?res) (auto split: sum.splits)
  have "rules_inv (as_rules (ap_egress ?st))" and "approvals_inv (ap_approvals ?st)"
    using sample_pending_inv by (simp_all add: sample_approvals_state_def sample_state_def rules_inv_def)
  from rule_and_verdict_together [OF this res] res(1) show ?thesis
    by (auto simp: Let_def requested_rule_def sample_approval_def)
qed

text \<open>
  C29. A verdict keeps its meaning on the way to the harness and back. The option sent is of
  exactly the kind the verdict asks for, so a one-time verdict never grants for good and a
  denial never answers with an allow; where the catalog names an option once, reading the sent
  option back gives the verdict. Without such an option the answer is a cancellation, which
  reads back as a one-time denial.
\<close>

theorem verdict_frame_roundtrip:
  assumes "distinct (map po_optionId options)"
  shows "case fr_outcome (buildAcpPermissionResponse rpc (pickOptionId options verdict idsWhole) sender) of
      FrameSelected oid answeredBy \<Rightarrow>
        answeredBy = sender
        \<and> (\<forall>o' \<in> set options. po_optionId o' = oid \<longrightarrow> po_kind o' = Some (kind_of_verdict verdict))
        \<and> verdictOfOutcome options \<lparr>ro_cancelled = False, ro_optionId = Some oid, ro_kind = None\<rparr> runtime = verdict
    | FrameCancelled \<Rightarrow>
        verdictOfOutcome options \<lparr>ro_cancelled = True, ro_optionId = None, ro_kind = None\<rparr> runtime = DenyOnce"
proof (cases "answerableOption options (kind_of_verdict verdict) idsWhole")
  case None
  then show ?thesis by (simp add: pickOptionId_def buildAcpPermissionResponse_def verdictOfOutcome_def)
next
  case (Some o')
  then have o': "o' \<in> set options" "po_kind o' = Some (kind_of_verdict verdict)"
    by (auto simp: answerableOption_def answerable_def dest: find_SomeD)
  from find_distinct_key [OF assms o'(1) refl]
  have "find (\<lambda>x. Some (po_optionId x) = Some (po_optionId o')) options = Some o'" by simp
  then have "verdictOfOutcome options \<lparr>ro_cancelled = False, ro_optionId = Some (po_optionId o'), ro_kind = None\<rparr> runtime = verdict"
    using o'(2) by (cases verdict) (simp_all add: verdictOfOutcome_def)
  moreover have "x = o'" if "x \<in> set options" "po_optionId x = po_optionId o'" for x
    using distinct_filter_unique [of po_optionId "\<lambda>_. True" options x o'] assms that o'(1) by simp
  ultimately show ?thesis using Some o'(2)
    by (auto simp: pickOptionId_def buildAcpPermissionResponse_def verdictOfOutcome_def)
qed

theorem verdict_frame_roundtrip_witness:
  "verdictOfOutcome [\<lparr>po_optionId = ''y'', po_kind = Some KindAllowAlways\<rparr>, \<lparr>po_optionId = ''n'', po_kind = Some KindRejectOnce\<rparr>]
     \<lparr>ro_cancelled = False, ro_optionId = Some ''n'', ro_kind = None\<rparr> False = DenyOnce"
  using verdict_frame_roundtrip [where verdict = DenyOnce and idsWhole = True and runtime = False and options = "[\<lparr>po_optionId = ''y'', po_kind = Some KindAllowAlways\<rparr>,
      \<lparr>po_optionId = ''n'', po_kind = Some KindRejectOnce\<rparr>]"]
  by (simp add: pickOptionId_def answerableOption_def answerable_def buildAcpPermissionResponse_def)

text \<open>
  A spend limit is only ever continued, never denied, and only by an unrestricted caller:
  the denying actions on a spend question fail and change nothing, and so does an approving one
  with a key that is bound to agents.
\<close>

theorem spend_question_only_continues:
  assumes "loadOwned deps i (ap_approvals st) = Inr (Some row)" and "pa_type row = SpendLimitType"
  shows "denyForever deps ruleId now i st = (Inl SpendDenied, st) \<and> dismiss deps now i st = (Inl SpendDenied, st)
     \<and> dismissMany deps now [i] st = (Inr 0, st)
     \<and> (pa_status row = Pending \<and> ad_agentBinding deps \<noteq> AnyAgent \<longrightarrow>
          approveOnce deps now i st = (Inl SpendNeedsUnrestricted, st)
          \<and> approvePermanent deps ruleId now i st = (Inl SpendNeedsUnrestricted, st)
          \<and> approveHost deps ruleId now i st = (Inl SpendNeedsUnrestricted, st))"
  using assms
  by (simp add: denyForever_def dismiss_def dismissMany_def approveOnce_def approvePermanent_def approveHost_def
      approve_rule_def with_owned_some answerSpendQuestion_def)

definition sample_question :: SpendLimitQuestion where
  "sample_question = \<lparr>sq_limitId = ''l'', sq_scope = OwnerScope, sq_unit = Usd, sq_day = 7, sq_amountMicros = 5, sq_extensions = 0\<rparr>"

theorem spend_question_only_continues_witness:
  "let row = (pending_row 0 (sample_approval ''p''))\<lparr>pa_type := SpendLimitType, pa_payload := SpendLimitPayload sample_question\<rparr>;
       st = sample_approvals_state [row]
   in dismiss sample_approvals_deps 1 ''p'' st = (Inl SpendDenied, st)"
proof -
  let ?row = "(pending_row 0 (sample_approval ''p''))\<lparr>pa_type := SpendLimitType, pa_payload := SpendLimitPayload sample_question\<rparr>"
  let ?st = "sample_approvals_state [?row]"
  have "loadOwned sample_approvals_deps ''p'' (ap_approvals ?st) = Inr (Some ?row)"
    by (simp add: loadOwned_def sample_approvals_state_def sample_approvals_deps_def sample_approval_def
        getPending_def has_id_def matchesBinding_def)
  from spend_question_only_continues [OF this] show ?thesis by (simp add: Let_def)
qed

text \<open>
  A verdict that could not be delivered reaches the harness with the next sweep: each row of
  the batch whose runtime takes its frame is sent the frame of its recorded verdict and is
  marked delivered with that verdict kept; and after the tick no pending approval is overdue.
\<close>

theorem sweeper_delivers_verdict:
  assumes "approvals_inv (ap_approvals st)"
    and "row \<in> set (listResolvedUndelivered (ap_approvals st) now staleMs batchSize)"
    and "late_frame row = Some f" and "sends (pa_agentId row) f"
  shows "getPending (ap_approvals (sweeper_tick sends staleMs batchSize now st)) (pa_id row)
       = Some (row\<lparr>pa_deliveredAt := Some now\<rparr>)
     \<and> (pa_agentId row, f) \<in> set (ap_frames (sweeper_tick sends staleMs batchSize now st))
     \<and> (\<forall>r \<in> set (ap_approvals (sweeper_tick sends staleMs batchSize now st)).
          pa_status r = Pending \<longrightarrow> now \<le> pa_expiresAt r)"
proof -
  let ?rows = "listResolvedUndelivered (ap_approvals st) now staleMs batchSize"
  note row = listed_undelivered [OF assms(2)]
  have unique: "x = row" if "x \<in> set ?rows" "pa_id x = pa_id row" for x
    using approval_id_unique [OF assms(1)] listed_undelivered [OF that(1)] row that(2) by blast
  let ?st1 = "foldl (sweep_row sends now) st ?rows"
  have "getPending (ap_approvals st) (pa_id row) = Some row" by (rule getPending_in_table [OF assms(1)]) (use row in simp)
  then have swept: "getPending (ap_approvals ?st1) (pa_id row) = Some (row\<lparr>pa_deliveredAt := Some now\<rparr>)
     \<and> (pa_agentId row, f) \<in> set (ap_frames ?st1)"
    using row assms by (intro sweep_delivers [where f = f] unique) simp_all
  then have "getPending (snd (expireOverdue (ap_approvals ?st1) now)) (pa_id row) = Some (row\<lparr>pa_deliveredAt := Some now\<rparr>)"
    using row by (simp add: expireOverdue_def Let_def getPending_update_where)
  moreover have "\<forall>r \<in> set (snd (expireOverdue t now)). pa_status r = Pending \<longrightarrow> now \<le> pa_expiresAt r" for t
    by (auto simp: expireOverdue_def Let_def set_update_where)
  ultimately show ?thesis using swept unfolding sweeper_tick_simps by blast
qed


definition sample_acp_row :: PendingApprovalRow where
  "sample_acp_row = (pending_row 0 (sample_approval ''p''))\<lparr>pa_type := AcpNative,
     pa_payload := AcpNativePayload \<lparr>np_toolName = ''t'', np_toolCallId = None, np_args = [], np_rpcId = Some (RpcNumber 4),
       np_options = [\<lparr>po_optionId = ''y'', po_kind = Some KindAllowOnce\<rparr>], np_optionsWhole = True\<rparr>,
     pa_status := Resolved, pa_verdict := Some AllowOnce, pa_decidedBy := Some ''u'', pa_resolvedAt := Some 5\<rparr>"

theorem sweeper_delivers_verdict_witness:
  "let st = sample_approvals_state [sample_acp_row] in
   getPending (ap_approvals (sweeper_tick (\<lambda>_ _. True) 1 50 9 st)) ''p'' = Some (sample_acp_row\<lparr>pa_deliveredAt := Some 9\<rparr>)"
proof -
  let ?st = "sample_approvals_state [sample_acp_row]"
  have inv: "approvals_inv (ap_approvals ?st)"
    by (simp add: approvals_inv_def sample_approvals_state_def sample_acp_row_def row_ok_def)
  have row: "sample_acp_row \<in> set (listResolvedUndelivered (ap_approvals ?st) 9 1 50)"
    by (simp add: listResolvedUndelivered_def sample_approvals_state_def sample_acp_row_def pending_row_def)
  obtain f where "late_frame sample_acp_row = Some f"
    by (simp add: late_frame_def sample_acp_row_def)
  from sweeper_delivers_verdict [OF inv row this, of "\<lambda>_ _. True"] show ?thesis
    by (simp add: Let_def sample_acp_row_def sample_approval_def)
qed

text \<open>
  A batch that is full of rows without a frame stays the batch of every later tick: the order
  by resolution time puts later rows behind it, and no sweep delivers a row without a frame.
\<close>

lemma take_filter_sorted:
  fixes k :: "'a \<Rightarrow> int"
  assumes "sorted (map k ys)" and "n \<le> length (filter (\<lambda>r. k r < c) ys)"
  shows "take n (filter (\<lambda>r. k r < c) ys) = take n ys"
  using assms
proof (induction ys arbitrary: n)
  case (Cons y ys)
  show ?case
  proof (cases "k y < c")
    case True
    with Cons show ?thesis by (cases n) auto
  next
    case False
    with Cons.prems(1) have "filter (\<lambda>r. k r < c) (y # ys) = []" by (auto simp: filter_empty_conv)
    with Cons.prems(2) show ?thesis by simp
  qed
qed simp

definition undelivered_at :: "PendingApprovalRow \<Rightarrow> int" where
  "undelivered_at r = (case pa_resolvedAt r of None \<Rightarrow> 0 | Some at \<Rightarrow> at)"

lemma listResolvedUndelivered_alt:
  "listResolvedUndelivered t now staleMs limit =
     take limit (filter (\<lambda>r. undelivered_at r < now - staleMs)
       (sort_key undelivered_at (filter (\<lambda>r. pa_status r = Resolved \<and> pa_deliveredAt r = None \<and> pa_resolvedAt r \<noteq> None) t)))"
proof -
  have "filter (\<lambda>r. pa_status r = Resolved \<and> pa_deliveredAt r = None
          \<and> (case pa_resolvedAt r of None \<Rightarrow> False | Some at \<Rightarrow> at < now - staleMs)) t
      = filter (\<lambda>r. undelivered_at r < now - staleMs)
          (filter (\<lambda>r. pa_status r = Resolved \<and> pa_deliveredAt r = None \<and> pa_resolvedAt r \<noteq> None) t)"
    unfolding filter_filter by (rule filter_cong [OF refl]) (auto simp: undelivered_at_def split: option.split)
  then show ?thesis
    by (simp only: listResolvedUndelivered_def undelivered_at_def [abs_def, symmetric] filter_sort)
qed

lemma full_batch_stays:
  assumes "length (listResolvedUndelivered t now staleMs limit) = limit" and "now \<le> later"
  shows "listResolvedUndelivered t later staleMs limit = listResolvedUndelivered t now staleMs limit"
proof -
  let ?ys = "sort_key undelivered_at (filter (\<lambda>r. pa_status r = Resolved \<and> pa_deliveredAt r = None \<and> pa_resolvedAt r \<noteq> None) t)"
  have early: "limit \<le> length (filter (\<lambda>r. undelivered_at r < now - staleMs) ?ys)"
    using assms(1) by (simp add: listResolvedUndelivered_alt)
  have "length (filter (\<lambda>r. undelivered_at r < now - staleMs) xs) \<le> length (filter (\<lambda>r. undelivered_at r < later - staleMs) xs)" for xs
    using assms(2) by (induction xs) auto
  from order_trans [OF early this] have late: "limit \<le> length (filter (\<lambda>r. undelivered_at r < later - staleMs) ?ys)" .
  show ?thesis
    unfolding listResolvedUndelivered_alt
    using take_filter_sorted [OF sorted_sort_key early] take_filter_sorted [OF sorted_sort_key late] by simp
qed

definition starved :: "time_ms \<Rightarrow> int \<Rightarrow> nat \<Rightarrow> ApprovalsState \<Rightarrow> bool" where
  "starved now staleMs batchSize st \<longleftrightarrow>
     (let batch = listResolvedUndelivered (ap_approvals st) now staleMs batchSize
      in length batch = batchSize \<and> list_all (\<lambda>row. late_frame row = None) batch)"

lemma expireOverdue_undelivered:
  "listResolvedUndelivered (snd (expireOverdue t at)) now staleMs limit = listResolvedUndelivered t now staleMs limit"
proof -
  have "filter p (snd (expireOverdue t at)) = filter p t" if "\<And>r. pa_status r \<noteq> Resolved \<Longrightarrow> \<not> p r" for p
    using that by (induction t) (auto simp: expireOverdue_def update_where_def Let_def)
  then show ?thesis by (simp add: listResolvedUndelivered_def)
qed

lemma starved_tick:
  assumes "starved now staleMs batchSize st" and "now \<le> later"
  shows "starved now staleMs batchSize (sweeper_tick sends staleMs batchSize later st)
     \<and> ap_frames (sweeper_tick sends staleMs batchSize later st) = ap_frames st"
proof -
  have same: "listResolvedUndelivered (ap_approvals st) later staleMs batchSize
      = listResolvedUndelivered (ap_approvals st) now staleMs batchSize"
    using assms by (intro full_batch_stays) (simp_all add: starved_def Let_def)
  have "foldl (sweep_row sends later) st rows = st" if "list_all (\<lambda>row. late_frame row = None) rows" for rows
    using that by (induction rows) (simp_all add: sweep_row_def)
  then have "foldl (sweep_row sends later) st (listResolvedUndelivered (ap_approvals st) later staleMs batchSize) = st"
    unfolding same using assms(1) by (simp add: starved_def Let_def)
  with assms(1) show ?thesis by (simp add: starved_def Let_def sweeper_tick_simps expireOverdue_undelivered)
qed

text \<open>
  The sweeper starves once a batch is full of resolved rows that have no frame, as every
  egress approval and every spend question is after its verdict: no later tick sends anything,
  however many ticks run and however many tool verdicts are waiting behind the batch.
\<close>

theorem sweeper_starves:
  assumes "starved now staleMs batchSize st" and "\<forall>later \<in> set ticks. now \<le> later"
  shows "ap_frames (foldl (\<lambda>st later. sweeper_tick sends staleMs batchSize later st) st ticks) = ap_frames st"
  using assms
proof (induction ticks arbitrary: st)
  case (Cons later ticks)
  then show ?case using starved_tick [OF Cons.prems(1), of later sends] by simp
qed simp

definition clogged_state :: ApprovalsState where
  "clogged_state = sample_approvals_state
     [(pending_row 0 (sample_approval ''e''))\<lparr>pa_status := Resolved, pa_verdict := Some AllowAlways,
        pa_decidedBy := Some ''u'', pa_resolvedAt := Some 4\<rparr>, sample_acp_row]"

theorem sweeper_starves_witness:
  "late_frame sample_acp_row \<noteq> None
   \<and> ap_frames (foldl (\<lambda>st later. sweeper_tick (\<lambda>_ _. True) 1 1 later st) clogged_state [9, 10, 11]) = []"
proof -
  have "starved 9 1 1 clogged_state" by code_simp
  from sweeper_starves [OF this, of "[9, 10, 11]" "\<lambda>_ _. True"] show ?thesis
    by (simp add: late_frame_def sample_acp_row_def) (simp add: clogged_state_def sample_approvals_state_def)
qed

end
