(* ===== verification/Approvals_Relay.thy ===== *)
theory Approvals_Relay
  imports Approvals_Service "HOL-Library.Sublist"
begin

text \<open>
  How approvals come into the table and how a session settles them: the ACP relay
  (\<^verbatim>\<open>approvals/services/approvals-relay-service.ts\<close>), the reports of the agent runtime
  (\<^verbatim>\<open>tool-approval-reports.ts\<close>), the rules an agent proposes (\<^verbatim>\<open>egress-proposals.ts\<close>), the
  questions of a spend limit (\<^verbatim>\<open>spend-limit-questions.ts\<close>) and what a permission request
  becomes in a row (\<^verbatim>\<open>api-server-api/src/modules/approvals/format.ts\<close>). A helper that runs after
  a row was loaded takes the row and the state apart.
\<close>

section \<open>What a permission request becomes in a row\<close>

fun rpc_text :: "RpcId \<Rightarrow> string" where
  "rpc_text (RpcNumber i) = show_int i" | "rpc_text (RpcText s) = s"

definition acpNativeRowId :: "agent_id \<Rightarrow> string \<Rightarrow> RpcId \<Rightarrow> string" where
  "acpNativeRowId agentId sessionId rpcId = ''acpnative:'' @ agentId @ '':'' @ sessionId @ '':'' @ rpc_text rpcId"

text \<open>The tool call as sent: a field that is not a string reads as absent.\<close>

record RawToolCall =
  rt_title :: "string option"
  rt_toolCallId :: "string option"

record RecordedTool =
  rd_toolName :: string
  rd_toolCallId :: "string option"

definition recordedToolOf :: "RawToolCall option \<Rightarrow> RecordedTool" where
  "recordedToolOf toolCall =
     (let title = (case Option.bind toolCall rt_title of None \<Rightarrow> [] | Some s \<Rightarrow> s)
      in \<lparr>rd_toolName = take TOOL_NAME_MAX (if title = [] then ''tool call'' else title),
          rd_toolCallId = (case Option.bind toolCall rt_toolCallId of
                             None \<Rightarrow> None
                           | Some s \<Rightarrow> if s = [] then None else Some (take TOOL_CALL_ID_MAX s))\<rparr>)"

text \<open>An option as sent: not an object, or an object whose fields may be strings.\<close>

datatype RawOption = RawNoObject | RawObject "string option" "string option" \<comment> \<open>option id, kind\<close>

fun option_kind_text :: "AcpPermissionOptionKind \<Rightarrow> string" where
  "option_kind_text KindAllowOnce = ''allow_once''"
| "option_kind_text KindAllowAlways = ''allow_always''"
| "option_kind_text KindRejectOnce = ''reject_once''"
| "option_kind_text KindRejectAlways = ''reject_always''"

definition OPTION_KINDS :: "AcpPermissionOptionKind list" where
  "OPTION_KINDS = [KindAllowOnce, KindAllowAlways, KindRejectOnce, KindRejectAlways]"

fun option_with_given_id :: "RawOption \<Rightarrow> AcpPermissionOption list" where
  "option_with_given_id (RawObject (Some oid) kind) =
     (if oid = [] then []
      else [\<lparr>po_optionId = oid, po_kind = find (\<lambda>k. Some (option_kind_text k) = kind) OPTION_KINDS\<rparr>])"
| "option_with_given_id _ = []"

definition optionsWithGivenIds :: "RawOption list \<Rightarrow> AcpPermissionOption list" where
  "optionsWithGivenIds raw = concat (map option_with_given_id raw)"

text \<open>\<^verbatim>\<open>new Map\<close> keeps the last entry of a key.\<close>

definition permissionOptionKindsOf :: "RawOption list \<Rightarrow> string \<Rightarrow> AcpPermissionOptionKind option" where
  "permissionOptionKindsOf raw =
     map_of (rev (List.map_filter (\<lambda>o'. map_option (Pair (po_optionId o')) (po_kind o')) (optionsWithGivenIds raw)))"

definition permissionOptionsOf :: "RawOption list \<Rightarrow> AcpPermissionOption list" where
  "permissionOptionsOf raw = filter (\<lambda>o'. length (po_optionId o') \<le> TOOL_CALL_ID_MAX) (optionsWithGivenIds raw)"

text \<open>The objects of a list are told apart by their position, as \<^verbatim>\<open>indexOf\<close> tells references apart.\<close>

definition first_of_each_kind :: "(nat \<times> AcpPermissionOption) list \<Rightarrow> (nat \<times> AcpPermissionOption) list" where
  "first_of_each_kind ix = List.map_filter (\<lambda>kind. find (\<lambda>(_, o'). po_kind o' = Some kind) ix) OPTION_KINDS"

definition recordedOptionsOf :: "RawOption list \<Rightarrow> AcpPermissionOption list" where
  "recordedOptionsOf raw =
     (let all = permissionOptionsOf raw; ix = zip [0..<length all] all
      in if length all \<le> PERMISSION_OPTIONS_MAX then all
         else map snd (sort_key fst
                (take PERMISSION_OPTIONS_MAX (first_occurrences (first_of_each_kind ix @ ix)))))"


section \<open>The relay\<close>

definition ACP_NATIVE_TTL_MS :: int where "ACP_NATIVE_TTL_MS = 24 * 60 * 60 * 1000"

definition SYNTHETIC_SESSION_PREFIX :: string where "SYNTHETIC_SESSION_PREFIX = ''_egress:''"

definition syntheticSessionId :: "string \<Rightarrow> string" where
  "syntheticSessionId approvalId = SYNTHETIC_SESSION_PREFIX @ approvalId"

definition startsWith :: "string \<Rightarrow> string \<Rightarrow> bool" where
  "startsWith p s \<longleftrightarrow> take (length p) s = p"

record RecordAcpNativePendingInput =
  ri_agentId :: agent_id
  ri_sessionId :: string
  ri_rpcId :: RpcId
  ri_ownerSub :: user_sub
  ri_toolName :: string
  ri_toolCallId :: "string option"
  ri_args :: string
  ri_idsWhole :: bool
  ri_options :: "AcpPermissionOption list"

definition input_row_id :: "RecordAcpNativePendingInput \<Rightarrow> string" where
  "input_row_id input = acpNativeRowId (ri_agentId input) (ri_sessionId input) (ri_rpcId input)"

definition acp_request_of :: "RecordAcpNativePendingInput \<Rightarrow> AcpNativeRequest" where
  "acp_request_of input =
     \<lparr>np_toolName = ri_toolName input, np_toolCallId = ri_toolCallId input, np_args = ri_args input,
      np_rpcId = Some (ri_rpcId input), np_options = ri_options input, np_optionsWhole = ri_idsWhole input\<rparr>"

definition describesSameRequest :: "PendingApprovalRow \<Rightarrow> AcpNativeRequest \<Rightarrow> bool" where
  "describesSameRequest row payload \<longleftrightarrow>
     (case pa_payload row of
        AcpNativePayload p \<Rightarrow> np_rpcId p = np_rpcId payload \<and> np_toolName p = np_toolName payload \<and> np_args p = np_args payload
      | _ \<Rightarrow> False)"

definition superseded_by :: "RecordAcpNativePendingInput \<Rightarrow> PendingApprovalRow \<Rightarrow> bool" where
  "superseded_by input row \<longleftrightarrow>
     pa_id row \<noteq> input_row_id input \<and> pa_sessionId row = Some (ri_sessionId input)
     \<and> (case pa_payload row of AcpNativePayload p \<Rightarrow> np_toolCallId p = ri_toolCallId input | _ \<Rightarrow> False)"

text \<open>The compare-and-set that expires a row, with the event of its winner.\<close>

definition expire_and_emit :: "time_ms \<Rightarrow> Resolution \<Rightarrow> PendingApprovalRow \<Rightarrow> ApprovalsState \<Rightarrow> bool \<times> ApprovalsState" where
  "expire_and_emit now resolution row st =
     (case expirePending (ap_approvals st) now (pa_id row) of
        (won, t) \<Rightarrow>
          let st1 = st\<lparr>ap_approvals := t\<rparr>
          in (won, if won then emit (ApprovalResolved (pa_id row) (pa_agentId row) (pa_ownerSub row) resolution) st1 else st1))"

definition expireSupersededRows :: "time_ms \<Rightarrow> RecordAcpNativePendingInput \<Rightarrow> ApprovalsState \<Rightarrow> ApprovalsState" where
  "expireSupersededRows now input st =
     fold (\<lambda>row st. snd (expire_and_emit now ResolvedSuperseded row st))
       (filter (superseded_by input) (listPendingForInstance (ap_approvals st) (ri_agentId input) None (Some Pending))) st"

definition recordAcpNativePending ::
  "time_ms \<Rightarrow> RecordAcpNativePendingInput \<Rightarrow> ApprovalsState \<Rightarrow> string option \<times> ApprovalsState" where
  "recordAcpNativePending now input st =
     (if startsWith SYNTHETIC_SESSION_PREFIX (ri_sessionId input) then (None, st)
      else let rowId = input_row_id input; payload = acp_request_of input
           in case insertIfAbsent (ap_approvals st) now
                     \<lparr>na_id = rowId, na_type = AcpNative, na_agentId = ri_agentId input, na_ownerSub = ri_ownerSub input,
                      na_sessionId = Some (ri_sessionId input), na_payload = AcpNativePayload payload,
                      na_expiresAt = now + ACP_NATIVE_TTL_MS\<rparr> of
                (False, t) \<Rightarrow>
                  ((case getPending t rowId of
                      None \<Rightarrow> None
                    | Some held \<Rightarrow> if describesSameRequest held payload then Some rowId else None),
                   st\<lparr>ap_approvals := t\<rparr>)
              | (True, t) \<Rightarrow>
                  let st1 = emit (ApprovalRequested rowId (ri_agentId input) (ri_ownerSub input)) (st\<lparr>ap_approvals := t\<rparr>)
                  in (Some rowId, if ri_toolCallId input = None then st1 else expireSupersededRows now input st1))"

datatype Settled = SettledNow | Absent

definition settle_loaded ::
  "time_ms \<Rightarrow> PendingApprovalRow \<Rightarrow> AcpNativeRequest \<Rightarrow> ReportedOutcome \<Rightarrow> bool \<Rightarrow> user_sub option
   \<Rightarrow> ApprovalsState \<Rightarrow> ApprovalsState" where
  "settle_loaded now row p outcome authoritative decidedBy st =
     (let verdict = verdictOfOutcome (np_options p) outcome authoritative
      in case (if pa_status row = Pending
               then resolvePending (ap_approvals st) now (pa_id row) verdict
                      (case decidedBy of None \<Rightarrow> ''in-session'' | Some sub \<Rightarrow> sub) True
               else (False, ap_approvals st)) of
           (casWon, t1) \<Rightarrow>
             (case (if \<not> casWon \<and> authoritative then correctResolvedVerdict t1 now (pa_id row) verdict else (False, t1)) of
                (corrected, t2) \<Rightarrow>
                  let t3 = (if \<not> casWon \<and> authoritative then markDelivered t2 now (pa_id row) else t2);
                      st1 = st\<lparr>ap_approvals := t3\<rparr>
                  in if \<not> casWon \<and> \<not> corrected then st1 else emitResolved row verdict st1))"

definition resolveAcpNativeFromInSession ::
  "time_ms \<Rightarrow> string \<Rightarrow> ReportedOutcome \<Rightarrow> bool \<Rightarrow> user_sub option \<Rightarrow> ApprovalsState \<Rightarrow> Settled \<times> ApprovalsState" where
  "resolveAcpNativeFromInSession now rowId outcome authoritative decidedBy st =
     (case getPending (ap_approvals st) rowId of
        None \<Rightarrow> (Absent, st)
      | Some row \<Rightarrow>
          (case pa_payload row of
             AcpNativePayload p \<Rightarrow> (SettledNow, settle_loaded now row p outcome authoritative decidedBy st)
           | _ \<Rightarrow> (SettledNow, st)))"

definition expireAcpNative :: "time_ms \<Rightarrow> string \<Rightarrow> ApprovalsState \<Rightarrow> Settled \<times> ApprovalsState" where
  "expireAcpNative now rowId st =
     (case getPending (ap_approvals st) rowId of
        None \<Rightarrow> (Absent, st)
      | Some row \<Rightarrow>
          (case pa_payload row of
             AcpNativePayload p \<Rightarrow>
               (if pa_status row = Resolved
                then (SettledNow, st\<lparr>ap_approvals := markDelivered (ap_approvals st) now (pa_id row)\<rparr>)
                else case expire_and_emit now ResolvedExpired row st of
                       (True, st1) \<Rightarrow> (SettledNow, st1)
                     | (False, st1) \<Rightarrow> (SettledNow, st1\<lparr>ap_approvals := markDelivered (ap_approvals st1) now (pa_id row)\<rparr>))
           | _ \<Rightarrow> (SettledNow, st)))"

record SettleAbsentInput =
  ai_agentId :: agent_id
  ai_sessionId :: string
  ai_rpcId :: RpcId
  ai_ownerSub :: user_sub
  ai_outcome :: "ReportedOutcome option"

definition absent_row_id :: "SettleAbsentInput \<Rightarrow> string" where
  "absent_row_id input = acpNativeRowId (ai_agentId input) (ai_sessionId input) (ai_rpcId input)"

definition absent_row :: "time_ms \<Rightarrow> SettleAbsentInput \<Rightarrow> NewPendingApproval" where
  "absent_row now input =
     \<lparr>na_id = absent_row_id input, na_type = AcpNative, na_agentId = ai_agentId input, na_ownerSub = ai_ownerSub input,
      na_sessionId = Some (ai_sessionId input),
      na_payload = AcpNativePayload \<lparr>np_toolName = ''tool call'', np_toolCallId = None, np_args = [],
        np_rpcId = Some (ai_rpcId input), np_options = [], np_optionsWhole = False\<rparr>,
      na_expiresAt = now + ACP_NATIVE_TTL_MS\<rparr>"

definition settleAbsentAcpNative :: "time_ms \<Rightarrow> SettleAbsentInput \<Rightarrow> ApprovalsState \<Rightarrow> ApprovalsState" where
  "settleAbsentAcpNative now input st =
     (let rowId = absent_row_id input;
          verdict = map_option (\<lambda>outcome. verdictOfOutcome [] outcome True) (ai_outcome input)
      in case insertSettled (ap_approvals st) now (absent_row now input) verdict of
           (True, t) \<Rightarrow>
             emit (ApprovalResolved rowId (ai_agentId input) (ai_ownerSub input)
                     (case verdict of None \<Rightarrow> ResolvedExpired | Some v \<Rightarrow> ResolvedWith v)) (st\<lparr>ap_approvals := t\<rparr>)
         | (False, t) \<Rightarrow>
             (case ai_outcome input of
                None \<Rightarrow> snd (expireAcpNative now rowId (st\<lparr>ap_approvals := t\<rparr>))
              | Some outcome \<Rightarrow> snd (resolveAcpNativeFromInSession now rowId outcome True None (st\<lparr>ap_approvals := t\<rparr>))))"


section \<open>Reports of the agent runtime\<close>

definition waiting :: "time_ms \<Rightarrow> RecordAcpNativePendingInput \<Rightarrow> ApprovalsState \<Rightarrow> ApprovalsState" where
  "waiting now input st = snd (recordAcpNativePending now input st)"

text \<open>
  The report of an end, in its two awaits: the settling of a row that is there, and what follows
  when it was absent. The second may run on a state that others have changed in between.
\<close>

definition ended_settle :: "time_ms \<Rightarrow> SettleAbsentInput \<Rightarrow> ApprovalsState \<Rightarrow> Settled \<times> ApprovalsState" where
  "ended_settle now input st =
     (case ai_outcome input of
        Some outcome \<Rightarrow> resolveAcpNativeFromInSession now (absent_row_id input) outcome True None st
      | None \<Rightarrow> expireAcpNative now (absent_row_id input) st)"

definition ended :: "time_ms \<Rightarrow> SettleAbsentInput \<Rightarrow> ApprovalsState \<Rightarrow> ApprovalsState" where
  "ended now input st =
     (case ended_settle now input st of
        (Absent, st1) \<Rightarrow> settleAbsentAcpNative now input st1
      | (SettledNow, st1) \<Rightarrow> st1)"

section \<open>The rule matcher\<close>

record MatchedEgressRule =
  mr_host :: string
  mr_port :: "nat option"
  mr_method :: string
  mr_pathPattern :: string

text \<open>\<^verbatim>\<open>createEgressRuleMatchAdapter\<close>: the row that \<^const>\<open>findMatch\<close> finds, as a verdict and the rule it comes from.\<close>

definition match_egress ::
  "EgressRuleRow table \<Rightarrow> agent_id \<Rightarrow> string \<Rightarrow> nat \<Rightarrow> bool \<Rightarrow> string \<Rightarrow> string
   \<Rightarrow> QueryError + (RuleVerdict \<times> MatchedEgressRule) option" where
  "match_egress t agentId host port tls method path =
     map_sum id (map_option (\<lambda>r. (er_verdict r,
         \<lparr>mr_host = er_host r, mr_port = (case er_port r of Some 0 \<Rightarrow> None | p \<Rightarrow> p),
          mr_method = er_method r, mr_pathPattern = er_pathPattern r\<rparr>)))
       (findMatch t agentId host port tls method path)"


section \<open>Rules an agent proposes\<close>

definition EGRESS_PROPOSAL_TTL_MS :: int where "EGRESS_PROPOSAL_TTL_MS = 7 * 24 * 60 * 60 * 1000"
definition EGRESS_PROPOSALS_PENDING_MAX :: nat where "EGRESS_PROPOSALS_PENDING_MAX = 20"

datatype ProposalStatus = ProposalPending | ProposalAllowed | ProposalDeclined | ProposalExpired

datatype EgressProposalState = ProposalState string ProposalStatus | AlreadyAllowed

datatype ProposalError = TooManyProposals | NoSuchProposal | NotFiled | MatchFailed QueryError

record ProposalDeps =
  pd_agentId :: agent_id
  pd_ownerSub :: user_sub
  pd_digest :: "string \<times> nat option \<times> string \<times> string \<Rightarrow> string"
    \<comment> \<open>the first 32 hex digits of SHA-256 over the JSON text of host, port, method and path\<close>

definition proposalId :: "ProposalDeps \<Rightarrow> EgressProposalRequest \<Rightarrow> string" where
  "proposalId deps input =
     ''egressproposal:'' @ pd_agentId deps @ '':''
     @ pd_digest deps (to_lower (ep_host input), ep_port input, ep_method input, ep_path input)"

definition stateOf :: "PendingApprovalRow \<Rightarrow> EgressProposalState" where
  "stateOf row =
     (case pa_status row of
        Pending \<Rightarrow> ProposalState (pa_id row) ProposalPending
      | Expired \<Rightarrow> ProposalState (pa_id row) ProposalExpired
      | Resolved \<Rightarrow> ProposalState (pa_id row)
                     (if pa_verdict row = Some AllowAlways then ProposalAllowed else ProposalDeclined))"

definition isConcrete :: "EgressProposalRequest \<Rightarrow> bool" where
  "isConcrete input \<longleftrightarrow>
     ep_method input \<noteq> ''*'' \<and> CHR ''*'' \<notin> set (ep_host input) \<and> CHR ''*'' \<notin> set (ep_path input)"

definition alreadyAllowed :: "ProposalDeps \<Rightarrow> EgressProposalRequest \<Rightarrow> EgressRuleRow table \<Rightarrow> QueryError + bool" where
  "alreadyAllowed deps input rules =
     (if \<not> isConcrete input then Inr False
      else map_sum id (\<lambda>matched. map_option fst matched = Some Allow)
             (match_egress rules (pd_agentId deps) (ep_host input) (case ep_port input of None \<Rightarrow> 443 | Some p \<Rightarrow> p)
                True (ep_method input) (ep_path input)))"

definition proposal_row :: "ProposalDeps \<Rightarrow> time_ms \<Rightarrow> EgressProposalRequest \<Rightarrow> NewPendingApproval" where
  "proposal_row deps now input =
     \<lparr>na_id = proposalId deps input, na_type = EgressProposal, na_agentId = pd_agentId deps, na_ownerSub = pd_ownerSub deps,
      na_sessionId = None, na_payload = EgressProposalPayload input, na_expiresAt = now + EGRESS_PROPOSAL_TTL_MS\<rparr>"

definition open_proposals :: "approvals \<Rightarrow> agent_id \<Rightarrow> PendingApprovalRow list" where
  "open_proposals t agentId =
     filter (\<lambda>r. pa_type r = EgressProposal) (listPendingForInstance t agentId (Some 500) (Some Pending))"

definition file_proposal ::
  "ProposalDeps \<Rightarrow> time_ms \<Rightarrow> EgressProposalRequest \<Rightarrow> ApprovalsState \<Rightarrow> (ProposalError + EgressProposalState) \<times> ApprovalsState" where
  "file_proposal deps now input st =
     (let i = proposalId deps input
      in case insertPending (ap_approvals st) now (proposal_row deps now input) of
           (False, t) \<Rightarrow>
             ((case getPending t i of None \<Rightarrow> Inl NotFiled | Some row \<Rightarrow> Inr (stateOf row)), st\<lparr>ap_approvals := t\<rparr>)
         | (True, t) \<Rightarrow>
             (Inr (ProposalState i ProposalPending),
              emit (ApprovalRequested i (pd_agentId deps) (pd_ownerSub deps)) (st\<lparr>ap_approvals := t\<rparr>)))"

definition propose ::
  "ProposalDeps \<Rightarrow> time_ms \<Rightarrow> EgressProposalRequest \<Rightarrow> ApprovalsState \<Rightarrow> (ProposalError + EgressProposalState) \<times> ApprovalsState" where
  "propose deps now input st =
     (case alreadyAllowed deps input (as_rules (ap_egress st)) of
        Inl e \<Rightarrow> (Inl (MatchFailed e), st)
      | Inr True \<Rightarrow> (Inr AlreadyAllowed, st)
      | Inr False \<Rightarrow>
          let existing = getPending (ap_approvals st) (proposalId deps input)
          in if map_option pa_status existing = Some Pending then (Inr (stateOf (the existing)), st)
             else if EGRESS_PROPOSALS_PENDING_MAX \<le> length (open_proposals (ap_approvals st) (pd_agentId deps))
             then (Inl TooManyProposals, st)
             else file_proposal deps now input st)"

definition proposal_status :: "ProposalDeps \<Rightarrow> string \<Rightarrow> ApprovalsState \<Rightarrow> ProposalError + EgressProposalState" where
  "proposal_status deps i st =
     (case getPending (ap_approvals st) i of
        None \<Rightarrow> Inl NoSuchProposal
      | Some row \<Rightarrow>
          if pa_agentId row \<noteq> pd_agentId deps \<or> pa_type row \<noteq> EgressProposal then Inl NoSuchProposal
          else Inr (stateOf row))"


section \<open>Questions of a spend limit\<close>

text \<open>
  The id names the limit, the day, the amount and the number of extensions; the day is written as
  its date, which is told apart by its number here.
\<close>

definition spendLimitApprovalId :: "(utc_day \<Rightarrow> string) \<Rightarrow> SpendLimitQuestion \<Rightarrow> string" where
  "spendLimitApprovalId date question =
     ''spendlimit:'' @ sq_limitId question @ '':'' @ date (sq_day question) @ '':''
     @ show_int (sq_amountMicros question) @ '':'' @ show_int (sq_extensions question)"

definition question_row :: "(utc_day \<Rightarrow> string) \<Rightarrow> agent_id \<Rightarrow> user_sub \<Rightarrow> SpendLimitQuestion \<Rightarrow> NewPendingApproval" where
  "question_row date agentId ownerSub question =
     \<lparr>na_id = spendLimitApprovalId date question, na_type = SpendLimitType, na_agentId = agentId, na_ownerSub = ownerSub,
      na_sessionId = None, na_payload = SpendLimitPayload question, na_expiresAt = (sq_day question + 1) * 86400000\<rparr>"

definition ask_one ::
  "(utc_day \<Rightarrow> string) \<Rightarrow> time_ms \<Rightarrow> agent_id \<Rightarrow> user_sub \<Rightarrow> SpendLimitQuestion \<Rightarrow> ApprovalsState \<Rightarrow> ApprovalsState" where
  "ask_one date now agentId ownerSub question st =
     (case insertIfAbsent (ap_approvals st) now (question_row date agentId ownerSub question) of
        (asked, t) \<Rightarrow>
          let st1 = st\<lparr>ap_approvals := t\<rparr>
          in if asked then emit (ApprovalRequested (spendLimitApprovalId date question) agentId ownerSub) st1 else st1)"

definition ask ::
  "(utc_day \<Rightarrow> string) \<Rightarrow> time_ms \<Rightarrow> agent_id \<Rightarrow> user_sub \<Rightarrow> SpendLimitQuestion list \<Rightarrow> ApprovalsState \<Rightarrow> ApprovalsState" where
  "ask date now agentId ownerSub questions st = fold (ask_one date now agentId ownerSub) questions st"

section \<open>Lemmas\<close>

lemma expire_and_emit_table:
  "ap_approvals (snd (expire_and_emit now res row st)) = snd (expirePending (ap_approvals st) now (pa_id row))"
  "fst (expire_and_emit now res row st) = fst (expirePending (ap_approvals st) now (pa_id row))"
  by (simp_all add: expire_and_emit_def Let_def split: prod.split)

text \<open>The table after the settling of a loaded row.\<close>

definition settled_table ::
  "time_ms \<Rightarrow> PendingApprovalRow \<Rightarrow> ApprovalVerdict \<Rightarrow> bool \<Rightarrow> user_sub \<Rightarrow> approvals \<Rightarrow> approvals" where
  "settled_table now row verdict authoritative by t =
     (let resolved = (if pa_status row = Pending then resolvePending t now (pa_id row) verdict by True else (False, t))
      in if fst resolved \<or> \<not> authoritative then snd resolved
         else markDelivered (snd (correctResolvedVerdict (snd resolved) now (pa_id row) verdict)) now (pa_id row))"

lemma settle_loaded_table:
  "ap_approvals (settle_loaded now row p outcome authoritative decidedBy st) =
     settled_table now row (verdictOfOutcome (np_options p) outcome authoritative) authoritative
       (case decidedBy of None \<Rightarrow> ''in-session'' | Some sub \<Rightarrow> sub) (ap_approvals st)"
  by (simp add: settle_loaded_def settled_table_def Let_def case_prod_beta)

lemma settled_table_getPending:
  assumes inv: "approvals_inv t" and found: "getPending t i = Some row"
  shows "\<exists>r. getPending (settled_table now row v True by t) i = Some r
     \<and> (pa_status row = Expired \<and> r = row
        \<or> pa_status row \<noteq> Expired \<and> pa_status r = Resolved \<and> pa_verdict r = Some v \<and> pa_deliveredAt r \<noteq> None)"
proof -
  have i: "pa_id row = i" using getPending_SomeD [OF found] by simp
  have ok: "row_ok row" using inv getPending_SomeD [OF found] by (simp add: approvals_inv_def list_all_iff)
  show ?thesis
  proof (cases "pa_status row = Pending")
    case True
    with found show ?thesis
      by (simp add: settled_table_def i cas_ops_won [OF inv] cas_ops_getPending(1) [OF inv])
  next
    case False
    have inv1: "approvals_inv (snd (correctResolvedVerdict t now i v))" by (rule approvals_inv_ops [OF inv])
    from False found ok show ?thesis
      by (auto simp: settled_table_def i cas_ops_getPending(3) [OF inv1] cas_ops_getPending(2) [OF inv] row_ok_def
          split: ApprovalStatus.splits)
  qed
qed

lemma expireAcpNative_getPending:
  assumes inv: "approvals_inv (ap_approvals st)" and found: "getPending (ap_approvals st) i = Some row"
    and native: "pa_payload row = AcpNativePayload p"
  shows "\<exists>r. getPending (ap_approvals (snd (expireAcpNative now i st))) i = Some r \<and> pa_status r \<noteq> Pending"
proof -
  have i: "pa_id row = i" using getPending_SomeD [OF found] by simp
  have inv1: "approvals_inv (ap_approvals (snd (expire_and_emit now ResolvedExpired row st)))"
    by (simp add: expire_and_emit_table approvals_inv_ops [OF inv])
  have "getPending (ap_approvals (snd (expire_and_emit now ResolvedExpired row st))) i
      = Some (if pa_status row = Pending then row\<lparr>pa_status := Expired, pa_resolvedAt := Some now\<rparr> else row)"
    using found by (simp add: expire_and_emit_table i cas_ops_getPending(4) [OF inv])
  with found native inv inv1 show ?thesis
    by (auto simp: expireAcpNative_def i cas_ops_getPending(3) split: prod.split bool.split)
qed

lemma settled_table_inv: "approvals_inv t \<Longrightarrow> approvals_inv (settled_table now row v a by t)"
  by (simp add: settled_table_def Let_def approvals_inv_ops)

lemma expireAcpNative_inv:
  "approvals_inv (ap_approvals st) \<Longrightarrow> approvals_inv (ap_approvals (snd (expireAcpNative now i st)))"
  by (simp add: expireAcpNative_def case_prod_beta expire_and_emit_table approvals_inv_ops
      split: option.split ApprovalPayload.split bool.split)

text \<open>A request that is recorded later joins the row that is there.\<close>

lemma fold_expire_getPending:
  assumes "approvals_inv (ap_approvals st)"
  shows "approvals_inv (ap_approvals (fold (\<lambda>row st. snd (expire_and_emit now res row st)) rows st))
     \<and> getPending (ap_approvals (fold (\<lambda>row st. snd (expire_and_emit now res row st)) rows st)) j =
        map_option (\<lambda>r. if j \<in> pa_id ` set rows \<and> pa_status r = Pending
                        then r\<lparr>pa_status := Expired, pa_resolvedAt := Some now\<rparr> else r) (getPending (ap_approvals st) j)"
  using assms
proof (induction rows arbitrary: st)
  case Nil
  then show ?case by (cases "getPending (ap_approvals st) j") simp_all
next
  case (Cons row rows)
  have "approvals_inv (ap_approvals (snd (expire_and_emit now res row st)))"
    by (simp add: expire_and_emit_table approvals_inv_ops [OF Cons.prems])
  from Cons.IH [OF this] show ?case
    by (cases "getPending (ap_approvals st) j")
       (auto simp: expire_and_emit_table cas_ops_getPending(4) [OF Cons.prems])
qed

lemma waiting_joins:
  assumes "approvals_inv (ap_approvals st)" and "getPending (ap_approvals st) (input_row_id input) = Some r"
  shows "getPending (ap_approvals (waiting now input st)) (input_row_id input) = Some r"
  using assms by (auto simp: waiting_def recordAcpNativePending_def Let_def insertIfAbsent_def ex_id_iff)

lemma ended_absent:
  assumes "getPending (ap_approvals st) (absent_row_id input) = None"
  shows "ap_approvals (ended now input st) = snd (insertSettled (ap_approvals st) now (absent_row now input)
      (map_option (\<lambda>outcome. verdictOfOutcome [] outcome True) (ai_outcome input)))"
proof -
  have "fst (insertSettled (ap_approvals st) now (absent_row now input) v)" for v
    using assms by (simp add: insertIfAbsent_getPending absent_row_def)
  moreover have "ended now input st = settleAbsentAcpNative now input st"
    using assms by (simp add: ended_def ended_settle_def resolveAcpNativeFromInSession_def expireAcpNative_def split: option.split)
  ultimately show ?thesis by (simp add: settleAbsentAcpNative_def Let_def case_prod_beta)
qed

lemma ended_found:
  assumes "getPending (ap_approvals st) (absent_row_id input) = Some row" and "pa_payload row = AcpNativePayload p"
  shows "ended now input st =
     (case ai_outcome input of
        Some outcome \<Rightarrow> settle_loaded now row p outcome True None st
      | None \<Rightarrow> snd (expireAcpNative now (absent_row_id input) st))"
  using assms
  by (auto simp: ended_def ended_settle_def resolveAcpNativeFromInSession_def expireAcpNative_def
      split: option.split prod.split bool.split)


text \<open>The catalog of a row: what the cut to the route's bound keeps.\<close>

lemma optionsWithGivenIds_nonempty: "o' \<in> set (optionsWithGivenIds raw) \<Longrightarrow> po_optionId o' \<noteq> []"
proof -
  have "po_optionId o' \<noteq> []" if "o' \<in> set (option_with_given_id x)" for x
    using that by (cases x rule: option_with_given_id.cases) (auto split: if_splits)
  then show "o' \<in> set (optionsWithGivenIds raw) \<Longrightarrow> po_optionId o' \<noteq> []" by (auto simp: optionsWithGivenIds_def)
qed

lemma first_of_each_kind_facts:
  "distinct (first_of_each_kind ix)" "length (first_of_each_kind ix) \<le> 4"
  "set (first_of_each_kind ix) \<subseteq> set ix"
  "(i, o') \<in> set ix \<Longrightarrow> po_kind o' = Some kind \<Longrightarrow> \<exists>p \<in> set (first_of_each_kind ix). po_kind (snd p) = Some kind"
proof -
  let ?f = "\<lambda>kind. find (\<lambda>(_, o'). po_kind o' = Some kind) ix"
  have found: "p \<in> set ix \<and> po_kind (snd p) = Some kind" if "?f kind = Some p" for kind p
    using find_SomeD [OF that] by (simp add: case_prod_beta)
  have "inj_on (the \<circ> ?f) {k \<in> set OPTION_KINDS. ?f k \<noteq> None}"
  proof (rule inj_onI)
    fix k k' assume "k \<in> {k \<in> set OPTION_KINDS. ?f k \<noteq> None}" "k' \<in> {k \<in> set OPTION_KINDS. ?f k \<noteq> None}"
      and same: "(the \<circ> ?f) k = (the \<circ> ?f) k'"
    then obtain p p' where "?f k = Some p" "?f k' = Some p'" by blast
    with found [of k p] found [of k' p'] same show "k = k'" by simp
  qed
  moreover have "distinct (filter (\<lambda>k. ?f k \<noteq> None) OPTION_KINDS)" by (rule distinct_filter) (simp add: OPTION_KINDS_def)
  ultimately show "distinct (first_of_each_kind ix)"
    unfolding first_of_each_kind_def List.map_filter_def distinct_map set_filter by (rule conjI [rotated])
  show "length (first_of_each_kind ix) \<le> 4"
    using length_filter_le [of "\<lambda>k. ?f k \<noteq> None" OPTION_KINDS]
    by (simp add: first_of_each_kind_def List.map_filter_def OPTION_KINDS_def)
  show "set (first_of_each_kind ix) \<subseteq> set ix"
  proof
    fix q assume "q \<in> set (first_of_each_kind ix)"
    then obtain kind where "?f kind = Some q" by (auto simp: first_of_each_kind_def List.map_filter_def)
    from found [OF this] show "q \<in> set ix" by blast
  qed
  assume "(i, o') \<in> set ix" "po_kind o' = Some kind"
  then have "?f kind \<noteq> None" by (auto simp: find_None_iff)
  then obtain p where p: "?f kind = Some p" by blast
  have "kind \<in> set OPTION_KINDS" by (cases kind) (simp_all add: OPTION_KINDS_def)
  with p have "kind \<in> {k \<in> set OPTION_KINDS. ?f k \<noteq> None}" "p = (the \<circ> ?f) kind" by simp_all
  then have "p \<in> set (first_of_each_kind ix)"
    unfolding first_of_each_kind_def List.map_filter_def set_map set_filter by (rule rev_image_eqI)
  with found [OF p] show "\<exists>p \<in> set (first_of_each_kind ix). po_kind (snd p) = Some kind" by blast
qed

lemma sort_positions:
  assumes "distinct S" and "set S \<subseteq> set (zip [0..<length xs] xs)"
  shows "sort_key fst S = filter (\<lambda>p. p \<in> set S) (zip [0..<length xs] xs)"
proof -
  let ?ix = "zip [0..<length xs] xs"
  have ix: "map fst ?ix = [0..<length xs]" by simp
  then have inj: "inj_on fst (set ?ix)" by (metis distinct_map distinct_upt)
  have "distinct (map fst (sort_key fst S))"
    using assms inj by (auto simp: distinct_map intro: inj_on_subset)
  moreover have "sorted (map fst (filter (\<lambda>p. p \<in> set S) ?ix))" "distinct (map fst (filter (\<lambda>p. p \<in> set S) ?ix))"
    using ix by (simp_all add: sorted_filter distinct_map_filter del: map_fst_zip)
  ultimately show ?thesis
    using assms(2) inj by (intro map_sorted_distinct_set_unique [of fst]) (auto intro: inj_on_subset)
qed

lemma subseq_map_filter: "subseq (map f (filter P xs)) (map f xs)"
  by (intro subseq_map subseq_filter_left)


section \<open>Properties\<close>

text \<open>
  C31. The runtime is the arbiter of the answer the harness got: when it reports the outcome of a
  request, the row of the request is resolved with the verdict of that outcome and delivered,
  whatever verdict another path had recorded. Only a row that had expired stays as it is.
\<close>

theorem runtime_is_arbiter:
  assumes "approvals_inv (ap_approvals st)" and "getPending (ap_approvals st) (absent_row_id input) = Some row"
    and "pa_payload row = AcpNativePayload p" and "ai_outcome input = Some outcome"
  shows "\<exists>r. getPending (ap_approvals (ended now input st)) (absent_row_id input) = Some r
     \<and> (if pa_status row = Expired then r = row
        else pa_status r = Resolved \<and> pa_verdict r = Some (verdictOfOutcome (np_options p) outcome True)
             \<and> pa_deliveredAt r \<noteq> None)"
  using settled_table_getPending [OF assms(1,2), of now "verdictOfOutcome (np_options p) outcome True" "''in-session''"]
  by (auto simp: ended_found [OF assms(2,3)] assms(4) settle_loaded_table)

definition sample_outcome :: ReportedOutcome where
  "sample_outcome = \<lparr>ro_cancelled = False, ro_optionId = Some ''n'', ro_kind = Some KindRejectOnce\<rparr>"

definition sample_end :: SettleAbsentInput where
  "sample_end = \<lparr>ai_agentId = ''a'', ai_sessionId = ''s'', ai_rpcId = RpcNumber 4, ai_ownerSub = ''u'', ai_outcome = Some sample_outcome\<rparr>"

definition sample_request :: RecordAcpNativePendingInput where
  "sample_request = \<lparr>ri_agentId = ''a'', ri_sessionId = ''s'', ri_rpcId = RpcNumber 4, ri_ownerSub = ''u'', ri_toolName = ''rm'',
     ri_toolCallId = Some ''c'', ri_args = [], ri_idsWhole = True, ri_options = []\<rparr>"

theorem runtime_is_arbiter_witness:
  "let row = sample_acp_row\<lparr>pa_id := absent_row_id sample_end\<rparr>; st = sample_approvals_state [row]
   in pa_verdict row = Some AllowOnce
      \<and> map_option pa_verdict (getPending (ap_approvals (ended 9 sample_end st)) (pa_id row)) = Some (Some DenyOnce)"
proof -
  let ?row = "sample_acp_row\<lparr>pa_id := absent_row_id sample_end\<rparr>"
  let ?st = "sample_approvals_state [?row]"
  have inv: "approvals_inv (ap_approvals ?st)"
    by (simp add: approvals_inv_def sample_approvals_state_def sample_acp_row_def row_ok_def)
  have row: "getPending (ap_approvals ?st) (absent_row_id sample_end) = Some ?row"
    by (simp add: sample_approvals_state_def getPending_def has_id_def)
  obtain p where p: "pa_payload ?row = AcpNativePayload p" by (simp add: sample_acp_row_def)
  have "verdictOfOutcome (np_options p) sample_outcome True = DenyOnce"
    by (simp add: verdictOfOutcome_def sample_outcome_def)
  with runtime_is_arbiter [OF inv row p, of sample_outcome 9] show ?thesis
    by (auto simp: Let_def sample_acp_row_def sample_end_def)
qed

text \<open>
  A request whose end was reported never becomes actionable again: its row is there, is not
  pending, and a record of the request that arrives only then, as the queued insert of the
  relay may, leaves the row as it is.
\<close>

theorem ended_is_final:
  assumes inv: "approvals_inv (ap_approvals st)"
    and native: "\<And>row. getPending (ap_approvals st) (absent_row_id input) = Some row \<Longrightarrow> \<exists>p. pa_payload row = AcpNativePayload p"
    and same: "input_row_id request = absent_row_id input"
  shows "\<exists>r. getPending (ap_approvals (ended now input st)) (absent_row_id input) = Some r \<and> pa_status r \<noteq> Pending
     \<and> getPending (ap_approvals (waiting later request (ended now input st))) (absent_row_id input) = Some r"
proof -
  have "\<exists>r. getPending (ap_approvals (ended now input st)) (absent_row_id input) = Some r \<and> pa_status r \<noteq> Pending
      \<and> approvals_inv (ap_approvals (ended now input st))"
  proof (cases "getPending (ap_approvals st) (absent_row_id input)")
    case None
    then show ?thesis
      by (simp add: ended_absent insertIfAbsent_getPending approvals_inv_ops inv absent_row_def settled_row_def)
  next
    case (Some row)
    from native [OF this] obtain p where p: "pa_payload row = AcpNativePayload p" by blast
    show ?thesis
    proof (cases "ai_outcome input")
      case None
      then show ?thesis using expireAcpNative_getPending [OF inv Some p, of now]
        by (auto simp: ended_found [OF Some p] expireAcpNative_inv inv)
    next
      case (Some outcome)
      then show ?thesis
        using settled_table_getPending [OF inv \<open>getPending _ _ = Some row\<close>, of now "verdictOfOutcome (np_options p) outcome True" "''in-session''"]
        by (auto simp: ended_found [OF \<open>getPending _ _ = Some row\<close> p] settle_loaded_table settled_table_inv inv)
    qed
  qed
  then show ?thesis using waiting_joins [of "ended now input st" request _ later] same by auto
qed

theorem ended_is_final_witness:
  "let st = sample_approvals_state [] in
   map_option pa_status (getPending (ap_approvals (waiting 12 sample_request (ended 9 sample_end st))) (absent_row_id sample_end)) \<noteq> Some Pending
   \<and> getPending (ap_approvals (ended 9 sample_end st)) (absent_row_id sample_end) \<noteq> None"
proof -
  have "approvals_inv (ap_approvals (sample_approvals_state []))"
    by (simp add: approvals_inv_def sample_approvals_state_def)
  moreover have "getPending (ap_approvals (sample_approvals_state [])) (absent_row_id sample_end) = None"
    by (simp add: sample_approvals_state_def getPending_def)
  moreover have "input_row_id sample_request = absent_row_id sample_end"
    by (simp add: input_row_id_def absent_row_id_def sample_request_def sample_end_def)
  ultimately show ?thesis
    using ended_is_final [of "sample_approvals_state []" sample_end sample_request 9 12] by (auto simp: Let_def)
qed

text \<open>
  A prompt that a re-attached client sends again replaces its earlier rows: once the new row
  is recorded, no other pending row of the session asks for the same tool call, as long as the
  agent has no more pending rows than the list returns.
\<close>

theorem resent_prompt_replaces_rows:
  assumes "approvals_inv (ap_approvals st)"
    and "recordAcpNativePending now input st = (Some i, st')" and "getPending (ap_approvals st) i = None"
    and "ri_toolCallId input = Some callId"
    and "length (filter (\<lambda>r. pa_agentId r = ri_agentId input \<and> pa_status r = Pending) (ap_approvals st)) < 100"
    and "r \<in> set (ap_approvals st')" and "pa_agentId r = ri_agentId input" and "superseded_by input r"
  shows "pa_status r \<noteq> Pending"
proof -
  define t where "t = snd (insertIfAbsent (ap_approvals st) now
    \<lparr>na_id = input_row_id input, na_type = AcpNative, na_agentId = ri_agentId input, na_ownerSub = ri_ownerSub input,
     na_sessionId = Some (ri_sessionId input), na_payload = AcpNativePayload (acp_request_of input),
     na_expiresAt = now + ACP_NATIVE_TTL_MS\<rparr>)"
  define st1 where "st1 = emit (ApprovalRequested i (ri_agentId input) (ri_ownerSub input)) (st\<lparr>ap_approvals := t\<rparr>)"
  let ?rows = "filter (superseded_by input) (listPendingForInstance t (ri_agentId input) None (Some Pending))"
  have absent: "getPending (ap_approvals st) (input_row_id input) = None" and st': "st' = expireSupersededRows now input st1"
    using assms(2-4) unfolding st1_def t_def
    by (auto simp: recordAcpNativePending_def Let_def insertIfAbsent_def ex_id_iff split: if_splits prod.splits bool.splits option.splits)
  have t: "approvals_inv t" "ap_approvals st1 = t" by (simp_all add: t_def st1_def approvals_inv_ops assms(1))
  have "length (filter (\<lambda>r. pa_agentId r = ri_agentId input \<and> status_matches (Some Pending) r) t) \<le> 100"
    using assms(5) absent by (simp add: t_def insertIfAbsent_def ex_id_iff status_matches_def)
  then have rows: "set ?rows = {r \<in> set t. pa_agentId r = ri_agentId input \<and> pa_status r = Pending \<and> superseded_by input r}"
    by (auto simp: listPendingForInstance_def newest_def clampLimit_def DEFAULT_LIST_LIMIT_def status_matches_def)
  note final = fold_expire_getPending [of st1 now ResolvedSuperseded ?rows, unfolded t(2), OF t(1)]
  have "approvals_inv (ap_approvals st')" and found: "getPending (ap_approvals st') (pa_id r) =
      map_option (\<lambda>r'. if pa_id r \<in> pa_id ` set ?rows \<and> pa_status r' = Pending
        then r'\<lparr>pa_status := Expired, pa_resolvedAt := Some now\<rparr> else r') (getPending t (pa_id r))"
    using final by (simp_all add: st' expireSupersededRows_def t(2))
  then have "getPending (ap_approvals st') (pa_id r) = Some r" using assms(6) getPending_in_table by blast
  then obtain r0 where r0: "getPending t (pa_id r) = Some r0"
      "r = (if pa_id r \<in> pa_id ` set ?rows \<and> pa_status r0 = Pending then r0\<lparr>pa_status := Expired, pa_resolvedAt := Some now\<rparr> else r0)"
    using found by auto
  show ?thesis
  proof
    assume pending: "pa_status r = Pending"
    with r0 have "r \<in> set t" "r = r0" by (auto split: if_splits dest: getPending_SomeD)
    with pending assms(7,8) have "r \<in> set ?rows" unfolding rows by blast
    with r0(2) pending \<open>r = r0\<close> have "r = r0\<lparr>pa_status := Expired, pa_resolvedAt := Some now\<rparr>" by (simp split: if_splits)
    then have "pa_status r = pa_status (r0\<lparr>pa_status := Expired, pa_resolvedAt := Some now\<rparr>)" by (rule arg_cong)
    with pending show False by simp
  qed
qed

definition resent_request :: RecordAcpNativePendingInput where
  "resent_request = sample_request\<lparr>ri_rpcId := RpcNumber 7\<rparr>"

theorem resent_prompt_replaces_rows_witness:
  "let st = snd (recordAcpNativePending 1 sample_request (sample_approvals_state []));
       st' = snd (recordAcpNativePending 2 resent_request st)
   in \<exists>r \<in> set (ap_approvals st'). superseded_by resent_request r \<and> pa_status r \<noteq> Pending"
proof -
  define st where "st = snd (recordAcpNativePending 1 sample_request (sample_approvals_state []))"
  define st' where "st' = snd (recordAcpNativePending 2 resent_request st)"
  define i where "i = input_row_id resent_request"
  have st: "ap_approvals st = [pending_row 1 \<lparr>na_id = input_row_id sample_request, na_type = AcpNative, na_agentId = ''a'', na_ownerSub = ''u'',
      na_sessionId = Some ''s'', na_payload = AcpNativePayload (acp_request_of sample_request), na_expiresAt = 1 + ACP_NATIVE_TTL_MS\<rparr>]"
    unfolding st_def by code_simp
  have "fst (recordAcpNativePending 2 resent_request st) = Some i" and absent: "getPending (ap_approvals st) i = None"
    unfolding st_def i_def by code_simp+
  then have rec: "recordAcpNativePending 2 resent_request st = (Some i, st')" by (simp add: st'_def prod_eq_iff)
  have inv: "approvals_inv (ap_approvals st)" by (simp add: st approvals_inv_def)
  have few: "length (filter (\<lambda>r. pa_agentId r = ri_agentId resent_request \<and> pa_status r = Pending) (ap_approvals st)) < 100"
    by (simp add: st)
  have call: "ri_toolCallId resent_request = Some ''c''" by (simp add: resent_request_def sample_request_def)
  have "list_ex (\<lambda>r. pa_agentId r = ri_agentId resent_request \<and> superseded_by resent_request r) (ap_approvals st')"
    unfolding st'_def st_def by code_simp
  then obtain r where "r \<in> set (ap_approvals st')" "pa_agentId r = ri_agentId resent_request" "superseded_by resent_request r"
    by (auto simp: list_ex_iff)
  with resent_prompt_replaces_rows [OF inv rec absent call few] show ?thesis
    by (auto simp: Let_def st'_def st_def)
qed

text \<open>
  What a recorded catalog keeps: at most the number of options the recording route accepts,
  in the order of the request, each under an id the route can hold; and of every kind that
  the request offers in such an option, one is kept, so a catalog never loses its last way
  to deny.
\<close>

theorem recordedOptionsOf_keeps_kinds:
  "length (recordedOptionsOf raw) \<le> PERMISSION_OPTIONS_MAX
   \<and> subseq (recordedOptionsOf raw) (optionsWithGivenIds raw)
   \<and> (\<forall>o' \<in> set (recordedOptionsOf raw). po_optionId o' \<noteq> [] \<and> length (po_optionId o') \<le> TOOL_CALL_ID_MAX)
   \<and> (\<forall>kind. (\<exists>o' \<in> set (permissionOptionsOf raw). po_kind o' = Some kind)
        \<longrightarrow> (\<exists>o' \<in> set (recordedOptionsOf raw). po_kind o' = Some kind))"
proof (cases "length (permissionOptionsOf raw) \<le> PERMISSION_OPTIONS_MAX")
  case True
  then show ?thesis by (auto simp: recordedOptionsOf_def permissionOptionsOf_def optionsWithGivenIds_nonempty)
next
  case False
  define all where "all = permissionOptionsOf raw"
  define ix where "ix = zip [0..<length all] all"
  define S where "S = take PERMISSION_OPTIONS_MAX (first_occurrences (first_of_each_kind ix @ ix))"
  have S: "distinct S" "set S \<subseteq> set ix" "length S \<le> PERMISSION_OPTIONS_MAX"
    using first_of_each_kind_facts(3) [of ix] set_take_subset [of PERMISSION_OPTIONS_MAX "first_occurrences (first_of_each_kind ix @ ix)"]
    by (auto simp: S_def)
  have recorded: "recordedOptionsOf raw = map snd (filter (\<lambda>p. p \<in> set S) ix)"
    using False sort_positions [OF S(1) S(2) [unfolded ix_def]]
    by (simp add: recordedOptionsOf_def Let_def S_def ix_def all_def)
  have first: "set (first_of_each_kind ix) \<subseteq> set S"
    using first_of_each_kind_facts(1,2) [of ix] by (simp add: S_def first_occurrences_append PERMISSION_OPTIONS_MAX_def)
  have "length (recordedOptionsOf raw) \<le> PERMISSION_OPTIONS_MAX"
    using sort_positions [OF S(1) S(2) [unfolded ix_def]] S(3) unfolding recorded ix_def by (metis length_map length_sort)
  moreover have "subseq (recordedOptionsOf raw) all"
    using subseq_map_filter [of snd "\<lambda>p. p \<in> set S" ix] by (simp add: recorded ix_def)
  then have "subseq (recordedOptionsOf raw) (optionsWithGivenIds raw)"
    unfolding all_def permissionOptionsOf_def by (rule subseq_order.order_trans) (rule subseq_filter_left)
  moreover have "\<exists>o' \<in> set (recordedOptionsOf raw). po_kind o' = Some kind" if "o' \<in> set all" "po_kind o' = Some kind" for o' kind
  proof -
    from that(1) obtain i where "(i, o') \<in> set ix" by (auto simp: ix_def set_zip in_set_conv_nth)
    from first_of_each_kind_facts(4) [OF this that(2)] first obtain p where "p \<in> set S" "po_kind (snd p) = Some kind" by blast
    then have "snd p \<in> set (recordedOptionsOf raw)" using S(2) by (auto simp: recorded intro!: imageI)
    with \<open>po_kind (snd p) = Some kind\<close> show ?thesis by blast
  qed
  moreover have "set (recordedOptionsOf raw) \<subseteq> set all" using S(2) by (auto simp: recorded ix_def dest: set_zip_rightD)
  then have "\<forall>o' \<in> set (recordedOptionsOf raw). po_optionId o' \<noteq> [] \<and> length (po_optionId o') \<le> TOOL_CALL_ID_MAX"
    using optionsWithGivenIds_nonempty [of _ raw] by (auto simp: all_def permissionOptionsOf_def)
  ultimately show ?thesis unfolding all_def by blast
qed

theorem recordedOptionsOf_keeps_kinds_witness:
  "let raw = replicate 17 (RawObject (Some ''y'') (Some ''allow_once'')) @ [RawObject (Some ''n'') (Some ''reject_once'')]
   in \<exists>o' \<in> set (recordedOptionsOf raw). po_kind o' = Some KindRejectOnce"
proof -
  let ?raw = "replicate 17 (RawObject (Some ''y'') (Some ''allow_once'')) @ [RawObject (Some ''n'') (Some ''reject_once'')]"
  have "list_ex (\<lambda>o'. po_kind o' = Some KindRejectOnce) (permissionOptionsOf ?raw)" by code_simp
  with recordedOptionsOf_keeps_kinds [of ?raw] show ?thesis by (auto simp: Let_def list_ex_iff)
qed

text \<open>Filing a proposal.\<close>

definition proposals_waiting :: "approvals \<Rightarrow> agent_id \<Rightarrow> nat" where
  "proposals_waiting t agentId =
     length (filter (\<lambda>r. pa_agentId r = agentId \<and> pa_status r = Pending \<and> pa_type r = EgressProposal) t)"

lemma filter_update_where_length:
  "length (filter P (update_where q f t)) \<le> length (filter P t) + length (filter q t)"
  by (induction t) (auto simp: update_where_def)

lemma one_id_length:
  assumes "distinct (map pa_id t)" shows "length (filter (\<lambda>r. has_id i r \<and> Q r) t) \<le> 1"
proof -
  have "length (filter (\<lambda>r. has_id i r \<and> Q r) t) \<le> length (filter (\<lambda>r. pa_id r = i) t)"
    by (induction t) (auto simp: has_id_def)
  also have "\<dots> \<le> 1" using assms by (induction t) (auto simp: filter_empty_conv notin_image_iff)
  finally show ?thesis .
qed

lemma insertPending_waiting:
  assumes "approvals_inv t"
  shows "proposals_waiting (snd (insertPending t now row)) agentId \<le> proposals_waiting t agentId + 1"
proof (cases "\<exists>r \<in> set t. has_id (na_id row) r")
  case True
  have "distinct (map pa_id t)" using assms by (simp add: approvals_inv_def)
  from one_id_length [OF this, of "na_id row" is_over] True show ?thesis
    using filter_update_where_length [of "\<lambda>r. pa_agentId r = agentId \<and> pa_status r = Pending \<and> pa_type r = EgressProposal"
        "\<lambda>r. has_id (na_id row) r \<and> is_over r" "\<lambda>_. pending_row now row" t]
    by (simp add: insertPending_def proposals_waiting_def)
qed (simp add: insertPending_def proposals_waiting_def)

lemma open_proposals_length:
  assumes "length (filter (\<lambda>r. pa_agentId r = agentId \<and> pa_status r = Pending) t) \<le> 500"
  shows "length (open_proposals t agentId) = proposals_waiting t agentId"
proof -
  let ?ys = "filter (\<lambda>r. pa_agentId r = agentId \<and> status_matches (Some Pending) r) t"
  have "newest (Some 500) ?ys = sort_key (\<lambda>r. - pa_createdAt r) ?ys"
    using assms by (simp add: newest_def clampLimit_def MAX_LIST_LIMIT_def status_matches_def)
  then have "open_proposals t agentId = sort_key (\<lambda>r. - pa_createdAt r) (filter (\<lambda>r. pa_type r = EgressProposal) ?ys)"
    by (simp add: open_proposals_def listPendingForInstance_def filter_sort)
  then show ?thesis by (simp add: proposals_waiting_def status_matches_def conj_ac)
qed

lemma insertPending_getPending:
  assumes "approvals_inv t"
  shows "getPending (snd (insertPending t now row)) (na_id row) =
     (case getPending t (na_id row) of
        None \<Rightarrow> Some (pending_row now row)
      | Some r \<Rightarrow> if is_over r then Some (pending_row now row) else Some r)"
    and "fst (insertPending t now row) = (case getPending t (na_id row) of None \<Rightarrow> True | Some r \<Rightarrow> is_over r)"
proof -
  let ?guard = "\<lambda>r. has_id (na_id row) r \<and> is_over r"
  have cas: "insertPending t now row = cas_update ?guard (\<lambda>_. pending_row now row) (na_id row) t"
    if "getPending t (na_id row) \<noteq> None"
    using that by (simp add: insertPending_def ex_id_iff cas_update_def)
  have keeps: "?guard r \<Longrightarrow> pa_id (pending_row now row) = pa_id r" for r by (simp add: has_id_def)
  note found = cas_update_getPending [of t ?guard "\<lambda>_. pending_row now row", OF assms keeps]
  have id: "has_id (na_id row) r" if "getPending t (na_id row) = Some r" for r
    using getPending_SomeD [OF that] by (simp add: has_id_def)
  show "getPending (snd (insertPending t now row)) (na_id row) =
     (case getPending t (na_id row) of
        None \<Rightarrow> Some (pending_row now row)
      | Some r \<Rightarrow> if is_over r then Some (pending_row now row) else Some r)"
  proof (cases "getPending t (na_id row)")
    case None
    then show ?thesis using getPending_append [of t "pending_row now row" "na_id row"] by (simp add: insertPending_def ex_id_iff)
  next
    case (Some r)
    then show ?thesis using id [OF Some] by (simp add: cas found(2))
  qed
  show "fst (insertPending t now row) = (case getPending t (na_id row) of None \<Rightarrow> True | Some r \<Rightarrow> is_over r)"
  proof (cases "getPending t (na_id row)")
    case None
    then show ?thesis by (simp add: insertPending_def ex_id_iff)
  next
    case (Some r)
    then show ?thesis using id [OF Some] by (simp add: cas found(1))
  qed
qed

lemma file_proposal_table:
  assumes "(res, st') = file_proposal deps now input st"
  shows "ap_approvals st' = snd (insertPending (ap_approvals st) now (proposal_row deps now input))"
    and "ap_egress st' = ap_egress st"
    and "\<lbrakk>approvals_inv (ap_approvals st);
          \<And>row. getPending (ap_approvals st) (proposalId deps input) = Some row \<Longrightarrow>
             pa_agentId row = pd_agentId deps \<and> pa_type row = EgressProposal;
          res = Inr (ProposalState i ProposalPending)\<rbrakk> \<Longrightarrow> proposal_status deps i st' = res"
proof -
  let ?ins = "insertPending (ap_approvals st) now (proposal_row deps now input)"
  have id: "na_id (proposal_row deps now input) = proposalId deps input" by (simp add: proposal_row_def)
  show table: "ap_approvals st' = snd ?ins" and "ap_egress st' = ap_egress st"
    using assms by (auto simp: file_proposal_def Let_def case_prod_beta split: bool.splits)
  assume own: "\<And>row. getPending (ap_approvals st) (proposalId deps input) = Some row \<Longrightarrow>
       pa_agentId row = pd_agentId deps \<and> pa_type row = EgressProposal"
    and pending: "res = Inr (ProposalState i ProposalPending)"
  assume inv: "approvals_inv (ap_approvals st)"
  note ins = insertPending_getPending [OF inv, of now "proposal_row deps now input", unfolded id]
  obtain row where row: "getPending (snd ?ins) (proposalId deps input) = Some row"
      "pa_agentId row = pd_agentId deps" "pa_type row = EgressProposal" "fst ?ins \<longrightarrow> pa_status row = Pending"
    using ins own by (auto simp: proposal_row_def split: option.splits)
  with getPending_SomeD [OF row(1)] assms pending table show "proposal_status deps i st' = res"
    by (auto simp: file_proposal_def Let_def case_prod_beta proposal_status_def stateOf_def
        split: bool.splits ApprovalStatus.splits if_splits)
qed


definition sample_proposal :: EgressProposalRequest where
  "sample_proposal = \<lparr>ep_host = ''x.io'', ep_port = None, ep_method = ''GET'', ep_path = ''/a'', ep_reason = ''r''\<rparr>"

definition sample_proposal_deps :: ProposalDeps where
  "sample_proposal_deps = \<lparr>pd_agentId = ''a'', pd_ownerSub = ''u'', pd_digest = (\<lambda>(host, _, _, path). host @ path)\<rparr>"


end
