(* ===== verification/Spend_Check.thy ===== *)
theory Spend_Check
  imports Spend_Calls Approvals_Relay
begin

text \<open>
  The spend gate: the limits and ceilings an owner and the operator set
  (\<^verbatim>\<open>spend/infrastructure/spend-limits.ts\<close>, \<^verbatim>\<open>spend-ceilings.ts\<close>), the check of a call against
  them (\<^verbatim>\<open>services/spend-check.ts\<close>), the setting of limits (\<^verbatim>\<open>services/spend-service.ts\<close>),
  the store of the questions a reached limit asks (\<^verbatim>\<open>approvals/compose.ts\<close>), and the two sagas
  that join them: a continued question raises its limit for the day, and a removed Connection
  takes its limits with it.
\<close>

section \<open>Limits and ceilings\<close>

datatype ScopeKind = AgentKind | OwnerKind | ConnectionKind | OwnerConnectionKind

record LimitRow =
  lo_id :: string
  lo_ownerSub :: user_sub
  lo_scope :: ScopeKind
  lo_agentId :: "agent_id option"
  lo_connectionId :: "string option"
  lo_unit :: SpendUnit
  lo_amountMicros :: int

record LimitExtension =
  le_limitId :: string
  le_day :: utc_day
  le_extensions :: int

record CeilingRow =
  cw_ownerSub :: user_sub
  cw_amountMicros :: int
  cw_setBySub :: user_sub
  cw_updatedAt :: time_ms

record LimitsState =
  li_limits :: "LimitRow table"
  li_extensions :: "LimitExtension table"
  li_ceilings :: "CeilingRow table"

fun scope_kind :: "LimitScope \<Rightarrow> ScopeKind" where
  "scope_kind (AgentScope _) = AgentKind"
| "scope_kind OwnerScope = OwnerKind"
| "scope_kind (ConnectionScope _ _) = ConnectionKind"
| "scope_kind (OwnerConnectionScope _) = OwnerConnectionKind"

fun scopeColumns :: "LimitScope \<Rightarrow> agent_id option \<times> string option" where
  "scopeColumns (AgentScope agentId) = (Some agentId, None)"
| "scopeColumns OwnerScope = (None, None)"
| "scopeColumns (ConnectionScope agentId connectionId) = (Some agentId, Some connectionId)"
| "scopeColumns (OwnerConnectionScope connectionId) = (None, Some connectionId)"

text \<open>An empty text is no id: a row that needs one and has none is skipped.\<close>

definition scopeOf :: "LimitRow \<Rightarrow> LimitScope option" where
  "scopeOf row =
     (case (lo_scope row, nonempty (lo_agentId row), nonempty (lo_connectionId row)) of
        (OwnerKind, _, _) \<Rightarrow> Some OwnerScope
      | (AgentKind, Some agentId, _) \<Rightarrow> Some (AgentScope agentId)
      | (ConnectionKind, Some agentId, Some connectionId) \<Rightarrow> Some (ConnectionScope agentId connectionId)
      | (OwnerConnectionKind, _, Some connectionId) \<Rightarrow> Some (OwnerConnectionScope connectionId)
      | _ \<Rightarrow> None)"

text \<open>The left join: the primary key of the extensions lets at most one row match.\<close>

definition extensions_of :: "LimitExtension table \<Rightarrow> string \<Rightarrow> utc_day \<Rightarrow> int" where
  "extensions_of t limitId day =
     (case find (\<lambda>e. le_limitId e = limitId \<and> le_day e = day) t of None \<Rightarrow> 0 | Some e \<Rightarrow> le_extensions e)"

definition limit_of_row :: "LimitExtension table \<Rightarrow> utc_day \<Rightarrow> LimitRow \<Rightarrow> SpendLimit option" where
  "limit_of_row extensions day row =
     map_option (\<lambda>scope. \<lparr>sl_id = lo_id row, sl_ownerSub = lo_ownerSub row, sl_scope = scope, sl_unit = lo_unit row,
        sl_amountMicros = lo_amountMicros row, sl_extensions = extensions_of extensions (lo_id row) day\<rparr>) (scopeOf row)"

definition limits_applying :: "LimitsState \<Rightarrow> agent_id option \<Rightarrow> user_sub \<Rightarrow> utc_day \<Rightarrow> SpendLimit list" where
  "limits_applying ls agentId ownerSub day =
     List.map_filter (limit_of_row (li_extensions ls) day)
       (filter (\<lambda>row. lo_ownerSub row = ownerSub
          \<and> (lo_agentId row = None \<or> agentId \<noteq> None \<and> lo_agentId row = agentId)) (li_limits ls))"

definition same_scope :: "user_sub \<Rightarrow> LimitScope \<Rightarrow> LimitRow \<Rightarrow> bool" where
  "same_scope ownerSub scope row \<longleftrightarrow>
     lo_ownerSub row = ownerSub \<and> lo_scope row = scope_kind scope
     \<and> lo_agentId row = fst (scopeColumns scope) \<and> lo_connectionId row = snd (scopeColumns scope)"

text \<open>The upsert by owner and scope, where two absent ids are equal; \<open>newId\<close> is the random id of a new row.\<close>

definition limits_set :: "string \<Rightarrow> user_sub \<Rightarrow> LimitScope \<Rightarrow> SpendUnit \<Rightarrow> int \<Rightarrow> LimitsState \<Rightarrow> string \<times> LimitsState" where
  "limits_set newId ownerSub scope unit amountMicros ls =
     (case find (same_scope ownerSub scope) (li_limits ls) of
        Some row \<Rightarrow>
          (lo_id row, ls\<lparr>li_limits := update_where (same_scope ownerSub scope)
             (\<lambda>r. r\<lparr>lo_unit := unit, lo_amountMicros := amountMicros\<rparr>) (li_limits ls)\<rparr>)
      | None \<Rightarrow>
          (newId, ls\<lparr>li_limits := li_limits ls @
             [\<lparr>lo_id = newId, lo_ownerSub = ownerSub, lo_scope = scope_kind scope, lo_agentId = fst (scopeColumns scope),
               lo_connectionId = snd (scopeColumns scope), lo_unit = unit, lo_amountMicros = amountMicros\<rparr>]\<rparr>))"

text \<open>Deleting a limit deletes its extensions: the reference cascades.\<close>

definition delete_limits :: "(LimitRow \<Rightarrow> bool) \<Rightarrow> LimitsState \<Rightarrow> LimitsState" where
  "delete_limits p ls =
     ls\<lparr>li_limits := delete_where p (li_limits ls),
        li_extensions := delete_where (\<lambda>e. le_limitId e \<in> lo_id ` set (filter p (li_limits ls))) (li_extensions ls)\<rparr>"

definition limits_clear :: "user_sub \<Rightarrow> LimitScope \<Rightarrow> LimitsState \<Rightarrow> string option \<times> LimitsState" where
  "limits_clear ownerSub scope ls =
     (map_option lo_id (find (same_scope ownerSub scope) (li_limits ls)), delete_limits (same_scope ownerSub scope) ls)"

definition limits_extend :: "string \<Rightarrow> utc_day \<Rightarrow> int \<Rightarrow> LimitsState \<Rightarrow> LimitsState" where
  "limits_extend limitId day extensions ls =
     (if limitId \<notin> lo_id ` set (li_limits ls) then ls
      else if \<exists>e \<in> set (li_extensions ls). le_limitId e = limitId \<and> le_day e = day
      then ls\<lparr>li_extensions := update_where (\<lambda>e. le_limitId e = limitId \<and> le_day e = day)
             (\<lambda>e. e\<lparr>le_extensions := max (le_extensions e) extensions\<rparr>) (li_extensions ls)\<rparr>
      else ls\<lparr>li_extensions := li_extensions ls @ [\<lparr>le_limitId = limitId, le_day = day, le_extensions = extensions\<rparr>]\<rparr>)"

definition limits_deleteForAgent :: "agent_id \<Rightarrow> LimitsState \<Rightarrow> LimitsState" where
  "limits_deleteForAgent agentId ls = delete_limits (\<lambda>r. lo_agentId r = Some agentId) ls"

definition limits_deleteForConnection :: "string \<Rightarrow> LimitsState \<Rightarrow> string list \<times> LimitsState" where
  "limits_deleteForConnection connectionId ls =
     (map lo_id (filter (\<lambda>r. lo_connectionId r = Some connectionId) (li_limits ls)),
      delete_limits (\<lambda>r. lo_connectionId r = Some connectionId) ls)"

definition limits_listAgentIds :: "LimitsState \<Rightarrow> agent_id list" where
  "limits_listAgentIds ls = List.map_filter nonempty (remdups (map lo_agentId (li_limits ls)))"

definition ceiling_forOwner :: "int option \<Rightarrow> LimitsState \<Rightarrow> user_sub \<Rightarrow> SpendCeiling option" where
  "ceiling_forOwner defaultMicros ls ownerSub =
     (case find (\<lambda>r. cw_ownerSub r = ownerSub) (li_ceilings ls) of
        Some row \<Rightarrow> Some \<lparr>ce_amountMicros = cw_amountMicros row, ce_source = OperatorCeiling\<rparr>
      | None \<Rightarrow> map_option (\<lambda>amount. \<lparr>ce_amountMicros = amount, ce_source = DefaultCeiling\<rparr>) defaultMicros)"

definition ceiling_has :: "LimitsState \<Rightarrow> user_sub \<Rightarrow> bool" where
  "ceiling_has ls ownerSub \<longleftrightarrow> (\<exists>r \<in> set (li_ceilings ls). cw_ownerSub r = ownerSub)"

definition ceiling_upsert :: "time_ms \<Rightarrow> user_sub \<Rightarrow> int \<Rightarrow> user_sub \<Rightarrow> LimitsState \<Rightarrow> (CeilingRow \<times> int option) \<times> LimitsState" where
  "ceiling_upsert now ownerSub amountMicros setBySub ls =
     (let row = \<lparr>cw_ownerSub = ownerSub, cw_amountMicros = amountMicros, cw_setBySub = setBySub, cw_updatedAt = now\<rparr>;
          before = find (\<lambda>r. cw_ownerSub r = ownerSub) (li_ceilings ls)
      in ((row, map_option cw_amountMicros before),
          ls\<lparr>li_ceilings := (if before = None then li_ceilings ls @ [row]
                            else update_where (\<lambda>r. cw_ownerSub r = ownerSub) (\<lambda>_. row) (li_ceilings ls))\<rparr>))"

definition ceiling_clear :: "user_sub \<Rightarrow> LimitsState \<Rightarrow> int option \<times> LimitsState" where
  "ceiling_clear ownerSub ls =
     (map_option cw_amountMicros (find (\<lambda>r. cw_ownerSub r = ownerSub) (li_ceilings ls)),
      ls\<lparr>li_ceilings := delete_where (\<lambda>r. cw_ownerSub r = ownerSub) (li_ceilings ls)\<rparr>)"

text \<open>The operator names a user by email, or by id where the user has a ceiling or loses it.\<close>

datatype SpendCeilingUser = BySub user_sub | ByEmail string
datatype CeilingError = NoCeilingFor user_sub | NoUserWith string

definition resolveSub ::
  "(string \<Rightarrow> user_sub option) \<Rightarrow> LimitsState \<Rightarrow> SpendCeilingUser \<Rightarrow> int option \<Rightarrow> CeilingError + user_sub" where
  "resolveSub subByEmail ls user amountMicros =
     (case user of
        BySub sub \<Rightarrow> if amountMicros \<noteq> None \<and> \<not> ceiling_has ls sub then Inl (NoCeilingFor sub) else Inr sub
      | ByEmail email \<Rightarrow> (case nonempty (subByEmail email) of None \<Rightarrow> Inl (NoUserWith email) | Some sub \<Rightarrow> Inr sub))"

definition ceilings_set ::
  "(string \<Rightarrow> user_sub option) \<Rightarrow> user_sub \<Rightarrow> time_ms \<Rightarrow> SpendCeilingUser \<Rightarrow> int option \<Rightarrow> LimitsState
   \<Rightarrow> (CeilingError + CeilingRow option) \<times> LimitsState" where
  "ceilings_set subByEmail operatorSub now user amountMicros ls =
     (case resolveSub subByEmail ls user amountMicros of
        Inl e \<Rightarrow> (Inl e, ls)
      | Inr ownerSub \<Rightarrow>
          (case amountMicros of
             None \<Rightarrow> (Inr None, snd (ceiling_clear ownerSub ls))
           | Some amount \<Rightarrow>
               (case ceiling_upsert now ownerSub amount operatorSub ls of ((row, _), ls1) \<Rightarrow> (Inr (Some row), ls1))))"

section \<open>The check of a call\<close>

record SpendWorld =
  sw_spend :: SpendState
  sw_limits :: LimitsState
  sw_approvals :: ApprovalsState
  sw_limitsChanged :: "user_sub list" \<comment> \<open>the \<^verbatim>\<open>SpendLimitsChanged\<close> events, oldest first\<close>

record CheckDeps =
  ck_ingest :: IngestDeps
  ck_defaultCeiling :: "int option"
  ck_brandName :: string
  ck_templateOf :: "agent_id \<Rightarrow> string \<Rightarrow> string option"

record CheckFaults =
  kf_counter :: "DayCounter \<Rightarrow> bool" \<comment> \<open>Redis does not answer for this counter\<close>
  kf_started :: bool
  kf_refusal :: bool \<comment> \<open>counting a refusal throws, which is caught\<close>

record CheckedCall =
  kc_callId :: string
  kc_meta :: CallMeta
  kc_dialect :: ApiDialect

datatype SpendVerdict =
    AllowCall
  | RefuseCall SpendBlock Refusal "SpendLimitQuestion list"

record SpendHold =
  sh_reason :: SpendBlock
  sh_ownerSub :: user_sub
  sh_questions :: "SpendLimitQuestion list"

definition questionsOf :: "LimitReading list \<Rightarrow> utc_day \<Rightarrow> SpendLimitQuestion list" where
  "questionsOf limits day =
     map (\<lambda>reading. let limit = lr_limit reading
            in \<lparr>sq_limitId = sl_id limit, sq_scope = sl_scope limit, sq_unit = sl_unit limit, sq_day = day,
                sq_amountMicros = sl_amountMicros limit, sq_extensions = sl_extensions limit\<rparr>)
       (filter is_reached limits)"

text \<open>
  The spend of a day: the counter, or the sum of the ledger, which then becomes the counter. Where
  Redis fails, in the read or in the write, the ledger answers.
\<close>

definition spentToday :: "(DayCounter \<Rightarrow> bool) \<Rightarrow> DayCounter \<Rightarrow> SpendState \<Rightarrow> int \<times> SpendState" where
  "spentToday fails counter st =
     (let total = ledger_total (ss_daily st) counter
      in if fails counter then (total, st)
         else case counters_read counter st of
                Some counted \<Rightarrow> (counted, st)
              | None \<Rightarrow> (total, counters_setIfMissing counter total st))"

text \<open>Reading a list of limits, with the totals as a parameter.\<close>

fun read_limits :: "(DayCounter \<Rightarrow> 's \<Rightarrow> int \<times> 's) \<Rightarrow> utc_day \<Rightarrow> SpendLimit list \<Rightarrow> 's \<Rightarrow> LimitReading list \<times> 's" where
  "read_limits spent day [] st = ([], st)"
| "read_limits spent day (limit # limits) st =
     (case spent (limitCounter limit day) st of
        (micros, st1) \<Rightarrow>
          (case read_limits spent day limits st1 of (readings, st2) \<Rightarrow> (readLimit limit micros # readings, st2)))"

definition read_ceiling ::
  "(DayCounter \<Rightarrow> 's \<Rightarrow> int \<times> 's) \<Rightarrow> utc_day \<Rightarrow> user_sub \<Rightarrow> SpendCeiling option \<Rightarrow> 's \<Rightarrow> CeilingReading option \<times> 's" where
  "read_ceiling spent day ownerSub cap st =
     (case cap of
        None \<Rightarrow> (None, st)
      | Some c \<Rightarrow> (case spent (ceilingCounter ownerSub day) st of (micros, st1) \<Rightarrow> (Some (readCeiling c micros), st1)))"

definition spend_read ::
  "CheckDeps \<Rightarrow> (DayCounter \<Rightarrow> bool) \<Rightarrow> LimitedCall \<Rightarrow> utc_day \<Rightarrow> SpendWorld
   \<Rightarrow> (LimitReading list \<times> CeilingReading option) \<times> SpendWorld" where
  "spend_read deps fails call day w =
     (let limits = limits_applying (sw_limits w) (Some (lc_payer call)) (lc_ownerSub call) day;
          cap = (if countsInCeiling (lc_unit call) then ceiling_forOwner (ck_defaultCeiling deps) (sw_limits w) (lc_ownerSub call)
                     else None)
      in case read_limits (spentToday fails) day (limitsOnCall limits call) (sw_spend w) of
           (readings, st1) \<Rightarrow>
             (case read_ceiling (spentToday fails) day (lc_ownerSub call) cap st1 of
                (reading, st2) \<Rightarrow> ((readings, reading), w\<lparr>sw_spend := st2\<rparr>)))"

definition tellStopped ::
  "LimitedCall \<Rightarrow> utc_day \<Rightarrow> LimitReading list \<times> CeilingReading option \<Rightarrow> SpendStoppedWork \<Rightarrow> SpendState \<Rightarrow> SpendState" where
  "tellStopped call day readings work st =
     (case stopOf (snd readings) (fst readings) of
        None \<Rightarrow> st
      | Some stop \<Rightarrow> st\<lparr>ss_events := ss_events st @ [SpendWorkStopped (lc_ownerSub call) (lc_payer call) day stop work]\<rparr>)"

definition limited_call :: "CheckDeps \<Rightarrow> CallMeta \<Rightarrow> LimitedCall" where
  "limited_call deps meta =
     \<lparr>lc_payer = cm_payer meta, lc_ownerSub = cm_ownerSub meta, lc_connectionId = cm_connectionId meta,
      lc_unit = unitOf (fst (payingProvider (md_collate (in_measure (ck_ingest deps))) (cm_providers meta)))\<rparr>"

definition refusal_row :: "CheckDeps \<Rightarrow> CallMeta \<Rightarrow> SpendRow" where
  "refusal_row deps meta =
     (let provider = fst (payingProvider (md_collate (in_measure (ck_ingest deps))) (cm_providers meta))
      in \<lparr>sr_day = utcDay (cm_startedAt meta), sr_payer = cm_payer meta, sr_ownerSub = cm_ownerSub meta,
          sr_connectionId = unknown_or UNKNOWN_CONNECTION (cm_connectionId meta), sr_model = UNKNOWN_MODEL,
          sr_sessionId = checkedSession (in_hasSession (ck_ingest deps)) (cm_agentId meta) (cm_sessionId meta),
          sr_callingAgentId = cm_agentId meta, sr_provider = provider, sr_unit = unitOf provider\<rparr>)"

fun refuse :: "CheckDeps \<Rightarrow> CheckedCall \<Rightarrow> utc_day \<Rightarrow> LimitReading list \<Rightarrow> SpendBlock \<Rightarrow> SpendVerdict" where
  "refuse deps call day limits CeilingBlock =
     RefuseCall CeilingBlock
       (refusalFor (kc_dialect call) (fst (payingProvider (md_collate (in_measure (ck_ingest deps))) (cm_providers (kc_meta call))))
          CEILING_TEXT (cm_startedAt (kc_meta call))) []"
| "refuse deps call day limits LimitBlock =
     RefuseCall LimitBlock
       (refusalFor (kc_dialect call) (fst (payingProvider (md_collate (in_measure (ck_ingest deps))) (cm_providers (kc_meta call))))
          (softLimitText (ck_brandName deps)) (cm_startedAt (kc_meta call))) (questionsOf limits day)"

definition checkCall :: "CheckDeps \<Rightarrow> CheckFaults \<Rightarrow> CheckedCall \<Rightarrow> SpendWorld \<Rightarrow> SpendVerdict \<times> SpendWorld" where
  "checkCall deps faults call w =
     (let meta = kc_meta call; day = utcDay (cm_startedAt meta); limited = limited_call deps meta
      in case spend_read deps (kf_counter faults) limited day w of
           (readings, w1) \<Rightarrow>
             (case blockOf (snd readings) (fst readings) of
                None \<Rightarrow> (AllowCall, w1\<lparr>sw_spend := callStarted (kf_started faults) (kc_callId call) meta (sw_spend w1)\<rparr>)
              | Some block \<Rightarrow>
                  let st1 = tellStopped limited day readings (CallWork (cm_agentId meta) (cm_sessionId meta)) (sw_spend w1);
                      st2 = (if kf_refusal faults then st1
                             else st1\<lparr>ss_daily := ledger_addRefusal (refusal_row deps meta) (ss_daily st1)\<rparr>)
                  in (refuse deps call day (fst readings) block, w1\<lparr>sw_spend := st2\<rparr>)))"

definition holdFor ::
  "CheckDeps \<Rightarrow> (DayCounter \<Rightarrow> bool) \<Rightarrow> time_ms \<Rightarrow> agent_id \<Rightarrow> string option \<Rightarrow> SpendStoppedWork option \<Rightarrow> SpendWorld
   \<Rightarrow> SpendHold option \<times> SpendWorld" where
  "holdFor deps fails now payer connectionId tellOwner w =
     (case nonempty (in_ownerOf (ck_ingest deps) payer) of
        None \<Rightarrow> (None, w)
      | Some ownerSub \<Rightarrow>
          let template = nonempty (Option.bind (nonempty connectionId) (ck_templateOf deps payer));
              day = utcDay now;
              limited = \<lparr>lc_payer = payer, lc_ownerSub = ownerSub,
                         lc_connectionId = (if template \<noteq> None then connectionId else None),
                         lc_unit = (case template of None \<Rightarrow> Usd | Some t \<Rightarrow> unitOf t)\<rparr>
          in case spend_read deps fails limited day w of
               (readings, w1) \<Rightarrow>
                 (case blockOf (snd readings) (fst readings) of
                    None \<Rightarrow> (None, w1)
                  | Some reason \<Rightarrow>
                      (Some \<lparr>sh_reason = reason, sh_ownerSub = ownerSub,
                             sh_questions = (if reason = LimitBlock then questionsOf (fst readings) day else [])\<rparr>,
                       case tellOwner of
                         None \<Rightarrow> w1
                       | Some work \<Rightarrow> w1\<lparr>sw_spend := tellStopped limited day readings work (sw_spend w1)\<rparr>)))"


section \<open>Setting limits and continuing\<close>

definition question_read :: "SpendWorld \<Rightarrow> string \<Rightarrow> SpendLimitQuestion option" where
  "question_read w approvalId =
     (case getPending (ap_approvals (sw_approvals w)) approvalId of
        None \<Rightarrow> None
      | Some row \<Rightarrow> (case pa_payload row of SpendLimitPayload q \<Rightarrow> Some q | _ \<Rightarrow> None))"

definition closePending :: "user_sub \<Rightarrow> string \<Rightarrow> SpendWorld \<Rightarrow> SpendWorld" where
  "closePending ownerSub limitId w =
     (case deletePendingSpendQuestions (ap_approvals (sw_approvals w)) ownerSub limitId of
        (gone, t) \<Rightarrow>
          w\<lparr>sw_approvals := fold (\<lambda>(i, agentId). emit (ApprovalResolved i agentId ownerSub ResolvedSuperseded)) gone
               ((sw_approvals w)\<lparr>ap_approvals := t\<rparr>)\<rparr>)"

definition limits_changed :: "user_sub \<Rightarrow> SpendWorld \<Rightarrow> SpendWorld" where
  "limits_changed ownerSub w = w\<lparr>sw_limitsChanged := sw_limitsChanged w @ [ownerSub]\<rparr>"

text \<open>The saga of a continue, on one event; \<open>fails\<close>: the database does not take the extension, which is logged.\<close>

definition is_allow :: "Resolution \<Rightarrow> bool" where
  "is_allow resolution \<longleftrightarrow> resolution = ResolvedWith AllowAlways \<or> resolution = ResolvedWith AllowOnce"

fun extendOnContinue :: "bool \<Rightarrow> ApprovalEvent \<Rightarrow> SpendWorld \<Rightarrow> SpendWorld" where
  "extendOnContinue fails (ApprovalResolved approvalId agentId ownerSub resolution) w =
     (if \<not> is_allow resolution then w
      else case question_read w approvalId of
             None \<Rightarrow> w
           | Some q \<Rightarrow>
               if fails then w
               else limits_changed ownerSub
                      (w\<lparr>sw_limits := limits_extend (sq_limitId q) (sq_day q) (sq_extensions q + 1) (sw_limits w)\<rparr>))"
| "extendOnContinue fails (ApprovalRequested _ _ _) w = w"

definition dropConnectionLimits :: "string \<Rightarrow> user_sub \<Rightarrow> SpendWorld \<Rightarrow> SpendWorld" where
  "dropConnectionLimits connectionKey actorSub w =
     (case limits_deleteForConnection connectionKey (sw_limits w) of
        (limitIds, ls) \<Rightarrow>
          if limitIds = [] then w\<lparr>sw_limits := ls\<rparr>
          else fold (closePending actorSub) limitIds (limits_changed actorSub (w\<lparr>sw_limits := ls\<rparr>)))"

record SpendServiceDeps =
  sd_ownerSub :: user_sub
  sd_isOwnedBy :: "agent_id \<Rightarrow> user_sub \<Rightarrow> bool"
  sd_payerOf :: "agent_id \<Rightarrow> agent_id"
  sd_templateOf :: "agent_id \<Rightarrow> string \<Rightarrow> string option"
  sd_ownedTemplateOf :: "user_sub \<Rightarrow> string \<Rightarrow> string option"

datatype LimitError = AgentNotFound | IsSubAgentOf agent_id | ConnectionNotGranted | ConnectionNotYours | NotLimitable NoLimitReason

definition connectionUnit :: "string option \<Rightarrow> LimitError \<Rightarrow> LimitError + SpendUnit" where
  "connectionUnit template notFound =
     (case template of
        None \<Rightarrow> Inl notFound
      | Some t \<Rightarrow> (case connectionLimitRule t of Inl reason \<Rightarrow> Inl (NotLimitable reason) | Inr unit \<Rightarrow> Inr unit))"

fun limitUnit :: "SpendServiceDeps \<Rightarrow> LimitScope \<Rightarrow> LimitError + SpendUnit" where
  "limitUnit deps (AgentScope _) = Inr Usd"
| "limitUnit deps OwnerScope = Inr Usd"
| "limitUnit deps (ConnectionScope agentId connectionId) = connectionUnit (sd_templateOf deps agentId connectionId) ConnectionNotGranted"
| "limitUnit deps (OwnerConnectionScope connectionId) =
     connectionUnit (sd_ownedTemplateOf deps (sd_ownerSub deps) connectionId) ConnectionNotYours"

fun scope_agent :: "LimitScope \<Rightarrow> agent_id option" where
  "scope_agent (AgentScope agentId) = Some agentId"
| "scope_agent (ConnectionScope agentId _) = Some agentId"
| "scope_agent _ = None"

definition require_scope :: "SpendServiceDeps \<Rightarrow> LimitScope \<Rightarrow> bool \<Rightarrow> LimitError option" where
  "require_scope deps scope sets =
     (case scope_agent scope of
        None \<Rightarrow> None
      | Some agentId \<Rightarrow>
          if \<not> sd_isOwnedBy deps agentId (sd_ownerSub deps) then Some AgentNotFound
          else if sets \<and> sd_payerOf deps agentId \<noteq> agentId then Some (IsSubAgentOf (sd_payerOf deps agentId))
          else None)"

definition setLimit ::
  "SpendServiceDeps \<Rightarrow> string \<Rightarrow> LimitScope \<Rightarrow> int option \<Rightarrow> SpendWorld \<Rightarrow> (LimitError + unit) \<times> SpendWorld" where
  "setLimit deps newId scope amountMicros w =
     (case require_scope deps scope (amountMicros \<noteq> None) of
        Some e \<Rightarrow> (Inl e, w)
      | None \<Rightarrow>
          (case amountMicros of
             None \<Rightarrow>
               (case limits_clear (sd_ownerSub deps) scope (sw_limits w) of
                  (limitId, ls) \<Rightarrow>
                    let w1 = w\<lparr>sw_limits := ls\<rparr>;
                        w2 = (case limitId of None \<Rightarrow> w1 | Some i \<Rightarrow> closePending (sd_ownerSub deps) i w1)
                    in (Inr (), limits_changed (sd_ownerSub deps) w2))
           | Some amount \<Rightarrow>
               (case limitUnit deps scope of
                  Inl e \<Rightarrow> (Inl e, w)
                | Inr unit \<Rightarrow>
                    (case limits_set newId (sd_ownerSub deps) scope unit amount (sw_limits w) of
                       (limitId, ls) \<Rightarrow>
                         (Inr (), limits_changed (sd_ownerSub deps) (closePending (sd_ownerSub deps) limitId (w\<lparr>sw_limits := ls\<rparr>)))))))"

section \<open>Reading totals\<close>

text \<open>
  What the check needs of the totals: they are the sums of the ledger, in every state that is in
  order, and reading one leaves the sums and the order as they are.
\<close>

locale day_totals =
  fixes spent :: "DayCounter \<Rightarrow> 's \<Rightarrow> int \<times> 's"
    and total :: "'s \<Rightarrow> DayCounter \<Rightarrow> int"
    and in_order :: "'s \<Rightarrow> bool"
  assumes spent_exact: "in_order st \<Longrightarrow> fst (spent c st) = total st c"
    and spent_in_order: "in_order st \<Longrightarrow> in_order (snd (spent c st))"
    and spent_keeps: "in_order st \<Longrightarrow> total (snd (spent c st)) = total st"
begin

lemma read_limits_exact:
  "in_order st \<Longrightarrow>
   fst (read_limits spent day limits st) = map (\<lambda>l. readLimit l (total st (limitCounter l day))) limits
   \<and> in_order (snd (read_limits spent day limits st)) \<and> total (snd (read_limits spent day limits st)) = total st"
proof (induction limits arbitrary: st)
  case (Cons l limits)
  let ?st1 = "snd (spent (limitCounter l day) st)"
  show ?case using Cons.IH [of ?st1] Cons.prems spent_exact [of st] spent_in_order [of st] spent_keeps [of st]
    by (simp add: case_prod_beta)
qed simp

lemma read_ceiling_exact:
  "in_order st \<Longrightarrow>
   fst (read_ceiling spent day ownerSub cap st) = map_option (\<lambda>c. readCeiling c (total st (ceilingCounter ownerSub day))) cap
   \<and> in_order (snd (read_ceiling spent day ownerSub cap st)) \<and> total (snd (read_ceiling spent day ownerSub cap st)) = total st"
  using spent_exact [of st] spent_in_order [of st] spent_keeps [of st]
  by (simp add: read_ceiling_def case_prod_beta split: option.split)

end

lemma ss_daily_spentToday [simp]: "ss_daily (snd (spentToday fails c st)) = ss_daily st"
  by (simp add: spentToday_def Let_def split: option.split)

lemma counters_ok_setIfMissing:
  "counters_ok st \<Longrightarrow> counters_ok (counters_setIfMissing c (ledger_total (ss_daily st) c) st)"
  by (auto simp: counters_ok_def counters_setIfMissing_def split: option.splits if_splits)

interpretation ledger_totals: day_totals "spentToday fails" "\<lambda>st. ledger_total (ss_daily st)" counters_ok for fails
proof unfold_locales
  fix st c assume ok: "counters_ok st"
  show "fst (spentToday fails c st) = ledger_total (ss_daily st) c"
    using ok by (auto simp: spentToday_def Let_def counters_read_def counters_ok_def split: option.split)
  show "counters_ok (snd (spentToday fails c st))"
    using ok counters_ok_setIfMissing [OF ok] by (simp add: spentToday_def Let_def split: option.split)
qed simp

definition call_readings :: "CheckDeps \<Rightarrow> LimitedCall \<Rightarrow> utc_day \<Rightarrow> SpendWorld \<Rightarrow> LimitReading list \<times> CeilingReading option" where
  "call_readings deps call day w =
     (map (\<lambda>l. readLimit l (ledger_total (ss_daily (sw_spend w)) (limitCounter l day)))
        (limitsOnCall (limits_applying (sw_limits w) (Some (lc_payer call)) (lc_ownerSub call) day) call),
      if countsInCeiling (lc_unit call)
      then map_option (\<lambda>c. readCeiling c (ledger_total (ss_daily (sw_spend w)) (ceilingCounter (lc_ownerSub call) day)))
             (ceiling_forOwner (ck_defaultCeiling deps) (sw_limits w) (lc_ownerSub call))
      else None)"

lemma read_keeps_daily [simp]:
  "ss_daily (snd (read_limits (spentToday fails) day limits st)) = ss_daily st"
  "ss_daily (snd (read_ceiling (spentToday fails) day ownerSub cap st)) = ss_daily st"
proof -
  show "ss_daily (snd (read_limits (spentToday fails) day limits st)) = ss_daily st"
    by (induction limits arbitrary: st) (simp_all add: case_prod_beta)
  show "ss_daily (snd (read_ceiling (spentToday fails) day ownerSub cap st)) = ss_daily st"
    by (simp add: read_ceiling_def case_prod_beta split: option.split)
qed

lemma spend_read_exact:
  assumes "counters_ok (sw_spend w)"
  shows "fst (spend_read deps fails call day w) = call_readings deps call day w"
    and "ss_daily (sw_spend (snd (spend_read deps fails call day w))) = ss_daily (sw_spend w)"
    and "counters_ok (sw_spend (snd (spend_read deps fails call day w)))"
  using assms ledger_totals.read_limits_exact [of "sw_spend w" fails day] ledger_totals.read_ceiling_exact
  by (simp_all add: spend_read_def call_readings_def case_prod_beta Let_def)

lemma blockOf_None:
  "blockOf ceiling_reading limits = None \<longleftrightarrow>
   (\<forall>r \<in> set limits. lr_state r \<noteq> StateReached) \<and> (\<forall>c. ceiling_reading = Some c \<longrightarrow> cr_state c \<noteq> StateReached)"
  by (cases ceiling_reading) (auto simp: blockOf_def list_ex_iff is_reached_def)

lemma limitState_reached: "limitState spentMicros effective = StateReached \<longleftrightarrow> effective \<le> spentMicros"
  by (simp add: limitState_def)

lemma ledger_total_addRefusal: "ledger_total (ledger_addRefusal row t) c = ledger_total t c"
  by (simp add: ledger_total_sum ledger_addRefusal_def daily_upsert_def map_update_where zero_amounts_def)
lemma all_map_option: "(\<forall>c. map_option g x = Some c \<longrightarrow> P c) \<longleftrightarrow> (\<forall>z. x = Some z \<longrightarrow> P (g z))"
  by auto

lemma refuse_not_allow: "refuse deps call day limits block \<noteq> AllowCall"
  by (cases block) simp_all


section \<open>Properties\<close>

text \<open>
  C37. The check enforces the limits on the ledger: a call starts exactly when today's sum of the
  ledger is below the effective amount of every limit on the call, and, for a call in dollars,
  below the owner's ceiling; the check itself changes no sum. It holds also where Redis does not
  answer, as long as the counters it has agree with the ledger.
\<close>

theorem check_enforces_limits:
  fixes call :: CheckedCall and deps :: CheckDeps
  assumes "counters_ok (sw_spend w)"
  defines "meta \<equiv> kc_meta call"
  defines "day \<equiv> utcDay (cm_startedAt meta)" and "limited \<equiv> limited_call deps meta"
  shows "(fst (checkCall deps faults call w) = AllowCall \<longleftrightarrow>
      (\<forall>limit \<in> set (limitsOnCall (limits_applying (sw_limits w) (Some (cm_payer meta)) (cm_ownerSub meta) day) limited).
          ledger_total (ss_daily (sw_spend w)) (limitCounter limit day) < effectiveMicros limit)
      \<and> (\<forall>cap. lc_unit limited = Usd \<and> ceiling_forOwner (ck_defaultCeiling deps) (sw_limits w) (cm_ownerSub meta) = Some cap \<longrightarrow>
          ledger_total (ss_daily (sw_spend w)) (OwnerCounter day (cm_ownerSub meta) Usd) < ce_amountMicros cap))
    \<and> (\<forall>c. ledger_total (ss_daily (sw_spend (snd (checkCall deps faults call w)))) c = ledger_total (ss_daily (sw_spend w)) c)"
proof -
  let ?readings = "call_readings deps limited day w"
  obtain w1 where read: "spend_read deps (kf_counter faults) limited day w = (?readings, w1)"
    using spend_read_exact(1) [OF assms(1)] by (metis prod.collapse)
  then have daily: "ss_daily (sw_spend w1) = ss_daily (sw_spend w)"
    using spend_read_exact(2) [OF assms(1), of deps "kf_counter faults" limited day] by simp
  have "fst (checkCall deps faults call w) = AllowCall \<longleftrightarrow> blockOf (snd ?readings) (fst ?readings) = None"
    using read by (simp add: checkCall_def Let_def meta_def day_def limited_def refuse_not_allow split: option.split)
  moreover have "ledger_total (ss_daily (sw_spend (snd (checkCall deps faults call w)))) c = ledger_total (ss_daily (sw_spend w)) c" for c
    using read daily
    by (simp add: checkCall_def Let_def meta_def day_def limited_def callStarted_def tellStopped_def ledger_total_addRefusal split: option.split)
  moreover have "lc_payer limited = cm_payer meta" "lc_ownerSub limited = cm_ownerSub meta" by (simp_all add: limited_def limited_call_def)
  ultimately show ?thesis
    by (auto simp: blockOf_None call_readings_def readLimit_def readCeiling_def limitState_reached countsInCeiling_def ceilingCounter_def
        all_map_option not_le)
qed

definition sample_world :: SpendWorld where
  "sample_world =
     \<lparr>sw_spend = empty_spend\<lparr>ss_daily := [sample_daily Usd 5]\<rparr>,
      sw_limits = \<lparr>li_limits = [\<lparr>lo_id = ''l1'', lo_ownerSub = ''u'', lo_scope = AgentKind, lo_agentId = Some ''a'',
          lo_connectionId = None, lo_unit = Usd, lo_amountMicros = 5\<rparr>], li_extensions = [], li_ceilings = []\<rparr>,
      sw_approvals = sample_approvals_state [], sw_limitsChanged = []\<rparr>"

definition sample_check :: CheckDeps where
  "sample_check = \<lparr>ck_ingest = sample_ingest, ck_defaultCeiling = Some 9, ck_brandName = ''Dam'', ck_templateOf = \<lambda>_ _. None\<rparr>"

definition sample_checked :: CheckedCall where
  "sample_checked = \<lparr>kc_callId = ''c9'', kc_meta = \<lparr>cm_agentId = ''a'', cm_payer = ''a'', cm_ownerSub = ''u'', cm_connectionId = None,
      cm_providers = [''anthropic''], cm_sessionId = None, cm_routerCallId = None, cm_startedAt = 3 * 86400000 + 1\<rparr>,
      kc_dialect = AnthropicMessages\<rparr>"

definition no_check_faults :: CheckFaults where
  "no_check_faults = \<lparr>kf_counter = \<lambda>_. False, kf_started = False, kf_refusal = False\<rparr>"

theorem check_enforces_limits_witness:
  "fst (checkCall sample_check no_check_faults sample_checked sample_world) \<noteq> AllowCall
   \<and> fst (checkCall sample_check no_check_faults sample_checked
        (sample_world\<lparr>sw_spend := empty_spend\<lparr>ss_daily := [sample_daily Usd 4]\<rparr>\<rparr>)) = AllowCall"
proof -
  have "counters_ok (sw_spend sample_world)" by (simp add: counters_ok_def sample_world_def empty_spend_def)
  note check = check_enforces_limits [OF this, where call = sample_checked and deps = sample_check and faults = no_check_faults]
  have "\<not> (\<forall>limit \<in> set (limitsOnCall (limits_applying (sw_limits sample_world) (Some (cm_payer (kc_meta sample_checked)))
        (cm_ownerSub (kc_meta sample_checked)) (utcDay (cm_startedAt (kc_meta sample_checked)))) (limited_call sample_check (kc_meta sample_checked))).
          ledger_total (ss_daily (sw_spend sample_world)) (limitCounter limit (utcDay (cm_startedAt (kc_meta sample_checked)))) < effectiveMicros limit)"
    by code_simp
  moreover have "fst (checkCall sample_check no_check_faults sample_checked
        (sample_world\<lparr>sw_spend := empty_spend\<lparr>ss_daily := [sample_daily Usd 4]\<rparr>\<rparr>)) = AllowCall" by code_simp
  ultimately show ?thesis using check by blast
qed

lemma find_update_same:
  assumes "\<And>e. p e \<Longrightarrow> p (f e)"
  shows "find p (update_where p f t) = map_option f (find p t)"
  using assms by (induction t) auto

lemma find_update_other:
  assumes "\<And>e. p e \<Longrightarrow> \<not> q e" and "\<And>e. p e \<Longrightarrow> \<not> q (f e)"
  shows "find q (update_where p f t) = find q t"
  using assms by (induction t) auto

lemma find_snoc: "find p (xs @ [x]) = (case find p xs of Some y \<Rightarrow> Some y | None \<Rightarrow> if p x then Some x else None)"
  by (induction xs) simp_all

lemma extensions_of_extend:
  assumes "limitId \<in> lo_id ` set (li_limits ls)" and "0 \<le> extensions"
  shows "extensions_of (li_extensions (limits_extend limitId day extensions ls)) i d =
     (if i = limitId \<and> d = day then max (extensions_of (li_extensions ls) i d) extensions else extensions_of (li_extensions ls) i d)"
proof (cases "\<exists>e \<in> set (li_extensions ls). le_limitId e = limitId \<and> le_day e = day")
  case True
  have other: "find (\<lambda>e. le_limitId e = i \<and> le_day e = d) (update_where (\<lambda>e. le_limitId e = limitId \<and> le_day e = day)
        (\<lambda>e. e\<lparr>le_extensions := max (le_extensions e) extensions\<rparr>) (li_extensions ls))
      = find (\<lambda>e. le_limitId e = i \<and> le_day e = d) (li_extensions ls)" if "\<not> (i = limitId \<and> d = day)" for i d
    using that by (intro find_update_other) auto
  from True have "find (\<lambda>e. le_limitId e = limitId \<and> le_day e = day) (li_extensions ls) \<noteq> None" by (auto simp: find_None_iff)
  then show ?thesis using True assms(1)
    by (cases "i = limitId \<and> d = day")
       (auto simp: limits_extend_def extensions_of_def other [of i d]
          find_update_same [of "\<lambda>e. le_limitId e = limitId \<and> le_day e = day"] split: option.splits)
next
  case False
  then have "find (\<lambda>e. le_limitId e = limitId \<and> le_day e = day) (li_extensions ls) = None" by (auto simp: find_None_iff)
  then show ?thesis using False assms
    by (auto simp: limits_extend_def extensions_of_def find_snoc split: option.splits)
qed

lemma li_limits_extend [simp]: "li_limits (limits_extend limitId day extensions ls) = li_limits ls"
  by (simp add: limits_extend_def)

lemma map_filter_map_option:
  "(\<And>x. g x = map_option h (f x)) \<Longrightarrow> List.map_filter g xs = map h (List.map_filter f xs)"
  by (induction xs) (auto simp: List.map_filter_simps split: option.split)

definition raised :: "SpendLimitQuestion \<Rightarrow> SpendLimit \<Rightarrow> SpendLimit" where
  "raised q l = (if sl_id l = sq_limitId q then l\<lparr>sl_extensions := max (sl_extensions l) (sq_extensions q + 1)\<rparr> else l)"

lemma applying_extend:
  assumes "sq_limitId q \<in> lo_id ` set (li_limits ls)" and "0 \<le> sq_extensions q"
  shows "limits_applying (limits_extend (sq_limitId q) (sq_day q) (sq_extensions q + 1) ls) agentId ownerSub day
         = (if day = sq_day q then map (raised q) (limits_applying ls agentId ownerSub day) else limits_applying ls agentId ownerSub day)"
proof -
  let ?ls = "limits_extend (sq_limitId q) (sq_day q) (sq_extensions q + 1) ls"
  have "limit_of_row (li_extensions ?ls) day row =
      (if day = sq_day q then map_option (raised q) (limit_of_row (li_extensions ls) day row) else limit_of_row (li_extensions ls) day row)" for row
    using assms by (cases "scopeOf row") (auto simp: limit_of_row_def extensions_of_extend raised_def)
  then have "limit_of_row (li_extensions ?ls) day =
      (\<lambda>row. if day = sq_day q then map_option (raised q) (limit_of_row (li_extensions ls) day row) else limit_of_row (li_extensions ls) day row)"
    by (rule ext)
  then show ?thesis
    by (cases "day = sq_day q") (simp_all add: limits_applying_def map_filter_map_option [of _ "raised q" "limit_of_row (li_extensions ls) day"])
qed

lemma raised_idem: "raised q (raised q l) = raised q l"
  by (simp add: raised_def)

lemma continue_event:
  assumes "question_read w approvalId = Some q" and "is_allow resolution"
  shows "extendOnContinue False (ApprovalResolved approvalId agentId ownerSub resolution) w
         = limits_changed ownerSub (w\<lparr>sw_limits := limits_extend (sq_limitId q) (sq_day q) (sq_extensions q + 1) (sw_limits w)\<rparr>)"
  using assms by simp

text \<open>
  A continue raises its limit for its day, and raises it once: after the event of an allowed
  question, however often it is delivered, the limit it asked about has at least one extension
  more than when it was asked, every other limit and every other day is as before, and a late
  answer to an older question takes nothing back.
\<close>

theorem continue_raises_limit_once:
  assumes "question_read w approvalId = Some q" and "is_allow resolution" and "0 \<le> sq_extensions q"
    and "sq_limitId q \<in> lo_id ` set (li_limits (sw_limits w))"
  shows "limits_applying (sw_limits (((extendOnContinue False (ApprovalResolved approvalId agentId ownerSub resolution)) ^^ Suc n) w)) payer sub day
         = (if day = sq_day q then map (raised q) (limits_applying (sw_limits w) payer sub day) else limits_applying (sw_limits w) payer sub day)"
proof -
  define f where "f = extendOnContinue False (ApprovalResolved approvalId agentId ownerSub resolution)"
  have one: "question_read (f v) approvalId = Some q \<and> li_limits (sw_limits (f v)) = li_limits (sw_limits v)
      \<and> (\<forall>day. limits_applying (sw_limits (f v)) payer sub day = (if day = sq_day q then map (raised q) (limits_applying (sw_limits v) payer sub day)
           else limits_applying (sw_limits v) payer sub day))"
    if "question_read v approvalId = Some q" "sq_limitId q \<in> lo_id ` set (li_limits (sw_limits v))" for v
    using that assms(2,3) by (simp add: f_def continue_event limits_changed_def applying_extend) (simp add: question_read_def)
  have "question_read ((f ^^ Suc n) w) approvalId = Some q \<and> li_limits (sw_limits ((f ^^ Suc n) w)) = li_limits (sw_limits w)
      \<and> (\<forall>day. limits_applying (sw_limits ((f ^^ Suc n) w)) payer sub day = (if day = sq_day q then map (raised q) (limits_applying (sw_limits w) payer sub day)
           else limits_applying (sw_limits w) payer sub day))"
  proof (induction n)
    case 0
    then show ?case using one [OF assms(1,4)] by simp
  next
    case (Suc n)
    then show ?case using one [of "(f ^^ Suc n) w"] assms(4) by (simp add: raised_idem comp_def)
  qed
  then show ?thesis by (simp add: f_def)
qed

definition sample_world_asked :: "ApprovalStatus \<Rightarrow> SpendWorld" where
  "sample_world_asked status =
     (let q = \<lparr>sq_limitId = ''l1'', sq_scope = AgentScope ''a'', sq_unit = Usd, sq_day = 3, sq_amountMicros = 5, sq_extensions = 0\<rparr>;
          row = (pending_row 0 (question_row (\<lambda>_. ''d'') ''a'' ''u'' q))
      in sample_world\<lparr>sw_approvals := sample_approvals_state
           [if status = Pending then row
            else row\<lparr>pa_status := status, pa_verdict := Some AllowAlways, pa_decidedBy := Some ''u'', pa_resolvedAt := Some 1\<rparr>]\<rparr>)"

theorem continue_raises_limit_once_witness:
  "map effectiveMicros (limits_applying (sw_limits ((extendOnContinue False
      (ApprovalResolved ''spendlimit:l1:d:5:0'' ''a'' ''u'' (ResolvedWith AllowAlways)) ^^ Suc 2) (sample_world_asked Resolved))) (Some ''a'') ''u'' 3) = [10]"
proof -
  let ?q = "\<lparr>sq_limitId = ''l1'', sq_scope = AgentScope ''a'', sq_unit = Usd, sq_day = 3, sq_amountMicros = 5, sq_extensions = 0\<rparr>"
  have "question_read (sample_world_asked Resolved) ''spendlimit:l1:d:5:0'' = Some ?q" by code_simp
  moreover have "is_allow (ResolvedWith AllowAlways)" "0 \<le> sq_extensions ?q"
    "sq_limitId ?q \<in> lo_id ` set (li_limits (sw_limits (sample_world_asked Resolved)))"
    by (simp_all add: is_allow_def sample_world_asked_def sample_world_def Let_def)
  moreover have "map (effectiveMicros \<circ> raised ?q) (limits_applying (sw_limits (sample_world_asked Resolved)) (Some ''a'') ''u'' 3) = [10]"
    by code_simp
  ultimately show ?thesis
    using continue_raises_limit_once [where w = "sample_world_asked Resolved" and approvalId = "''spendlimit:l1:d:5:0''" and q = ?q and resolution = "ResolvedWith AllowAlways"
        and agentId = "''a''" and ownerSub = "''u''" and n = 2 and payer = "Some ''a''" and sub = "''u''" and day = 3]
    by (simp del: funpow.simps extendOnContinue.simps)
qed

text \<open>
  A check between the two writes of a settlement counts its cost twice: when the day's counter
  is missing, the check sums the ledger, which has the cost already, into the counter, and the
  settlement then adds the cost to it. The counter stays too high for the rest of the day.
\<close>

theorem counter_counts_twice:
  fixes row :: SpendRow and delta :: CallAmounts and m :: int
  assumes "ss_counters st c = None" and "\<not> fails c"
  defines "st1 \<equiv> st\<lparr>ss_daily := ledger_add row delta m (ss_daily st)\<rparr>"
  defines "st3 \<equiv> count_one no_faults (am_costMicros delta) c (snd (spentToday fails c st1))"
  shows "ss_counters st3 c = Some (ledger_total (ss_daily st3) c + am_costMicros delta)
       \<and> ss_counters (count_one no_faults (am_costMicros delta) c st1) c = Some (ledger_total (ss_daily st1) c)"
  using assms
  by (simp add: spentToday_def Let_def counters_read_def counters_setIfMissing_def count_one_def no_faults_def counters_addIfPresent_def)

theorem counter_counts_twice_witness:
  "let st1 = empty_spend\<lparr>ss_daily := ledger_add (dr_row (sample_daily Usd 0)) (zero_amounts\<lparr>am_costMicros := 7\<rparr>) 7 []\<rparr>
   in ss_counters (count_one no_faults 7 (AgentCounter 3 ''a'' Usd) (snd (spentToday (\<lambda>_. False) (AgentCounter 3 ''a'' Usd) st1)))
        (AgentCounter 3 ''a'' Usd) = Some 14"
proof -
  have "ss_counters empty_spend (AgentCounter 3 ''a'' Usd) = None" by (simp add: empty_spend_def)
  from counter_counts_twice [OF this, where fails = "\<lambda>_. False" and row = "dr_row (sample_daily Usd 0)" and delta = "zero_amounts\<lparr>am_costMicros := 7\<rparr>" and m = 7]
  show ?thesis by (simp add: Let_def empty_spend_def ledger_add_def ledger_total_def sample_daily_def)
qed

text \<open>
  A continue whose extension is lost is never asked again: when the write of the extension
  fails, the limit stays as it is, and asking the same question finds the answered row and
  does nothing, so for the rest of the day the calls are refused and no question is pending.
\<close>

theorem lost_continue_is_not_asked_again:
  fixes agentId :: agent_id and ownerSub :: user_sub and resolution :: Resolution
  assumes "getPending (ap_approvals (sw_approvals w)) (spendLimitApprovalId date q) = Some row"
  defines "w' \<equiv> extendOnContinue True (ApprovalResolved (spendLimitApprovalId date q) agentId ownerSub resolution) w"
  shows "sw_limits w' = sw_limits w \<and> ask date now payer sub [q] (sw_approvals w') = sw_approvals w'"
proof -
  have "w' = w" unfolding w'_def by (simp split: option.split)
  then show ?thesis using assms(1)
    by (auto simp: ask_def ask_one_def insertIfAbsent_def question_row_def getPending_def find_None_iff find_Some_iff split: if_splits)
qed

theorem lost_continue_is_not_asked_again_witness:
  "let w = sample_world_asked Resolved;
       q = \<lparr>sq_limitId = ''l1'', sq_scope = AgentScope ''a'', sq_unit = Usd, sq_day = 3, sq_amountMicros = 5, sq_extensions = 0\<rparr>
   in ask (\<lambda>_. ''d'') 9 ''a'' ''u'' [q] (sw_approvals w) = sw_approvals w
      \<and> fst (checkCall sample_check no_check_faults sample_checked w) \<noteq> AllowCall"
proof -
  let ?w = "sample_world_asked Resolved"
  let ?q = "\<lparr>sq_limitId = ''l1'', sq_scope = AgentScope ''a'', sq_unit = Usd, sq_day = 3, sq_amountMicros = 5, sq_extensions = 0\<rparr>"
  have "getPending (ap_approvals (sw_approvals ?w)) (spendLimitApprovalId (\<lambda>_. ''d'') ?q) \<noteq> None" by code_simp
  then obtain row where "getPending (ap_approvals (sw_approvals ?w)) (spendLimitApprovalId (\<lambda>_. ''d'') ?q) = Some row" by blast
  from lost_continue_is_not_asked_again [OF this, where agentId = "''a''" and ownerSub = "''u''" and resolution = ResolvedExpired
      and now = 9 and payer = "''a''" and sub = "''u''"]
  have "ask (\<lambda>_. ''d'') 9 ''a'' ''u'' [?q] (sw_approvals ?w) = sw_approvals ?w" by (simp add: is_allow_def)
  moreover have "fst (checkCall sample_check no_check_faults sample_checked ?w) \<noteq> AllowCall" by code_simp
  ultimately show ?thesis by (simp add: Let_def)
qed

end
