(* ===== verification/Ext_Authz.thy ===== *)
theory Ext_Authz
  imports Spend_Check
begin

text \<open>
  The egress gate: the gRPC check that the gateway asks before it lets a request of an agent out
  (\<^verbatim>\<open>apps/ext-authz/grpc.ts\<close>), the decision behind it and the hold of a request that no rule
  decides (\<^verbatim>\<open>approvals/services/ext-authz-gate.ts\<close>). The gate composes the components of the other
  theories: the spend check, the rule matcher, the provider scopes and the approvals. A hold is
  open while other operations run; they are steps of the wait. Log lines are left out.
\<close>

section \<open>Reading the request\<close>

definition CONNECTION_EGRESS_PATH_SEGMENT :: string where "CONNECTION_EGRESS_PATH_SEGMENT = ''__platform_conn''"

definition is_conn_char :: "char \<Rightarrow> bool" where
  "is_conn_char c \<longleftrightarrow> (CHR ''a'' \<le> c \<and> c \<le> CHR ''z'') \<or> (CHR ''A'' \<le> c \<and> c \<le> CHR ''Z'') \<or> is_digit c \<or> c \<in> set ''._~-''"

text \<open>The prefix \<^verbatim>\<open>/__platform_conn/<id>\<close>, when a slash follows it.\<close>

definition stripConnectionEgressPrefix :: "string \<Rightarrow> string" where
  "stripConnectionEgressPrefix path =
     (let prefix = ''/'' @ CONNECTION_EGRESS_PATH_SEGMENT @ ''/''
      in if take (length prefix) path \<noteq> prefix then path
         else let rest = drop (length prefix) path; i = takeWhile is_conn_char rest; after = dropWhile is_conn_char rest
              in if i \<noteq> [] \<and> after \<noteq> [] \<and> hd after = CHR ''/'' then after else path)"

definition before_last_colon :: "string \<Rightarrow> string" where
  "before_last_colon host =
     (if CHR '':'' \<in> set host then rev (tl (dropWhile (\<lambda>c. c \<noteq> CHR '':'') (rev host))) else host)"

definition stripPort :: "string \<Rightarrow> string" where
  "stripPort host =
     (if host \<noteq> [] \<and> hd host = CHR ''[''
      then (if CHR '']'' \<in> set host then takeWhile (\<lambda>c. c \<noteq> CHR '']'') host @ '']'' else host)
      else before_last_colon host)"

definition parseInstanceFromAuthority :: "string \<Rightarrow> string \<Rightarrow> string option" where
  "parseInstanceFromAuthority authority expectedPrefix =
     (let firstLabel = takeWhile (\<lambda>c. c \<noteq> CHR ''.'') (stripPort authority)
      in if authority = [] \<or> take (length expectedPrefix) firstLabel \<noteq> expectedPrefix then None
         else nonempty (Some (drop (length expectedPrefix) firstLabel)))"

record HttpRequest =
  ht_host :: string
  ht_method :: string
  ht_scheme :: string
  ht_path :: string

record SpendCall =
  xc_callId :: string
  xc_payer :: agent_id
  xc_connectionId :: "string option"
  xc_providers :: "string list"
  xc_sessionId :: "string option"
  xc_routerCallId :: "string option"
  xc_dialect :: ApiDialect

record CheckRequest =
  rc_authority :: string
  rc_http :: "HttpRequest option"
  rc_sni :: "string option"
  rc_spend :: "SpendCall option" \<comment> \<open>what \<^verbatim>\<open>parseSpendMetadata\<close> makes of the gateway's metadata\<close>

definition upper_char :: "char \<Rightarrow> char" where
  "upper_char c = (if CHR ''a'' \<le> c \<and> c \<le> CHR ''z'' then char_of (of_char c - 32 :: nat) else c)"

text \<open>The host of the request, or the TLS server name; empty when there is neither.\<close>

definition request_rawHost :: "CheckRequest \<Rightarrow> string" where
  "request_rawHost request =
     (case Option.bind (rc_http request) (\<lambda>h. nonempty (Some (ht_host h))) of
        Some host \<Rightarrow> host
      | None \<Rightarrow> (case rc_sni request of None \<Rightarrow> [] | Some sni \<Rightarrow> sni))"

definition request_method :: "CheckRequest \<Rightarrow> string" where
  "request_method request =
     (case rc_http request of
        None \<Rightarrow> ''*''
      | Some h \<Rightarrow> if ht_method h = [] then ''*'' else map upper_char (ht_method h))"

definition request_tls :: "CheckRequest \<Rightarrow> bool" where
  "request_tls request \<longleftrightarrow>
     (case rc_http request of
        None \<Rightarrow> True
      | Some h \<Rightarrow> request_method request = ''CONNECT'' \<or> ht_scheme h = ''https'')"

definition request_port :: "bool \<Rightarrow> string \<Rightarrow> string \<Rightarrow> nat" where
  "request_port tls rawHost host =
     (let rest = drop (length host) rawHost;
          portText = (case rest of c # t \<Rightarrow> if c = CHR '':'' then t else rest | [] \<Rightarrow> [])
      in if portText = [] then (if tls then 443 else 80)
         else if length portText \<le> 5 \<and> list_all is_digit portText then digits_value portText else 0)"

definition request_path :: "CheckRequest \<Rightarrow> string" where
  "request_path request =
     (case Option.bind (rc_http request) (\<lambda>h. nonempty (Some (ht_path h))) of
        None \<Rightarrow> ''*'' | Some path \<Rightarrow> stripConnectionEgressPrefix path)"


section \<open>The decision\<close>

record Identity =
  id_ownerSub :: user_sub
  id_agentId :: agent_id
  id_environment :: "string option"

record DeniedResponse =
  dn_status :: nat
  dn_headers :: "(string \<times> string) list"
  dn_body :: string

datatype ExtAuthzDecision =
    GateAllow
  | GateDeny
  | RefuseSpend Refusal
  | RefuseRule DeniedResponse

record SynthFrame =
  sf_approvalId :: string
  sf_host :: string
  sf_port :: "nat option"
  sf_method :: string
  sf_path :: string

record GateWorld =
  gw_world :: SpendWorld
  gw_injected :: "(agent_id \<times> SynthFrame) list" \<comment> \<open>the prompts published to the agents' sessions\<close>

record GateDeps =
  gd_identity :: "agent_id \<Rightarrow> Identity option"
  gd_connections :: "agent_id \<Rightarrow> (string \<times> Contribution list) list"
  gd_providerTemplate :: "string \<Rightarrow> bool"
  gd_openChannelTurn :: "agent_id \<Rightarrow> bool"
  gd_interactiveSession :: "agent_id \<Rightarrow> bool"
  gd_check :: CheckDeps
  gd_date :: "utc_day \<Rightarrow> string"
  gd_holdSeconds :: int
  gd_platformAllowedAuthorities :: "string list"

record GateInput =
  gi_agentId :: agent_id
  gi_host :: string
  gi_port :: nat
  gi_tls :: bool
  gi_method :: string
  gi_path :: string
  gi_spendCall :: "SpendCall option"

definition provider_covers :: "GateDeps \<Rightarrow> agent_id \<Rightarrow> ProviderEgressRequest \<Rightarrow> bool" where
  "provider_covers deps agentId request \<longleftrightarrow>
     list_ex (\<lambda>scope. scopeCovers scope request) (providerEgressScopes (gd_providerTemplate deps) (gd_connections deps agentId))"

definition ruleRefusal :: "string \<Rightarrow> MatchedEgressRule \<Rightarrow> DeniedResponse" where
  "ruleRefusal host rule =
     (let ruleHost = (case mr_port rule of None \<Rightarrow> mr_host rule
                      | Some p \<Rightarrow> if p = 0 then mr_host rule else mr_host rule @ '':'' @ show_nat p)
      in \<lparr>dn_status = 403, dn_headers = [(''content-type'', ''text/plain''), (''x-platform-refusal'', ''egress'')],
          dn_body = ''Blocked by network rule \"deny '' @ ruleHost @ '', method '' @ mr_method rule @ '', path '' @ mr_pathPattern rule
            @ ''\": the egress gateway refused this request to '' @ host
            @ '', not the upstream. The agent's owner can change the rule in the agent's network settings.''\<rparr>)"

definition spend_call :: "time_ms \<Rightarrow> agent_id \<Rightarrow> user_sub \<Rightarrow> SpendCall \<Rightarrow> CheckedCall" where
  "spend_call now agentId ownerSub call =
     \<lparr>kc_callId = xc_callId call,
      kc_meta = \<lparr>cm_agentId = agentId, cm_payer = xc_payer call, cm_ownerSub = ownerSub, cm_connectionId = xc_connectionId call,
        cm_providers = xc_providers call, cm_sessionId = xc_sessionId call, cm_routerCallId = xc_routerCallId call, cm_startedAt = now\<rparr>,
      kc_dialect = xc_dialect call\<rparr>"

text \<open>The spend check of the gate: a refusal asks the questions of the limits, and is the decision.\<close>

definition gate_spend ::
  "GateDeps \<Rightarrow> CheckFaults \<Rightarrow> time_ms \<Rightarrow> agent_id \<Rightarrow> user_sub \<Rightarrow> SpendCall option \<Rightarrow> SpendWorld \<Rightarrow> Refusal option \<times> SpendWorld" where
  "gate_spend deps faults now agentId ownerSub spendCall w =
     (case spendCall of
        None \<Rightarrow> (None, w)
      | Some call \<Rightarrow>
          (case checkCall (gd_check deps) faults (spend_call now agentId ownerSub call) w of
             (AllowCall, w1) \<Rightarrow> (None, w1)
           | (RefuseCall _ response questions, w1) \<Rightarrow>
               (Some response,
                w1\<lparr>sw_approvals := ask (gd_date deps) now (xc_payer call) ownerSub questions (sw_approvals w1)\<rparr>)))"

definition nonDefaultPort :: "bool \<Rightarrow> nat \<Rightarrow> nat option" where
  "nonDefaultPort tls port = (if port = (if tls then 443 else 80) then None else Some port)"

definition hold_row :: "GateDeps \<Rightarrow> time_ms \<Rightarrow> string \<Rightarrow> GateInput \<Rightarrow> Identity \<Rightarrow> string \<Rightarrow> NewPendingApproval" where
  "hold_row deps now pendingId input identity host =
     \<lparr>na_id = pendingId, na_type = ExtAuthz, na_agentId = id_agentId identity, na_ownerSub = id_ownerSub identity, na_sessionId = None,
      na_payload = ExtAuthzPayload
        \<lparr>xp_host = host, xp_port = nonDefaultPort (gi_tls input) (gi_port input), xp_method = gi_method input, xp_path = gi_path input,
         xp_viaAgentId = (if id_agentId identity \<noteq> gi_agentId input then Some (gi_agentId input) else None),
         xp_viaEnvironment = nonempty (id_environment identity)\<rparr>,
      na_expiresAt = now + gd_holdSeconds deps * 1000\<rparr>"

text \<open>The row a request waits on: the open one for the same request, or a new one under \<open>newId\<close>.\<close>

definition open_hold ::
  "GateDeps \<Rightarrow> time_ms \<Rightarrow> string \<Rightarrow> GateInput \<Rightarrow> Identity \<Rightarrow> string \<Rightarrow> ApprovalsState \<Rightarrow> string \<times> ApprovalsState" where
  "open_hold deps now newId input identity host st =
     (case findActivePendingExtAuthz (ap_approvals st) (id_agentId identity) host (nonDefaultPort (gi_tls input) (gi_port input))
             (gi_method input) (gi_path input) of
        Some existing \<Rightarrow> (pa_id existing, st)
      | None \<Rightarrow>
          (newId, emit (ApprovalRequested newId (id_agentId identity) (id_ownerSub identity))
                    (st\<lparr>ap_approvals := snd (insertPending (ap_approvals st) now (hold_row deps now newId input identity host))\<rparr>)))"

text \<open>Decided at once, or held under the id of an approval, or the query failed, which the check answers with a denial.\<close>

datatype GateOutcome = Decided ExtAuthzDecision | Held string Identity | GateFailed QueryError

definition gate_undecided ::
  "GateDeps \<Rightarrow> time_ms \<Rightarrow> string \<Rightarrow> GateInput \<Rightarrow> Identity \<Rightarrow> string \<Rightarrow> GateWorld \<Rightarrow> GateOutcome \<times> GateWorld" where
  "gate_undecided deps now newId input identity host g =
     (let w = gw_world g;
          unattended = gd_openChannelTurn deps (id_agentId identity) \<and> \<not> gd_interactiveSession deps (id_agentId identity)
      in case open_hold deps now newId input identity host (sw_approvals w) of
           (pendingId, st) \<Rightarrow>
             let g1 = g\<lparr>gw_world := w\<lparr>sw_approvals := st\<rparr>\<rparr>
             in if unattended then (Decided GateDeny, g1)
                else (Held pendingId identity,
                      g1\<lparr>gw_injected := gw_injected g1 @
                        [(id_agentId identity,
                          \<lparr>sf_approvalId = pendingId, sf_host = host, sf_port = nonDefaultPort (gi_tls input) (gi_port input),
                           sf_method = gi_method input, sf_path = gi_path input\<rparr>)]\<rparr>))"

definition gateRequest ::
  "GateDeps \<Rightarrow> CheckFaults \<Rightarrow> time_ms \<Rightarrow> string \<Rightarrow> GateInput \<Rightarrow> GateWorld \<Rightarrow> GateOutcome \<times> GateWorld" where
  "gateRequest deps faults now newId input g =
     (let host = canonicalEgressHost (gi_host input)
      in case gd_identity deps (gi_agentId input) of
           None \<Rightarrow> (Decided GateDeny, g)
         | Some identity \<Rightarrow>
             (case gate_spend deps faults now (gi_agentId input) (id_ownerSub identity) (gi_spendCall input) (gw_world g) of
                (Some response, w) \<Rightarrow> (Decided (RefuseSpend response), g\<lparr>gw_world := w\<rparr>)
              | (None, w) \<Rightarrow>
                  let g1 = g\<lparr>gw_world := w\<rparr>
                  in if (host @ '':'' @ show_nat (gi_port input)) \<in> set (gd_platformAllowedAuthorities deps) then (Decided GateAllow, g1)
                     else if hasDotSegment (gi_path input) then (Decided GateDeny, g1)
                     else (case match_egress (as_rules (ap_egress (sw_approvals w))) (id_agentId identity) host (gi_port input) (gi_tls input)
                                  (gi_method input) (gi_path input) of
                             Inl e \<Rightarrow> (GateFailed e, g1)
                           | Inr matched \<Rightarrow>
                               if map_option fst matched \<noteq> Some Allow
                                  \<and> provider_covers deps (gi_agentId input)
                                      \<lparr>rq_host = host, rq_port = gi_port input, rq_tls = gi_tls input, rq_path = gi_path input\<rparr>
                               then (Decided GateAllow, g1)
                               else (case matched of
                                       Some (Deny, rule) \<Rightarrow> (Decided (RefuseRule (ruleRefusal host rule)), g1)
                                     | Some (Allow, _) \<Rightarrow> (Decided GateAllow, g1)
                                     | None \<Rightarrow> gate_undecided deps now newId input identity host g1))))"


section \<open>Waiting for a verdict\<close>

datatype SettledVerdict = HoldResolved bool | HoldExpired bool \<comment> \<open>allowed; the row was expired by this hold\<close>

datatype HoldStep =
    OthersStep "SpendWorld \<Rightarrow> SpendWorld" \<comment> \<open>any other operation of the server\<close>
  | CheckStep \<comment> \<open>a message on the approval's channel, the poll, or the first look\<close>
  | TimeoutStep time_ms bool \<comment> \<open>the hold is over; the write that expires the row fails\<close>

definition checkResolved :: "approvals \<Rightarrow> string \<Rightarrow> SettledVerdict option" where
  "checkResolved t i =
     (case getPending t i of
        None \<Rightarrow> None
      | Some row \<Rightarrow>
          if pa_status row \<noteq> Resolved then None
          else Some (HoldResolved (pa_verdict row = Some AllowAlways \<or> pa_verdict row = Some AllowOnce)))"

text \<open>The verdict at which the promise settles, None while it is open; what comes after it does not count.\<close>

fun waitForVerdict :: "string \<Rightarrow> HoldStep list \<Rightarrow> SpendWorld \<Rightarrow> SettledVerdict option \<times> SpendWorld" where
  "waitForVerdict i [] w = (None, w)"
| "waitForVerdict i (OthersStep f # steps) w = waitForVerdict i steps (f w)"
| "waitForVerdict i (CheckStep # steps) w =
     (case checkResolved (ap_approvals (sw_approvals w)) i of
        Some verdict \<Rightarrow> (Some verdict, w)
      | None \<Rightarrow> waitForVerdict i steps w)"
| "waitForVerdict i (TimeoutStep now fails # steps) w =
     (if fails then (Some (HoldExpired False), w)
      else case expirePending (ap_approvals (sw_approvals w)) now i of
             (flipped, t) \<Rightarrow> (Some (HoldExpired flipped), w\<lparr>sw_approvals := (sw_approvals w)\<lparr>ap_approvals := t\<rparr>\<rparr>))"

fun settled_decision :: "SettledVerdict \<Rightarrow> ExtAuthzDecision" where
  "settled_decision (HoldResolved allowed) = (if allowed then GateAllow else GateDeny)"
| "settled_decision (HoldExpired _) = GateDeny"

definition finish_hold :: "string \<Rightarrow> Identity \<Rightarrow> SettledVerdict \<Rightarrow> SpendWorld \<Rightarrow> SpendWorld" where
  "finish_hold i identity verdict w =
     (if verdict = HoldExpired True
      then w\<lparr>sw_approvals := emit (ApprovalResolved i (id_agentId identity) (id_ownerSub identity) ResolvedExpired) (sw_approvals w)\<rparr>
      else w)"

text \<open>The whole of \<^verbatim>\<open>gateRequest\<close>, with the steps during its hold; None while it is still held.\<close>

definition gate_decision ::
  "GateDeps \<Rightarrow> CheckFaults \<Rightarrow> time_ms \<Rightarrow> string \<Rightarrow> GateInput \<Rightarrow> HoldStep list \<Rightarrow> GateWorld
   \<Rightarrow> (QueryError + ExtAuthzDecision) option \<times> GateWorld" where
  "gate_decision deps faults now newId input steps g =
     (case gateRequest deps faults now newId input g of
        (Decided decision, g1) \<Rightarrow> (Some (Inr decision), g1)
      | (GateFailed e, g1) \<Rightarrow> (Some (Inl e), g1)
      | (Held i identity, g1) \<Rightarrow>
          (case waitForVerdict i steps (gw_world g1) of
             (None, w) \<Rightarrow> (None, g1\<lparr>gw_world := w\<rparr>)
           | (Some verdict, w) \<Rightarrow> (Some (Inr (settled_decision verdict)), g1\<lparr>gw_world := finish_hold i identity verdict w\<rparr>)))"


section \<open>The gRPC check\<close>

record CheckResponse =
  cp_code :: nat
  cp_message :: string
  cp_denied :: "DeniedResponse option"

definition GRPC_STATUS_OK :: nat where "GRPC_STATUS_OK = 0"
definition GRPC_STATUS_PERMISSION_DENIED :: nat where "GRPC_STATUS_PERMISSION_DENIED = 7"

definition denied :: "string \<Rightarrow> CheckResponse" where
  "denied message = \<lparr>cp_code = GRPC_STATUS_PERMISSION_DENIED, cp_message = message, cp_denied = None\<rparr>"

text \<open>
  \<open>headersOf\<close> and \<open>bodyOf\<close> are the headers and the text of a spend refusal, \<open>messageOf\<close> the text of the
  exception that the database driver throws.
\<close>

definition checkResponseOf ::
  "(Refusal \<Rightarrow> (string \<times> string) list) \<Rightarrow> (Refusal \<Rightarrow> string) \<Rightarrow> ExtAuthzDecision \<Rightarrow> CheckResponse" where
  "checkResponseOf headersOf bodyOf decision =
     (case decision of
        GateAllow \<Rightarrow> \<lparr>cp_code = GRPC_STATUS_OK, cp_message = [], cp_denied = None\<rparr>
      | GateDeny \<Rightarrow> denied ''policy denied''
      | RefuseSpend r \<Rightarrow>
          \<lparr>cp_code = GRPC_STATUS_PERMISSION_DENIED, cp_message = ''spend limit'',
           cp_denied = Some \<lparr>dn_status = rf_status r, dn_headers = headersOf r, dn_body = bodyOf r\<rparr>\<rparr>
      | RefuseRule d \<Rightarrow> \<lparr>cp_code = GRPC_STATUS_PERMISSION_DENIED, cp_message = ''policy denied'', cp_denied = Some d\<rparr>)"

definition gate_input :: "agent_id \<Rightarrow> string \<Rightarrow> nat \<Rightarrow> CheckRequest \<Rightarrow> GateInput" where
  "gate_input agentId host port request =
     \<lparr>gi_agentId = agentId, gi_host = host, gi_port = port, gi_tls = request_tls request, gi_method = request_method request,
      gi_path = request_path request, gi_spendCall = rc_spend request\<rparr>"

definition grpc_check ::
  "(Refusal \<Rightarrow> (string \<times> string) list) \<Rightarrow> (Refusal \<Rightarrow> string) \<Rightarrow> (QueryError \<Rightarrow> string) \<Rightarrow> GateDeps \<Rightarrow> string \<Rightarrow> CheckFaults \<Rightarrow> time_ms \<Rightarrow> string
   \<Rightarrow> CheckRequest \<Rightarrow> HoldStep list \<Rightarrow> GateWorld \<Rightarrow> CheckResponse option \<times> GateWorld" where
  "grpc_check headersOf bodyOf messageOf deps releaseName faults now newId request steps g =
     (case parseInstanceFromAuthority (rc_authority request) (releaseName @ ''-extauthz-'') of
        None \<Rightarrow> (Some (denied (''unable to derive instance from :authority='' @ [CHR 0x27] @ rc_authority request @ [CHR 0x27])), g)
      | Some agentId \<Rightarrow>
          (let host = stripPort (request_rawHost request);
               port = request_port (request_tls request) (request_rawHost request) host
           in if host = [] \<or> port < 1 \<or> port > 65535 then (Some (denied ''missing or malformed host/sni''), g)
              else case gate_decision deps faults now newId (gate_input agentId host port request) steps g of
                     (None, g1) \<Rightarrow> (None, g1)
                   | (Some (Inl e), g1) \<Rightarrow> (Some (denied (messageOf e)), g1)
                   | (Some (Inr decision), g1) \<Rightarrow> (Some (checkResponseOf headersOf bodyOf decision), g1)))"

section \<open>Lemmas\<close>

text \<open>The rule that decides: it covers the request and no covering rule is more specific.\<close>

definition rule_decides ::
  "EgressRuleRow table \<Rightarrow> agent_id \<Rightarrow> string \<Rightarrow> nat \<Rightarrow> bool \<Rightarrow> string \<Rightarrow> string \<Rightarrow> RuleVerdict \<Rightarrow> bool" where
  "rule_decides rules agentId host port tls method path verdict \<longleftrightarrow>
     (\<exists>row \<in> set rules. rule_covers agentId host port tls method path row \<and> er_verdict row = verdict
        \<and> (\<forall>row' \<in> set rules. rule_covers agentId host port tls method path row' \<longrightarrow>
             match_rank (canonicalEgressHost host) row \<le> match_rank (canonicalEgressHost host) row'))"

lemma match_egress_decides:
  assumes "match_egress rules agentId host port tls method path = Inr (Some (verdict, rule))"
  shows "rule_decides rules agentId host port tls method path verdict"
proof -
  from assms obtain r where r: "findMatch rules agentId host port tls method path = Inr (Some r)" "er_verdict r = verdict"
    by (cases "findMatch rules agentId host port tls method path") (auto simp: match_egress_def)
  from findMatch_Some [OF r(1)] obtain row where "row \<in> set rules" "rule_covers agentId host port tls method path row"
    "r = queried row" "\<And>row'. \<lbrakk>row' \<in> set rules; rule_covers agentId host port tls method path row'\<rbrakk> \<Longrightarrow>
       match_rank (canonicalEgressHost host) row \<le> match_rank (canonicalEgressHost host) row'"
    by metis
  moreover have "er_verdict (queried row) = er_verdict row" for row by (simp add: queried_def toRow_def)
  ultimately show ?thesis using r(2) by (auto simp: rule_decides_def)
qed

text \<open>The grounds on which a request passes at once.\<close>

definition passes_at_once :: "GateDeps \<Rightarrow> GateInput \<Rightarrow> Identity \<Rightarrow> SpendWorld \<Rightarrow> bool" where
  "passes_at_once deps input identity w \<longleftrightarrow>
     (let host = canonicalEgressHost (gi_host input)
      in (host @ '':'' @ show_nat (gi_port input)) \<in> set (gd_platformAllowedAuthorities deps)
         \<or> \<not> hasDotSegment (gi_path input)
           \<and> (rule_decides (as_rules (ap_egress (sw_approvals w))) (id_agentId identity) host (gi_port input) (gi_tls input)
                 (gi_method input) (gi_path input) Allow
              \<or> provider_covers deps (gi_agentId input)
                  \<lparr>rq_host = host, rq_port = gi_port input, rq_tls = gi_tls input, rq_path = gi_path input\<rparr>))"

text \<open>What stands when a request is held: no rule covers it, and it waits on the row that was opened for it.\<close>

definition is_held :: "GateDeps \<Rightarrow> time_ms \<Rightarrow> string \<Rightarrow> GateInput \<Rightarrow> Identity \<Rightarrow> SpendWorld \<Rightarrow> string \<Rightarrow> SpendWorld \<Rightarrow> bool" where
  "is_held deps now newId input identity w i w' \<longleftrightarrow>
     \<not> hasDotSegment (gi_path input)
     \<and> match_egress (as_rules (ap_egress (sw_approvals w))) (id_agentId identity) (canonicalEgressHost (gi_host input)) (gi_port input)
         (gi_tls input) (gi_method input) (gi_path input) = Inr None
     \<and> open_hold deps now newId input identity (canonicalEgressHost (gi_host input)) (sw_approvals w) = (i, sw_approvals w')
     \<and> w' = w\<lparr>sw_approvals := sw_approvals w'\<rparr>"

lemma gate_undecided_cases:
  "gate_undecided deps now newId input identity host g = (Decided d, g1) \<Longrightarrow> d = GateDeny"
  "gate_undecided deps now newId input identity host g \<noteq> (GateFailed e, g1)"
  "gate_undecided deps now newId input identity host g = (Held i idt, g1) \<Longrightarrow>
     idt = identity \<and> open_hold deps now newId input identity host (sw_approvals (gw_world g)) = (i, sw_approvals (gw_world g1))
     \<and> gw_world g1 = (gw_world g)\<lparr>sw_approvals := sw_approvals (gw_world g1)\<rparr>"
  by (auto simp: gate_undecided_def Let_def split: prod.splits if_splits)

lemma gateRequest_cases:
  assumes "gateRequest deps faults now newId input g = (outcome, g1)"
  shows "outcome = Decided GateAllow \<Longrightarrow> \<exists>identity w. gd_identity deps (gi_agentId input) = Some identity
       \<and> gate_spend deps faults now (gi_agentId input) (id_ownerSub identity) (gi_spendCall input) (gw_world g) = (None, w)
       \<and> passes_at_once deps input identity w"
    and "outcome = Held i idt \<Longrightarrow> \<exists>w. gd_identity deps (gi_agentId input) = Some idt
       \<and> gate_spend deps faults now (gi_agentId input) (id_ownerSub idt) (gi_spendCall input) (gw_world g) = (None, w)
       \<and> is_held deps now newId input idt w i (gw_world g1)"
  using assms
  by (auto simp: gateRequest_def Let_def passes_at_once_def is_held_def dest: match_egress_decides gate_undecided_cases(1,3)
      split: option.splits prod.splits sum.splits if_splits RuleVerdict.splits)

fun others :: "HoldStep list \<Rightarrow> SpendWorld \<Rightarrow> SpendWorld" where
  "others [] w = w"
| "others (OthersStep f # steps) w = others steps (f w)"
| "others (_ # steps) w = others steps w"

definition is_allowed :: "approvals \<Rightarrow> string \<Rightarrow> bool" where
  "is_allowed t i \<longleftrightarrow>
     (\<exists>row. getPending t i = Some row \<and> pa_status row = Resolved \<and> (pa_verdict row = Some AllowAlways \<or> pa_verdict row = Some AllowOnce))"

lemma checkResolved_allow: "checkResolved t i = Some (HoldResolved True) \<longleftrightarrow> is_allowed t i"
  by (auto simp: checkResolved_def is_allowed_def split: option.splits)

lemma wait_allowed:
  assumes "waitForVerdict i steps w = (Some (HoldResolved True), w')"
  shows "\<exists>pre post. steps = pre @ CheckStep # post \<and> w' = others pre w \<and> is_allowed (ap_approvals (sw_approvals w')) i"
  using assms
proof (induction i steps w rule: waitForVerdict.induct)
  case (2 i f steps w)
  then obtain pre post where "steps = pre @ CheckStep # post" "w' = others pre (f w)" "is_allowed (ap_approvals (sw_approvals w')) i" by auto
  then show ?case by (intro exI [of _ "OthersStep f # pre"] exI [of _ post]) simp
next
  case (3 i steps w)
  show ?case
  proof (cases "checkResolved (ap_approvals (sw_approvals w)) i")
    case None
    with 3 obtain pre post where "steps = pre @ CheckStep # post" "w' = others pre w" "is_allowed (ap_approvals (sw_approvals w')) i" by auto
    then show ?thesis by (intro exI [of _ "CheckStep # pre"] exI [of _ post]) simp
  next
    case (Some v)
    then show ?thesis using 3 by (intro exI [of _ "[]"] exI [of _ steps]) (simp add: checkResolved_allow)
  qed
qed (auto split: if_splits prod.splits)

lemma wait_ends:
  "list_ex (\<lambda>s. case s of TimeoutStep _ _ \<Rightarrow> True | _ \<Rightarrow> False) steps \<Longrightarrow> \<exists>v w'. waitForVerdict i steps w = (Some v, w')"
  by (induction i steps w rule: waitForVerdict.induct) (auto split: option.split prod.split)

lemma settled_allow: "settled_decision v = GateAllow \<longleftrightarrow> v = HoldResolved True"
  by (cases v) auto

lemma checkResponse_ok: "cp_code (checkResponseOf hs body d) = GRPC_STATUS_OK \<longleftrightarrow> d = GateAllow"
  by (cases d) (simp_all add: checkResponseOf_def denied_def GRPC_STATUS_OK_def GRPC_STATUS_PERMISSION_DENIED_def)

lemma denied_not_ok [simp]: "cp_code (denied m) \<noteq> GRPC_STATUS_OK"
  by (simp add: denied_def GRPC_STATUS_OK_def GRPC_STATUS_PERMISSION_DENIED_def)

text \<open>The grounds on which a request passes after a hold.\<close>

definition passes_after_hold ::
  "GateDeps \<Rightarrow> time_ms \<Rightarrow> string \<Rightarrow> GateInput \<Rightarrow> Identity \<Rightarrow> SpendWorld \<Rightarrow> HoldStep list \<Rightarrow> bool" where
  "passes_after_hold deps now newId input identity w steps \<longleftrightarrow>
     (\<exists>i w' pre post. is_held deps now newId input identity w i w' \<and> steps = pre @ CheckStep # post
        \<and> is_allowed (ap_approvals (sw_approvals (others pre w'))) i)"

lemma gate_decision_allow:
  assumes "gate_decision deps faults now newId input steps g = (Some (Inr GateAllow), g')"
  shows "\<exists>identity w. gd_identity deps (gi_agentId input) = Some identity
     \<and> gate_spend deps faults now (gi_agentId input) (id_ownerSub identity) (gi_spendCall input) (gw_world g) = (None, w)
     \<and> (passes_at_once deps input identity w \<or> passes_after_hold deps now newId input identity w steps)"
proof (cases "gateRequest deps faults now newId input g")
  case (Pair outcome g1)
  show ?thesis
  proof (cases outcome)
    case (Decided d)
    then show ?thesis using assms Pair gateRequest_cases(1) [OF Pair] by (auto simp: gate_decision_def)
  next
    case (Held i identity)
    with assms Pair obtain w' where "waitForVerdict i steps (gw_world g1) = (Some (HoldResolved True), w')"
      by (auto simp: gate_decision_def settled_allow split: prod.splits option.splits)
    from wait_allowed [OF this] gateRequest_cases(2) [OF Pair Held] show ?thesis
      unfolding passes_after_hold_def by blast
  next
    case (GateFailed e)
    then show ?thesis using assms Pair by (simp add: gate_decision_def)
  qed
qed


section \<open>Properties\<close>

text \<open>
  C34. The gate fails closed: a request of an agent leaves only on one of four grounds. The gateway's
  authority names an agent whose identity resolves, the request has a host and a port, the
  spend check lets it start, and then it goes to an authority that the platform allows; or its
  path has no dot segment and either the most specific covering rule of the agent allows it, or
  a granted model provider needs the host, or no rule covers it and, while it was held, the row
  opened for it was resolved with an allowing verdict.
\<close>

theorem allowed_request_has_a_reason:
  fixes request :: CheckRequest
  assumes "grpc_check headersOf bodyOf messageOf deps releaseName faults now newId request steps g = (Some response, g')"
    and "cp_code response = GRPC_STATUS_OK"
  defines "host \<equiv> stripPort (request_rawHost request)"
  defines "port \<equiv> request_port (request_tls request) (request_rawHost request) host"
  shows "\<exists>agentId identity w.
     parseInstanceFromAuthority (rc_authority request) (releaseName @ ''-extauthz-'') = Some agentId
     \<and> host \<noteq> [] \<and> 1 \<le> port \<and> port \<le> 65535 \<and> gd_identity deps agentId = Some identity
     \<and> gate_spend deps faults now agentId (id_ownerSub identity) (rc_spend request) (gw_world g) = (None, w)
     \<and> (passes_at_once deps (gate_input agentId host port request) identity w
        \<or> passes_after_hold deps now newId (gate_input agentId host port request) identity w steps)"
proof -
  from assms(1,2) obtain agentId where agent: "parseInstanceFromAuthority (rc_authority request) (releaseName @ ''-extauthz-'') = Some agentId"
    by (auto simp: grpc_check_def split: option.splits)
  have valid: "host \<noteq> []" "1 \<le> port" "port \<le> 65535"
    using assms(1,2) agent by (auto simp: grpc_check_def Let_def host_def port_def split: if_splits)
  obtain g1 where "gate_decision deps faults now newId (gate_input agentId host port request) steps g = (Some (Inr GateAllow), g1)"
    using assms(1,2) agent valid
    by (auto simp: grpc_check_def Let_def host_def [symmetric] port_def [symmetric] checkResponse_ok
        split: prod.splits option.splits sum.splits)
  from gate_decision_allow [OF this] agent valid show ?thesis
    by (simp add: gate_input_def)
qed

definition sample_gate :: GateDeps where
  "sample_gate = \<lparr>gd_identity = (\<lambda>a. if a = ''a'' then Some \<lparr>id_ownerSub = ''u'', id_agentId = ''a'', id_environment = None\<rparr> else None),
     gd_connections = \<lambda>_. [], gd_providerTemplate = \<lambda>_. False, gd_openChannelTurn = \<lambda>_. False, gd_interactiveSession = \<lambda>_. True,
     gd_check = sample_check, gd_date = \<lambda>_. ''d'', gd_holdSeconds = 60, gd_platformAllowedAuthorities = []\<rparr>"

definition sample_gate_world :: "EgressRuleRow table \<Rightarrow> GateWorld" where
  "sample_gate_world rules =
     \<lparr>gw_world = sample_world\<lparr>sw_approvals := (sample_approvals_state [])\<lparr>ap_egress := sample_state rules\<rparr>\<rparr>, gw_injected = []\<rparr>"

definition sample_request :: CheckRequest where
  "sample_request = \<lparr>rc_authority = ''dam-extauthz-a.ns:9000'',
     rc_http = Some \<lparr>ht_host = ''X.io:5'', ht_method = ''get'', ht_scheme = ''https'', ht_path = ''/p''\<rparr>, rc_sni = None, rc_spend = None\<rparr>"

lemma sample_check_gate:
  "fst (grpc_check headersOf bodyOf messageOf sample_gate ''dam'' faults now newId sample_request steps g)
   = map_option (case_sum (\<lambda>e. denied (messageOf e)) (checkResponseOf headersOf bodyOf))
       (fst (gate_decision sample_gate faults now newId (gate_input ''a'' ''X.io'' 5 sample_request) steps g))"
proof -
  have "parseInstanceFromAuthority (rc_authority sample_request) (''dam'' @ ''-extauthz-'') = Some ''a''"
    "stripPort (request_rawHost sample_request) = ''X.io''"
    "request_port (request_tls sample_request) (request_rawHost sample_request) ''X.io'' = 5" by code_simp+
  then show ?thesis by (simp add: grpc_check_def Let_def split: prod.split option.split sum.split)
qed

theorem allowed_request_has_a_reason_witness:
  "\<exists>identity w. gd_identity sample_gate ''a'' = Some identity
     \<and> (passes_at_once sample_gate (gate_input ''a'' ''X.io'' 5 sample_request) identity w
        \<or> passes_after_hold sample_gate 0 ''n'' (gate_input ''a'' ''X.io'' 5 sample_request) identity w [])"
proof -
  let ?g = "sample_gate_world [(sample_rule ''r'' ''x.io'' ''GET'' ''*'' Allow)\<lparr>er_port := Some 5\<rparr>]"
  let ?r = "grpc_check (\<lambda>_. []) (\<lambda>_. []) (\<lambda>_. []) sample_gate ''dam'' no_check_faults 0 ''n'' sample_request [] ?g"
  have "fst (gate_decision sample_gate no_check_faults 0 ''n'' (gate_input ''a'' ''X.io'' 5 sample_request) [] ?g) = Some (Inr GateAllow)"
    by code_simp
  then have "?r = (Some (checkResponseOf (\<lambda>_. []) (\<lambda>_. []) GateAllow), snd ?r)"
    using sample_check_gate [of "\<lambda>_. []" "\<lambda>_. []" "\<lambda>_. []" no_check_faults 0 "''n''" "[]" ?g] by (simp add: prod_eq_iff)
  note reason = allowed_request_has_a_reason [OF this]
  have "parseInstanceFromAuthority (rc_authority sample_request) (''dam'' @ ''-extauthz-'') = Some ''a''"
    "stripPort (request_rawHost sample_request) = ''X.io''"
    "request_port (request_tls sample_request) (request_rawHost sample_request) ''X.io'' = 5" by code_simp+
  note reason [unfolded this option.inject]
  moreover have "cp_code (checkResponseOf (\<lambda>_. []) (\<lambda>_. []) GateAllow) = GRPC_STATUS_OK" by (simp add: checkResponse_ok)
  ultimately show ?thesis by blast
qed

definition hold_is_over :: "HoldStep list \<Rightarrow> bool" where
  "hold_is_over steps \<longleftrightarrow> list_ex (\<lambda>s. case s of TimeoutStep _ _ \<Rightarrow> True | _ \<Rightarrow> False) steps"



lemma open_hold_new:
  assumes "open_hold deps now newId input identity host st = (i, st')"
    and "findActivePendingExtAuthz (ap_approvals st) (id_agentId identity) host (nonDefaultPort (gi_tls input) (gi_port input))
           (gi_method input) (gi_path input) = None"
    and "getPending (ap_approvals st) newId = None"
  shows "i = newId \<and> ap_approvals st' = ap_approvals st @ [pending_row now (hold_row deps now newId input identity host)]"
  using assms by (auto simp: open_hold_def insertPending_def ex_id_iff hold_row_def split: option.splits)

lemma approvals_inv_pending:
  assumes "approvals_inv t" and "getPending t (na_id row) = None"
  shows "approvals_inv (t @ [pending_row now row])"
proof -
  have "t @ [pending_row now row] = snd (insertIfAbsent t now row)" using assms(2) by (simp add: insertIfAbsent_def ex_id_iff)
  then show ?thesis using assms(1) approvals_inv_ops by simp
qed

lemma checkCall_keeps_approvals: "sw_approvals (snd (checkCall deps faults call w)) = sw_approvals w"
  by (simp add: checkCall_def spend_read_def Let_def case_prod_beta split: option.split)

lemma gate_spend_passed:
  "gate_spend deps faults now agentId ownerSub spendCall w = (None, w') \<Longrightarrow> sw_approvals w' = sw_approvals w"
  using checkCall_keeps_approvals
  by (auto simp: gate_spend_def split: option.splits prod.splits SpendVerdict.splits) (metis snd_conv)

lemma held_on_new_row:
  assumes "gateRequest deps faults now newId input g = (Held i identity, g1)"
    and "getPending (ap_approvals (sw_approvals (gw_world g))) newId = None"
    and "findActivePendingExtAuthz (ap_approvals (sw_approvals (gw_world g))) (id_agentId identity) (canonicalEgressHost (gi_host input))
           (nonDefaultPort (gi_tls input) (gi_port input)) (gi_method input) (gi_path input) = None"
  shows "i = newId \<and> ap_approvals (sw_approvals (gw_world g1)) = ap_approvals (sw_approvals (gw_world g))
           @ [pending_row now (hold_row deps now newId input identity (canonicalEgressHost (gi_host input)))]"
proof -
  from gateRequest_cases(2) [OF assms(1) refl] obtain w where
    "gate_spend deps faults now (gi_agentId input) (id_ownerSub identity) (gi_spendCall input) (gw_world g) = (None, w)"
    "is_held deps now newId input identity w i (gw_world g1)" by blast
  then show ?thesis using open_hold_new assms(2,3) by (metis gate_spend_passed is_held_def)
qed

lemma resolveOnce_seen:
  assumes "approvals_inv (ap_approvals st)" and "getPending (ap_approvals st) i = Some row" and "pa_status row = Pending"
  shows "checkResolved (ap_approvals (snd (resolveOnce deps now row v st))) i = Some (HoldResolved (v = AllowAlways \<or> v = AllowOnce))"
proof -
  have "pa_id row = i" using getPending_SomeD [OF assms(2)] by simp
  then have "getPending (ap_approvals (snd (resolveOnce deps now row v st))) i =
      Some (row\<lparr>pa_status := Resolved, pa_verdict := Some v, pa_decidedBy := Some (ad_actor deps), pa_resolvedAt := Some now\<rparr>)"
    using assms cas_ops_getPending(1) [OF assms(1), of now i v "ad_actor deps" False i]
    by (simp add: resolveOnce_def resolve_and_emit_def case_prod_beta Let_def)
  then show ?thesis by (simp add: checkResolved_def)
qed



end
