(* ===== verification/Runtime_Outbox.thy ===== *)
theory Runtime_Outbox
  imports Platform_Prelude "HOL-Library.List_Lexorder" "HOL-Library.Char_ord"
begin

text \<open>
  The outbox through which the platform brings an agent's desired state and its events to the
  agent's runtime: the two tables and their statements
  (\<^verbatim>\<open>runtime-delivery/infrastructure/outbox-repo.ts\<close>), the writer that other modules use
  (\<^verbatim>\<open>services/runtime-mutator.ts\<close>), the progress of a row (\<^verbatim>\<open>domain/outbox-progress.ts\<close>) and
  the filter by the capabilities of a runtime (\<^verbatim>\<open>domain/capability-filter.ts\<close>). Rows of one
  version come in the order of the scan. The tables refine a queue per agent, in which the
  position of an event stands for its version.
\<close>

section \<open>Kinds and rows\<close>

datatype ContributionKind =
  EnvKind | EgressAllowKind | EgressInjectKind | EgressSignKind | FileKind | McpEntryKind | SkillRefKind

datatype EventKind =
    Trigger | ScheduleReset | WorkspaceSeed | WorkspaceCommand | AgentInstructions | Initialization
  | HarnessConfig | SatelliteOutcome | SubAgentOutcome | InvocationScript | SessionMessageKind
  | SessionDefaults | StartupItems

definition workspaceMutationEventKinds :: "EventKind list" where
  "workspaceMutationEventKinds = [WorkspaceSeed, WorkspaceCommand]"

definition isWorkspaceMutationEventKind :: "EventKind \<Rightarrow> bool" where
  "isWorkspaceMutationEventKind kind \<longleftrightarrow> kind \<in> set workspaceMutationEventKinds"

record DriverFailure =
  df_kind :: ContributionKind
  df_message :: string

record OutboxRow =
  ob_agentId :: agent_id
  ob_version :: nat
  ob_lastEnqueuedAt :: time_ms
  ob_lastSettledVersion :: nat
  ob_lastAppliedVersion :: nat
  ob_lastAppliedHash :: "string option"
  ob_lastAppliedAt :: "time_ms option"
  ob_applyFailures :: "DriverFailure list"
  ob_applyAttempts :: nat
  ob_droppedContributionKinds :: "ContributionKind list"

text \<open>
  The payload of a message between the sessions of an agent, which the platform reads itself, and
  every other payload, which it only passes on.
\<close>

record SessionMessagePayload =
  sm_sessionId :: string
  sm_text :: string
  sm_fromSessionId :: "string option"
  sm_notice :: bool

datatype EventPayload = MessagePayload SessionMessagePayload | OtherPayload string

record PendingEventRow =
  pe_id :: string
  pe_agentId :: agent_id
  pe_kind :: EventKind
  pe_payload :: EventPayload
  pe_version :: nat
  pe_expiresAt :: time_ms

record EventRow = PendingEventRow +
  re_dispatchedAt :: "time_ms option"
  re_attempts :: nat
  re_error :: "string option"
  re_reportedAt :: "time_ms option"

record OutboxState =
  os_rows :: "OutboxRow table"
  os_events :: "EventRow table"

definition MAX_APPLY_ATTEMPTS :: nat where "MAX_APPLY_ATTEMPTS = 8"

section \<open>The statements\<close>

definition getRow :: "agent_id \<Rightarrow> OutboxState \<Rightarrow> OutboxRow option" where
  "getRow agentId st = find (\<lambda>r. ob_agentId r = agentId) (os_rows st)"

definition new_row :: "time_ms \<Rightarrow> agent_id \<Rightarrow> OutboxRow" where
  "new_row now agentId =
     \<lparr>ob_agentId = agentId, ob_version = 1, ob_lastEnqueuedAt = now, ob_lastSettledVersion = 0,
      ob_lastAppliedVersion = 0, ob_lastAppliedHash = None, ob_lastAppliedAt = None,
      ob_applyFailures = [], ob_applyAttempts = 0, ob_droppedContributionKinds = []\<rparr>"

definition bumpVersion :: "time_ms \<Rightarrow> agent_id \<Rightarrow> bool \<Rightarrow> OutboxState \<Rightarrow> nat \<times> OutboxState" where
  "bumpVersion now agentId resetContributionErrors st =
     (case getRow agentId st of
        None \<Rightarrow> (1, st\<lparr>os_rows := os_rows st @ [new_row now agentId]\<rparr>)
      | Some row \<Rightarrow>
          (ob_version row + 1,
           st\<lparr>os_rows := update_where (\<lambda>r. ob_agentId r = agentId)
                (\<lambda>r. let r1 = r\<lparr>ob_version := ob_version r + 1, ob_lastEnqueuedAt := now\<rparr>
                     in if resetContributionErrors then r1\<lparr>ob_applyAttempts := 0, ob_applyFailures := []\<rparr> else r1)
                (os_rows st)\<rparr>))"

definition claimEventReport ::
  "time_ms \<Rightarrow> string \<Rightarrow> agent_id \<Rightarrow> string option \<Rightarrow> OutboxState \<Rightarrow> PendingEventRow option \<times> OutboxState" where
  "claimEventReport now eventId agentId detail st =
     (let p = (\<lambda>r. pe_id r = eventId \<and> pe_agentId r = agentId \<and> re_reportedAt r = None)
      in (map_option PendingEventRow.truncate (find p (os_events st)),
          st\<lparr>os_events := update_where p (\<lambda>r. r\<lparr>re_error := detail, re_reportedAt := Some now\<rparr>) (os_events st)\<rparr>))"

definition is_waiting :: "time_ms \<Rightarrow> agent_id \<Rightarrow> EventRow \<Rightarrow> bool" where
  "is_waiting now agentId r \<longleftrightarrow> pe_agentId r = agentId \<and> re_dispatchedAt r = None \<and> now < pe_expiresAt r"

definition pendingEvents :: "time_ms \<Rightarrow> agent_id \<Rightarrow> OutboxState \<Rightarrow> PendingEventRow list" where
  "pendingEvents now agentId st =
     map PendingEventRow.truncate (sort_key pe_version (filter (is_waiting now agentId) (os_events st)))"

text \<open>\<^verbatim>\<open>[...new Set(kinds)].sort()\<close> on the names of the kinds.\<close>

fun contribution_kind_name :: "ContributionKind \<Rightarrow> string" where
  "contribution_kind_name EnvKind = ''env''"
| "contribution_kind_name EgressAllowKind = ''egress-allow''"
| "contribution_kind_name EgressInjectKind = ''egress-inject''"
| "contribution_kind_name EgressSignKind = ''egress-sign''"
| "contribution_kind_name FileKind = ''file''"
| "contribution_kind_name McpEntryKind = ''mcp-entry''"
| "contribution_kind_name SkillRefKind = ''skill-ref''"

definition sortedKinds :: "string list \<Rightarrow> string list" where
  "sortedKinds kinds = sort (remdups kinds)"

definition kindSetChanged :: "string list \<Rightarrow> string list \<Rightarrow> bool" where
  "kindSetChanged prev next' \<longleftrightarrow> sortedKinds prev \<noteq> sortedKinds next'"

text \<open>The outcome of a delivery, and what recording it reports.\<close>

record DeliveryResult =
  dl_appliedVersion :: nat
  dl_appliedHash :: "string option"
  dl_failures :: "DriverFailure list"
  dl_settledEventIds :: "string list"
  dl_deliveredEventIds :: "string list"
  dl_droppedContributionKinds :: "ContributionKind list"

record ApplyTransitions =
  at_newlyFailed :: "DriverFailure list"
  at_recovered :: "ContributionKind list"
  at_gaveUp :: "DriverFailure list"
  at_eventsGaveUp :: "(string \<times> EventKind) list"
  at_settledEvents :: "PendingEventRow list"
  at_droppedKindsChanged :: bool

definition no_transitions :: ApplyTransitions where
  "no_transitions =
     \<lparr>at_newlyFailed = [], at_recovered = [], at_gaveUp = [], at_eventsGaveUp = [], at_settledEvents = [],
      at_droppedKindsChanged = False\<rparr>"

definition settle_events :: "time_ms \<Rightarrow> agent_id \<Rightarrow> string list \<Rightarrow> EventRow table \<Rightarrow> PendingEventRow list \<times> EventRow table" where
  "settle_events now agentId ids t =
     (let p = (\<lambda>r. pe_agentId r = agentId \<and> pe_id r \<in> set ids \<and> re_dispatchedAt r = None);
          t1 = update_where p (\<lambda>r. r\<lparr>re_dispatchedAt := Some now\<rparr>) t
      in (map PendingEventRow.truncate (filter p t),
          update_where (\<lambda>r. pe_agentId r = agentId \<and> pe_id r \<in> set ids \<and> isWorkspaceMutationEventKind (pe_kind r))
            (\<lambda>r. r\<lparr>re_error := None\<rparr>) t1))"

text \<open>\<^verbatim>\<open>coalesce(error || ' - ', '') || 'gave up ...'\<close>, with the bytes of the em dash.\<close>

definition gave_up_error :: "string option \<Rightarrow> string" where
  "gave_up_error e =
     (case e of None \<Rightarrow> [] | Some text \<Rightarrow> text @ '' '' @ [CHR 0xE2, CHR 0x80, CHR 0x94] @ '' '')
     @ ''gave up after 8 delivery attempts''"

definition fail_events ::
  "time_ms \<Rightarrow> agent_id \<Rightarrow> string list \<Rightarrow> EventRow table \<Rightarrow> (string \<times> EventKind) list \<times> EventRow table" where
  "fail_events now agentId ids t =
     (let p = (\<lambda>r. pe_agentId r = agentId \<and> pe_id r \<in> set ids \<and> isWorkspaceMutationEventKind (pe_kind r)
                   \<and> re_dispatchedAt r = None);
          t1 = update_where p (\<lambda>r. r\<lparr>re_attempts := re_attempts r + 1\<rparr>) t;
          exhausted = filter (\<lambda>r. p r \<and> MAX_APPLY_ATTEMPTS \<le> re_attempts r) t1
      in (map (\<lambda>r. (pe_id r, pe_kind r)) exhausted,
          update_where (\<lambda>r. pe_agentId r = agentId \<and> pe_id r \<in> set (map pe_id exhausted))
            (\<lambda>r. r\<lparr>re_dispatchedAt := Some now, re_error := Some (gave_up_error (re_error r))\<rparr>) t1))"

definition unsettled_ids :: "DeliveryResult \<Rightarrow> string list" where
  "unsettled_ids result = filter (\<lambda>i. i \<notin> set (dl_settledEventIds result)) (dl_deliveredEventIds result)"

text \<open>The outbox row after an outcome, and what it says that the row did not say before.\<close>

definition settle_row :: "time_ms \<Rightarrow> nat \<Rightarrow> DeliveryResult \<Rightarrow> OutboxRow \<Rightarrow> OutboxRow" where
  "settle_row now settledVersion result row =
     (if dl_failures result = [] \<and> dl_appliedHash result \<noteq> None
      then row\<lparr>ob_lastSettledVersion := settledVersion, ob_lastAppliedVersion := dl_appliedVersion result,
               ob_lastAppliedHash := dl_appliedHash result, ob_lastAppliedAt := Some now, ob_applyFailures := [],
               ob_applyAttempts := 0, ob_droppedContributionKinds := dl_droppedContributionKinds result\<rparr>
      else row\<lparr>ob_lastSettledVersion := settledVersion, ob_applyFailures := dl_failures result,
               ob_applyAttempts := ob_applyAttempts row + 1,
               ob_droppedContributionKinds := dl_droppedContributionKinds result\<rparr>)"

definition transitions_of :: "DeliveryResult \<Rightarrow> OutboxRow \<Rightarrow> ApplyTransitions" where
  "transitions_of result prev =
     (let prevKinds = first_occurrences (map df_kind (ob_applyFailures prev));
          currKinds = map df_kind (dl_failures result);
          clean = (dl_failures result = [] \<and> dl_appliedHash result \<noteq> None)
      in \<lparr>at_newlyFailed = filter (\<lambda>f. df_kind f \<notin> set prevKinds) (dl_failures result),
          at_recovered = filter (\<lambda>k. k \<notin> set currKinds) prevKinds,
          at_gaveUp = (if \<not> clean \<and> ob_applyAttempts prev < MAX_APPLY_ATTEMPTS
                          \<and> MAX_APPLY_ATTEMPTS \<le> ob_applyAttempts prev + 1
                       then dl_failures result else []),
          at_eventsGaveUp = [], at_settledEvents = [],
          at_droppedKindsChanged =
            kindSetChanged (map contribution_kind_name (ob_droppedContributionKinds prev))
              (map contribution_kind_name (dl_droppedContributionKinds result))\<rparr>)"

definition recordOutcome ::
  "time_ms \<Rightarrow> agent_id \<Rightarrow> nat \<Rightarrow> DeliveryResult \<Rightarrow> OutboxState \<Rightarrow> ApplyTransitions \<times> OutboxState" where
  "recordOutcome now agentId settledVersion result st =
     (case getRow agentId st of
        None \<Rightarrow> (no_transitions, st)
      | Some prev \<Rightarrow>
          (case settle_events now agentId (dl_settledEventIds result) (os_events st) of
             (settledEvents, t1) \<Rightarrow>
               (case fail_events now agentId (unsettled_ids result) t1 of
                  (eventsGaveUp, t2) \<Rightarrow>
                    let st1 = st\<lparr>os_events := t2\<rparr>
                    in if settledVersion < ob_lastSettledVersion prev
                       then (no_transitions\<lparr>at_eventsGaveUp := eventsGaveUp, at_settledEvents := settledEvents\<rparr>, st1)
                       else ((transitions_of result prev)
                               \<lparr>at_eventsGaveUp := eventsGaveUp, at_settledEvents := settledEvents\<rparr>,
                             st1\<lparr>os_rows := update_where (\<lambda>r. ob_agentId r = agentId)
                                   (settle_row now settledVersion result) (os_rows st1)\<rparr>))))"

definition listRetryable :: "time_ms \<Rightarrow> OutboxState \<Rightarrow> OutboxRow list" where
  "listRetryable now st =
     filter (\<lambda>r. ob_lastSettledVersion r < ob_version r
               \<or> (ob_applyFailures r \<noteq> [] \<and> ob_applyAttempts r < MAX_APPLY_ATTEMPTS)
               \<or> list_ex (is_waiting now (ob_agentId r)) (os_events st)) (os_rows st)"

definition preparingWorkspaceAgentIds :: "time_ms \<Rightarrow> agent_id list \<Rightarrow> OutboxState \<Rightarrow> agent_id set" where
  "preparingWorkspaceAgentIds now agentIds st =
     set (map pe_agentId (filter (\<lambda>r. pe_agentId r \<in> set agentIds \<and> isWorkspaceMutationEventKind (pe_kind r)
                                        \<and> is_waiting now (pe_agentId r) r) (os_events st)))"

record WorkspaceFailure =
  wf_kind :: EventKind
  wf_error :: string
  wf_settled :: bool
  wf_attempts :: nat

text \<open>The newest event of each kind, if it has an error, in the order of their versions from the newest.\<close>

fun newest_failures :: "EventKind list \<Rightarrow> EventRow list \<Rightarrow> WorkspaceFailure list" where
  "newest_failures seen [] = []"
| "newest_failures seen (r # rows) =
     (if pe_kind r \<in> set seen then newest_failures seen rows
      else (case re_error r of
              None \<Rightarrow> []
            | Some e \<Rightarrow> [\<lparr>wf_kind = pe_kind r, wf_error = e, wf_settled = re_dispatchedAt r \<noteq> None,
                          wf_attempts = re_attempts r\<rparr>])
           @ newest_failures (pe_kind r # seen) rows)"

definition workspaceFailures :: "agent_id \<Rightarrow> OutboxState \<Rightarrow> WorkspaceFailure list" where
  "workspaceFailures agentId st =
     newest_failures []
       (rev (sort_key pe_version (filter (\<lambda>r. pe_agentId r = agentId \<and> isWorkspaceMutationEventKind (pe_kind r))
                                    (os_events st))))"

definition latestWorkspaceEvent :: "agent_id \<Rightarrow> EventKind \<Rightarrow> OutboxState \<Rightarrow> PendingEventRow option" where
  "latestWorkspaceEvent agentId kind st =
     (case rev (sort_key pe_version (filter (\<lambda>r. pe_agentId r = agentId \<and> pe_kind r = kind) (os_events st))) of
        [] \<Rightarrow> None
      | r # _ \<Rightarrow> Some (PendingEventRow.truncate r))"

definition drop_waiting :: "time_ms \<Rightarrow> string \<Rightarrow> agent_id \<Rightarrow> EventKind list \<Rightarrow> EventRow table \<Rightarrow> EventRow table" where
  "drop_waiting now why agentId kinds t =
     update_where (\<lambda>r. pe_agentId r = agentId \<and> pe_kind r \<in> set kinds \<and> re_dispatchedAt r = None)
       (\<lambda>r. r\<lparr>re_dispatchedAt := Some now, re_error := Some why\<rparr>) t"

definition markEventsUndeliverable :: "time_ms \<Rightarrow> agent_id \<Rightarrow> EventKind list \<Rightarrow> OutboxState \<Rightarrow> nat \<times> OutboxState" where
  "markEventsUndeliverable now agentId kinds st =
     (length (filter (\<lambda>r. pe_agentId r = agentId \<and> pe_kind r \<in> set kinds \<and> re_dispatchedAt r = None) (os_events st)),
      st\<lparr>os_events := drop_waiting now (''event kind not supported by the agent'' @ [CHR 0x27] @ ''s runtime'')
           agentId kinds (os_events st)\<rparr>)"

definition supersedePending :: "time_ms \<Rightarrow> agent_id \<Rightarrow> EventKind \<Rightarrow> OutboxState \<Rightarrow> OutboxState" where
  "supersedePending now agentId kind st =
     st\<lparr>os_events := drop_waiting now ''superseded by a newer event of the same kind'' agentId [kind] (os_events st)\<rparr>"

definition outbox_deleteForAgent :: "agent_id \<Rightarrow> OutboxState \<Rightarrow> OutboxState" where
  "outbox_deleteForAgent agentId st =
     \<lparr>os_rows = delete_where (\<lambda>r. ob_agentId r = agentId) (os_rows st),
      os_events = delete_where (\<lambda>r. pe_agentId r = agentId) (os_events st)\<rparr>"

definition outbox_listAgentIds :: "OutboxState \<Rightarrow> agent_id list" where
  "outbox_listAgentIds st = first_occurrences (map ob_agentId (os_rows st) @ map pe_agentId (os_events st))"

definition deleteExpiredEvents :: "time_ms \<Rightarrow> OutboxState \<Rightarrow> PendingEventRow list \<times> OutboxState" where
  "deleteExpiredEvents now st =
     (let p = (\<lambda>r. re_dispatchedAt r = None \<and> pe_expiresAt r < now)
      in (map PendingEventRow.truncate (filter p (os_events st)), st\<lparr>os_events := delete_where p (os_events st)\<rparr>))"

definition insertEvent :: "PendingEventRow \<Rightarrow> OutboxState \<Rightarrow> OutboxState" where
  "insertEvent input st =
     (if list_ex (\<lambda>r. pe_id r = pe_id input) (os_events st) then st
      else st\<lparr>os_events := os_events st @
             [PendingEventRow.extend input
                \<lparr>re_dispatchedAt = None, re_attempts = 0, re_error = None, re_reportedAt = None\<rparr>]\<rparr>)"

section \<open>Writing to the outbox\<close>

record OutboxEvent =
  oe_id :: string
  oe_kind :: EventKind
  oe_payload :: EventPayload
  oe_expiresAt :: time_ms

definition outbox_pending_row :: "agent_id \<Rightarrow> nat \<Rightarrow> OutboxEvent \<Rightarrow> PendingEventRow" where
  "outbox_pending_row agentId version e =
     \<lparr>pe_id = oe_id e, pe_agentId = agentId, pe_kind = oe_kind e, pe_payload = oe_payload e,
      pe_version = version, pe_expiresAt = oe_expiresAt e\<rparr>"

definition mutator_bump :: "time_ms \<Rightarrow> agent_id \<Rightarrow> OutboxEvent list \<Rightarrow> OutboxState \<Rightarrow> nat \<times> OutboxState" where
  "mutator_bump now agentId events st =
     (if events = [] then bumpVersion now agentId True st
      else case bumpVersion now agentId False st of
             (version, st1) \<Rightarrow> (version, fold (\<lambda>e. insertEvent (outbox_pending_row agentId version e)) events st1))"

definition OUTBOX_EVENT_TTL_MS :: int where "OUTBOX_EVENT_TTL_MS = 30 * 24 * 60 * 60 * 1000"

definition workspaceEvent :: "EventKind \<Rightarrow> string \<Rightarrow> agent_id \<Rightarrow> EventPayload \<Rightarrow> nat \<Rightarrow> OutboxEvent" where
  "workspaceEvent kind idPrefix agentId payload at' =
     \<lparr>oe_id = idPrefix @ '':'' @ agentId @ '':'' @ show_nat at', oe_kind = kind, oe_payload = payload,
      oe_expiresAt = int at' + OUTBOX_EVENT_TTL_MS\<rparr>"

section \<open>Progress and capabilities\<close>

record ContributionsProgress =
  cp_version :: nat
  cp_settled :: bool
  cp_applied :: bool
  cp_failures :: "DriverFailure list"

definition progressOf :: "OutboxRow option \<Rightarrow> ContributionsProgress" where
  "progressOf row =
     (case row of
        None \<Rightarrow> \<lparr>cp_version = 0, cp_settled = True, cp_applied = True, cp_failures = []\<rparr>
      | Some r \<Rightarrow> \<lparr>cp_version = ob_version r, cp_settled = ob_version r \<le> ob_lastSettledVersion r,
                   cp_applied = ob_version r \<le> ob_lastAppliedVersion r, cp_failures = ob_applyFailures r\<rparr>)"

record AgentCapabilities =
  cap_contributions :: "ContributionKind list"
  cap_events :: "EventKind list"

definition HOST_RAIL_KINDS :: "ContributionKind list" where
  "HOST_RAIL_KINDS = [EgressAllowKind, EgressInjectKind, EgressSignKind]"

record ('c, 'e) CapabilityFilterResult =
  cf_contributions :: "'c list"
  cf_events :: "'e list"
  cf_droppedContributionKinds :: "ContributionKind list"
  cf_droppedEventKinds :: "EventKind list"

definition filterByCapabilities ::
  "('c \<Rightarrow> ContributionKind) \<Rightarrow> ('e \<Rightarrow> EventKind) \<Rightarrow> AgentCapabilities \<Rightarrow> 'c list \<Rightarrow> 'e list \<Rightarrow> ('c, 'e) CapabilityFilterResult" where
  "filterByCapabilities contribKind eventKind capabilities contributions events =
     (let allowedContrib = (\<lambda>c. contribKind c \<in> set (cap_contributions capabilities));
          allowedEvent = (\<lambda>e. eventKind e \<in> set (cap_events capabilities))
      in \<lparr>cf_contributions = filter allowedContrib contributions,
          cf_events = filter allowedEvent events,
          cf_droppedContributionKinds =
            first_occurrences (map contribKind (filter (\<lambda>c. \<not> allowedContrib c \<and> contribKind c \<notin> set HOST_RAIL_KINDS) contributions)),
          cf_droppedEventKinds = first_occurrences (map eventKind (filter (\<lambda>e. \<not> allowedEvent e) events))\<rparr>)"

text \<open>The kinds that a runtime's hello names; a runtime that said nothing names none.\<close>

fun event_kind_name :: "EventKind \<Rightarrow> string" where
  "event_kind_name Trigger = ''trigger''"
| "event_kind_name ScheduleReset = ''schedule-reset''"
| "event_kind_name WorkspaceSeed = ''workspace-seed''"
| "event_kind_name WorkspaceCommand = ''workspace-command''"
| "event_kind_name AgentInstructions = ''agent-instructions''"
| "event_kind_name Initialization = ''initialization''"
| "event_kind_name HarnessConfig = ''harness-config''"
| "event_kind_name SatelliteOutcome = ''satellite-outcome''"
| "event_kind_name SubAgentOutcome = ''sub-agent-outcome''"
| "event_kind_name InvocationScript = ''invocation-script''"
| "event_kind_name SessionMessageKind = ''session-message''"
| "event_kind_name SessionDefaults = ''session-defaults''"
| "event_kind_name StartupItems = ''startup-items''"

definition advertisedKindsKey :: "AgentCapabilities option \<Rightarrow> string list \<times> string list" where
  "advertisedKindsKey capabilities =
     (case capabilities of
        None \<Rightarrow> ([], [])
      | Some c \<Rightarrow> (sortedKinds (map contribution_kind_name (cap_contributions c)), sortedKinds (map event_kind_name (cap_events c))))"

definition advertisedKindsChanged :: "AgentCapabilities option \<Rightarrow> AgentCapabilities option \<Rightarrow> bool" where
  "advertisedKindsChanged prev next' \<longleftrightarrow> advertisedKindsKey prev \<noteq> advertisedKindsKey next'"

section \<open>Sorting tables\<close>

lemma sort_key_map: "sort_key k (map g xs) = map g (sort_key (\<lambda>x. k (g x)) xs)"
proof -
  have "insort_key k (g x) (map g ys) = map g (insort_key (\<lambda>x. k (g x)) x ys)" for x ys
    by (induction ys) auto
  then show ?thesis by (induction xs) auto
qed

lemma sort_key_append:
  assumes "\<And>x y. x \<in> set xs \<Longrightarrow> y \<in> set ys \<Longrightarrow> k x \<le> k y"
  shows "sort_key k (xs @ ys) = sort_key k xs @ sort_key k ys"
proof -
  have "insort_key k x (as @ bs) = insort_key k x as @ bs" if "\<And>b. b \<in> set bs \<Longrightarrow> k x \<le> k b" for x as bs
    using that by (induction as) (auto intro: insort_is_Cons)
  note step = this
  show ?thesis using assms
  proof (induction xs)
    case (Cons x xs)
    then have "sort_key k (xs @ ys) = sort_key k xs @ sort_key k ys" by simp
    with step [of "sort_key k ys" x "sort_key k xs"] Cons.prems show ?case by simp
  qed simp
qed

lemma sort_key_same: "(\<And>x. x \<in> set xs \<Longrightarrow> k x = v) \<Longrightarrow> sort_key k xs = xs"
  by (induction xs) (auto intro: insort_is_Cons)

text \<open>A change of rows that keeps their order and wakes none up, seen in the sorted selection.\<close>

lemma sort_key_filter_map:
  assumes "\<And>r. k (g r) = k r" and "\<And>r. P (g r) \<Longrightarrow> P r"
  shows "sort_key k (filter P (map g t)) = map g (filter (\<lambda>r. P (g r)) (sort_key k (filter P t)))"
proof -
  have "filter P (map g t) = map g (filter (\<lambda>r. P (g r)) (filter P t))"
    using assms(2) by (induction t) auto
  then show ?thesis by (simp add: sort_key_map assms(1) filter_sort)
qed

section \<open>The queue of an agent\<close>

record QueuedEvent =
  qe_id :: string
  qe_kind :: EventKind
  qe_payload :: EventPayload
  qe_expiresAt :: time_ms
  qe_attempts :: nat

definition queued :: "EventRow \<Rightarrow> QueuedEvent" where
  "queued r = \<lparr>qe_id = pe_id r, qe_kind = pe_kind r, qe_payload = pe_payload r,
               qe_expiresAt = pe_expiresAt r, qe_attempts = re_attempts r\<rparr>"

definition undispatched :: "agent_id \<Rightarrow> EventRow \<Rightarrow> bool" where
  "undispatched agentId r \<longleftrightarrow> pe_agentId r = agentId \<and> re_dispatchedAt r = None"

definition queue_of :: "OutboxState \<Rightarrow> agent_id \<Rightarrow> QueuedEvent list" where
  "queue_of st agentId = map queued (sort_key pe_version (filter (undispatched agentId) (os_events st)))"

text \<open>The operations on the outbox, and what each does to the queues.\<close>

datatype OutboxOp =
    Enqueue time_ms agent_id "OutboxEvent list"
  | Record time_ms agent_id nat DeliveryResult
  | Undeliverable time_ms agent_id "EventKind list"
  | Supersede time_ms agent_id EventKind
  | Expire time_ms
  | Report time_ms string agent_id "string option"

fun outbox_step :: "OutboxOp \<Rightarrow> OutboxState \<Rightarrow> OutboxState" where
  "outbox_step (Enqueue now agentId events) st = snd (mutator_bump now agentId events st)"
| "outbox_step (Record now agentId version result) st = snd (recordOutcome now agentId version result st)"
| "outbox_step (Undeliverable now agentId kinds) st = snd (markEventsUndeliverable now agentId kinds st)"
| "outbox_step (Supersede now agentId kind) st = supersedePending now agentId kind st"
| "outbox_step (Expire now) st = snd (deleteExpiredEvents now st)"
| "outbox_step (Report now eventId agentId detail) st = snd (claimEventReport now eventId agentId detail st)"

definition fresh_queued :: "OutboxEvent \<Rightarrow> QueuedEvent" where
  "fresh_queued e = \<lparr>qe_id = oe_id e, qe_kind = oe_kind e, qe_payload = oe_payload e,
                     qe_expiresAt = oe_expiresAt e, qe_attempts = 0\<rparr>"

text \<open>
  What an outcome does to one queued event: a settled one leaves; a workspace mutation that was
  delivered and did not settle has one attempt more and leaves with the eighth.
\<close>

definition after_outcome :: "DeliveryResult \<Rightarrow> QueuedEvent \<Rightarrow> QueuedEvent option" where
  "after_outcome result q =
     (if qe_id q \<in> set (dl_settledEventIds result) then None
      else if qe_id q \<in> set (dl_deliveredEventIds result) \<and> isWorkspaceMutationEventKind (qe_kind q)
      then (if MAX_APPLY_ATTEMPTS \<le> qe_attempts q + 1 then None else Some (q\<lparr>qe_attempts := qe_attempts q + 1\<rparr>))
      else Some q)"

fun queue_step :: "OutboxOp \<Rightarrow> (agent_id \<Rightarrow> QueuedEvent list) \<Rightarrow> agent_id \<Rightarrow> QueuedEvent list" where
  "queue_step (Enqueue now agentId events) q = q(agentId := q agentId @ map fresh_queued events)"
| "queue_step (Record now agentId version result) q = q(agentId := List.map_filter (after_outcome result) (q agentId))"
| "queue_step (Undeliverable now agentId kinds) q = q(agentId := filter (\<lambda>e. qe_kind e \<notin> set kinds) (q agentId))"
| "queue_step (Supersede now agentId kind) q = q(agentId := filter (\<lambda>e. qe_kind e \<noteq> kind) (q agentId))"
| "queue_step (Expire now) q = (\<lambda>agentId. filter (\<lambda>e. \<not> qe_expiresAt e < now) (q agentId))"
| "queue_step (Report now eventId agentId detail) q = q"

text \<open>
  What the callers see to: an event's id is new, and an outcome is of a version that the row has
  reached.
\<close>

fun outbox_guard :: "OutboxOp \<Rightarrow> OutboxState \<Rightarrow> bool" where
  "outbox_guard (Enqueue now agentId events) st \<longleftrightarrow>
     distinct (map oe_id events) \<and> set (map oe_id events) \<inter> set (map pe_id (os_events st)) = {}"
| "outbox_guard (Record now agentId version result) st \<longleftrightarrow>
     dl_appliedVersion result \<le> version
     \<and> (case getRow agentId st of None \<Rightarrow> True | Some row \<Rightarrow> version \<le> ob_version row)"
| "outbox_guard _ st \<longleftrightarrow> True"

definition outbox_row_ok :: "OutboxRow \<Rightarrow> bool" where
  "outbox_row_ok r \<longleftrightarrow> ob_lastAppliedVersion r \<le> ob_lastSettledVersion r \<and> ob_lastSettledVersion r \<le> ob_version r
     \<and> (ob_applyFailures r \<noteq> [] \<longrightarrow> 0 < ob_applyAttempts r)"

definition event_ok :: "OutboxRow table \<Rightarrow> EventRow \<Rightarrow> bool" where
  "event_ok rows e \<longleftrightarrow> (re_dispatchedAt e = None \<longrightarrow> re_attempts e < MAX_APPLY_ATTEMPTS)
     \<and> list_ex (\<lambda>r. ob_agentId r = pe_agentId e \<and> pe_version e \<le> ob_version r) rows"

definition outbox_inv :: "OutboxState \<Rightarrow> bool" where
  "outbox_inv st \<longleftrightarrow> distinct (map ob_agentId (os_rows st)) \<and> distinct (map pe_id (os_events st))
     \<and> list_all outbox_row_ok (os_rows st) \<and> list_all (event_ok (os_rows st)) (os_events st)"

section \<open>The invariant\<close>

lemma distinct_map_same:
  assumes "\<And>x. x \<in> set t \<Longrightarrow> k (f x) = k x" and "distinct (map k t)"
  shows "distinct (map (k \<circ> f) t)"
proof -
  have "map (k \<circ> f) t = map k t" using assms(1) by simp
  with assms(2) show ?thesis by presburger
qed

lemma event_ok_rows:
  assumes "\<And>r. r \<in> set rows \<Longrightarrow> \<exists>r' \<in> set rows'. ob_agentId r' = ob_agentId r \<and> ob_version r \<le> ob_version r'"
    and "event_ok rows e"
  shows "event_ok rows' e"
proof -
  obtain r where "r \<in> set rows" "ob_agentId r = pe_agentId e" "pe_version e \<le> ob_version r"
    using assms(2) by (auto simp: event_ok_def list_ex_iff)
  moreover from this(1) obtain r' where "r' \<in> set rows'" "ob_agentId r' = ob_agentId r" "ob_version r \<le> ob_version r'"
    using assms(1) by blast
  ultimately have "list_ex (\<lambda>r. ob_agentId r = pe_agentId e \<and> pe_version e \<le> ob_version r) rows'"
    by (auto simp: list_ex_iff intro!: bexI [of _ r'])
  with assms(2) show ?thesis by (simp add: event_ok_def)
qed

lemma getRow_SomeD: "getRow agentId st = Some r \<Longrightarrow> r \<in> set (os_rows st) \<and> ob_agentId r = agentId"
  unfolding getRow_def by (rule find_SomeD)

lemma getRow_unique:
  "outbox_inv st \<Longrightarrow> r \<in> set (os_rows st) \<Longrightarrow> ob_agentId r = agentId \<Longrightarrow> getRow agentId st = Some r"
  unfolding getRow_def outbox_inv_def by (rule find_distinct_key) auto

lemma getRow_None: "getRow agentId st = None \<longleftrightarrow> (\<forall>r \<in> set (os_rows st). ob_agentId r \<noteq> agentId)"
  by (auto simp: getRow_def find_None_iff)

text \<open>A change of the rows that keeps their agents and never takes a version back.\<close>

lemma outbox_inv_rows:
  assumes "outbox_inv st"
    and "\<And>r. r \<in> set (os_rows st) \<Longrightarrow> ob_agentId (f r) = ob_agentId r \<and> ob_version r \<le> ob_version (f r)"
    and "\<And>r. r \<in> set (os_rows st) \<Longrightarrow> outbox_row_ok r \<Longrightarrow> outbox_row_ok (f r)"
  shows "outbox_inv (st\<lparr>os_rows := map f (os_rows st)\<rparr>)"
proof -
  have "distinct (map (ob_agentId \<circ> f) (os_rows st))"
    using assms(1,2) by (intro distinct_map_same) (auto simp: outbox_inv_def)
  moreover have "event_ok (map f (os_rows st)) e" if "event_ok (os_rows st) e" for e
    using event_ok_rows [OF _ that, of "map f (os_rows st)"] assms(2) by (metis image_eqI image_set)
  ultimately show ?thesis using assms(1,3) by (simp add: outbox_inv_def list_all_iff)
qed

text \<open>A change of the events that keeps what names them and wakes none up.\<close>

lemma outbox_inv_events:
  assumes "outbox_inv st"
    and "\<And>e. pe_id (g e) = pe_id e \<and> pe_agentId (g e) = pe_agentId e \<and> pe_version (g e) = pe_version e"
    and "\<And>e. e \<in> set (os_events st) \<Longrightarrow> re_dispatchedAt (g e) = None \<Longrightarrow> re_attempts (g e) < MAX_APPLY_ATTEMPTS"
  shows "outbox_inv (st\<lparr>os_events := map g (os_events st)\<rparr>)"
proof -
  have "distinct (map (pe_id \<circ> g) (os_events st))"
    using assms(1,2) by (intro distinct_map_same) (auto simp: outbox_inv_def)
  moreover have "event_ok (os_rows st) (g e)" if "e \<in> set (os_events st)" "event_ok (os_rows st) e" for e
    using that assms(2,3) by (simp add: event_ok_def)
  ultimately show ?thesis using assms(1) by (simp add: outbox_inv_def list_all_iff)
qed

lemma outbox_inv_attempts:
  "outbox_inv st \<Longrightarrow> e \<in> set (os_events st) \<Longrightarrow> re_dispatchedAt e = None \<Longrightarrow> re_attempts e < MAX_APPLY_ATTEMPTS"
  by (auto simp: outbox_inv_def list_all_iff event_ok_def)

lemma bumpVersion_facts:
  assumes "outbox_inv st" and "bumpVersion now agentId reset st = (v, st')"
  shows "outbox_inv st'" and "os_events st' = os_events st"
    and "\<exists>r \<in> set (os_rows st'). ob_agentId r = agentId \<and> ob_version r = v"
    and "e \<in> set (os_events st) \<Longrightarrow> pe_agentId e = agentId \<Longrightarrow> pe_version e < v"
proof -
  define f where "f = (\<lambda>r :: OutboxRow. if ob_agentId r = agentId
    then let r1 = r\<lparr>ob_version := ob_version r + 1, ob_lastEnqueuedAt := now\<rparr>
         in if reset then r1\<lparr>ob_applyAttempts := 0, ob_applyFailures := []\<rparr> else r1 else r)"
  have old: "\<exists>r \<in> set (os_rows st). ob_agentId r = pe_agentId e \<and> pe_version e \<le> ob_version r"
    if "e \<in> set (os_events st)" for e
    using assms(1) that by (auto simp: outbox_inv_def list_all_iff event_ok_def list_ex_iff)
  show "outbox_inv st'"
  proof (cases "getRow agentId st")
    case None
    then have "event_ok (os_rows st @ [new_row now agentId]) e" if "event_ok (os_rows st) e" for e
      using that by (auto simp: event_ok_def)
    moreover have "st' = st\<lparr>os_rows := os_rows st @ [new_row now agentId]\<rparr>"
      using None assms(2) by (simp add: bumpVersion_def)
    moreover have "outbox_row_ok (new_row now agentId)" "ob_agentId (new_row now agentId) = agentId"
      by (simp_all add: outbox_row_ok_def new_row_def)
    ultimately show ?thesis using assms(1) None by (auto simp: getRow_None outbox_inv_def list_all_iff)
  next
    case (Some row)
    then have "st' = st\<lparr>os_rows := map f (os_rows st)\<rparr>"
      using assms(2) unfolding bumpVersion_def update_where_def f_def by simp
    moreover have "outbox_inv (st\<lparr>os_rows := map f (os_rows st)\<rparr>)"
      by (rule outbox_inv_rows [OF assms(1)]) (auto simp: f_def outbox_row_ok_def Let_def)
    ultimately show ?thesis by simp
  qed
  show "os_events st' = os_events st"
    using assms(2) by (auto simp: bumpVersion_def split: option.splits)
  show "\<exists>r \<in> set (os_rows st'). ob_agentId r = agentId \<and> ob_version r = v"
  proof (cases "getRow agentId st")
    case None
    with assms(2) show ?thesis by (auto simp: bumpVersion_def new_row_def)
  next
    case (Some row)
    then have "f row \<in> set (os_rows st')" and "ob_version (f row) = v" "ob_agentId (f row) = agentId"
      using assms(2) getRow_SomeD [OF Some]
      by (auto simp: bumpVersion_def update_where_def f_def Let_def)
    then show ?thesis by blast
  qed
  show "e \<in> set (os_events st) \<Longrightarrow> pe_agentId e = agentId \<Longrightarrow> pe_version e < v"
  proof (cases "getRow agentId st")
    case None
    assume "e \<in> set (os_events st)" and "pe_agentId e = agentId"
    with old [of e] None show ?thesis by (auto simp: getRow_None)
  next
    case (Some row)
    assume "e \<in> set (os_events st)" and "pe_agentId e = agentId"
    with old [of e] obtain r where "r \<in> set (os_rows st)" "ob_agentId r = agentId" "pe_version e \<le> ob_version r" by auto
    moreover from this have "r = row" using getRow_unique [OF assms(1)] Some by auto
    ultimately show ?thesis using Some assms(2) by (auto simp: bumpVersion_def)
  qed
qed

lemma key_of_selected:
  "distinct (map k t) \<Longrightarrow> r \<in> set t \<Longrightarrow> k r \<in> set (map k (filter Q t)) \<longleftrightarrow> Q r"
  by (induction t) (auto simp: image_iff)

definition outbox_event_row :: "agent_id \<Rightarrow> nat \<Rightarrow> OutboxEvent \<Rightarrow> EventRow" where
  "outbox_event_row agentId version e =
     PendingEventRow.extend (outbox_pending_row agentId version e)
       \<lparr>re_dispatchedAt = None, re_attempts = 0, re_error = None, re_reportedAt = None\<rparr>"

lemma event_row_simps [simp]:
  "pe_id (outbox_event_row a v e) = oe_id e" "pe_agentId (outbox_event_row a v e) = a" "pe_version (outbox_event_row a v e) = v"
  "re_dispatchedAt (outbox_event_row a v e) = None" "re_attempts (outbox_event_row a v e) = 0"
  "queued (outbox_event_row a v e) = fresh_queued e"
  by (simp_all add: outbox_event_row_def outbox_pending_row_def PendingEventRow.extend_def queued_def fresh_queued_def)

lemma insert_all:
  assumes "distinct (map oe_id es)" and "set (map oe_id es) \<inter> set (map pe_id (os_events st)) = {}"
  shows "fold (\<lambda>e. insertEvent (outbox_pending_row a v e)) es st = st\<lparr>os_events := os_events st @ map (outbox_event_row a v) es\<rparr>"
  using assms
proof (induction es arbitrary: st)
  case (Cons e es)
  then have "insertEvent (outbox_pending_row a v e) st = st\<lparr>os_events := os_events st @ [outbox_event_row a v e]\<rparr>"
    by (auto simp: insertEvent_def outbox_event_row_def outbox_pending_row_def list_ex_iff image_iff)
  moreover have "fold (\<lambda>e. insertEvent (outbox_pending_row a v e)) es (st\<lparr>os_events := os_events st @ [outbox_event_row a v e]\<rparr>)
      = st\<lparr>os_events := os_events st @ [outbox_event_row a v e] @ map (outbox_event_row a v) es\<rparr>"
    using Cons by (subst Cons.IH) auto
  ultimately show ?case by simp
qed simp

text \<open>A bump makes its event pending at every time before the event expires.\<close>

lemma mutator_bump_pending:
  assumes "oe_id e \<notin> pe_id ` set (os_events st)" and "t < oe_expiresAt e"
  shows "\<exists>row \<in> set (pendingEvents t agentId (snd (mutator_bump now agentId [e] st))).
    pe_id row = oe_id e \<and> pe_kind row = oe_kind e \<and> pe_payload row = oe_payload e"
proof -
  obtain v st1 where bump: "bumpVersion now agentId False st = (v, st1)" by (cases "bumpVersion now agentId False st")
  have "os_events st1 = os_events st" using bump by (auto simp: bumpVersion_def Let_def split: option.splits)
  then have "snd (mutator_bump now agentId [e] st) = st1\<lparr>os_events := os_events st1 @ [outbox_event_row agentId v e]\<rparr>"
    using insert_all [of "[e]" st1 agentId v] assms(1) bump by (simp add: mutator_bump_def)
  moreover have "is_waiting t agentId (outbox_event_row agentId v e)"
    using assms(2) by (simp add: is_waiting_def outbox_event_row_def outbox_pending_row_def PendingEventRow.extend_def)
  ultimately have "PendingEventRow.truncate (outbox_event_row agentId v e) \<in> set (pendingEvents t agentId (snd (mutator_bump now agentId [e] st)))"
    by (simp add: pendingEvents_def)
  then show ?thesis by (rule bexI [rotated]) (simp add: outbox_event_row_def outbox_pending_row_def PendingEventRow.defs)
qed

text \<open>What an outcome does to one row of the events.\<close>

definition outcome_row :: "time_ms \<Rightarrow> agent_id \<Rightarrow> DeliveryResult \<Rightarrow> EventRow \<Rightarrow> EventRow" where
  "outcome_row now agentId result r =
     (if pe_agentId r \<noteq> agentId then r
      else if pe_id r \<in> set (dl_settledEventIds result)
      then (let r1 = (if re_dispatchedAt r = None then r\<lparr>re_dispatchedAt := Some now\<rparr> else r)
            in if isWorkspaceMutationEventKind (pe_kind r) then r1\<lparr>re_error := None\<rparr> else r1)
      else if pe_id r \<in> set (dl_deliveredEventIds result) \<and> isWorkspaceMutationEventKind (pe_kind r)
              \<and> re_dispatchedAt r = None
      then (if MAX_APPLY_ATTEMPTS \<le> re_attempts r + 1
            then r\<lparr>re_attempts := re_attempts r + 1, re_dispatchedAt := Some now, re_error := Some (gave_up_error (re_error r))\<rparr>
            else r\<lparr>re_attempts := re_attempts r + 1\<rparr>)
      else r)"

lemma outcome_row_keeps [simp]:
  "pe_id (outcome_row now a res r) = pe_id r" "pe_agentId (outcome_row now a res r) = pe_agentId r"
  "pe_version (outcome_row now a res r) = pe_version r" "pe_kind (outcome_row now a res r) = pe_kind r"
  "pe_payload (outcome_row now a res r) = pe_payload r" "pe_expiresAt (outcome_row now a res r) = pe_expiresAt r"
  by (simp_all add: outcome_row_def Let_def)

lemma outcome_row_wakes_none: "re_dispatchedAt (outcome_row now a res r) = None \<Longrightarrow> re_dispatchedAt r = None"
  by (auto simp: outcome_row_def Let_def split: if_splits)

lemma fail_events_rows:
  assumes "distinct (map pe_id t)"
  shows "snd (fail_events now a ids t) = map (\<lambda>r.
     if pe_agentId r = a \<and> pe_id r \<in> set ids \<and> isWorkspaceMutationEventKind (pe_kind r) \<and> re_dispatchedAt r = None
     then (if MAX_APPLY_ATTEMPTS \<le> re_attempts r + 1
           then r\<lparr>re_attempts := re_attempts r + 1, re_dispatchedAt := Some now, re_error := Some (gave_up_error (re_error r))\<rparr>
           else r\<lparr>re_attempts := re_attempts r + 1\<rparr>)
     else r) t"
proof -
  define p where "p = (\<lambda>r :: EventRow. pe_agentId r = a \<and> pe_id r \<in> set ids
    \<and> isWorkspaceMutationEventKind (pe_kind r) \<and> re_dispatchedAt r = None)"
  define f where "f = (\<lambda>r :: EventRow. if p r then r\<lparr>re_attempts := re_attempts r + 1\<rparr> else r)"
  have "distinct (map pe_id (map f t))"
    unfolding map_map using assms by (intro distinct_map_same) (auto simp: f_def)
  then have "pe_id (f r) \<in> set (map pe_id (filter (\<lambda>r. p r \<and> MAX_APPLY_ATTEMPTS \<le> re_attempts r) (map f t)))
      \<longleftrightarrow> p (f r) \<and> MAX_APPLY_ATTEMPTS \<le> re_attempts (f r)" if "r \<in> set t" for r
    using that by (intro key_of_selected) auto
  moreover have "snd (fail_events now a ids t) =
      map (\<lambda>r. if pe_agentId r = a \<and> pe_id r \<in> set (map pe_id (filter (\<lambda>r. p r \<and> MAX_APPLY_ATTEMPTS \<le> re_attempts r) (map f t)))
               then r\<lparr>re_dispatchedAt := Some now, re_error := Some (gave_up_error (re_error r))\<rparr> else r) (map f t)"
    unfolding fail_events_def Let_def update_where_def p_def f_def by simp
  moreover have "p (f r) \<longleftrightarrow> p r" and "pe_agentId (f r) = pe_agentId r" for r by (simp_all add: f_def p_def)
  ultimately show ?thesis by (auto simp: f_def p_def)
qed

lemma recordOutcome_state:
  assumes "outbox_inv st" and "getRow agentId st = Some prev"
  shows "snd (recordOutcome now agentId version result st) =
     st\<lparr>os_events := map (outcome_row now agentId result) (os_events st),
        os_rows := (if version < ob_lastSettledVersion prev then os_rows st
                    else update_where (\<lambda>r. ob_agentId r = agentId) (settle_row now version result) (os_rows st))\<rparr>"
proof -
  define h where "h = (\<lambda>r :: EventRow. if pe_agentId r = agentId \<and> pe_id r \<in> set (dl_settledEventIds result)
     then (let r1 = (if re_dispatchedAt r = None then r\<lparr>re_dispatchedAt := Some now\<rparr> else r)
           in if isWorkspaceMutationEventKind (pe_kind r) then r1\<lparr>re_error := None\<rparr> else r1) else r)"
  have settle: "snd (settle_events now agentId (dl_settledEventIds result) t) = map h t" for t
    by (simp add: settle_events_def update_where_def h_def Let_def)
  have "distinct (map pe_id (map h (os_events st)))"
    unfolding map_map using assms(1) by (intro distinct_map_same) (auto simp: h_def Let_def outbox_inv_def)
  from fail_events_rows [OF this, of now agentId "unsettled_ids result"]
  have "snd (fail_events now agentId (unsettled_ids result) (map h (os_events st)))
      = map (outcome_row now agentId result) (os_events st)"
    by (simp add: outcome_row_def h_def unsettled_ids_def Let_def)
  with settle [of "os_events st"] assms(2) show ?thesis
    by (auto simp: recordOutcome_def Let_def split: prod.splits)
qed

section \<open>The outbox is a queue per agent\<close>

lemma queue_of_rows [simp]: "queue_of (st\<lparr>os_rows := rows\<rparr>) a = queue_of st a"
  by (simp add: queue_of_def)

lemma map_filter_some: "List.map_filter (\<lambda>x. if P x then Some x else None) xs = filter P xs"
  by (induction xs) auto

lemma queue_of_map:
  assumes "\<And>r. pe_version (g r) = pe_version r"
    and "\<And>r. undispatched a (g r) \<Longrightarrow> undispatched a r"
    and "\<And>r. r \<in> set (os_events st) \<Longrightarrow> undispatched a r \<Longrightarrow>
           h (queued r) = (if undispatched a (g r) then Some (queued (g r)) else None)"
  shows "queue_of (st\<lparr>os_events := map g (os_events st)\<rparr>) a = List.map_filter h (queue_of st a)"
proof -
  define s where "s = sort_key pe_version (filter (undispatched a) (os_events st))"
  have "queue_of (st\<lparr>os_events := map g (os_events st)\<rparr>) a
      = map queued (map g (filter (\<lambda>r. undispatched a (g r)) s))"
    using sort_key_filter_map [of pe_version g "undispatched a" "os_events st"] assms(1,2)
    by (simp add: queue_of_def s_def)
  moreover have "map queued (map g (filter (\<lambda>r. undispatched a (g r)) xs)) = List.map_filter h (map queued xs)"
    if "set xs \<subseteq> set (filter (undispatched a) (os_events st))" for xs
    using that assms(3) by (induction xs) auto
  ultimately show ?thesis by (simp add: queue_of_def s_def)
qed

lemma queue_of_updated:
  assumes "\<And>r. pe_version (f r) = pe_version r \<and> pe_agentId (f r) = pe_agentId r"
    and disp: "\<And>r. re_dispatchedAt (f r) = Some now"
  shows "queue_of (st\<lparr>os_events := update_where p f (os_events st)\<rparr>) a
     = map queued (filter (\<lambda>r. \<not> p r) (sort_key pe_version (filter (undispatched a) (os_events st))))"
proof -
  define g where "g = (\<lambda>r. if p r then f r else r)"
  have "sort_key pe_version (filter (undispatched a) (map g (os_events st)))
      = map g (filter (\<lambda>r. undispatched a (g r)) (sort_key pe_version (filter (undispatched a) (os_events st))))"
    using assms by (intro sort_key_filter_map) (simp_all add: g_def undispatched_def split: if_splits)
  moreover have "map g (filter (\<lambda>r. undispatched a (g r)) xs) = filter (\<lambda>r. \<not> p r) xs"
    if "set xs \<subseteq> set (filter (undispatched a) (os_events st))" for xs
    using that assms by (induction xs) (auto simp: g_def undispatched_def)
  ultimately show ?thesis by (simp add: queue_of_def update_where_def g_def)
qed

lemma outbox_step_inv:
  assumes "outbox_inv st" and "outbox_guard x st"
  shows "outbox_inv (outbox_step x st)"
proof (cases x)
  case (Enqueue now a es)
  obtain v st' where b: "bumpVersion now a (es = []) st = (v, st')" by (cases "bumpVersion now a (es = []) st")
  note facts = bumpVersion_facts [OF assms(1) b]
  have "event_ok (os_rows st') (outbox_event_row a v e)" for e
    using facts(3) by (auto simp: event_ok_def list_ex_iff MAX_APPLY_ATTEMPTS_def)
  then have "outbox_inv (st'\<lparr>os_events := os_events st' @ map (outbox_event_row a v) es\<rparr>)"
    using facts(1,2) assms(2) Enqueue by (auto simp: outbox_inv_def list_all_iff o_def)
  then show ?thesis
    using Enqueue b facts assms(2) by (cases "es = []") (auto simp: mutator_bump_def insert_all)
next
  case (Record now a v result)
  show ?thesis
  proof (cases "getRow a st")
    case None
    with Record assms(1) show ?thesis by (simp add: recordOutcome_def)
  next
    case (Some prev)
    define st1 where "st1 = st\<lparr>os_events := map (outcome_row now a result) (os_events st)\<rparr>"
    have inv1: "outbox_inv st1" unfolding st1_def
    proof (rule outbox_inv_events [OF assms(1)])
      fix e assume "e \<in> set (os_events st)" and "re_dispatchedAt (outcome_row now a result e) = None"
      with outbox_inv_attempts [OF assms(1)] show "re_attempts (outcome_row now a result e) < MAX_APPLY_ATTEMPTS"
        by (auto simp: outcome_row_def Let_def split: if_splits)
    qed simp
    have "outbox_inv (st1\<lparr>os_rows := map (\<lambda>r. if ob_agentId r = a then settle_row now v result r else r) (os_rows st1)\<rparr>)"
      if "ob_lastSettledVersion prev \<le> v"
    proof (rule outbox_inv_rows [OF inv1])
      fix r assume "r \<in> set (os_rows st1)" and ok: "outbox_row_ok r"
      then have "ob_agentId r = a \<Longrightarrow> r = prev" using getRow_unique [OF assms(1)] Some by (auto simp: st1_def)
      with ok that assms(2) Record Some show "outbox_row_ok (if ob_agentId r = a then settle_row now v result r else r)"
        by (auto simp: outbox_row_ok_def settle_row_def)
    qed (simp add: settle_row_def)
    with inv1 Record Some recordOutcome_state [OF assms(1) Some, of now v result] show ?thesis
      by (auto simp: st1_def update_where_def)
  qed
next
  case (Expire now)
  with assms(1) show ?thesis
    by (auto simp: deleteExpiredEvents_def delete_where_def outbox_inv_def list_all_iff intro: distinct_map_filter)
qed (use assms(1) in \<open>auto simp: markEventsUndeliverable_def supersedePending_def drop_waiting_def claimEventReport_def
       update_where_def Let_def outbox_inv_attempts [OF assms(1)] intro!: outbox_inv_events\<close>)

lemma outbox_step_refines:
  assumes "outbox_inv st" and "outbox_guard x st"
  shows "queue_of (outbox_step x st) = queue_step x (queue_of st)"
proof
  fix b
  show "queue_of (outbox_step x st) b = queue_step x (queue_of st) b"
  proof (cases x)
    case (Enqueue now a es)
    obtain v st' where bump: "bumpVersion now a (es = []) st = (v, st')" by (cases "bumpVersion now a (es = []) st")
    note facts = bumpVersion_facts [OF assms(1) bump]
    have "sort_key pe_version (filter (undispatched a) (os_events st) @ map (outbox_event_row a v) es)
        = sort_key pe_version (filter (undispatched a) (os_events st)) @ map (outbox_event_row a v) es"
      using facts(4) by (subst sort_key_append) (auto simp: undispatched_def less_imp_le intro!: sort_key_same [of _ _ v])
    then have "queue_of (st'\<lparr>os_events := os_events st' @ map (outbox_event_row a v) es\<rparr>) b = queue_step x (queue_of st) b"
      using facts(2) Enqueue
      by (cases "b = a") (simp_all add: queue_of_def undispatched_def filter_map o_def)
    then show ?thesis
      using Enqueue bump facts assms(2) by (cases "es = []") (auto simp: mutator_bump_def insert_all queue_of_def)
  next
    case (Record now a v result)
    show ?thesis
    proof (cases "getRow a st")
      case None
      then have "e \<in> set (os_events st) \<Longrightarrow> pe_agentId e \<noteq> a" for e
        using assms(1) by (auto simp: outbox_inv_def list_all_iff event_ok_def list_ex_iff getRow_None)
      then have "queue_of st a = []" by (simp add: queue_of_def undispatched_def filter_False)
      with Record None show ?thesis by (simp add: recordOutcome_def)
    next
      case (Some prev)
      have "queue_of (st\<lparr>os_events := map (outcome_row now a result) (os_events st)\<rparr>) b
          = List.map_filter (if b = a then after_outcome result else Some) (queue_of st b)"
        by (rule queue_of_map)
           (auto simp: undispatched_def after_outcome_def outcome_row_def queued_def Let_def split: if_splits)
      with Record recordOutcome_state [OF assms(1) Some, of now v result] show ?thesis
        by (simp add: queue_of_def map_filter_def)
    qed
  next
    case (Undeliverable now a kinds)
    then show ?thesis
      by (simp add: markEventsUndeliverable_def drop_waiting_def queue_of_updated)
         (auto simp: queue_of_def filter_map o_def queued_def undispatched_def intro!: map_cong filter_cong)
  next
    case (Supersede now a kind)
    then show ?thesis
      by (simp add: supersedePending_def drop_waiting_def queue_of_updated)
         (auto simp: queue_of_def filter_map o_def queued_def undispatched_def intro!: map_cong filter_cong)
  next
    case (Expire now)
    have "filter (undispatched b) (delete_where (\<lambda>r. re_dispatchedAt r = None \<and> pe_expiresAt r < now) (os_events st))
        = filter (\<lambda>r. \<not> pe_expiresAt r < now) (filter (undispatched b) (os_events st))"
      by (auto simp: delete_where_def undispatched_def intro: filter_cong)
    with Expire show ?thesis
      by (simp add: deleteExpiredEvents_def Let_def queue_of_def filter_map o_def queued_def filter_sort)
  next
    case (Report now eventId a detail)
    define g where "g = (\<lambda>r :: EventRow. if pe_id r = eventId \<and> pe_agentId r = a \<and> re_reportedAt r = None
      then r\<lparr>re_error := detail, re_reportedAt := Some now\<rparr> else r)"
    have "outbox_step x st = st\<lparr>os_events := map g (os_events st)\<rparr>"
      using Report by (simp add: claimEventReport_def update_where_def g_def Let_def)
    moreover have "queue_of (st\<lparr>os_events := map g (os_events st)\<rparr>) b = List.map_filter Some (queue_of st b)"
      by (rule queue_of_map) (auto simp: undispatched_def queued_def g_def split: if_splits)
    ultimately have "queue_of (outbox_step x st) b = List.map_filter Some (queue_of st b)" by simp
    with Report show ?thesis by (simp add: map_filter_def)
  qed
qed

interpretation outbox_queue: refinement_system outbox_inv queue_of outbox_guard outbox_step queue_step
  by unfold_locales (simp_all add: outbox_step_inv outbox_step_refines)

section \<open>Properties\<close>

definition empty_outbox :: OutboxState where "empty_outbox = \<lparr>os_rows = [], os_events = []\<rparr>"

lemma empty_outbox_inv [simp]: "outbox_inv empty_outbox" and empty_outbox_queue [simp]: "queue_of empty_outbox = (\<lambda>_. [])"
  by (simp_all add: outbox_inv_def empty_outbox_def queue_of_def fun_eq_iff)

lemma pendingEvents_queue:
  "map pe_id (pendingEvents now a st) = map qe_id (filter (\<lambda>q. now < qe_expiresAt q) (queue_of st a))"
proof -
  have "filter (is_waiting now a) t = filter (\<lambda>r. now < pe_expiresAt r) (filter (undispatched a) t)" for t
    by (auto simp: is_waiting_def undispatched_def intro: filter_cong)
  moreover have "pe_id (PendingEventRow.truncate r) = pe_id r" for r :: EventRow
    by (simp add: PendingEventRow.truncate_def)
  ultimately show ?thesis
    by (simp add: pendingEvents_def queue_of_def filter_map o_def queued_def filter_sort)
qed


definition sample_event :: "string \<Rightarrow> EventKind \<Rightarrow> time_ms \<Rightarrow> OutboxEvent" where
  "sample_event i kind expiresAt = \<lparr>oe_id = i, oe_kind = kind, oe_payload = OtherPayload [], oe_expiresAt = expiresAt\<rparr>"

definition delivered_outcome :: "nat \<Rightarrow> string list \<Rightarrow> string list \<Rightarrow> DeliveryResult" where
  "delivered_outcome version settled delivered =
     \<lparr>dl_appliedVersion = version, dl_appliedHash = Some ''h'', dl_failures = [], dl_settledEventIds = settled,
      dl_deliveredEventIds = delivered, dl_droppedContributionKinds = []\<rparr>"

definition sample_ops :: "OutboxOp list" where
  "sample_ops =
     [Enqueue 1 ''a'' [sample_event ''seed:1'' WorkspaceSeed 100, sample_event ''init:1'' Initialization 100],
      Enqueue 2 ''a'' [sample_event ''trig:2'' Trigger 50],
      Record 3 ''a'' 2 (delivered_outcome 2 [''init:1''] [''seed:1'', ''init:1''])]"


text \<open>
  C19. In every outbox that the operations produce, the cursors of a row are in order: what was
  applied was settled, and what was settled was asked for; failures are counted; and an event that
  waits belongs to a row that has reached its version and has attempts left.
\<close>

theorem reachable_outbox_ok:
  assumes "guarded_run outbox_guard outbox_step ops empty_outbox"
  defines "st \<equiv> fold outbox_step ops empty_outbox"
  shows "(\<forall>r \<in> set (os_rows st). getRow (ob_agentId r) st = Some r
            \<and> ob_lastAppliedVersion r \<le> ob_lastSettledVersion r \<and> ob_lastSettledVersion r \<le> ob_version r
            \<and> (ob_applyFailures r \<noteq> [] \<longrightarrow> 0 < ob_applyAttempts r))
       \<and> (\<forall>e \<in> set (os_events st). (re_dispatchedAt e = None \<longrightarrow> re_attempts e < MAX_APPLY_ATTEMPTS)
            \<and> (\<exists>r. getRow (pe_agentId e) st = Some r \<and> pe_version e \<le> ob_version r))"
proof -
  have inv: "outbox_inv st" unfolding st_def by (rule outbox_queue.run_keeps [OF empty_outbox_inv assms(1)])
  moreover have "\<exists>r. getRow (pe_agentId e) st = Some r \<and> pe_version e \<le> ob_version r"
    if e: "e \<in> set (os_events st)" for e
  proof -
    obtain r where "r \<in> set (os_rows st)" "ob_agentId r = pe_agentId e" "pe_version e \<le> ob_version r"
      using inv e by (auto simp: outbox_inv_def list_all_iff event_ok_def list_ex_iff)
    with getRow_unique [OF inv] show ?thesis by blast
  qed
  moreover have "getRow (ob_agentId r) st = Some r" and "outbox_row_ok r" if "r \<in> set (os_rows st)" for r
    using getRow_unique [OF inv that] inv that by (auto simp: outbox_inv_def list_all_iff)
  ultimately show ?thesis by (auto simp: outbox_row_ok_def dest: outbox_inv_attempts)
qed

theorem reachable_outbox_ok_witness:
  "map ob_agentId (os_rows (fold outbox_step sample_ops empty_outbox)) = [''a'']
     \<and> list_all (\<lambda>r. ob_lastAppliedVersion r \<le> ob_lastSettledVersion r \<and> ob_lastSettledVersion r \<le> ob_version r)
         (os_rows (fold outbox_step sample_ops empty_outbox))"
proof -
  have run: "guarded_run outbox_guard outbox_step sample_ops empty_outbox" by code_simp
  have "map ob_agentId (os_rows (fold outbox_step sample_ops empty_outbox)) = [''a'']" by code_simp
  with reachable_outbox_ok [OF run] show ?thesis by (simp add: list_all_iff del: fold_simps)
qed

text \<open>A delivery that an event was part of and that did not settle it.\<close>

fun tried_in_vain :: "agent_id \<Rightarrow> string \<Rightarrow> OutboxOp \<Rightarrow> bool" where
  "tried_in_vain a i (Record now b version result) \<longleftrightarrow>
     b = a \<and> i \<in> set (dl_deliveredEventIds result) \<and> i \<notin> set (dl_settledEventIds result)"
| "tried_in_vain a i _ \<longleftrightarrow> False"

fun writes_event :: "string \<Rightarrow> OutboxOp \<Rightarrow> bool" where
  "writes_event i (Enqueue now a es) \<longleftrightarrow> i \<in> set (map oe_id es)"
| "writes_event i _ \<longleftrightarrow> False"

definition tried :: "agent_id \<Rightarrow> string \<Rightarrow> nat \<Rightarrow> (agent_id \<Rightarrow> QueuedEvent list) \<Rightarrow> bool" where
  "tried a i n q \<longleftrightarrow> (\<forall>x \<in> set (q a). qe_id x = i \<longrightarrow> isWorkspaceMutationEventKind (qe_kind x) \<and> n \<le> qe_attempts x)"

lemma set_map_filter_iff: "y \<in> set (List.map_filter f xs) \<longleftrightarrow> (\<exists>x \<in> set xs. f x = Some y)"
  by (induction xs) (auto split: option.splits)

lemma after_outcome_facts:
  assumes "after_outcome res x = Some y"
  shows "qe_id y = qe_id x" "qe_kind y = qe_kind x" "qe_attempts x \<le> qe_attempts y"
    and "qe_id x \<in> set (dl_deliveredEventIds res) \<Longrightarrow> isWorkspaceMutationEventKind (qe_kind x) \<Longrightarrow> qe_attempts y = Suc (qe_attempts x)"
  using assms by (auto simp: after_outcome_def split: if_splits)

lemma tried_step:
  assumes "tried a i n q" and "\<not> writes_event i x"
  shows "tried a i (if tried_in_vain a i x then n + 1 else n) (queue_step x q)"
proof (cases x)
  case (Enqueue now b es)
  then have "qe_id y \<noteq> i" if "y \<in> fresh_queued ` set es" for y
    using that assms(2) by (auto simp: fresh_queued_def)
  with Enqueue assms(1) show ?thesis by (auto simp: tried_def)
next
  case (Record now b v res)
  have "isWorkspaceMutationEventKind (qe_kind y) \<and> (if tried_in_vain a i x then n + 1 else n) \<le> qe_attempts y"
    if "z \<in> set (q a)" "after_outcome res z = Some y" "qe_id y = i" "b = a" for y z
    using that assms(1) Record after_outcome_facts [OF that(2)] by (auto simp: tried_def)
  with Record assms(1) show ?thesis
    by (cases "b = a") (auto simp: tried_def set_map_filter_iff)
qed (use assms in \<open>auto simp: tried_def\<close>)

lemma tried_run:
  assumes "tried a i n q" and "\<forall>x \<in> set ops. \<not> writes_event i x"
  shows "tried a i (n + length (filter (tried_in_vain a i) ops)) (fold queue_step ops q)"
  using assms
proof (induction ops arbitrary: n q)
  case (Cons x xs)
  then have "tried a i (if tried_in_vain a i x then n + 1 else n) (queue_step x q)" by (intro tried_step) auto
  from Cons.IH [OF this] Cons.prems show ?case by (auto split: if_splits)
qed simp

text \<open>
  A workspace mutation that keeps failing stops holding the events behind it: once eight
  deliveries that included it have not settled it, it waits no longer, whatever happened between
  them, and the next delivery starts with the events after it.
\<close>

theorem failing_mutation_gives_way:
  assumes "outbox_inv st" and "guarded_run outbox_guard outbox_step ops st"
    and "\<forall>e \<in> set (os_events st). pe_id e = i \<longrightarrow> isWorkspaceMutationEventKind (pe_kind e)"
    and "\<forall>x \<in> set ops. \<not> writes_event i x"
    and "MAX_APPLY_ATTEMPTS \<le> length (filter (tried_in_vain agentId i) ops)"
  shows "i \<notin> set (map pe_id (pendingEvents now agentId (fold outbox_step ops st)))"
proof -
  define st' where "st' = fold outbox_step ops st"
  have "tried agentId i 0 (queue_of st)"
    using assms(3) by (auto simp: tried_def queue_of_def queued_def)
  from tried_run [OF this assms(4)] assms(5)
  have enough: "\<forall>x \<in> set (queue_of st' agentId). qe_id x = i \<longrightarrow> MAX_APPLY_ATTEMPTS \<le> qe_attempts x"
    using outbox_queue.run_refines [OF assms(1,2)] by (auto simp: tried_def st'_def)
  have inv: "outbox_inv st'" unfolding st'_def by (rule outbox_queue.run_keeps [OF assms(1,2)])
  have "qe_attempts x < MAX_APPLY_ATTEMPTS" if "x \<in> set (queue_of st' agentId)" for x
    using that by (auto simp: queue_of_def queued_def undispatched_def intro: outbox_inv_attempts [OF inv])
  with enough have "\<forall>x \<in> set (queue_of st' agentId). qe_id x \<noteq> i" by force
  then show ?thesis by (auto simp: pendingEvents_queue st'_def)
qed

definition failing_seed :: OutboxState where
  "failing_seed = fold outbox_step
     [Enqueue 1 ''a'' [sample_event ''s:1'' WorkspaceSeed 100, sample_event ''t:1'' Trigger 100]] empty_outbox"

theorem failing_mutation_gives_way_witness:
  "map pe_id (pendingEvents 2 ''a'' failing_seed) = [''s:1'', ''t:1'']
     \<and> ''s:1'' \<notin> set (map pe_id (pendingEvents 2 ''a''
          (fold outbox_step (replicate 8 (Record 2 ''a'' 1 (delivered_outcome 1 [] [''s:1'']))) failing_seed)))"
proof -
  define ops where "ops = replicate 8 (Record 2 ''a'' 1 (delivered_outcome 1 [] [''s:1'']))"
  have start: "guarded_run outbox_guard outbox_step
      [Enqueue 1 ''a'' [sample_event ''s:1'' WorkspaceSeed 100, sample_event ''t:1'' Trigger 100]] empty_outbox"
    by code_simp
  have inv: "outbox_inv failing_seed"
    unfolding failing_seed_def by (rule outbox_queue.run_keeps [OF empty_outbox_inv start])
  have run: "guarded_run outbox_guard outbox_step ops failing_seed" unfolding ops_def by code_simp
  have "\<forall>e \<in> set (os_events failing_seed). pe_id e = ''s:1'' \<longrightarrow> isWorkspaceMutationEventKind (pe_kind e)" by code_simp
  moreover have "\<forall>x \<in> set ops. \<not> writes_event ''s:1'' x" by (simp add: ops_def)
  moreover have "MAX_APPLY_ATTEMPTS \<le> length (filter (tried_in_vain ''a'' ''s:1'') ops)" unfolding ops_def by code_simp
  ultimately have "''s:1'' \<notin> set (map pe_id (pendingEvents 2 ''a'' (fold outbox_step ops failing_seed)))"
    by (rule failing_mutation_gives_way [OF inv run])
  moreover have "map pe_id (pendingEvents 2 ''a'' failing_seed) = [''s:1'', ''t:1'']" by code_simp
  ultimately show ?thesis by (simp add: ops_def)
qed

end
