(* ===== verification/Runtime_Channel.thy ===== *)
theory Runtime_Channel
  imports Runtime_Outbox
begin

text \<open>
  The agent's end of the delivery: the drivers that write the desired state and the handlers that
  run events (\<^verbatim>\<open>agent-runtime/src/modules/runtime-channel/dispatcher.ts\<close>), the loop over the events
  of a delivery (\<^verbatim>\<open>event-loop.ts\<close>), the record of what was applied and run
  (\<^verbatim>\<open>state-store.ts\<close>) and the service that the platform calls (\<^verbatim>\<open>service.ts\<close>). What drivers
  and handlers do to the agent's disk is an argument: each takes the disk and gives the disk after
  it, with the message of the exception that it threw, if it threw one. Calls of the service run
  one after the other, as its queue has it. Log lines, the reading of the harness configuration
  and the hooks that follow an applied state are left out, and so is a runtime that stops between
  an event's run and its record.
\<close>

section \<open>Events and the runtime's record\<close>

record RtEvent =
  ev_id :: string
  ev_kind :: EventKind
  ev_version :: nat
  ev_expiresAt :: time_ms
  ev_payload :: EventPayload

record RuntimeState =
  rs_lastAppliedVersion :: nat
  rs_lastAppliedHash :: "string option"
  rs_bindingsFingerprint :: "string option"
  rs_eventRuns :: "string \<Rightarrow> nat option"

definition initial_runtime_state :: RuntimeState where
  "initial_runtime_state =
     \<lparr>rs_lastAppliedVersion = 0, rs_lastAppliedHash = None, rs_bindingsFingerprint = None, rs_eventRuns = (\<lambda>_. None)\<rparr>"

text \<open>
  \<^verbatim>\<open>Number\<close> on the end of an event's id: the platform writes a time in digits, and the empty text
  reads as 0. Another text is taken as no number.
\<close>

definition js_number :: "string \<Rightarrow> nat option" where
  "js_number text = (if list_all is_digit text then Some (digits_value text) else None)"

definition splitEventId :: "string \<Rightarrow> string \<times> nat option" where
  "splitEventId i =
     (if CHR '':'' \<in> set i
      then (rev (tl (dropWhile (\<lambda>c. c \<noteq> CHR '':'') (rev i))), js_number (rev (takeWhile (\<lambda>c. c \<noteq> CHR '':'') (rev i))))
      else (butlast i, js_number i))"

lemma splitEventId_written [simp]: "splitEventId (key @ CHR '':'' # show_nat t) = (key, Some t)"
proof -
  have "CHR '':'' \<notin> set (show_nat t)"
    using show_nat_digits [of t] by (auto simp: list_all_iff is_digit_def Let_def)
  then have "takeWhile (\<lambda>c. c \<noteq> CHR '':'') (rev (show_nat t) @ CHR '':'' # rev key) = rev (show_nat t)"
    and "dropWhile (\<lambda>c. c \<noteq> CHR '':'') (rev (show_nat t) @ CHR '':'' # rev key) = CHR '':'' # rev key"
    by (subst takeWhile_append2 dropWhile_append2; auto)+
  then show ?thesis by (simp add: splitEventId_def js_number_def)
qed

definition last_run :: "RuntimeState \<Rightarrow> string \<Rightarrow> nat" where
  "last_run s key = (case rs_eventRuns s key of None \<Rightarrow> 0 | Some t \<Rightarrow> t)"

text \<open>The reason for which a starting runtime forgets what it applied.\<close>

definition forgets :: "RuntimeState \<Rightarrow> string option \<Rightarrow> bool \<Rightarrow> bool \<Rightarrow> bool" where
  "forgets s fingerprint envReady envStale \<longleftrightarrow>
     rs_lastAppliedVersion s \<noteq> 0 \<and> (fingerprint \<noteq> rs_bindingsFingerprint s \<or> \<not> envReady \<or> envStale)"

definition createStateStore :: "string option \<Rightarrow> bool \<Rightarrow> bool \<Rightarrow> RuntimeState \<Rightarrow> RuntimeState" where
  "createStateStore bindingsFingerprint envReady envStale s =
     (let fingerprint = (case bindingsFingerprint of None \<Rightarrow> rs_bindingsFingerprint s | Some f \<Rightarrow> Some f);
          s1 = s\<lparr>rs_bindingsFingerprint := fingerprint\<rparr>
      in if forgets s fingerprint envReady envStale
         then s1\<lparr>rs_lastAppliedVersion := 0, rs_lastAppliedHash := None\<rparr> else s1)"

section \<open>Drivers and handlers\<close>

type_synonym ('c, 'd) driver = "'c list \<Rightarrow> 'd \<Rightarrow> string option \<times> 'd"
type_synonym 'd handler = "RtEvent \<Rightarrow> 'd \<Rightarrow> string option \<times> 'd"

record ('c, 'd) Channel =
  ch_kindOf :: "'c \<Rightarrow> ContributionKind"
  ch_drivers :: "(ContributionKind \<times> ('c, 'd) driver list) list" \<comment> \<open>the bound drivers of each kind, in the order of the manifest\<close>
  ch_handlers :: "EventKind \<Rightarrow> 'd handler option"

fun run_drivers :: "ContributionKind \<Rightarrow> 'c list \<Rightarrow> ('c, 'd) driver list \<Rightarrow> 'd \<Rightarrow> DriverFailure list \<times> 'd" where
  "run_drivers kind cs [] d = ([], d)"
| "run_drivers kind cs (driver # drivers) d =
     (case driver cs d of
        (thrown, d1) \<Rightarrow>
          (case run_drivers kind cs drivers d1 of
             (failures, d2) \<Rightarrow>
               ((case thrown of None \<Rightarrow> [] | Some message \<Rightarrow> [\<lparr>df_kind = kind, df_message = message\<rparr>]) @ failures, d2)))"

fun dispatch_kinds ::
  "('c \<Rightarrow> ContributionKind) \<Rightarrow> 'c list \<Rightarrow> (ContributionKind \<times> ('c, 'd) driver list) list \<Rightarrow> 'd \<Rightarrow> DriverFailure list \<times> 'd" where
  "dispatch_kinds kindOf contributions [] d = ([], d)"
| "dispatch_kinds kindOf contributions ((kind, bound) # handlers) d =
     (case run_drivers kind (filter (\<lambda>c. kindOf c = kind) contributions) bound d of
        (failures, d1) \<Rightarrow>
          (case dispatch_kinds kindOf contributions handlers d1 of (rest, d2) \<Rightarrow> (failures @ rest, d2)))"

definition dispatcher_apply :: "('c, 'd) Channel \<Rightarrow> 'c list \<Rightarrow> 'd \<Rightarrow> DriverFailure list \<times> 'd" where
  "dispatcher_apply ch contributions d = dispatch_kinds (ch_kindOf ch) contributions (ch_drivers ch) d"

definition event_invoke :: "('c, 'd) Channel \<Rightarrow> RtEvent \<Rightarrow> 'd \<Rightarrow> string option \<times> 'd" where
  "event_invoke ch e d = (case ch_handlers ch (ev_kind e) of None \<Rightarrow> (None, d) | Some handler \<Rightarrow> handler e d)"

section \<open>The service\<close>

record 'd AgentState =
  ag_store :: RuntimeState
  ag_disk :: 'd
  ag_ran :: "RtEvent list" \<comment> \<open>the events whose handler came to its end, in order\<close>
  ag_reports :: "(string \<times> string) list" \<comment> \<open>the failure reports sent to the platform\<close>

definition reportFailure :: "RtEvent \<Rightarrow> string \<Rightarrow> 'd AgentState \<Rightarrow> 'd AgentState" where
  "reportFailure e message ag = ag\<lparr>ag_reports := ag_reports ag @ [(ev_id e, take 2000 message)]\<rparr>"

definition record_run :: "RtEvent \<Rightarrow> string \<Rightarrow> nat \<Rightarrow> 'd \<Rightarrow> 'd AgentState \<Rightarrow> 'd AgentState" where
  "record_run e key ts d ag =
     ag\<lparr>ag_disk := d, ag_ran := ag_ran ag @ [e],
        ag_store := (ag_store ag)\<lparr>rs_eventRuns := (rs_eventRuns (ag_store ag))(key := Some ts)\<rparr>\<rparr>"

text \<open>An event that is settled without a run: its id is no id, it ran, or it expired.\<close>

definition needs_no_run :: "time_ms \<Rightarrow> RuntimeState \<Rightarrow> RtEvent \<Rightarrow> bool" where
  "needs_no_run now s e \<longleftrightarrow>
     (case splitEventId (ev_id e) of
        (key, None) \<Rightarrow> True
      | (key, Some ts) \<Rightarrow> ts \<le> last_run s key \<or> ev_expiresAt e \<le> now)"

fun processEvents :: "('c, 'd) Channel \<Rightarrow> time_ms \<Rightarrow> RtEvent list \<Rightarrow> 'd AgentState \<Rightarrow> string list \<times> 'd AgentState" where
  "processEvents ch now [] ag = ([], ag)"
| "processEvents ch now (e # es) ag =
     (if needs_no_run now (ag_store ag) e
      then (case processEvents ch now es ag of (settled, ag1) \<Rightarrow> (ev_id e # settled, ag1))
      else (case event_invoke ch e (ag_disk ag) of
              (None, d) \<Rightarrow>
                (case splitEventId (ev_id e) of
                   (key, ts) \<Rightarrow>
                     (case processEvents ch now es (record_run e key (the ts) d ag) of
                        (settled, ag1) \<Rightarrow> (ev_id e # settled, ag1)))
            | (Some message, d) \<Rightarrow>
                let ag1 = ag\<lparr>ag_disk := d\<rparr>
                in if isWorkspaceMutationEventKind (ev_kind e) then ([], reportFailure e message ag1)
                   else processEvents ch now es (if ev_kind e = HarnessConfig then reportFailure e message ag1 else ag1)))"

record 'c ApplyStateInput =
  ai_version :: nat
  ai_contributions :: "'c list"
  ai_hash :: string
  ai_events :: "RtEvent list"

datatype ApplyStateResult =
    StaleState nat "string list"
  | OkState nat "string option" "DriverFailure list" "string list"

fun settled_of :: "ApplyStateResult \<Rightarrow> string list" where
  "settled_of (StaleState version settled) = settled"
| "settled_of (OkState version hash failures settled) = settled"

fun failures_of :: "ApplyStateResult \<Rightarrow> DriverFailure list" where
  "failures_of (StaleState version settled) = []"
| "failures_of (OkState version hash failures settled) = failures"

definition channel_apply ::
  "('c, 'd) Channel \<Rightarrow> time_ms \<Rightarrow> 'c ApplyStateInput \<Rightarrow> 'd AgentState \<Rightarrow> ApplyStateResult \<times> 'd AgentState" where
  "channel_apply ch now input ag =
     (let local = ag_store ag
      in if ai_version input < rs_lastAppliedVersion local
         then (case processEvents ch now (ai_events input) ag of
                 (settled, ag1) \<Rightarrow> (StaleState (rs_lastAppliedVersion local) settled, ag1))
         else (case (if Some (ai_hash input) = rs_lastAppliedHash local then ([], ag_disk ag)
                     else dispatcher_apply ch (ai_contributions input) (ag_disk ag)) of
                 (failures, d) \<Rightarrow>
                   (case processEvents ch now (ai_events input) (ag\<lparr>ag_disk := d\<rparr>) of
                      (settled, ag1) \<Rightarrow>
                        if failures \<noteq> []
                        then (OkState (rs_lastAppliedVersion local) (rs_lastAppliedHash local) failures settled, ag1)
                        else (OkState (ai_version input) (Some (ai_hash input)) [] settled,
                              ag1\<lparr>ag_store := (ag_store ag1)\<lparr>rs_lastAppliedVersion := ai_version input,
                                                              rs_lastAppliedHash := Some (ai_hash input)\<rparr>\<rparr>))))"

section \<open>What a delivery does to the record\<close>

definition run_key :: "RtEvent \<Rightarrow> string" where "run_key e = fst (splitEventId (ev_id e))"
definition run_time :: "RtEvent \<Rightarrow> nat" where "run_time e = the (snd (splitEventId (ev_id e)))"

text \<open>The record agrees with the runs: per key they are in the order of their times, and the last one is the recorded one.\<close>

definition runs_ascend :: "RtEvent list \<Rightarrow> bool" where
  "runs_ascend es \<longleftrightarrow> sorted_wrt (\<lambda>x y. run_key x = run_key y \<longrightarrow> run_time x < run_time y) es"

definition ran_ok :: "'d AgentState \<Rightarrow> bool" where
  "ran_ok ag \<longleftrightarrow>
     runs_ascend (ag_ran ag)
   \<and> (\<forall>x \<in> set (ag_ran ag). run_time x \<le> last_run (ag_store ag) (run_key x))
   \<and> (\<forall>key n. rs_eventRuns (ag_store ag) key = Some n \<longrightarrow> (\<exists>x \<in> set (ag_ran ag). run_key x = key \<and> run_time x = n))"

definition store_grows :: "RuntimeState \<Rightarrow> RuntimeState \<Rightarrow> bool" where
  "store_grows s s' \<longleftrightarrow> rs_lastAppliedVersion s' = rs_lastAppliedVersion s \<and> rs_lastAppliedHash s' = rs_lastAppliedHash s
     \<and> (\<forall>key. last_run s key \<le> last_run s' key)"

lemma store_grows_refl [simp]: "store_grows s s" by (simp add: store_grows_def)

lemma store_grows_trans: "store_grows s t \<Longrightarrow> store_grows t u \<Longrightarrow> store_grows s u"
  by (auto simp: store_grows_def intro: order_trans)

lemma needs_no_run_mono: "needs_no_run now s e \<Longrightarrow> store_grows s s' \<Longrightarrow> needs_no_run now s' e"
  by (auto simp: needs_no_run_def store_grows_def split: prod.splits option.splits intro: order_trans)

lemma needs_run:
  assumes "\<not> needs_no_run now s e" and "splitEventId (ev_id e) = (key, ts)"
  shows "\<exists>t. ts = Some t \<and> last_run s key < t \<and> now < ev_expiresAt e"
  using assms by (cases ts) (auto simp: needs_no_run_def)

lemma record_run_facts:
  assumes "\<not> needs_no_run now (ag_store ag) e" and "splitEventId (ev_id e) = (key, ts)"
  shows "store_grows (ag_store ag) (ag_store (record_run e key (the ts) d ag))"
    and "needs_no_run now (ag_store (record_run e key (the ts) d ag)) e"
    and "ran_ok ag \<Longrightarrow> ran_ok (record_run e key (the ts) d ag)"
proof -
  obtain t where t: "ts = Some t" "last_run (ag_store ag) key < t" using needs_run [OF assms] by blast
  show "store_grows (ag_store ag) (ag_store (record_run e key (the ts) d ag))"
    using t by (auto simp: store_grows_def record_run_def last_run_def)
  show "needs_no_run now (ag_store (record_run e key (the ts) d ag)) e"
    using t assms(2) by (simp add: needs_no_run_def record_run_def last_run_def)
  assume ok: "ran_ok ag"
  have e: "run_key e = key" "run_time e = t" using t assms(2) by (simp_all add: run_key_def run_time_def)
  have before: "run_time x < t" if "x \<in> set (ag_ran ag)" "run_key x = key" for x
    using ok that t(2) by (auto simp: ran_ok_def)
  have "run_time x \<le> last_run (ag_store (record_run e key t d ag)) (run_key x)" if "x \<in> set (ag_ran ag)" for x
    using ok that before [OF that] by (auto simp: ran_ok_def record_run_def last_run_def)
  moreover have "run_time e \<le> last_run (ag_store (record_run e key t d ag)) (run_key e)"
    using e by (simp add: record_run_def last_run_def)
  moreover have "\<exists>x \<in> set (ag_ran (record_run e key t d ag)). run_key x = k \<and> run_time x = n"
    if "rs_eventRuns (ag_store (record_run e key t d ag)) k = Some n" for k n
    using ok that e by (cases "k = key") (auto simp: ran_ok_def record_run_def)
  moreover have "runs_ascend (ag_ran ag @ [e])"
    using ok before e by (auto simp: ran_ok_def runs_ascend_def sorted_wrt_append)
  ultimately show "ran_ok (record_run e key (the ts) d ag)"
    using t(1) by (simp add: ran_ok_def) (simp add: record_run_def)
qed

lemma ran_ok_simps [simp]:
  "ran_ok (ag\<lparr>ag_disk := d\<rparr>) = ran_ok ag" "ran_ok (reportFailure e m ag) = ran_ok ag"
  "ag_store (reportFailure e m ag) = ag_store ag" "ag_ran (reportFailure e m ag) = ag_ran ag"
  by (simp_all add: ran_ok_def reportFailure_def)

text \<open>The loop as a relation, one rule per way in which it treats an event.\<close>

inductive event_loop ::
  "('c, 'd) Channel \<Rightarrow> time_ms \<Rightarrow> RtEvent list \<Rightarrow> 'd AgentState \<Rightarrow> string list \<Rightarrow> 'd AgentState \<Rightarrow> bool"
  for ch :: "('c, 'd) Channel" and now :: time_ms where
  loop_end: "event_loop ch now [] ag [] ag"
| loop_skip: "needs_no_run now (ag_store ag) e \<Longrightarrow> event_loop ch now es ag settled ag'
    \<Longrightarrow> event_loop ch now (e # es) ag (ev_id e # settled) ag'"
| loop_run: "\<not> needs_no_run now (ag_store ag) e \<Longrightarrow> event_invoke ch e (ag_disk ag) = (None, d)
    \<Longrightarrow> splitEventId (ev_id e) = (key, ts) \<Longrightarrow> event_loop ch now es (record_run e key (the ts) d ag) settled ag'
    \<Longrightarrow> event_loop ch now (e # es) ag (ev_id e # settled) ag'"
| loop_hold: "\<not> needs_no_run now (ag_store ag) e \<Longrightarrow> event_invoke ch e (ag_disk ag) = (Some message, d)
    \<Longrightarrow> isWorkspaceMutationEventKind (ev_kind e)
    \<Longrightarrow> event_loop ch now (e # es) ag [] (reportFailure e message (ag\<lparr>ag_disk := d\<rparr>))"
| loop_fail: "\<not> needs_no_run now (ag_store ag) e \<Longrightarrow> event_invoke ch e (ag_disk ag) = (Some message, d)
    \<Longrightarrow> \<not> isWorkspaceMutationEventKind (ev_kind e)
    \<Longrightarrow> event_loop ch now es (if ev_kind e = HarnessConfig then reportFailure e message (ag\<lparr>ag_disk := d\<rparr>)
                               else ag\<lparr>ag_disk := d\<rparr>) settled ag'
    \<Longrightarrow> event_loop ch now (e # es) ag settled ag'"

lemma processEvents_loop: "processEvents ch now es ag = (settled, ag') \<Longrightarrow> event_loop ch now es ag settled ag'"
proof (induction ch now es ag arbitrary: settled ag' rule: processEvents.induct)
  case (2 ch now e es ag)
  then show ?case
    by (auto simp: Let_def split: if_splits prod.splits option.splits intro: event_loop.intros)
qed (auto intro: loop_end)

text \<open>
  The loop only adds to the record, an event that it settles needs no run any more, and an event
  that it runs was one of the delivery.
\<close>

lemma event_loop_grows: "event_loop ch now es ag settled ag' \<Longrightarrow> store_grows (ag_store ag) (ag_store ag')"
  by (induction rule: event_loop.induct)
     (auto intro: store_grows_trans [OF record_run_facts(1)] split: if_splits)

lemma event_loop_ran_ok: "event_loop ch now es ag settled ag' \<Longrightarrow> ran_ok ag \<Longrightarrow> ran_ok ag'"
  by (induction rule: event_loop.induct) (auto dest: record_run_facts(3) split: if_splits)

lemma event_loop_settles:
  "event_loop ch now es ag settled ag' \<Longrightarrow> i \<in> set settled \<Longrightarrow>
     \<exists>e \<in> set es. ev_id e = i \<and> needs_no_run now (ag_store ag') e"
proof (induction rule: event_loop.induct)
  case (loop_skip ag e es settled ag')
  with event_loop_grows [OF loop_skip(2)] show ?case by (auto intro: needs_no_run_mono)
next
  case (loop_run ag e d key ts es settled ag')
  with record_run_facts(2) [OF loop_run(1,3)] event_loop_grows [OF loop_run(4)] show ?case
    by (auto intro: needs_no_run_mono)
qed auto

lemma event_loop_runs:
  "event_loop ch now es ag settled ag' \<Longrightarrow> \<exists>new. ag_ran ag' = ag_ran ag @ new \<and> set new \<subseteq> set es \<and> ev_id ` set new \<subseteq> set settled"
  by (induction rule: event_loop.induct) (fastforce simp: record_run_def split: if_splits)+

text \<open>Behind a workspace mutation that it leaves unsettled the loop runs nothing.\<close>

lemma event_loop_holds:
  assumes "event_loop ch now es ag settled ag'"
    and "es = xs @ e # ys" and "isWorkspaceMutationEventKind (ev_kind e)" and "ev_id e \<notin> set settled"
  shows "\<exists>new. ag_ran ag' = ag_ran ag @ new \<and> set new \<subseteq> set xs"
  using assms
proof (induction arbitrary: xs rule: event_loop.induct)
  case (loop_run ag e' d key ts es settled ag')
  then show ?case by (cases xs) (fastforce simp: record_run_def)+
next
  case (loop_skip ag e' es settled ag')
  then show ?case by (cases xs) fastforce+
next
  case (loop_fail ag e' message d es settled ag')
  then show ?case by (cases xs) (fastforce split: if_splits)+
qed auto

section \<open>Sequences of deliveries\<close>

datatype 'c ChannelStep =
    Deliver time_ms "'c ApplyStateInput"
  | Restart "string option" bool bool

fun channel_step :: "('c, 'd) Channel \<Rightarrow> 'c ChannelStep \<Rightarrow> 'd AgentState \<Rightarrow> 'd AgentState" where
  "channel_step ch (Deliver now input) ag = snd (channel_apply ch now input ag)"
| "channel_step ch (Restart fingerprint envReady envStale) ag =
     ag\<lparr>ag_store := createStateStore fingerprint envReady envStale (ag_store ag)\<rparr>"

definition fresh_agent :: "'d \<Rightarrow> 'd AgentState" where
  "fresh_agent d = \<lparr>ag_store = initial_runtime_state, ag_disk = d, ag_ran = [], ag_reports = []\<rparr>"

lemma fresh_agent_ok [simp]: "ran_ok (fresh_agent d)"
  by (simp add: ran_ok_def runs_ascend_def fresh_agent_def initial_runtime_state_def)

lemma ran_ok_store:
  "rs_eventRuns s = rs_eventRuns (ag_store ag) \<Longrightarrow> ran_ok (ag\<lparr>ag_store := s\<rparr>) = ran_ok ag"
  by (simp add: ran_ok_def last_run_def)

text \<open>A delivery as its loop over the events, from the disk that the drivers left.\<close>

lemma channel_apply_loop:
  assumes "channel_apply ch now input ag = (r, ag')"
  obtains d ag1 where "event_loop ch now (ai_events input) (ag\<lparr>ag_disk := d\<rparr>) (settled_of r) ag1"
    and "rs_eventRuns (ag_store ag') = rs_eventRuns (ag_store ag1)" and "ag_ran ag' = ag_ran ag1"
    and "ag' = ag1\<lparr>ag_store := ag_store ag'\<rparr>"
proof (cases "ai_version input < rs_lastAppliedVersion (ag_store ag)")
  case True
  with assms have "event_loop ch now (ai_events input) (ag\<lparr>ag_disk := ag_disk ag\<rparr>) (settled_of r) ag'"
    by (auto simp: channel_apply_def Let_def split: prod.splits intro: processEvents_loop)
  then show ?thesis by (rule that) auto
next
  case False
  obtain failures d where disp: "(if Some (ai_hash input) = rs_lastAppliedHash (ag_store ag) then ([], ag_disk ag)
      else dispatcher_apply ch (ai_contributions input) (ag_disk ag)) = (failures, d)" by fastforce
  obtain settled ag1 where loop: "processEvents ch now (ai_events input) (ag\<lparr>ag_disk := d\<rparr>) = (settled, ag1)" by fastforce
  have "settled_of r = settled" and "ag' = (if failures \<noteq> [] then ag1 else ag1\<lparr>ag_store :=
      (ag_store ag1)\<lparr>rs_lastAppliedVersion := ai_version input, rs_lastAppliedHash := Some (ai_hash input)\<rparr>\<rparr>)"
    using assms False disp loop by (auto simp: channel_apply_def Let_def split: prod.splits if_splits)
  with processEvents_loop [OF loop] show ?thesis by (intro that [of d ag1]) auto
qed

lemma channel_step_ran_ok: "ran_ok ag \<Longrightarrow> ran_ok (channel_step ch x ag)"
proof (cases x)
  case (Deliver now input)
  assume ok: "ran_ok ag"
  obtain r ag' where app: "channel_apply ch now input ag = (r, ag')" by fastforce
  from channel_apply_loop [OF this] obtain d ag1
    where loop: "event_loop ch now (ai_events input) (ag\<lparr>ag_disk := d\<rparr>) (settled_of r) ag1"
      and runs: "rs_eventRuns (ag_store ag') = rs_eventRuns (ag_store ag1)" and ag': "ag' = ag1\<lparr>ag_store := ag_store ag'\<rparr>"
    by metis
  have "ran_ok (ag1\<lparr>ag_store := ag_store ag'\<rparr>)"
    using event_loop_ran_ok [OF loop] ok runs by (simp add: ran_ok_store)
  with app Deliver ag' show ?thesis by simp
qed (simp add: ran_ok_store createStateStore_def Let_def)

lemma channel_run_ran_ok: "ran_ok ag \<Longrightarrow> ran_ok (fold (channel_step ch) steps ag)"
  by (induction steps arbitrary: ag) (auto intro: channel_step_ran_ok)

lemma ran_ok_distinct: "ran_ok ag \<Longrightarrow> distinct (map ev_id (ag_ran ag))"
proof -
  have "runs_ascend es \<Longrightarrow> distinct (map ev_id es)" for es
    by (induction es) (auto simp: runs_ascend_def run_key_def run_time_def)
  then show "ran_ok ag \<Longrightarrow> distinct (map ev_id (ag_ran ag))" by (auto simp: ran_ok_def)
qed

text \<open>
  C20. No event runs twice: however often and in whatever order the platform delivers events, and
  however often the runtime starts again and forgets the state that it applied, the handler of an
  event comes to its end at most once, and of the events of one key only in the order of their times.
\<close>

theorem event_runs_at_most_once:
  "distinct (map ev_id (ag_ran (fold (channel_step ch) steps (fresh_agent d))))
     \<and> runs_ascend (ag_ran (fold (channel_step ch) steps (fresh_agent d)))"
  using channel_run_ran_ok [OF fresh_agent_ok, of ch steps d] ran_ok_distinct by (auto simp: ran_ok_def)

text \<open>The deliveries to a runtime, with its answers.\<close>

fun serve :: "('c, 'd) Channel \<Rightarrow> (time_ms \<times> 'c ApplyStateInput) list \<Rightarrow> 'd AgentState \<Rightarrow> ApplyStateResult list \<times> 'd AgentState" where
  "serve ch [] ag = ([], ag)"
| "serve ch ((now, input) # steps) ag =
     (case channel_apply ch now input ag of
        (r, ag1) \<Rightarrow> (case serve ch steps ag1 of (rs, ag2) \<Rightarrow> (r # rs, ag2)))"

lemma event_loop_keeps_disk:
  assumes "event_loop ch now es ag settled ag'"
    and "\<And>e d. P d \<Longrightarrow> P (snd (event_invoke ch e d))" and "P (ag_disk ag)"
  shows "P (ag_disk ag')"
  using assms(1,3)
proof (induction rule: event_loop.induct)
  case (loop_run ag e d key ts es settled ag')
  with assms(2) [of "ag_disk ag" e] show ?case by (simp add: record_run_def)
next
  case (loop_hold ag e message d es)
  with assms(2) [of "ag_disk ag" e] show ?case by (simp add: reportFailure_def)
next
  case (loop_fail ag e message d es settled ag')
  with assms(2) [of "ag_disk ag" e] show ?case by (simp add: reportFailure_def split: if_splits)
qed auto

text \<open>What the runtime says it applied is what its disk holds.\<close>

definition says_what_it_has :: "('c list \<Rightarrow> 'd \<Rightarrow> bool) \<Rightarrow> 'c ApplyStateInput list \<Rightarrow> 'd AgentState \<Rightarrow> bool" where
  "says_what_it_has holds inputs ag \<longleftrightarrow>
     (\<forall>i \<in> set inputs. rs_lastAppliedHash (ag_store ag) = Some (ai_hash i) \<longrightarrow> holds (ai_contributions i) (ag_disk ag))"

lemma channel_apply_keeps_word:
  assumes "channel_apply ch now input ag = (r, ag')" and "failures_of r = []" and "input \<in> set inputs"
    and word: "says_what_it_has holds inputs ag"
    and drivers: "\<And>cs d d'. dispatcher_apply ch cs d = ([], d') \<Longrightarrow> holds cs d'"
    and handlers: "\<And>e d cs. holds cs d \<Longrightarrow> holds cs (snd (event_invoke ch e d))"
    and hash: "\<And>i j. i \<in> set inputs \<Longrightarrow> j \<in> set inputs \<Longrightarrow> ai_hash i = ai_hash j \<Longrightarrow> ai_contributions i = ai_contributions j"
  shows "says_what_it_has holds inputs ag'"
proof (cases "ai_version input < rs_lastAppliedVersion (ag_store ag)")
  case True
  obtain settled where loop: "processEvents ch now (ai_events input) ag = (settled, ag')"
    using assms(1) True by (auto simp: channel_apply_def Let_def split: prod.splits)
  note loop = processEvents_loop [OF loop]
  have "holds cs (ag_disk ag')" if "holds cs (ag_disk ag)" for cs
    using event_loop_keeps_disk [OF loop, of "holds cs"] that handlers by blast
  with word event_loop_grows [OF loop] show ?thesis unfolding says_what_it_has_def store_grows_def by simp
next
  case False
  obtain failures d where disp: "(if Some (ai_hash input) = rs_lastAppliedHash (ag_store ag) then ([], ag_disk ag)
      else dispatcher_apply ch (ai_contributions input) (ag_disk ag)) = (failures, d)" by fastforce
  obtain settled ag1 where loop: "processEvents ch now (ai_events input) (ag\<lparr>ag_disk := d\<rparr>) = (settled, ag1)" by fastforce
  have "failures = []" and ag': "ag' = ag1\<lparr>ag_store := (ag_store ag1)
      \<lparr>rs_lastAppliedVersion := ai_version input, rs_lastAppliedHash := Some (ai_hash input)\<rparr>\<rparr>"
    using assms(1,2) False disp loop by (auto simp: channel_apply_def Let_def split: prod.splits if_splits)
  have "holds (ai_contributions input) d"
  proof (cases "Some (ai_hash input) = rs_lastAppliedHash (ag_store ag)")
    case True
    with word assms(3) disp show ?thesis by (auto simp: says_what_it_has_def)
  next
    case False
    with disp \<open>failures = []\<close> have "dispatcher_apply ch (ai_contributions input) (ag_disk ag) = ([], d)" by simp
    then show ?thesis by (rule drivers)
  qed
  then have "holds (ai_contributions input) (ag_disk ag1)"
    using event_loop_keeps_disk [OF processEvents_loop [OF loop], of "holds (ai_contributions input)"] handlers
    by (metis AgentState.select_convs(2) AgentState.surjective AgentState.update_convs(2))
  moreover have "ai_contributions i = ai_contributions input" if "i \<in> set inputs" "ai_hash i = ai_hash input" for i
    using hash [OF that(1) assms(3) that(2)] .
  ultimately show ?thesis unfolding says_what_it_has_def ag' by simp
qed


text \<open>A runtime with two drivers: one writes the variables it is given, one fails when it is given a file.\<close>

definition sample_channel :: "(string, string list) Channel" where
  "sample_channel =
     \<lparr>ch_kindOf = (\<lambda>c. if c = ''file'' then FileKind else EnvKind),
      ch_drivers = [(EnvKind, [\<lambda>cs d. (None, cs)]), (FileKind, [\<lambda>cs d. (if cs = [] then None else Some ''no space'', d)])],
      ch_handlers = (\<lambda>_. None)\<rparr>"

definition sample_input :: "nat \<Rightarrow> string list \<Rightarrow> string \<Rightarrow> string ApplyStateInput" where
  "sample_input version cs hash = \<lparr>ai_version = version, ai_contributions = cs, ai_hash = hash, ai_events = []\<rparr>"

lemma sample_channel_apply:
  "dispatcher_apply sample_channel cs d =
     (if ''file'' \<in> set cs then [\<lparr>df_kind = FileKind, df_message = ''no space''\<rparr>] else [], filter (\<lambda>c. c \<noteq> ''file'') cs)"
  "event_invoke sample_channel e d = (None, d)"
proof -
  have "(\<lambda>c :: string. c = ''file'' \<longrightarrow> False) = (\<lambda>c. c \<noteq> ''file'')" by auto
  moreover have "filter (\<lambda>c. c = ''file'') cs = [] \<longleftrightarrow> ''file'' \<notin> set cs" by (auto simp: filter_empty_conv)
  ultimately show "dispatcher_apply sample_channel cs d =
     (if ''file'' \<in> set cs then [\<lparr>df_kind = FileKind, df_message = ''no space''\<rparr>] else [], filter (\<lambda>c. c \<noteq> ''file'') cs)"
    by (simp add: dispatcher_apply_def sample_channel_def)
qed (simp add: event_invoke_def sample_channel_def)


text \<open>
  A state whose drivers failed in part and that is then taken back stays on the disk: the
  runtime keeps the hash it had applied before, so the delivery of the earlier state, with that
  very hash, skips the drivers and is answered as applied, while the disk is the one that the
  failed drivers left.
\<close>

theorem revert_after_failure_is_skipped:
  assumes "rs_lastAppliedHash (ag_store ag) = Some h" and "rs_lastAppliedVersion (ag_store ag) \<le> v" and "v \<le> w"
    and "h' \<noteq> h" and "dispatcher_apply ch cs (ag_disk ag) = (failures, d)" and "failures \<noteq> []"
  shows "fst (serve ch [(now, \<lparr>ai_version = v, ai_contributions = cs, ai_hash = h', ai_events = []\<rparr>),
                        (now', \<lparr>ai_version = w, ai_contributions = cs\<^sub>0, ai_hash = h, ai_events = []\<rparr>)] ag)
           = [OkState (rs_lastAppliedVersion (ag_store ag)) (Some h) failures [], OkState w (Some h) [] []]
       \<and> ag_disk (snd (serve ch [(now, \<lparr>ai_version = v, ai_contributions = cs, ai_hash = h', ai_events = []\<rparr>),
                        (now', \<lparr>ai_version = w, ai_contributions = cs\<^sub>0, ai_hash = h, ai_events = []\<rparr>)] ag)) = d"
  using assms by (auto simp: channel_apply_def Let_def split: prod.splits)

theorem revert_after_failure_is_skipped_witness:
  "\<exists>ag. rs_lastAppliedHash (ag_store ag) = Some ''h1'' \<and> ag_disk ag = [''A'']
     \<and> fst (serve sample_channel [(2, sample_input 2 [''A'', ''B'', ''file''] ''h2''), (3, sample_input 3 [''A''] ''h1'')] ag)
         = [OkState 1 (Some ''h1'') [\<lparr>df_kind = FileKind, df_message = ''no space''\<rparr>] [], OkState 3 (Some ''h1'') [] []]
     \<and> ag_disk (snd (serve sample_channel [(2, sample_input 2 [''A'', ''B'', ''file''] ''h2''), (3, sample_input 3 [''A''] ''h1'')] ag))
         = [''A'', ''B'']"
proof -
  define ag where "ag = snd (serve sample_channel [(1, sample_input 1 [''A''] ''h1'')] (fresh_agent []))"
  have ag: "rs_lastAppliedHash (ag_store ag) = Some ''h1''" "rs_lastAppliedVersion (ag_store ag) = 1" "ag_disk ag = [''A'']"
    unfolding ag_def by code_simp+
  with revert_after_failure_is_skipped [OF ag(1), of 2 3 "''h2''" sample_channel "[''A'', ''B'', ''file'']"
      "[\<lparr>df_kind = FileKind, df_message = ''no space''\<rparr>]" "[''A'', ''B'']" 2 3 "[''A'']"]
  show ?thesis by (intro exI [of _ ag]) (simp add: sample_channel_apply sample_input_def)
qed

end
