(* ===== verification/Runtime_Delivery.thy ===== *)
theory Runtime_Delivery
  imports Runtime_Channel
begin

text \<open>
  The platform's end of the delivery: building the state of an agent
  (\<^verbatim>\<open>runtime-delivery/services/state-builder.ts\<close>), the worker that delivers it and records the
  outcome (\<^verbatim>\<open>worker-handler.ts\<close>), the greeting of a runtime and its reports
  (\<^verbatim>\<open>hello-handler.ts\<close>), the sweep over what is still to be delivered (\<^verbatim>\<open>cron-sweep.ts\<close>), and the
  messages between the sessions of an agent (\<^verbatim>\<open>session-messages.ts\<close>). The contributions that other
  modules compose, the hash over them, the schema of an event, the pairs that are filled into an
  event before it is sent, and what the cluster says of an agent are arguments. Log lines and the
  snapshot of the harness configuration are left out.
\<close>

section \<open>The state of the platform\<close>

datatype DeliveryEvent =
    WorkspaceMutationSettled agent_id user_sub
  | ContributionGapChanged agent_id user_sub
  | ContributionApplyFailed agent_id ContributionKind string
  | ContributionRecovered agent_id ContributionKind
  | ContributionApplyGaveUp agent_id ContributionKind string
  | RuntimeHelloReceived agent_id user_sub
  | AgentUpdated agent_id "user_sub option"

record 'd DeliveryWorld =
  dw_outbox :: OutboxState
  dw_capabilities :: "agent_id \<Rightarrow> AgentCapabilities option"
  dw_agents :: "agent_id \<Rightarrow> 'd AgentState"
  dw_queue :: "(agent_id \<times> bool) list" \<comment> \<open>the jobs put in the queue, with \<^verbatim>\<open>retryUntilReady\<close>\<close>
  dw_emitted :: "DeliveryEvent list"

record ('c, 'd) DeliveryDeps =
  dd_running :: "agent_id \<Rightarrow> bool"
  dd_contributions :: "agent_id \<Rightarrow> 'c list"
  dd_hash :: "'c list \<Rightarrow> string"
  dd_parses :: "PendingEventRow \<Rightarrow> bool"
  dd_resolve :: "agent_id \<Rightarrow> RtEvent \<Rightarrow> EventPayload option" \<comment> \<open>the payload to send, \<^const>\<open>None\<close> to hold the event back\<close>
  dd_channel :: "agent_id \<Rightarrow> ('c, 'd) Channel"
  dd_owner :: "agent_id \<Rightarrow> user_sub option"
  dd_reportArrives :: bool

section \<open>Building the state\<close>

record 'c StatePayload =
  sp_contributions :: "'c list"
  sp_hash :: string
  sp_events :: "RtEvent list"
  sp_droppedContributionKinds :: "ContributionKind list"
  sp_droppedEventKinds :: "EventKind list"

definition toEvent :: "PendingEventRow \<Rightarrow> RtEvent" where
  "toEvent row = \<lparr>ev_id = pe_id row, ev_kind = pe_kind row, ev_version = pe_version row,
                  ev_expiresAt = pe_expiresAt row, ev_payload = pe_payload row\<rparr>"

definition state_build ::
  "('c, 'd) DeliveryDeps \<Rightarrow> time_ms \<Rightarrow> agent_id \<Rightarrow> AgentCapabilities \<Rightarrow> OutboxState \<Rightarrow> 'c StatePayload" where
  "state_build deps now agentId capabilities st =
     (let events = map toEvent (filter (dd_parses deps) (pendingEvents now agentId st));
          filtered = filterByCapabilities (ch_kindOf (dd_channel deps agentId)) ev_kind capabilities
                       (dd_contributions deps agentId) events
      in \<lparr>sp_contributions = cf_contributions filtered, sp_hash = dd_hash deps (cf_contributions filtered),
          sp_events = cf_events filtered, sp_droppedContributionKinds = cf_droppedContributionKinds filtered,
          sp_droppedEventKinds = cf_droppedEventKinds filtered\<rparr>)"

section \<open>The worker\<close>

definition emit_for_owner ::
  "('c, 'd) DeliveryDeps \<Rightarrow> (agent_id \<Rightarrow> user_sub \<Rightarrow> DeliveryEvent) \<Rightarrow> agent_id \<Rightarrow> 'd DeliveryWorld \<Rightarrow> 'd DeliveryWorld" where
  "emit_for_owner deps event agentId w =
     (case dd_owner deps agentId of
        None \<Rightarrow> w
      | Some ownerSub \<Rightarrow> w\<lparr>dw_emitted := dw_emitted w @ [event agentId ownerSub]\<rparr>)"

text \<open>A delivery on its way: the version of the row when the worker read it, and what was built then.\<close>

record 'c StateDelivery =
  dv_agentId :: agent_id
  dv_version :: nat
  dv_payload :: "'c StatePayload"

datatype 'c Prepared = NothingToDo | NotReadyYet | ReadyToSend "'c StateDelivery"

definition resolve_events :: "('c, 'd) DeliveryDeps \<Rightarrow> agent_id \<Rightarrow> 'c StatePayload \<Rightarrow> 'c StatePayload" where
  "resolve_events deps agentId built =
     built\<lparr>sp_events := List.map_filter
       (\<lambda>e. map_option (\<lambda>p. e\<lparr>ev_payload := p\<rparr>) (dd_resolve deps agentId e)) (sp_events built)\<rparr>"

definition drop_unsupported ::
  "('c, 'd) DeliveryDeps \<Rightarrow> time_ms \<Rightarrow> agent_id \<Rightarrow> 'c StatePayload \<Rightarrow> 'd DeliveryWorld \<Rightarrow> 'd DeliveryWorld" where
  "drop_unsupported deps now agentId payload w =
     (case markEventsUndeliverable now agentId (filter isWorkspaceMutationEventKind (sp_droppedEventKinds payload)) (dw_outbox w) of
        (undeliverable, st) \<Rightarrow>
          let w1 = w\<lparr>dw_outbox := st\<rparr>
          in if 0 < undeliverable then emit_for_owner deps WorkspaceMutationSettled agentId w1 else w1)"

definition worker_prepare ::
  "('c, 'd) DeliveryDeps \<Rightarrow> time_ms \<Rightarrow> agent_id \<Rightarrow> bool \<Rightarrow> 'd DeliveryWorld \<Rightarrow> 'c Prepared \<times> 'd DeliveryWorld" where
  "worker_prepare deps now agentId retryUntilReady w =
     (case getRow agentId (dw_outbox w) of
        None \<Rightarrow> (NothingToDo, w)
      | Some row \<Rightarrow>
          if \<not> dd_running deps agentId then (if retryUntilReady then NotReadyYet else NothingToDo, w)
          else case dw_capabilities w agentId of
                 None \<Rightarrow> (NothingToDo, w)
               | Some capabilities \<Rightarrow>
                   let payload = resolve_events deps agentId (state_build deps now agentId capabilities (dw_outbox w))
                   in (ReadyToSend \<lparr>dv_agentId = agentId, dv_version = ob_version row, dv_payload = payload\<rparr>,
                       drop_unsupported deps now agentId payload w))"

text \<open>The reports that the runtime sends while it runs the events, as they reach the platform.\<close>

definition report_all :: "time_ms \<Rightarrow> agent_id \<Rightarrow> (string \<times> string) list \<Rightarrow> OutboxState \<Rightarrow> OutboxState" where
  "report_all now agentId reports st =
     fold (\<lambda>(eventId, detail) st. snd (claimEventReport now eventId agentId (Some detail) st)) reports st"

definition worker_send ::
  "('c, 'd) DeliveryDeps \<Rightarrow> time_ms \<Rightarrow> 'c StateDelivery \<Rightarrow> 'd DeliveryWorld \<Rightarrow> ApplyStateResult \<times> 'd DeliveryWorld" where
  "worker_send deps now dv w =
     (let agentId = dv_agentId dv; payload = dv_payload dv; ag = dw_agents w agentId
      in case channel_apply (dd_channel deps agentId) now
                \<lparr>ai_version = dv_version dv, ai_contributions = sp_contributions payload, ai_hash = sp_hash payload,
                 ai_events = sp_events payload\<rparr> ag of
           (result, ag1) \<Rightarrow>
             (result, w\<lparr>dw_agents := (dw_agents w)(agentId := ag1),
                        dw_outbox := (if dd_reportArrives deps
                                      then report_all now agentId (drop (length (ag_reports ag)) (ag_reports ag1)) (dw_outbox w)
                                      else dw_outbox w)\<rparr>))"

fun attemptedEventIds :: "RtEvent list \<Rightarrow> string list \<Rightarrow> string list" where
  "attemptedEventIds [] settled = []"
| "attemptedEventIds (e # es) settled =
     (if isWorkspaceMutationEventKind (ev_kind e) \<and> ev_id e \<notin> set settled then [ev_id e]
      else ev_id e # attemptedEventIds es settled)"

definition outcome_of :: "'c StateDelivery \<Rightarrow> ApplyStateResult \<Rightarrow> DeliveryResult" where
  "outcome_of dv result =
     (case result of
        StaleState version settled \<Rightarrow>
          \<lparr>dl_appliedVersion = dv_version dv, dl_appliedHash = Some (sp_hash (dv_payload dv)), dl_failures = [],
           dl_settledEventIds = settled, dl_deliveredEventIds = attemptedEventIds (sp_events (dv_payload dv)) settled,
           dl_droppedContributionKinds = sp_droppedContributionKinds (dv_payload dv)\<rparr>
      | OkState version hash failures settled \<Rightarrow>
          \<lparr>dl_appliedVersion = version, dl_appliedHash = hash, dl_failures = failures,
           dl_settledEventIds = settled, dl_deliveredEventIds = attemptedEventIds (sp_events (dv_payload dv)) settled,
           dl_droppedContributionKinds = sp_droppedContributionKinds (dv_payload dv)\<rparr>)"

definition mutation_settled :: "'c StateDelivery \<Rightarrow> ApplyStateResult \<Rightarrow> bool" where
  "mutation_settled dv result \<longleftrightarrow>
     list_ex (\<lambda>e. ev_id e \<in> set (settled_of result) \<and> isWorkspaceMutationEventKind (ev_kind e)) (sp_events (dv_payload dv))"

definition transition_events :: "agent_id \<Rightarrow> ApplyTransitions \<Rightarrow> DeliveryEvent list" where
  "transition_events agentId t =
     map (\<lambda>f. ContributionApplyFailed agentId (df_kind f) (df_message f)) (at_newlyFailed t)
     @ map (ContributionRecovered agentId) (at_recovered t)
     @ map (\<lambda>f. ContributionApplyGaveUp agentId (df_kind f) (df_message f)) (at_gaveUp t)"

definition worker_record ::
  "('c, 'd) DeliveryDeps \<Rightarrow> time_ms \<Rightarrow> 'c StateDelivery \<Rightarrow> ApplyStateResult \<Rightarrow> 'd DeliveryWorld \<Rightarrow> 'd DeliveryWorld" where
  "worker_record deps now dv result w =
     (case recordOutcome now (dv_agentId dv) (dv_version dv) (outcome_of dv result) (dw_outbox w) of
        (t, st) \<Rightarrow>
          let w1 = w\<lparr>dw_outbox := st\<rparr>;
              w2 = (if at_droppedKindsChanged t then emit_for_owner deps ContributionGapChanged (dv_agentId dv) w1 else w1);
              w3 = (if mutation_settled dv result \<or> at_eventsGaveUp t \<noteq> []
                    then emit_for_owner deps WorkspaceMutationSettled (dv_agentId dv) w2 else w2)
          in w3\<lparr>dw_emitted := dw_emitted w3 @ transition_events (dv_agentId dv) t\<rparr>)"

text \<open>One job of the worker; \<^const>\<open>Inl\<close> stands for the error with which a job is tried again.\<close>

definition worker_handler ::
  "('c, 'd) DeliveryDeps \<Rightarrow> time_ms \<Rightarrow> agent_id \<Rightarrow> bool \<Rightarrow> 'd DeliveryWorld \<Rightarrow> (unit + unit) \<times> 'd DeliveryWorld" where
  "worker_handler deps now agentId retryUntilReady w =
     (case worker_prepare deps now agentId retryUntilReady w of
        (NothingToDo, w1) \<Rightarrow> (Inr (), w1)
      | (NotReadyYet, w1) \<Rightarrow> (Inl (), w1)
      | (ReadyToSend dv, w1) \<Rightarrow>
          (case worker_send deps now dv w1 of (result, w2) \<Rightarrow> (Inr (), worker_record deps now dv result w2)))"

section \<open>Messages between sessions\<close>

definition SESSION_MESSAGE_TTL_MS :: int where "SESSION_MESSAGE_TTL_MS = 60 * 60 * 1000"
definition QUOTE_MAX :: nat where "QUOTE_MAX = 200"

definition enqueue :: "agent_id \<Rightarrow> bool \<Rightarrow> 'd DeliveryWorld \<Rightarrow> 'd DeliveryWorld" where
  "enqueue agentId retryUntilReady w = w\<lparr>dw_queue := dw_queue w @ [(agentId, retryUntilReady)]\<rparr>"

definition message_send ::
  "nat \<Rightarrow> string \<Rightarrow> agent_id \<Rightarrow> SessionMessagePayload \<Rightarrow> 'd DeliveryWorld \<Rightarrow> OutboxEvent \<times> 'd DeliveryWorld" where
  "message_send at' newId agentId payload w =
     (let event = \<lparr>oe_id = ''session-message:'' @ agentId @ '':'' @ newId @ '':'' @ show_nat at', oe_kind = SessionMessageKind,
                   oe_payload = MessagePayload payload, oe_expiresAt = int at' + SESSION_MESSAGE_TTL_MS\<rparr>
      in (event, enqueue agentId False (w\<lparr>dw_outbox := snd (mutator_bump (int at') agentId [event] (dw_outbox w))\<rparr>)))"

text \<open>\<^verbatim>\<open>replace(/\\s+/g, " ").trim()\<close>, cut to a length with the bytes of an ellipsis.\<close>

fun collapse_spaces :: "string \<Rightarrow> string" where
  "collapse_spaces [] = []"
| "collapse_spaces (c # s) =
     (if is_space c
      then (case s of [] \<Rightarrow> '' '' | d # _ \<Rightarrow> if is_space d then collapse_spaces s else CHR '' '' # collapse_spaces s)
      else c # collapse_spaces s)"

definition quoted :: "string \<Rightarrow> string" where
  "quoted text =
     (let flat = js_trim (collapse_spaces text)
      in if QUOTE_MAX < length flat then take QUOTE_MAX flat @ [CHR 0xE2, CHR 0x80, CHR 0xA6] else flat)"

definition undelivered_notice :: "SessionMessagePayload \<Rightarrow> string \<Rightarrow> string \<Rightarrow> SessionMessagePayload" where
  "undelivered_notice message sender why =
     \<lparr>sm_sessionId = sender,
      sm_text = ''Your message to session '' @ sm_sessionId message @ '' was not delivered: '' @ why
                @ [CHR 0x0A, CHR 0x0A] @ ''It read: '' @ [CHR 0x22] @ quoted (sm_text message) @ [CHR 0x22],
      sm_fromSessionId = None, sm_notice = True\<rparr>"

definition tellSender :: "nat \<Rightarrow> string \<Rightarrow> agent_id \<Rightarrow> EventPayload \<Rightarrow> string \<Rightarrow> 'd DeliveryWorld \<Rightarrow> 'd DeliveryWorld" where
  "tellSender at' newId agentId raw why w =
     (case raw of
        OtherPayload _ \<Rightarrow> w
      | MessagePayload message \<Rightarrow>
          if sm_notice message then w
          else case sm_fromSessionId message of
                 None \<Rightarrow> w
               | Some sender \<Rightarrow>
                   if sender = [] then w else snd (message_send at' newId agentId (undelivered_notice message sender why) w))"

definition EXPIRED_WHY :: string where
  "EXPIRED_WHY = ''it waited an hour without reaching that session, so it was dropped''"

definition message_onExpired :: "nat \<Rightarrow> string \<Rightarrow> PendingEventRow \<Rightarrow> 'd DeliveryWorld \<Rightarrow> 'd DeliveryWorld" where
  "message_onExpired at' newId event w =
     (if pe_kind event = SessionMessageKind then tellSender at' newId (pe_agentId event) (pe_payload event) EXPIRED_WHY w else w)"

section \<open>Greetings and reports of a runtime\<close>

datatype EventOutcome = OutcomeOk | OutcomeDeclined | OutcomeFailed

fun outcome_name :: "EventOutcome \<Rightarrow> string" where
  "outcome_name OutcomeOk = ''ok''"
| "outcome_name OutcomeDeclined = ''declined''"
| "outcome_name OutcomeFailed = ''failed''"

definition report_detail :: "EventOutcome \<Rightarrow> string option \<Rightarrow> string option" where
  "report_detail outcome detail =
     (if outcome = OutcomeOk then None else Some (case detail of None \<Rightarrow> outcome_name outcome | Some d \<Rightarrow> d))"

text \<open>The handlers that the composition registers: a hint for a workspace mutation, and the sender of a message.\<close>

definition event_outcome_handlers ::
  "('c, 'd) DeliveryDeps \<Rightarrow> nat \<Rightarrow> string \<Rightarrow> PendingEventRow \<Rightarrow> EventOutcome \<Rightarrow> string option \<Rightarrow> 'd DeliveryWorld \<Rightarrow> 'd DeliveryWorld" where
  "event_outcome_handlers deps at' newId event outcome detail w =
     (if isWorkspaceMutationEventKind (pe_kind event)
      then w\<lparr>dw_emitted := dw_emitted w @ [AgentUpdated (pe_agentId event) (dd_owner deps (pe_agentId event))]\<rparr>
      else if pe_kind event = SessionMessageKind \<and> outcome \<noteq> OutcomeOk
      then tellSender at' newId (pe_agentId event) (pe_payload event)
             (case detail of None \<Rightarrow> outcome_name outcome | Some d \<Rightarrow> d) w
      else w)"

definition reportEvent ::
  "('c, 'd) DeliveryDeps \<Rightarrow> nat \<Rightarrow> string \<Rightarrow> agent_id \<Rightarrow> string \<Rightarrow> EventOutcome \<Rightarrow> string option \<Rightarrow> 'd DeliveryWorld \<Rightarrow> 'd DeliveryWorld" where
  "reportEvent deps at' newId agentId eventId outcome detail w =
     (case claimEventReport (int at') eventId agentId (report_detail outcome detail) (dw_outbox w) of
        (None, st) \<Rightarrow> w\<lparr>dw_outbox := st\<rparr>
      | (Some event, st) \<Rightarrow> event_outcome_handlers deps at' newId event outcome detail (w\<lparr>dw_outbox := st\<rparr>))"

record HelloInput =
  hi_capabilities :: AgentCapabilities
  hi_lastAppliedVersion :: "nat option"
  hi_lastAppliedHash :: "string option option" \<comment> \<open>\<^const>\<open>None\<close> when the runtime does not say it\<close>

definition stateDrifted :: "('c, 'd) DeliveryDeps \<Rightarrow> time_ms \<Rightarrow> agent_id \<Rightarrow> HelloInput \<Rightarrow> OutboxState \<Rightarrow> bool" where
  "stateDrifted deps now agentId input st =
     (case hi_lastAppliedHash input of
        None \<Rightarrow> False
      | Some hash \<Rightarrow> Some (sp_hash (state_build deps now agentId (hi_capabilities input) st)) \<noteq> hash)"

definition hello_bump :: "time_ms \<Rightarrow> agent_id \<Rightarrow> HelloInput \<Rightarrow> 'd DeliveryWorld \<Rightarrow> nat option \<times> 'd DeliveryWorld" where
  "hello_bump now agentId input w =
     (let w1 = w\<lparr>dw_capabilities := (dw_capabilities w)(agentId := Some (hi_capabilities input))\<rparr>
      in if advertisedKindsChanged (dw_capabilities w agentId) (Some (hi_capabilities input))
            \<and> getRow agentId (dw_outbox w) \<noteq> None
         then (case bumpVersion now agentId True (dw_outbox w) of (version, st) \<Rightarrow> (Some version, w1\<lparr>dw_outbox := st\<rparr>))
         else (None, w1))"

definition hello :: "('c, 'd) DeliveryDeps \<Rightarrow> time_ms \<Rightarrow> agent_id \<Rightarrow> HelloInput \<Rightarrow> 'd DeliveryWorld \<Rightarrow> 'd DeliveryWorld" where
  "hello deps now agentId input w =
     (case hello_bump now agentId input w of
        (bumped, w1) \<Rightarrow>
          let w2 = emit_for_owner deps RuntimeHelloReceived agentId w1;
              applied = (case hi_lastAppliedVersion input of None \<Rightarrow> 0 | Some v \<Rightarrow> v)
          in case bumped of
               Some version \<Rightarrow> if applied < version then enqueue agentId True w2 else w2
             | None \<Rightarrow>
                 (case getRow agentId (dw_outbox w2) of
                    None \<Rightarrow> w2
                  | Some row \<Rightarrow>
                      if hi_lastAppliedVersion input = Some (ob_version row) \<and> stateDrifted deps now agentId input (dw_outbox w2)
                      then (case bumpVersion now agentId True (dw_outbox w2) of
                              (version, st) \<Rightarrow>
                                if applied < version then enqueue agentId True (w2\<lparr>dw_outbox := st\<rparr>) else w2\<lparr>dw_outbox := st\<rparr>)
                      else if applied < ob_version row then enqueue agentId True w2 else w2))"

section \<open>The sweep\<close>

datatype RunningCheck = IsRunning | IsStopped | NotKnown string

definition tick ::
  "(agent_id \<Rightarrow> RunningCheck) \<Rightarrow> nat \<Rightarrow> (PendingEventRow \<Rightarrow> string) \<Rightarrow> 'd DeliveryWorld \<Rightarrow> 'd DeliveryWorld" where
  "tick check at' newId w =
     (let retryable = map ob_agentId (listRetryable (int at') (dw_outbox w));
          toEnqueue = filter (\<lambda>a. check a \<noteq> IsStopped) retryable;
          w1 = fold (\<lambda>a. enqueue a False) toEnqueue w
      in case deleteExpiredEvents (int at') (dw_outbox w1) of
           (dropped, st) \<Rightarrow> fold (\<lambda>e. message_onExpired at' (newId e) e) dropped (w1\<lparr>dw_outbox := st\<rparr>))"

definition retryWorkspaceMutation :: "nat \<Rightarrow> agent_id \<Rightarrow> EventKind \<Rightarrow> 'd DeliveryWorld \<Rightarrow> bool \<times> 'd DeliveryWorld" where
  "retryWorkspaceMutation at' agentId kind w =
     (case latestWorkspaceEvent agentId kind (dw_outbox w) of
        None \<Rightarrow> (False, w)
      | Some latest \<Rightarrow>
          (True, enqueue agentId False (w\<lparr>dw_outbox :=
             snd (mutator_bump (int at') agentId [workspaceEvent kind (event_kind_name kind) agentId (pe_payload latest) at'] (dw_outbox w))\<rparr>)))"

record ContributionsStatus =
  st_settled :: bool
  st_failures :: "DriverFailure list"
  st_preparingWorkspace :: bool
  st_workspaceFailures :: "WorkspaceFailure list"
  st_unsupportedKinds :: "ContributionKind list"

definition contributionsStatus :: "time_ms \<Rightarrow> agent_id \<Rightarrow> OutboxState \<Rightarrow> ContributionsStatus" where
  "contributionsStatus now agentId st =
     (let row = getRow agentId st; progress = progressOf row
      in \<lparr>st_settled = cp_settled progress, st_failures = cp_failures progress,
          st_preparingWorkspace = agentId \<in> preparingWorkspaceAgentIds now [agentId] st,
          st_workspaceFailures = workspaceFailures agentId st,
          st_unsupportedKinds = (case row of None \<Rightarrow> [] | Some r \<Rightarrow> ob_droppedContributionKinds r)\<rparr>)"

section \<open>The ids of events\<close>

text \<open>
  The runtime reads from the id of an event what the platform wrote into it: the key of a
  workspace event is its prefix with the agent, the key of a message between sessions is its own,
  and the number is the time of the event, so later events of a key are later runs.
\<close>

theorem event_id_roundtrip:
  "splitEventId (oe_id (workspaceEvent kind idPrefix agentId payload at')) = (idPrefix @ '':'' @ agentId, Some at')
   \<and> splitEventId (oe_id (fst (message_send at' newId agentId message w))) = (''session-message:'' @ agentId @ '':'' @ newId, Some at')"
proof -
  have "oe_id (workspaceEvent kind idPrefix agentId payload at') = (idPrefix @ '':'' @ agentId) @ CHR '':'' # show_nat at'"
    by (simp add: workspaceEvent_def)
  moreover have "oe_id (fst (message_send at' newId agentId message w))
      = (''session-message:'' @ agentId @ '':'' @ newId) @ CHR '':'' # show_nat at'"
    by (simp add: message_send_def Let_def)
  ultimately show ?thesis by (simp only: splitEventId_written simp_thms)
qed

end
