(* ===== verification/Runtime_System.thy ===== *)
theory Runtime_System
  imports Runtime_Delivery
begin

text \<open>
  The delivery as a whole: the platform with its workers and the runtimes of the agents as one
  transition system, in which workers overlap, a request to a runtime can arrive late or more than
  once, its answer can be recorded late or more than once, and a runtime can start again between
  any two steps. Its invariant shows that no event is lost on the way; a pass of the worker that
  meets a runtime in order brings it to the state that the platform wants.
\<close>

section \<open>The steps\<close>

record ('c, 'd) DeliverySystem =
  sy_world :: "'d DeliveryWorld"
  sy_sent :: "'c StateDelivery list"
  sy_answers :: "('c StateDelivery \<times> ApplyStateResult) list"
  sy_clock :: time_ms

definition set_outbox :: "OutboxState \<Rightarrow> ('c, 'd) DeliverySystem \<Rightarrow> ('c, 'd) DeliverySystem" where
  "set_outbox st s = s\<lparr>sy_world := (sy_world s)\<lparr>dw_outbox := st\<rparr>\<rparr>"

text \<open>The ids that a delivery on its way or its answer can still name.\<close>

definition ids_on_the_way :: "('c, 'd) DeliverySystem \<Rightarrow> string set" where
  "ids_on_the_way s = (\<Union>dv \<in> set (sy_sent s). ev_id ` set (sp_events (dv_payload dv)))"

text \<open>A runtime reports success for an event that it runs, while the platform still waits for it, or that it ran.\<close>

definition may_succeed :: "('c, 'd) DeliverySystem \<Rightarrow> string \<Rightarrow> agent_id \<Rightarrow> bool" where
  "may_succeed s i a \<longleftrightarrow>
     (\<forall>r \<in> set (os_events (dw_outbox (sy_world s))). pe_id r = i \<longrightarrow> re_dispatchedAt r = None)
     \<or> i \<in> ev_id ` set (ag_ran (dw_agents (sy_world s) a))"

inductive delivery_step :: "('c, 'd) DeliveryDeps \<Rightarrow> ('c, 'd) DeliverySystem \<Rightarrow> ('c, 'd) DeliverySystem \<Rightarrow> bool"
  for deps :: "('c, 'd) DeliveryDeps" where
  step_time: "sy_clock s \<le> t \<Longrightarrow> delivery_step deps s (s\<lparr>sy_clock := t\<rparr>)"
| step_enqueue: "outbox_guard (Enqueue (sy_clock s) a es) (dw_outbox (sy_world s))
    \<Longrightarrow> set (map oe_id es) \<inter> ids_on_the_way s = {}
    \<Longrightarrow> delivery_step deps s (set_outbox (outbox_step (Enqueue (sy_clock s) a es) (dw_outbox (sy_world s))) s)"
| step_supersede:
    "delivery_step deps s (set_outbox (supersedePending (sy_clock s) a kind (dw_outbox (sy_world s))) s)"
| step_expire:
    "delivery_step deps s (set_outbox (snd (deleteExpiredEvents (sy_clock s) (dw_outbox (sy_world s)))) s)"
| step_hello: "delivery_step deps s (s\<lparr>sy_world := hello deps (sy_clock s) a input (sy_world s)\<rparr>)"
| step_prepare: "worker_prepare deps (sy_clock s) a retry (sy_world s) = (ReadyToSend dv, w)
    \<Longrightarrow> delivery_step deps s (s\<lparr>sy_world := w, sy_sent := dv # sy_sent s\<rparr>)"
| step_send: "dv \<in> set (sy_sent s) \<Longrightarrow> worker_send deps (sy_clock s) dv (sy_world s) = (r, w)
    \<Longrightarrow> delivery_step deps s (s\<lparr>sy_world := w, sy_answers := (dv, r) # sy_answers s\<rparr>)"
| step_record: "(dv, r) \<in> set (sy_answers s)
    \<Longrightarrow> delivery_step deps s (s\<lparr>sy_world := worker_record deps (sy_clock s) dv r (sy_world s)\<rparr>)"
| step_report: "(detail = None \<Longrightarrow> may_succeed s i a)
    \<Longrightarrow> delivery_step deps s (set_outbox (snd (claimEventReport (sy_clock s) i a detail (dw_outbox (sy_world s)))) s)"
| step_restart: "delivery_step deps s (s\<lparr>sy_world := (sy_world s)\<lparr>dw_agents :=
      (dw_agents (sy_world s))(a := (dw_agents (sy_world s) a)
        \<lparr>ag_store := createStateStore fingerprint envReady envStale (ag_store (dw_agents (sy_world s) a))\<rparr>)\<rparr>\<rparr>)"

definition delivery_init :: "('c, 'd) DeliverySystem \<Rightarrow> bool" where
  "delivery_init s \<longleftrightarrow> dw_outbox (sy_world s) = empty_outbox \<and> sy_sent s = [] \<and> sy_answers s = []
     \<and> (\<forall>a. \<exists>d. dw_agents (sy_world s) a = fresh_agent d)"

section \<open>The invariant\<close>

text \<open>An event needs no run any more, at the runtime of its agent and at this time.\<close>

definition accounted :: "('c, 'd) DeliverySystem \<Rightarrow> agent_id \<Rightarrow> RtEvent \<Rightarrow> bool" where
  "accounted s a e \<longleftrightarrow> needs_no_run (sy_clock s) (ag_store (dw_agents (sy_world s) a)) e"

definition version_reached :: "OutboxState \<Rightarrow> 'c StateDelivery \<Rightarrow> bool" where
  "version_reached st dv \<longleftrightarrow> (\<exists>row. getRow (dv_agentId dv) st = Some row \<and> dv_version dv \<le> ob_version row)"

definition same_expiry :: "OutboxState \<Rightarrow> 'c StateDelivery \<Rightarrow> bool" where
  "same_expiry st dv \<longleftrightarrow> (\<forall>e \<in> set (sp_events (dv_payload dv)). \<forall>r \<in> set (os_events st).
     pe_id r = ev_id e \<longrightarrow> pe_expiresAt r = ev_expiresAt e)"

fun applied_version :: "ApplyStateResult \<Rightarrow> nat" where
  "applied_version (StaleState v settled) = 0"
| "applied_version (OkState v hash failures settled) = v"

definition answer_ok :: "('c, 'd) DeliverySystem \<Rightarrow> 'c StateDelivery \<times> ApplyStateResult \<Rightarrow> bool" where
  "answer_ok s x \<longleftrightarrow> fst x \<in> set (sy_sent s) \<and> applied_version (snd x) \<le> dv_version (fst x)
     \<and> (\<forall>i \<in> set (settled_of (snd x)). \<exists>e \<in> set (sp_events (dv_payload (fst x))).
          ev_id e = i \<and> accounted s (dv_agentId (fst x)) e)"

definition settled_ok :: "('c, 'd) DeliverySystem \<Rightarrow> EventRow \<Rightarrow> bool" where
  "settled_ok s r \<longleftrightarrow> (re_dispatchedAt r \<noteq> None \<and> re_error r = None
     \<longrightarrow> accounted s (pe_agentId r) (toEvent (PendingEventRow.truncate r)))"

definition delivery_inv :: "('c, 'd) DeliverySystem \<Rightarrow> bool" where
  "delivery_inv s \<longleftrightarrow> outbox_inv (dw_outbox (sy_world s))
     \<and> (\<forall>a. ran_ok (dw_agents (sy_world s) a))
     \<and> (\<forall>dv \<in> set (sy_sent s). version_reached (dw_outbox (sy_world s)) dv \<and> same_expiry (dw_outbox (sy_world s)) dv)
     \<and> (\<forall>x \<in> set (sy_answers s). answer_ok s x)
     \<and> (\<forall>r \<in> set (os_events (dw_outbox (sy_world s))). settled_ok s r)"

lemma needs_no_run_cong:
  "ev_id e = ev_id e' \<Longrightarrow> ev_expiresAt e = ev_expiresAt e' \<Longrightarrow> needs_no_run now s e = needs_no_run now s e'"
  by (simp add: needs_no_run_def split: prod.split option.split)

lemma toEvent_truncate [simp]:
  "ev_id (toEvent (PendingEventRow.truncate (r :: EventRow))) = pe_id r"
  "ev_expiresAt (toEvent (PendingEventRow.truncate r)) = pe_expiresAt r"
  by (simp_all add: toEvent_def PendingEventRow.truncate_def)

text \<open>
  The runtimes' records only grow, in the sense of \<^const>\<open>last_run\<close>, and time goes on: what was
  accounted for stays so.
\<close>

definition runs_grow :: "('c, 'd) DeliverySystem \<Rightarrow> ('c, 'd) DeliverySystem \<Rightarrow> bool" where
  "runs_grow s s' \<longleftrightarrow> sy_clock s \<le> sy_clock s' \<and>
     (\<forall>a key. last_run (ag_store (dw_agents (sy_world s) a)) key \<le> last_run (ag_store (dw_agents (sy_world s') a)) key)"

lemma accounted_mono: "accounted s a e \<Longrightarrow> runs_grow s s' \<Longrightarrow> accounted s' a e"
  unfolding accounted_def runs_grow_def needs_no_run_def
  by (auto split: prod.splits option.splits intro: order_trans)

lemma delivery_inv_grows:
  assumes "delivery_inv s" and "runs_grow s s'" and "\<And>a. ran_ok (dw_agents (sy_world s') a)"
    and "dw_outbox (sy_world s') = dw_outbox (sy_world s)" and "sy_sent s' = sy_sent s" and "sy_answers s' = sy_answers s"
  shows "delivery_inv s'"
proof -
  have "settled_ok s' r" if "settled_ok s r" for r
    using that accounted_mono [OF _ assms(2)] by (auto simp: settled_ok_def)
  moreover have "answer_ok s' x" if "answer_ok s x" for x
    using that accounted_mono [OF _ assms(2)] assms(5) by (auto simp: answer_ok_def) blast
  ultimately show ?thesis using assms by (simp add: delivery_inv_def)
qed

text \<open>
  A change of the outbox that keeps the invariant: rows keep their versions or gain, an event is
  an old one that was not settled without being accounted for, or a new one.
\<close>

definition outbox_moves :: "('c, 'd) DeliverySystem \<Rightarrow> OutboxState \<Rightarrow> OutboxState \<Rightarrow> bool" where
  "outbox_moves s st st' \<longleftrightarrow> outbox_inv st'
     \<and> (\<forall>a row. getRow a st = Some row \<longrightarrow> (\<exists>row'. getRow a st' = Some row' \<and> ob_version row \<le> ob_version row'))
     \<and> (\<forall>r' \<in> set (os_events st').
          (\<exists>r \<in> set (os_events st). pe_id r' = pe_id r \<and> pe_expiresAt r' = pe_expiresAt r \<and> (settled_ok s r \<longrightarrow> settled_ok s r'))
          \<or> pe_id r' \<notin> ids_on_the_way s \<and> settled_ok s r')"

lemma outbox_moves_trans:
  assumes "outbox_moves s st st'" and "outbox_moves s st' st''"
  shows "outbox_moves s st st''"
proof -
  have "\<exists>row''. getRow a st'' = Some row'' \<and> ob_version row \<le> ob_version row''" if "getRow a st = Some row" for a row
    using that assms unfolding outbox_moves_def by (meson order_trans)
  moreover have "(\<exists>r \<in> set (os_events st). pe_id r'' = pe_id r \<and> pe_expiresAt r'' = pe_expiresAt r \<and> (settled_ok s r \<longrightarrow> settled_ok s r''))
      \<or> pe_id r'' \<notin> ids_on_the_way s \<and> settled_ok s r''" if "r'' \<in> set (os_events st'')" for r''
  proof -
    have 2: "(\<exists>r' \<in> set (os_events st'). pe_id r'' = pe_id r' \<and> pe_expiresAt r'' = pe_expiresAt r' \<and> (settled_ok s r' \<longrightarrow> settled_ok s r''))
        \<or> pe_id r'' \<notin> ids_on_the_way s \<and> settled_ok s r''"
      using assms(2) that unfolding outbox_moves_def by blast
    have 1: "(\<exists>r \<in> set (os_events st). pe_id r' = pe_id r \<and> pe_expiresAt r' = pe_expiresAt r \<and> (settled_ok s r \<longrightarrow> settled_ok s r'))
        \<or> pe_id r' \<notin> ids_on_the_way s \<and> settled_ok s r'" if "r' \<in> set (os_events st')" for r'
      using assms(1) that unfolding outbox_moves_def by blast
    show ?thesis using 2 by (auto dest!: 1)
  qed
  ultimately show ?thesis using assms(2) unfolding outbox_moves_def by blast
qed

lemma delivery_inv_outbox:
  fixes s :: "('c, 'd) DeliverySystem"
  assumes "delivery_inv s" and "outbox_moves s (dw_outbox (sy_world s)) st'"
  shows "delivery_inv (set_outbox st' s)"
proof -
  have same: "accounted (set_outbox st' s) = accounted s" by (simp add: accounted_def set_outbox_def fun_eq_iff)
  have ok: "settled_ok (set_outbox st' s) = settled_ok s" by (simp add: settled_ok_def same fun_eq_iff)
  have sent: "sy_sent (set_outbox st' s) = sy_sent s" by (simp add: set_outbox_def)
  have ans: "answer_ok (set_outbox st' s) = answer_ok s" by (simp add: answer_ok_def same sent fun_eq_iff)
  have "version_reached st' dv" if "version_reached (dw_outbox (sy_world s)) dv" for dv :: "'c StateDelivery"
    using that assms(2) unfolding version_reached_def outbox_moves_def by (meson order_trans)
  moreover have "same_expiry st' dv" if "same_expiry (dw_outbox (sy_world s)) dv" "dv \<in> set (sy_sent s)" for dv
    using assms(2) that unfolding same_expiry_def outbox_moves_def ids_on_the_way_def by fastforce
  moreover have "settled_ok s r'" if "r' \<in> set (os_events st')" for r'
    using assms that unfolding delivery_inv_def outbox_moves_def by blast
  moreover have "outbox_inv st'" using assms(2) by (simp add: outbox_moves_def)
  ultimately show ?thesis
    using assms(1) unfolding delivery_inv_def ok ans by (auto simp: set_outbox_def)
qed

lemma getRow_map:
  assumes "\<And>r. ob_agentId (f r) = ob_agentId r"
  shows "getRow a (st\<lparr>os_rows := map f (os_rows st)\<rparr>) = map_option f (getRow a st)"
proof -
  have "find (\<lambda>r. ob_agentId r = a) (map f rs) = map_option f (find (\<lambda>r. ob_agentId r = a) rs)" for rs
    by (induction rs) (auto simp: assms)
  then show ?thesis by (simp add: getRow_def)
qed

lemma getRow_events [simp]: "getRow a (st\<lparr>os_events := es\<rparr>) = getRow a st"
  by (simp add: getRow_def)

text \<open>A change of the events alone.\<close>

lemma outbox_moves_events:
  assumes "outbox_inv (st\<lparr>os_events := map g (os_events st)\<rparr>)"
    and "\<And>r. pe_id (g r) = pe_id r \<and> pe_expiresAt (g r) = pe_expiresAt r"
    and "\<And>r. r \<in> set (os_events st) \<Longrightarrow> settled_ok s r \<Longrightarrow> settled_ok s (g r)"
  shows "outbox_moves s st (st\<lparr>os_events := map g (os_events st)\<rparr>)"
  unfolding outbox_moves_def using assms by auto

lemma settled_ok_error: "re_error r = Some e \<Longrightarrow> settled_ok s r"
  by (simp add: settled_ok_def)

lemma outbox_moves_drop:
  assumes "outbox_inv st"
  shows "outbox_moves s st (st\<lparr>os_events := drop_waiting now why a kinds (os_events st)\<rparr>)"
proof -
  have "outbox_inv (st\<lparr>os_events := drop_waiting now why a kinds (os_events st)\<rparr>)"
    using assms unfolding drop_waiting_def update_where_def
    by (intro outbox_inv_events) (auto simp: outbox_inv_attempts [OF assms] split: if_splits)
  then show ?thesis unfolding drop_waiting_def update_where_def
    by (rule outbox_moves_events) (auto intro: settled_ok_error)
qed

lemma outbox_moves_report:
  assumes "outbox_inv st"
  shows "outbox_moves s st (snd (claimEventReport now i a (Some detail) st))"
proof -
  have "outbox_inv (snd (claimEventReport now i a (Some detail) st))"
    using outbox_step_inv [OF assms, of "Report now i a (Some detail)"] by simp
  then show ?thesis unfolding claimEventReport_def Let_def update_where_def snd_conv
    by (rule outbox_moves_events) (auto intro: settled_ok_error)
qed

lemma run_is_accounted:
  assumes "ran_ok (dw_agents (sy_world s) a)" and "ev_id e \<in> ev_id ` set (ag_ran (dw_agents (sy_world s) a))"
  shows "accounted s a e"
proof -
  obtain x where x: "x \<in> set (ag_ran (dw_agents (sy_world s) a))" "ev_id x = ev_id e" using assms(2) by auto
  with assms(1) have "run_time x \<le> last_run (ag_store (dw_agents (sy_world s) a)) (run_key x)" by (simp add: ran_ok_def)
  with x(2) show ?thesis
    by (auto simp: accounted_def needs_no_run_def run_time_def run_key_def split: prod.split option.split)
qed

lemma outbox_moves_success:
  assumes "delivery_inv s" and "may_succeed s i a"
  shows "outbox_moves s (dw_outbox (sy_world s)) (snd (claimEventReport now i a None (dw_outbox (sy_world s))))"
proof -
  have inv: "outbox_inv (dw_outbox (sy_world s))" and ok: "ran_ok (dw_agents (sy_world s) a)"
    using assms(1) by (simp_all add: delivery_inv_def)
  have "settled_ok s (r\<lparr>re_error := None, re_reportedAt := Some now\<rparr>)"
    if "r \<in> set (os_events (dw_outbox (sy_world s)))" "pe_id r = i" "pe_agentId r = a" for r
    using assms(2) that run_is_accounted [OF ok, of "toEvent (PendingEventRow.truncate (r\<lparr>re_error := None, re_reportedAt := Some now\<rparr>))"]
    by (auto simp: settled_ok_def may_succeed_def)
  moreover have "outbox_inv (snd (claimEventReport now i a None (dw_outbox (sy_world s))))"
    using outbox_step_inv [OF inv, of "Report now i a None"] by simp
  ultimately show ?thesis unfolding claimEventReport_def Let_def update_where_def snd_conv
    by (intro outbox_moves_events) auto
qed

lemma outbox_moves_refl: "outbox_inv st \<Longrightarrow> outbox_moves s st st"
  by (auto simp: outbox_moves_def)

lemma outbox_moves_reports: "outbox_inv st \<Longrightarrow> outbox_moves s st (report_all now a reports st)"
proof (induction reports arbitrary: st)
  case (Cons x xs)
  obtain i detail where x: "x = (i, detail)" by (cases x)
  have one: "outbox_moves s st (snd (claimEventReport now i a (Some detail) st))" by (rule outbox_moves_report [OF Cons.prems])
  then have "outbox_inv (snd (claimEventReport now i a (Some detail) st))" by (simp add: outbox_moves_def)
  from outbox_moves_trans [OF one Cons.IH [OF this]] show ?case by (simp add: report_all_def x)
qed (simp add: report_all_def outbox_moves_refl)

lemma outbox_moves_expire:
  assumes "outbox_inv st"
  shows "outbox_moves s st (snd (deleteExpiredEvents now st))"
  using outbox_step_inv [OF assms, of "Expire now"] unfolding outbox_moves_def
  by (auto simp: deleteExpiredEvents_def Let_def delete_where_def)

lemma outbox_moves_bump:
  assumes "outbox_inv st" and "bumpVersion now a reset st = (v, st')"
  shows "outbox_moves s st st'"
proof -
  have "\<exists>row'. getRow b st' = Some row' \<and> ob_version row \<le> ob_version row'" if row: "getRow b st = Some row" for b row
  proof (cases "getRow a st")
    case None
    have more: "find P xs = Some x \<Longrightarrow> find P (xs @ ys) = Some x" for P xs ys and x :: OutboxRow
      by (induction xs) auto
    have "find (\<lambda>r. ob_agentId r = b) (os_rows st @ [new_row now a]) = Some row"
      using row by (intro more) (simp add: getRow_def)
    moreover have "st' = st\<lparr>os_rows := os_rows st @ [new_row now a]\<rparr>"
      using assms(2) None by (simp add: bumpVersion_def)
    ultimately show ?thesis by (simp add: getRow_def)
  next
    case (Some prev)
    define f where "f = (\<lambda>r :: OutboxRow. if ob_agentId r = a
      then let r1 = r\<lparr>ob_version := ob_version r + 1, ob_lastEnqueuedAt := now\<rparr>
           in if reset then r1\<lparr>ob_applyAttempts := 0, ob_applyFailures := []\<rparr> else r1 else r)"
    have "st' = st\<lparr>os_rows := map f (os_rows st)\<rparr>"
      using Some assms(2) unfolding bumpVersion_def update_where_def f_def by simp
    moreover have "getRow b (st\<lparr>os_rows := map f (os_rows st)\<rparr>) = Some (f row)"
      using row by (subst getRow_map) (auto simp: f_def Let_def)
    ultimately show ?thesis by (auto simp: f_def Let_def)
  qed
  with bumpVersion_facts(1,2) [OF assms] show ?thesis unfolding outbox_moves_def by auto
qed

lemma outbox_moves_enqueue:
  assumes "outbox_inv st" and "outbox_guard (Enqueue now a es) st" and "set (map oe_id es) \<inter> ids_on_the_way s = {}"
  shows "outbox_moves s st (outbox_step (Enqueue now a es) st)"
proof -
  obtain v st' where bump: "bumpVersion now a (es = []) st = (v, st')" by (cases "bumpVersion now a (es = []) st")
  have moves: "outbox_moves s st st'" by (rule outbox_moves_bump [OF assms(1) bump])
  have step: "outbox_step (Enqueue now a es) st = st'\<lparr>os_events := os_events st' @ map (outbox_event_row a v) es\<rparr>"
    using bump bumpVersion_facts(2) [OF assms(1) bump] assms(2) by (cases "es = []") (auto simp: mutator_bump_def insert_all)
  have "settled_ok s (outbox_event_row a v e)" for e by (simp add: settled_ok_def)
  then have "outbox_moves s st' (st'\<lparr>os_events := os_events st' @ map (outbox_event_row a v) es\<rparr>)"
    using outbox_step_inv [OF assms(1,2)] assms(3) unfolding step outbox_moves_def by auto
  with moves step show ?thesis by (auto intro: outbox_moves_trans)
qed

lemma outcome_of_settled [simp]: "dl_settledEventIds (outcome_of dv r) = settled_of r"
  by (cases r) (simp_all add: outcome_of_def)

lemma outbox_moves_record:
  assumes "delivery_inv s" and "(dv, r) \<in> set (sy_answers s)"
  shows "outbox_moves s (dw_outbox (sy_world s))
           (snd (recordOutcome now (dv_agentId dv) (dv_version dv) (outcome_of dv r) (dw_outbox (sy_world s))))"
proof -
  define st where "st = dw_outbox (sy_world s)"
  have inv: "outbox_inv st" and ans: "answer_ok s (dv, r)" and dv: "dv \<in> set (sy_sent s)"
    using assms by (auto simp: delivery_inv_def answer_ok_def st_def)
  then have reached: "version_reached st dv" and expiry: "same_expiry st dv"
    using assms(1) by (auto simp: delivery_inv_def st_def)
  then obtain prev where prev: "getRow (dv_agentId dv) st = Some prev" "dv_version dv \<le> ob_version prev"
    by (auto simp: version_reached_def)
  define st' where "st' = snd (recordOutcome now (dv_agentId dv) (dv_version dv) (outcome_of dv r) st)"
  have "dl_appliedVersion (outcome_of dv r) \<le> dv_version dv"
    using ans by (cases r) (auto simp: outcome_of_def answer_ok_def)
  then have "outbox_guard (Record now (dv_agentId dv) (dv_version dv) (outcome_of dv r)) st" using prev by simp
  from outbox_step_inv [OF inv this] have inv': "outbox_inv st'" by (simp add: st'_def)
  define f where "f = (\<lambda>x :: OutboxRow. if ob_agentId x = dv_agentId dv \<and> \<not> dv_version dv < ob_lastSettledVersion prev
    then settle_row now (dv_version dv) (outcome_of dv r) x else x)"
  have st': "st' = st\<lparr>os_events := map (outcome_row now (dv_agentId dv) (outcome_of dv r)) (os_events st),
      os_rows := map f (os_rows st)\<rparr>"
    using recordOutcome_state [OF inv prev(1), of now "dv_version dv" "outcome_of dv r"]
    by (simp add: st'_def f_def update_where_def)
  have "getRow b st' = map_option f (getRow b st)" for b
    unfolding st' by (subst getRow_map [symmetric]) (auto simp: f_def settle_row_def getRow_def)
  then have rows: "\<exists>row'. getRow b st' = Some row' \<and> ob_version row \<le> ob_version row'" if "getRow b st = Some row" for b row
    using that by (auto simp: f_def settle_row_def)
  have keeps: "settled_ok s (outcome_row now (dv_agentId dv) (outcome_of dv r) x)" if x: "x \<in> set (os_events st)" "settled_ok s x" for x
  proof (cases "pe_agentId x = dv_agentId dv \<and> pe_id x \<in> set (settled_of r)")
    case True
    then obtain e where e: "e \<in> set (sp_events (dv_payload dv))" "ev_id e = pe_id x" "accounted s (dv_agentId dv) e"
      using ans by (fastforce simp: answer_ok_def)
    moreover have "ev_expiresAt e = pe_expiresAt x" using expiry e(1,2) x(1) by (auto simp: same_expiry_def)
    moreover define e' where "e' = toEvent (PendingEventRow.truncate (outcome_row now (dv_agentId dv) (outcome_of dv r) x))"
    ultimately have "ev_id e' = ev_id e" and "ev_expiresAt e' = ev_expiresAt e" by simp_all
    from needs_no_run_cong [OF this] e(3) True have "accounted s (pe_agentId x) e'" by (simp only: accounted_def)
    then show ?thesis by (simp add: settled_ok_def e'_def)
  next
    case False
    then show ?thesis using x(2) by (auto simp: outcome_row_def settled_ok_def Let_def)
  qed
  have "\<exists>x \<in> set (os_events st). pe_id r' = pe_id x \<and> pe_expiresAt r' = pe_expiresAt x \<and> (settled_ok s x \<longrightarrow> settled_ok s r')"
    if "r' \<in> set (os_events st')" for r'
    using that keeps by (auto simp: st')
  with inv' rows have "outbox_moves s st st'" unfolding outbox_moves_def by blast
  then show ?thesis by (simp only: st'_def st_def)
qed

text \<open>The other parts of the platform's state play no role in the invariant.\<close>

lemma delivery_inv_world:
  assumes "delivery_inv s" and "outbox_moves s (dw_outbox (sy_world s)) (dw_outbox w)" and "dw_agents w = dw_agents (sy_world s)"
  shows "delivery_inv (s\<lparr>sy_world := w\<rparr>)"
  by (rule delivery_inv_grows [OF delivery_inv_outbox [OF assms(1,2)]])
     (use assms in \<open>auto simp: set_outbox_def runs_grow_def delivery_inv_def\<close>)

lemma emit_for_owner_keeps [simp]:
  "dw_outbox (emit_for_owner deps f a w) = dw_outbox w" "dw_agents (emit_for_owner deps f a w) = dw_agents w"
  by (simp_all add: emit_for_owner_def split: option.split)

lemma enqueue_keeps [simp]:
  "dw_outbox (enqueue a retry w) = dw_outbox w" "dw_agents (enqueue a retry w) = dw_agents w"
  by (simp_all add: enqueue_def)

lemma hello_bump_moves:
  assumes "outbox_inv (dw_outbox w)" and "hello_bump now a input w = (b, w')"
  shows "outbox_moves s (dw_outbox w) (dw_outbox w')" and "dw_agents w' = dw_agents w"
proof -
  show "dw_agents w' = dw_agents w"
    using assms(2) by (auto simp: hello_bump_def Let_def split: if_splits prod.splits)
  obtain v st where bump: "bumpVersion now a True (dw_outbox w) = (v, st)" by fastforce
  have "dw_outbox w' = dw_outbox w \<or> dw_outbox w' = st"
    using assms(2) bump by (auto simp: hello_bump_def Let_def split: if_splits)
  with outbox_moves_bump [OF assms(1) bump, of s] outbox_moves_refl [OF assms(1), of s]
  show "outbox_moves s (dw_outbox w) (dw_outbox w')" by auto
qed

lemma hello_moves:
  assumes "outbox_inv (dw_outbox w)"
  shows "outbox_moves s (dw_outbox w) (dw_outbox (hello deps now a input w))" and "dw_agents (hello deps now a input w) = dw_agents w"
proof -
  obtain b w1 where bump: "hello_bump now a input w = (b, w1)" by fastforce
  note one = hello_bump_moves [OF assms bump]
  have inv: "outbox_inv (dw_outbox w1)" using one(1) [of s] by (simp add: outbox_moves_def)
  obtain v st where again: "bumpVersion now a True (dw_outbox w1) = (v, st)" by fastforce
  have "dw_outbox (hello deps now a input w) = dw_outbox w1 \<or> dw_outbox (hello deps now a input w) = st"
    using bump again by (auto simp: hello_def Let_def split: option.splits)
  with one(1) [of s] outbox_moves_trans [OF one(1) outbox_moves_bump [OF inv again], of s]
  show "outbox_moves s (dw_outbox w) (dw_outbox (hello deps now a input w))" by auto
  show "dw_agents (hello deps now a input w) = dw_agents w"
    using bump again one(2) by (auto simp: hello_def Let_def split: option.splits)
qed

lemma delivery_inv_sent:
  assumes "delivery_inv s" and "version_reached (dw_outbox (sy_world s)) dv" and "same_expiry (dw_outbox (sy_world s)) dv"
  shows "delivery_inv (s\<lparr>sy_sent := dv # sy_sent s\<rparr>)"
  using assms by (auto simp: delivery_inv_def answer_ok_def settled_ok_def accounted_def)

lemma delivery_inv_answer:
  assumes "delivery_inv s" and "answer_ok s x"
  shows "delivery_inv (s\<lparr>sy_answers := x # sy_answers s\<rparr>)"
  using assms by (auto simp: delivery_inv_def answer_ok_def settled_ok_def accounted_def)

text \<open>A prepared delivery is of the version of its row, and its events are rows that wait.\<close>

lemma worker_prepare_facts:
  assumes "worker_prepare deps now a retry w = (ReadyToSend dv, w')"
  shows "\<exists>row. getRow a (dw_outbox w) = Some row \<and> dv_version dv = ob_version row" and "dv_agentId dv = a"
    and "w' = drop_unsupported deps now a (dv_payload dv) w"
    and "e \<in> set (sp_events (dv_payload dv)) \<Longrightarrow>
           \<exists>r \<in> set (os_events (dw_outbox w)). pe_id r = ev_id e \<and> pe_expiresAt r = ev_expiresAt e \<and> pe_kind r = ev_kind e"
proof -
  obtain row where row: "getRow a (dw_outbox w) = Some row"
    using assms by (cases "getRow a (dw_outbox w)") (auto simp: worker_prepare_def)
  have run: "dd_running deps a" using assms row by (auto simp: worker_prepare_def split: if_splits)
  obtain caps where caps: "dw_capabilities w a = Some caps"
    using assms row run by (cases "dw_capabilities w a") (auto simp: worker_prepare_def)
  define payload where "payload = resolve_events deps a (state_build deps now a caps (dw_outbox w))"
  have dv: "dv = \<lparr>dv_agentId = a, dv_version = ob_version row, dv_payload = payload\<rparr>"
    and w': "w' = drop_unsupported deps now a payload w"
    using assms row run caps by (simp_all add: worker_prepare_def Let_def payload_def)
  show "\<exists>row. getRow a (dw_outbox w) = Some row \<and> dv_version dv = ob_version row" and "dv_agentId dv = a"
    and "w' = drop_unsupported deps now a (dv_payload dv) w" using row dv w' by simp_all
  assume "e \<in> set (sp_events (dv_payload dv))"
  then obtain e\<^sub>0 p where "e\<^sub>0 \<in> set (sp_events (state_build deps now a caps (dw_outbox w)))" and e: "e = e\<^sub>0\<lparr>ev_payload := p\<rparr>"
    unfolding dv payload_def resolve_events_def by (auto simp: set_map_filter_iff)
  then have "e\<^sub>0 \<in> toEvent ` set (pendingEvents now a (dw_outbox w))"
    unfolding state_build_def Let_def filterByCapabilities_def by auto
  then show "\<exists>r \<in> set (os_events (dw_outbox w)). pe_id r = ev_id e \<and> pe_expiresAt r = ev_expiresAt e \<and> pe_kind r = ev_kind e"
    unfolding pendingEvents_def by (auto simp: e toEvent_def PendingEventRow.truncate_def)
qed

lemma drop_unsupported_moves:
  assumes "outbox_inv (dw_outbox w)"
  shows "outbox_moves s (dw_outbox w) (dw_outbox (drop_unsupported deps now a payload w))"
    and "dw_agents (drop_unsupported deps now a payload w) = dw_agents w"
    and "os_rows (dw_outbox (drop_unsupported deps now a payload w)) = os_rows (dw_outbox w)"
    and "r' \<in> set (os_events (dw_outbox (drop_unsupported deps now a payload w))) \<Longrightarrow>
           \<exists>r \<in> set (os_events (dw_outbox w)). pe_id r = pe_id r' \<and> pe_expiresAt r = pe_expiresAt r'"
proof -
  have eq: "dw_outbox (drop_unsupported deps now a payload w) = (dw_outbox w)\<lparr>os_events :=
      drop_waiting now (''event kind not supported by the agent'' @ [CHR 0x27] @ ''s runtime'') a
        (filter isWorkspaceMutationEventKind (sp_droppedEventKinds payload)) (os_events (dw_outbox w))\<rparr>"
    by (simp add: drop_unsupported_def markEventsUndeliverable_def Let_def)
  show "outbox_moves s (dw_outbox w) (dw_outbox (drop_unsupported deps now a payload w))"
    unfolding eq by (rule outbox_moves_drop [OF assms])
  show "dw_agents (drop_unsupported deps now a payload w) = dw_agents w"
    by (simp add: drop_unsupported_def Let_def split: prod.split)
  show "os_rows (dw_outbox (drop_unsupported deps now a payload w)) = os_rows (dw_outbox w)"
    unfolding eq by simp
  have "\<exists>r \<in> set t. pe_id r = pe_id r' \<and> pe_expiresAt r = pe_expiresAt r'"
    if "r' \<in> set (drop_waiting now why a kinds t)" for t kinds why
    using that by (auto simp: drop_waiting_def set_update_where)
  then show "r' \<in> set (os_events (dw_outbox (drop_unsupported deps now a payload w))) \<Longrightarrow>
      \<exists>r \<in> set (os_events (dw_outbox w)). pe_id r = pe_id r' \<and> pe_expiresAt r = pe_expiresAt r'"
    unfolding eq by simp
qed

lemma prepared_delivery_ok:
  assumes "delivery_inv s" and "worker_prepare deps now a retry (sy_world s) = (ReadyToSend dv, w')"
  shows "version_reached (dw_outbox w') dv" and "same_expiry (dw_outbox w') dv"
proof -
  have inv: "outbox_inv (dw_outbox (sy_world s))" using assms(1) by (simp add: delivery_inv_def)
  note prep = worker_prepare_facts [OF assms(2)] and drop = drop_unsupported_moves [OF inv]
  show "version_reached (dw_outbox w') dv"
    using prep(1,2) drop(3) [of deps now a "dv_payload dv"] unfolding prep(3) version_reached_def getRow_def by auto
  have "pe_expiresAt r' = ev_expiresAt e"
    if e: "e \<in> set (sp_events (dv_payload dv))" and r': "r' \<in> set (os_events (dw_outbox w'))" "pe_id r' = ev_id e" for e r'
  proof -
    obtain r where r: "r \<in> set (os_events (dw_outbox (sy_world s)))" "pe_id r = pe_id r'" "pe_expiresAt r = pe_expiresAt r'"
      using drop(4) r'(1) unfolding prep(3) by blast
    moreover obtain q where "q \<in> set (os_events (dw_outbox (sy_world s)))" "pe_id q = ev_id e" "pe_expiresAt q = ev_expiresAt e"
      using prep(4) [OF e] by blast
    moreover have "distinct (map pe_id (os_events (dw_outbox (sy_world s))))" using inv by (simp add: outbox_inv_def)
    ultimately show ?thesis using r'(2) by (metis distinct_map inj_onD)
  qed
  then show "same_expiry (dw_outbox w') dv" by (auto simp: same_expiry_def)
qed

text \<open>What a runtime answers to a delivery.\<close>

lemma channel_apply_answer:
  assumes "channel_apply ch now input ag = (r, ag')"
  shows "applied_version r \<le> ai_version input"
    and "i \<in> set (settled_of r) \<Longrightarrow> \<exists>e \<in> set (ai_events input). ev_id e = i \<and> needs_no_run now (ag_store ag') e"
    and "last_run (ag_store ag) key \<le> last_run (ag_store ag') key"
proof -
  show "applied_version r \<le> ai_version input"
    using assms by (auto simp: channel_apply_def Let_def split: if_splits prod.splits)
  obtain d ag1 where loop: "event_loop ch now (ai_events input) (ag\<lparr>ag_disk := d\<rparr>) (settled_of r) ag1"
    and runs: "rs_eventRuns (ag_store ag') = rs_eventRuns (ag_store ag1)"
    using channel_apply_loop [OF assms] by metis
  have same: "last_run (ag_store ag') k = last_run (ag_store ag1) k" for k using runs by (simp add: last_run_def)
  then have "needs_no_run now (ag_store ag') e = needs_no_run now (ag_store ag1) e" for e
    by (simp add: needs_no_run_def split: prod.split option.split)
  with event_loop_settles [OF loop]
  show "i \<in> set (settled_of r) \<Longrightarrow> \<exists>e \<in> set (ai_events input). ev_id e = i \<and> needs_no_run now (ag_store ag') e" by simp
  show "last_run (ag_store ag) key \<le> last_run (ag_store ag') key"
    using event_loop_grows [OF loop] same by (simp add: store_grows_def)
qed

lemma delivery_send_inv:
  assumes "delivery_inv s" and "dv \<in> set (sy_sent s)" and "worker_send deps (sy_clock s) dv (sy_world s) = (r, w)"
  shows "delivery_inv (s\<lparr>sy_world := w, sy_answers := (dv, r) # sy_answers s\<rparr>)"
proof -
  define a where "a = dv_agentId dv"
  define ag where "ag = dw_agents (sy_world s) a"
  define input where "input = \<lparr>ai_version = dv_version dv, ai_contributions = sp_contributions (dv_payload dv),
    ai_hash = sp_hash (dv_payload dv), ai_events = sp_events (dv_payload dv)\<rparr>"
  obtain ag1 where app: "channel_apply (dd_channel deps a) (sy_clock s) input ag = (r, ag1)"
    and agents: "dw_agents w = (dw_agents (sy_world s))(a := ag1)"
    and outbox: "dw_outbox w = dw_outbox (sy_world s)
      \<or> dw_outbox w = report_all (sy_clock s) a (drop (length (ag_reports ag)) (ag_reports ag1)) (dw_outbox (sy_world s))"
    using assms(3) by (auto simp: worker_send_def Let_def a_def ag_def input_def split: prod.splits if_splits)
  note ans = channel_apply_answer [OF app]
  define s1 where "s1 = s\<lparr>sy_world := (sy_world s)\<lparr>dw_agents := (dw_agents (sy_world s))(a := ag1)\<rparr>\<rparr>"
  have inv: "outbox_inv (dw_outbox (sy_world s))" using assms(1) by (simp add: delivery_inv_def)
  have "ran_ok ag1"
    using channel_step_ran_ok [of ag "dd_channel deps a" "Deliver (sy_clock s) input"] app assms(1)
    by (simp add: delivery_inv_def ag_def)
  then have "delivery_inv s1"
    by (intro delivery_inv_grows [OF assms(1)])
       (use ans(3) assms(1) in \<open>auto simp: s1_def runs_grow_def delivery_inv_def ag_def\<close>)
  moreover have "outbox_moves s1 (dw_outbox (sy_world s1)) (dw_outbox w)"
    using outbox outbox_moves_refl [OF inv, of s1] outbox_moves_reports [OF inv, of s1] by (auto simp: s1_def)
  ultimately have "delivery_inv (s1\<lparr>sy_world := w\<rparr>)"
    by (rule delivery_inv_world) (simp add: agents s1_def)
  moreover have "answer_ok (s1\<lparr>sy_world := w\<rparr>) (dv, r)"
    using ans(1,2) assms(2) by (auto simp: answer_ok_def accounted_def s1_def agents a_def input_def)
  ultimately have "delivery_inv (s1\<lparr>sy_world := w, sy_answers := (dv, r) # sy_answers (s1\<lparr>sy_world := w\<rparr>)\<rparr>)"
    by (rule delivery_inv_answer)
  then show ?thesis by (simp add: s1_def)
qed

lemma worker_record_world:
  "dw_outbox (worker_record deps now dv r w) = snd (recordOutcome now (dv_agentId dv) (dv_version dv) (outcome_of dv r) (dw_outbox w))"
  "dw_agents (worker_record deps now dv r w) = dw_agents w"
  by (simp_all add: worker_record_def Let_def split: prod.split)

lemma restart_keeps_runs [simp]:
  "rs_eventRuns (createStateStore fingerprint envReady envStale x) = rs_eventRuns x"
  "last_run (createStateStore fingerprint envReady envStale x) = last_run x"
  by (simp_all add: last_run_def createStateStore_def Let_def fun_eq_iff)

lemma delivery_step_inv:
  assumes "delivery_inv s" and "delivery_step deps s s'"
  shows "delivery_inv s'"
proof -
  have inv: "outbox_inv (dw_outbox (sy_world s))" using assms(1) by (simp add: delivery_inv_def)
  from assms(2) show ?thesis
  proof cases
    case (step_time t)
    then show ?thesis
      using assms(1) by (intro delivery_inv_grows [OF assms(1)]) (auto simp: runs_grow_def delivery_inv_def)
  next
    case (step_enqueue a es)
    show ?thesis unfolding step_enqueue(1)
      by (rule delivery_inv_outbox [OF assms(1)], rule outbox_moves_enqueue [OF inv step_enqueue(2,3)])
  next
    case (step_supersede a kind)
    then show ?thesis unfolding step_supersede supersedePending_def
      by (intro delivery_inv_outbox [OF assms(1)] outbox_moves_drop [OF inv])
  next
    case step_expire
    then show ?thesis using outbox_moves_expire [OF inv] by (auto intro: delivery_inv_outbox [OF assms(1)])
  next
    case (step_hello a input)
    show ?thesis unfolding step_hello
      by (rule delivery_inv_world [OF assms(1) hello_moves [OF inv]])
  next
    case (step_prepare a retry dv w)
    have "delivery_inv (s\<lparr>sy_world := w\<rparr>)"
      unfolding worker_prepare_facts(3) [OF step_prepare(2)]
      using drop_unsupported_moves(1,2) [OF inv] by (intro delivery_inv_world [OF assms(1)])
    from delivery_inv_sent [OF this] prepared_delivery_ok [OF assms(1) step_prepare(2)] step_prepare(1)
    show ?thesis by simp
  next
    case (step_send dv r w)
    then show ?thesis using delivery_send_inv [OF assms(1)] by simp
  next
    case (step_record dv r)
    show ?thesis unfolding step_record(1)
      by (rule delivery_inv_world [OF assms(1)])
         (simp_all add: worker_record_world outbox_moves_record [OF assms(1) step_record(2)])
  next
    case (step_report detail i a)
    show ?thesis unfolding step_report(1)
      by (rule delivery_inv_outbox [OF assms(1)], cases detail)
         (use step_report(2) outbox_moves_success [OF assms(1)] outbox_moves_report [OF inv] in simp_all)
  next
    case (step_restart a fingerprint envReady envStale)
    have "runs_grow s s'" unfolding step_restart runs_grow_def by simp
    moreover have "ran_ok (dw_agents (sy_world s') b)" for b
      using assms(1) unfolding step_restart delivery_inv_def by (simp add: ran_ok_store)
    ultimately show ?thesis by (rule delivery_inv_grows [OF assms(1)]) (simp_all add: step_restart)
  qed
qed

interpretation delivery: invariant_system delivery_init "delivery_step deps" delivery_inv for deps
proof unfold_locales
  show "delivery_inv s" if "delivery_init s" for s :: "('a, 'b) DeliverySystem"
    using that unfolding delivery_init_def delivery_inv_def
    by (auto simp: empty_outbox_def outbox_inv_def) (metis fresh_agent_ok)
qed (rule delivery_step_inv)

section \<open>No event is lost\<close>

lemma recorded_run:
  assumes "ran_ok ag" and "0 < ts" and "ts \<le> last_run (ag_store ag) key"
  shows "\<exists>x \<in> set (ag_ran ag). run_key x = key \<and> ts \<le> run_time x"
proof (cases "rs_eventRuns (ag_store ag) key")
  case None
  with assms(2,3) show ?thesis by (simp add: last_run_def)
next
  case (Some n)
  with assms(1,3) show ?thesis by (fastforce simp: ran_ok_def last_run_def)
qed

text \<open>
  C4. No event is lost on the way: in every state that workers, runtimes, late and repeated
  requests and answers, greetings, restarts and the clock can reach, an event that the platform
  holds for done, that has no error and that is not over its time was run by the runtime of its
  agent, or a later event of the same key was.
\<close>

theorem settled_event_was_run:
  assumes "reachable delivery_init (delivery_step deps) s"
    and "r \<in> set (os_events (dw_outbox (sy_world s)))" and "re_dispatchedAt r \<noteq> None" and "re_error r = None"
    and "splitEventId (pe_id r) = (key, Some ts)" and "0 < ts" and "sy_clock s < pe_expiresAt r"
  shows "\<exists>e \<in> set (ag_ran (dw_agents (sy_world s) (pe_agentId r))). run_key e = key \<and> ts \<le> run_time e"
proof -
  have inv: "delivery_inv s" by (rule delivery.reachable_inv [OF assms(1)])
  with assms(2-4) have "accounted s (pe_agentId r) (toEvent (PendingEventRow.truncate r))"
    by (simp add: delivery_inv_def settled_ok_def)
  with assms(5,7) have "ts \<le> last_run (ag_store (dw_agents (sy_world s) (pe_agentId r))) key"
    by (simp add: accounted_def needs_no_run_def)
  moreover have "ran_ok (dw_agents (sy_world s) (pe_agentId r))" using inv by (simp add: delivery_inv_def)
  ultimately show ?thesis using assms(6) by (intro recorded_run)
qed

section \<open>A pass of the worker\<close>

text \<open>A runtime in order: no driver and no handler throws.\<close>

definition in_order :: "('c, 'd) Channel \<Rightarrow> bool" where
  "in_order ch \<longleftrightarrow> (\<forall>cs d. fst (dispatcher_apply ch cs d) = []) \<and> (\<forall>e d. fst (event_invoke ch e d) = None)"

lemma event_loop_in_order:
  "event_loop ch now es ag settled ag' \<Longrightarrow> in_order ch \<Longrightarrow> settled = map ev_id es \<and> ag_reports ag' = ag_reports ag"
proof (induction rule: event_loop.induct)
  case (loop_hold ag e message d es)
  then show ?case unfolding in_order_def by (metis fst_conv option.distinct(1))
next
  case (loop_fail ag e message d es settled ag')
  then show ?case unfolding in_order_def by (metis fst_conv option.distinct(1))
qed (simp_all add: record_run_def)

lemma channel_apply_in_order:
  assumes "channel_apply ch now input ag = (r, ag')" and "in_order ch"
    and "rs_lastAppliedVersion (ag_store ag) \<le> ai_version input"
  shows "r = OkState (ai_version input) (Some (ai_hash input)) [] (map ev_id (ai_events input))"
    and "ag_reports ag' = ag_reports ag"
    and "rs_lastAppliedVersion (ag_store ag') = ai_version input" and "rs_lastAppliedHash (ag_store ag') = Some (ai_hash input)"
proof -
  obtain failures d where disp: "(if Some (ai_hash input) = rs_lastAppliedHash (ag_store ag) then ([], ag_disk ag)
      else dispatcher_apply ch (ai_contributions input) (ag_disk ag)) = (failures, d)" by fastforce
  then have clean: "failures = []" using assms(2) unfolding in_order_def by (metis fst_conv)
  obtain settled ag1 where loop: "processEvents ch now (ai_events input) (ag\<lparr>ag_disk := d\<rparr>) = (settled, ag1)" by fastforce
  note ends = event_loop_in_order [OF processEvents_loop [OF loop] assms(2)]
  have "r = OkState (ai_version input) (Some (ai_hash input)) [] settled \<and> ag' = ag1\<lparr>ag_store := (ag_store ag1)
      \<lparr>rs_lastAppliedVersion := ai_version input, rs_lastAppliedHash := Some (ai_hash input)\<rparr>\<rparr>"
    using assms(1,3) disp loop clean by (auto simp: channel_apply_def Let_def split: prod.splits if_splits)
  with ends show "r = OkState (ai_version input) (Some (ai_hash input)) [] (map ev_id (ai_events input))"
    and "ag_reports ag' = ag_reports ag"
    and "rs_lastAppliedVersion (ag_store ag') = ai_version input" and "rs_lastAppliedHash (ag_store ag') = Some (ai_hash input)"
    by simp_all
qed

lemma worker_send_in_order:
  assumes "worker_send deps now dv w = (r, w')" and "in_order (dd_channel deps (dv_agentId dv))"
    and "rs_lastAppliedVersion (ag_store (dw_agents w (dv_agentId dv))) \<le> dv_version dv"
  shows "r = OkState (dv_version dv) (Some (sp_hash (dv_payload dv))) [] (map ev_id (sp_events (dv_payload dv)))"
    and "dw_outbox w' = dw_outbox w"
    and "rs_lastAppliedVersion (ag_store (dw_agents w' (dv_agentId dv))) = dv_version dv"
    and "rs_lastAppliedHash (ag_store (dw_agents w' (dv_agentId dv))) = Some (sp_hash (dv_payload dv))"
proof -
  define a where "a = dv_agentId dv"
  define input where "input = \<lparr>ai_version = dv_version dv, ai_contributions = sp_contributions (dv_payload dv),
    ai_hash = sp_hash (dv_payload dv), ai_events = sp_events (dv_payload dv)\<rparr>"
  obtain ag1 where app: "channel_apply (dd_channel deps a) now input (dw_agents w a) = (r, ag1)"
    and w': "w' = w\<lparr>dw_agents := (dw_agents w)(a := ag1), dw_outbox := (if dd_reportArrives deps
        then report_all now a (drop (length (ag_reports (dw_agents w a))) (ag_reports ag1)) (dw_outbox w) else dw_outbox w)\<rparr>"
    using assms(1) by (auto simp: worker_send_def Let_def a_def input_def split: prod.splits)
  have fresh: "rs_lastAppliedVersion (ag_store (dw_agents w a)) \<le> ai_version input" using assms(3) by (simp add: a_def input_def)
  note sent = channel_apply_in_order [OF app _ fresh]
  show "r = OkState (dv_version dv) (Some (sp_hash (dv_payload dv))) [] (map ev_id (sp_events (dv_payload dv)))"
    using sent(1) assms(2) by (simp add: input_def a_def)
  show "dw_outbox w' = dw_outbox w" using sent(2) assms(2) by (simp add: w' a_def report_all_def)
  show "rs_lastAppliedVersion (ag_store (dw_agents w' (dv_agentId dv))) = dv_version dv"
    and "rs_lastAppliedHash (ag_store (dw_agents w' (dv_agentId dv))) = Some (sp_hash (dv_payload dv))"
    using sent(3,4) assms(2) by (simp_all add: w' a_def input_def)
qed

lemma truncate_outcome_row [simp]:
  "PendingEventRow.truncate (outcome_row now a res r) = PendingEventRow.truncate r"
  by (simp add: PendingEventRow.truncate_def)

text \<open>What a built state holds of a waiting event.\<close>

lemma built_event:
  assumes "p \<in> set (pendingEvents now a st)" and "dd_parses deps p" and "\<And>e. dd_resolve deps a e \<noteq> None"
  shows "pe_kind p \<in> set (cap_events caps) \<Longrightarrow>
           pe_id p \<in> set (map ev_id (sp_events (resolve_events deps a (state_build deps now a caps st))))"
    and "pe_kind p \<notin> set (cap_events caps) \<Longrightarrow>
           pe_kind p \<in> set (sp_droppedEventKinds (resolve_events deps a (state_build deps now a caps st)))"
proof -
  have ev: "toEvent p \<in> set (map toEvent (filter (dd_parses deps) (pendingEvents now a st)))" using assms(1,2) by simp
  have names: "ev_id (toEvent p) = pe_id p" "ev_kind (toEvent p) = pe_kind p" by (simp_all add: toEvent_def)
  show "pe_id p \<in> set (map ev_id (sp_events (resolve_events deps a (state_build deps now a caps st))))"
    if "pe_kind p \<in> set (cap_events caps)"
  proof -
    obtain q where q: "dd_resolve deps a (toEvent p) = Some q" using assms(3) by blast
    have "toEvent p \<in> set (sp_events (state_build deps now a caps st))"
      using ev names that by (simp add: state_build_def Let_def filterByCapabilities_def)
    with q have "(toEvent p)\<lparr>ev_payload := q\<rparr> \<in> set (sp_events (resolve_events deps a (state_build deps now a caps st)))"
      by (force simp: resolve_events_def set_map_filter_iff)
    then have "ev_id ((toEvent p)\<lparr>ev_payload := q\<rparr>) \<in> set (map ev_id (sp_events (resolve_events deps a (state_build deps now a caps st))))"
      by (simp only: set_map imageI)
    then show ?thesis by (simp add: names)
  qed
  show "pe_kind p \<in> set (sp_droppedEventKinds (resolve_events deps a (state_build deps now a caps st)))"
    if "pe_kind p \<notin> set (cap_events caps)"
    using ev names that by (force simp: resolve_events_def state_build_def Let_def filterByCapabilities_def)
qed

lemma waiting_after_pass:
  assumes "p \<in> set (pendingEvents now a (st\<lparr>os_rows := rows,
      os_events := map (outcome_row now a res) (drop_waiting now why a kinds (os_events st))\<rparr>))"
  shows "p \<in> set (pendingEvents now a st)" and "pe_id p \<notin> set (dl_settledEventIds res)" and "pe_kind p \<notin> set kinds"
proof -
  obtain r1 where r1: "r1 \<in> set (drop_waiting now why a kinds (os_events st))" "p = PendingEventRow.truncate (outcome_row now a res r1)"
    and waits: "is_waiting now a (outcome_row now a res r1)"
    using assms unfolding pendingEvents_def set_map set_sort set_filter by auto
  have open': "re_dispatchedAt (outcome_row now a res r1) = None" and mine: "pe_agentId r1 = a" using waits by (auto simp: is_waiting_def)
  from open' have "re_dispatchedAt r1 = None" by (rule outcome_row_wakes_none)
  obtain r0 where "r0 \<in> set (os_events st)" and r0: "r1 = (if pe_agentId r0 = a \<and> pe_kind r0 \<in> set kinds \<and> re_dispatchedAt r0 = None
      then r0\<lparr>re_dispatchedAt := Some now, re_error := Some why\<rparr> else r0)"
    using r1(1) unfolding drop_waiting_def set_update_where by blast
  with \<open>re_dispatchedAt r1 = None\<close> mine have mem: "r1 \<in> set (os_events st)" "pe_kind r1 \<notin> set kinds"
    by (simp_all split: if_splits)
  have "is_waiting now a r1" using waits \<open>re_dispatchedAt r1 = None\<close> by (simp add: is_waiting_def)
  with mem(1) r1(2) show "p \<in> set (pendingEvents now a st)" by (simp add: pendingEvents_def)
  have same: "pe_id p = pe_id r1" "pe_kind p = pe_kind r1" by (simp_all add: r1(2) PendingEventRow.truncate_def)
  then show "pe_kind p \<notin> set kinds" using mem(2) by simp
  show "pe_id p \<notin> set (dl_settledEventIds res)"
  proof
    assume "pe_id p \<in> set (dl_settledEventIds res)"
    with open' mine same(1) show False by (simp add: outcome_row_def Let_def split: if_splits)
  qed
qed

lemma recordOutcome_row:
  assumes "outbox_inv st" and "getRow a st = Some row" and "ob_lastSettledVersion row \<le> version"
  shows "getRow a (snd (recordOutcome now a version res st)) = Some (settle_row now version res row)"
proof -
  define f where "f = (\<lambda>r :: OutboxRow. if ob_agentId r = a then settle_row now version res r else r)"
  define st1 where "st1 = st\<lparr>os_events := map (outcome_row now a res) (os_events st)\<rparr>"
  have "snd (recordOutcome now a version res st) = st1\<lparr>os_rows := map f (os_rows st1)\<rparr>"
    using recordOutcome_state [OF assms(1,2), of now version res] assms(3)
    by (simp add: st1_def f_def update_where_def)
  moreover have "getRow a (st1\<lparr>os_rows := map f (os_rows st1)\<rparr>) = map_option f (getRow a st1)"
    by (rule getRow_map) (simp add: f_def settle_row_def)
  ultimately show ?thesis using assms(2) getRow_SomeD [OF assms(2)] by (simp add: st1_def f_def)
qed

text \<open>The outbox and the answer of a pass that meets a runtime in order.\<close>

lemma worker_handler_in_order:
  fixes w :: "'d DeliveryWorld" and deps :: "('c, 'd) DeliveryDeps" and now :: time_ms
  assumes "getRow a (dw_outbox w) = Some row" and "dd_running deps a" and "dw_capabilities w a = Some caps"
    and "in_order (dd_channel deps a)" and "rs_lastAppliedVersion (ag_store (dw_agents w a)) \<le> ob_version row"
  defines "payload \<equiv> resolve_events deps a (state_build deps now a caps (dw_outbox w))"
  shows "\<exists>w'. worker_handler deps now a retry w = (Inr (), w')
      \<and> dw_outbox w' = snd (recordOutcome now a (ob_version row)
          (outcome_of \<lparr>dv_agentId = a, dv_version = ob_version row, dv_payload = payload\<rparr>
             (OkState (ob_version row) (Some (sp_hash payload)) [] (map ev_id (sp_events payload))))
          (dw_outbox (drop_unsupported deps now a payload w)))
      \<and> rs_lastAppliedVersion (ag_store (dw_agents w' a)) = ob_version row
      \<and> rs_lastAppliedHash (ag_store (dw_agents w' a)) = Some (sp_hash payload)"
proof -
  define dv where "dv = \<lparr>dv_agentId = a, dv_version = ob_version row, dv_payload = payload\<rparr>"
  define w1 where "w1 = drop_unsupported deps now a payload w"
  obtain r w2 where send: "worker_send deps now dv w1 = (r, w2)" by fastforce
  have "dw_agents w1 = dw_agents w" by (simp add: w1_def drop_unsupported_def Let_def split: prod.split)
  then have fresh: "rs_lastAppliedVersion (ag_store (dw_agents w1 (dv_agentId dv))) \<le> dv_version dv"
    using assms(5) by (simp add: dv_def)
  have order: "in_order (dd_channel deps (dv_agentId dv))" using assms(4) by (simp add: dv_def)
  note sent = worker_send_in_order [OF send order fresh]
  have "worker_prepare deps now a retry w = (ReadyToSend dv, w1)"
    using assms(1-3) by (simp add: worker_prepare_def Let_def dv_def w1_def payload_def)
  then have "worker_handler deps now a retry w = (Inr (), worker_record deps now dv r w2)"
    using send by (simp add: worker_handler_def)
  with sent show ?thesis
    by (intro exI [of _ "worker_record deps now dv r w2"]) (simp add: worker_record_world w1_def dv_def)
qed

text \<open>
  C5. A pass of the worker that meets a running agent in order brings it to what the platform
  wants: the job ends without an error, the row is settled and applied at the version that it has,
  without failures, the runtime has that version and the hash of the state that was built, and no
  event waits any more but one whose payload does not parse or whose kind the runtime does not
  support, and of the latter no workspace mutation.
\<close>

theorem pass_applies_state_and_events:
  assumes "outbox_inv (dw_outbox w)" and "getRow a (dw_outbox w) = Some row" and "dd_running deps a"
    and "dw_capabilities w a = Some caps" and "in_order (dd_channel deps a)"
    and "rs_lastAppliedVersion (ag_store (dw_agents w a)) \<le> ob_version row" and "\<And>e. dd_resolve deps a e \<noteq> None"
  shows "\<exists>w'. worker_handler deps now a retry w = (Inr (), w')
     \<and> progressOf (getRow a (dw_outbox w'))
         = \<lparr>cp_version = ob_version row, cp_settled = True, cp_applied = True, cp_failures = []\<rparr>
     \<and> rs_lastAppliedVersion (ag_store (dw_agents w' a)) = ob_version row
     \<and> rs_lastAppliedHash (ag_store (dw_agents w' a)) = Some (sp_hash (state_build deps now a caps (dw_outbox w)))
     \<and> (\<forall>p \<in> set (pendingEvents now a (dw_outbox w')).
          dd_parses deps p \<longrightarrow> pe_kind p \<notin> set (cap_events caps) \<and> \<not> isWorkspaceMutationEventKind (pe_kind p))"
proof -
  define payload where "payload = resolve_events deps a (state_build deps now a caps (dw_outbox w))"
  define dv where "dv = \<lparr>dv_agentId = a, dv_version = ob_version row, dv_payload = payload\<rparr>"
  define res where "res = outcome_of dv (OkState (ob_version row) (Some (sp_hash payload)) [] (map ev_id (sp_events payload)))"
  define kinds where "kinds = filter isWorkspaceMutationEventKind (sp_droppedEventKinds payload)"
  define why where "why = ''event kind not supported by the agent'' @ [CHR 0x27] @ ''s runtime''"
  define st1 where "st1 = (dw_outbox w)\<lparr>os_events := drop_waiting now why a kinds (os_events (dw_outbox w))\<rparr>"
  have drop: "dw_outbox (drop_unsupported deps now a payload w) = st1"
    by (simp add: drop_unsupported_def markEventsUndeliverable_def Let_def st1_def why_def kinds_def)
  obtain w' where run: "worker_handler deps now a retry w = (Inr (), w')"
    and outbox: "dw_outbox w' = snd (recordOutcome now a (ob_version row) res st1)"
    and agent: "rs_lastAppliedVersion (ag_store (dw_agents w' a)) = ob_version row"
      "rs_lastAppliedHash (ag_store (dw_agents w' a)) = Some (sp_hash payload)"
    using worker_handler_in_order [OF assms(2-6), of now retry] unfolding drop res_def dv_def payload_def [symmetric] by blast
  have inv: "outbox_inv st1" using drop_unsupported_moves(1) [OF assms(1)] unfolding drop [symmetric] outbox_moves_def by blast
  have row: "getRow a st1 = Some row" using assms(2) by (simp add: st1_def)
  have "outbox_row_ok row" using getRow_SomeD [OF assms(2)] assms(1) by (simp add: outbox_inv_def list_all_iff)
  then have "\<not> ob_version row < ob_lastSettledVersion row" by (simp add: outbox_row_ok_def)
  with recordOutcome_state [OF inv row, of now "ob_version row" res] outbox
  have st2: "dw_outbox w' = st1\<lparr>os_rows := update_where (\<lambda>r. ob_agentId r = a) (settle_row now (ob_version row) res) (os_rows st1),
      os_events := map (outcome_row now a res) (os_events st1)\<rparr>" by simp
  have "getRow a (dw_outbox w') = Some (settle_row now (ob_version row) res row)"
    unfolding outbox using \<open>\<not> ob_version row < ob_lastSettledVersion row\<close> by (intro recordOutcome_row [OF inv row]) simp
  then have "progressOf (getRow a (dw_outbox w')) = \<lparr>cp_version = ob_version row, cp_settled = True, cp_applied = True, cp_failures = []\<rparr>"
    by (simp add: progressOf_def settle_row_def res_def outcome_of_def dv_def)
  moreover have "pe_kind p \<notin> set (cap_events caps) \<and> \<not> isWorkspaceMutationEventKind (pe_kind p)"
    if p: "p \<in> set (pendingEvents now a (dw_outbox w'))" "dd_parses deps p" for p
  proof -
    have "p \<in> set (pendingEvents now a (dw_outbox w))" "pe_id p \<notin> set (map ev_id (sp_events payload))" "pe_kind p \<notin> set kinds"
      using waiting_after_pass [of p now a res why kinds "dw_outbox w"] p(1) by (simp_all add: st2 st1_def res_def)
    with built_event [OF this(1) p(2) assms(7)] show ?thesis by (auto simp: payload_def kinds_def)
  qed
  moreover have "sp_hash payload = sp_hash (state_build deps now a caps (dw_outbox w))" by (simp add: payload_def resolve_events_def)
  ultimately show ?thesis using run agent by auto
qed

section \<open>A delivery\<close>

text \<open>A runtime that writes the variables it is given and runs a trigger by adding its id to the disk.\<close>

definition tidy_channel :: "(string, string list) Channel" where
  "tidy_channel =
     \<lparr>ch_kindOf = (\<lambda>_. EnvKind), ch_drivers = [(EnvKind, [\<lambda>cs d. (None, cs)])],
      ch_handlers = (\<lambda>kind. if kind = Trigger then Some (\<lambda>e d. (None, d @ [ev_id e])) else None)\<rparr>"

definition tidy_deps :: "(string, string list) DeliveryDeps" where
  "tidy_deps =
     \<lparr>dd_running = (\<lambda>_. True), dd_contributions = (\<lambda>_. [''A'']), dd_hash = concat, dd_parses = (\<lambda>_. True),
      dd_resolve = (\<lambda>_ e. Some (ev_payload e)), dd_channel = (\<lambda>_. tidy_channel), dd_owner = (\<lambda>_. Some ''u''),
      dd_reportArrives = True\<rparr>"

lemma tidy_in_order: "in_order (dd_channel tidy_deps a)"
  by (simp add: in_order_def tidy_deps_def tidy_channel_def dispatcher_apply_def event_invoke_def)

definition tidy_start :: "(string, string list) DeliverySystem" where
  "tidy_start = \<lparr>sy_world = \<lparr>dw_outbox = empty_outbox, dw_capabilities = (\<lambda>_. None), dw_agents = (\<lambda>_. fresh_agent []),
                            dw_queue = [], dw_emitted = []\<rparr>, sy_sent = [], sy_answers = [], sy_clock = 1\<rparr>"

definition tidy_written :: "(string, string list) DeliverySystem" where
  "tidy_written = set_outbox (outbox_step (Enqueue (sy_clock tidy_start) ''a'' [sample_event ''t:1'' Trigger 100])
     (dw_outbox (sy_world tidy_start))) tidy_start"

definition tidy_greeted :: "(string, string list) DeliverySystem" where
  "tidy_greeted = tidy_written\<lparr>sy_world := hello tidy_deps (sy_clock tidy_written) ''a''
     \<lparr>hi_capabilities = \<lparr>cap_contributions = [EnvKind], cap_events = [Trigger]\<rparr>, hi_lastAppliedVersion = None,
      hi_lastAppliedHash = None\<rparr> (sy_world tidy_written)\<rparr>"

definition tidy_delivery :: "string StateDelivery" where
  "tidy_delivery = \<lparr>dv_agentId = ''a'', dv_version = 2, dv_payload =
     resolve_events tidy_deps ''a'' (state_build tidy_deps 1 ''a'' \<lparr>cap_contributions = [EnvKind], cap_events = [Trigger]\<rparr>
       (dw_outbox (sy_world tidy_greeted)))\<rparr>"

definition tidy_prepared :: "(string, string list) DeliverySystem" where
  "tidy_prepared = tidy_greeted\<lparr>sy_world := snd (worker_prepare tidy_deps (sy_clock tidy_greeted) ''a'' False (sy_world tidy_greeted)),
     sy_sent := tidy_delivery # sy_sent tidy_greeted\<rparr>"

definition tidy_sent :: "(string, string list) DeliverySystem" where
  "tidy_sent = (case worker_send tidy_deps (sy_clock tidy_prepared) tidy_delivery (sy_world tidy_prepared) of
     (r, w) \<Rightarrow> tidy_prepared\<lparr>sy_world := w, sy_answers := (tidy_delivery, r) # sy_answers tidy_prepared\<rparr>)"

definition tidy_recorded :: "(string, string list) DeliverySystem" where
  "tidy_recorded = tidy_sent\<lparr>sy_world := worker_record tidy_deps (sy_clock tidy_sent) tidy_delivery (snd (hd (sy_answers tidy_sent)))
     (sy_world tidy_sent)\<rparr>"

lemma tidy_greeted_reachable: "reachable delivery_init (delivery_step tidy_deps) tidy_greeted"
proof -
  have "reachable delivery_init (delivery_step tidy_deps) tidy_start"
    by (rule reachable_init) (auto simp: delivery_init_def tidy_start_def)
  moreover have "delivery_step tidy_deps tidy_start tidy_written"
    unfolding tidy_written_def by (rule step_enqueue; code_simp)
  moreover have "delivery_step tidy_deps tidy_written tidy_greeted"
    unfolding tidy_greeted_def by (rule step_hello)
  ultimately show ?thesis by (blast intro: reachable_step)
qed

lemma tidy_recorded_reachable: "reachable delivery_init (delivery_step tidy_deps) tidy_recorded"
proof -
  have "fst (worker_prepare tidy_deps (sy_clock tidy_greeted) ''a'' False (sy_world tidy_greeted)) = ReadyToSend tidy_delivery"
    by code_simp
  then have "delivery_step tidy_deps tidy_greeted tidy_prepared"
    unfolding tidy_prepared_def by (intro step_prepare [where a = "''a''" and retry = False]) (metis prod.collapse)
  moreover have "tidy_delivery \<in> set (sy_sent tidy_prepared)" by (simp add: tidy_prepared_def)
  then have "delivery_step tidy_deps tidy_prepared tidy_sent"
    unfolding tidy_sent_def by (simp split: prod.split add: step_send)
  moreover have "(tidy_delivery, snd (hd (sy_answers tidy_sent))) \<in> set (sy_answers tidy_sent)"
    by (simp add: tidy_sent_def split: prod.split)
  then have "delivery_step tidy_deps tidy_sent tidy_recorded"
    unfolding tidy_recorded_def by (rule step_record)
  ultimately show ?thesis using tidy_greeted_reachable by (blast intro: reachable_step)
qed

theorem settled_event_was_run_witness:
  "\<exists>e \<in> set (ag_ran (dw_agents (sy_world tidy_recorded) ''a'')). run_key e = ''t'' \<and> 1 \<le> run_time e"
proof -
  define r where "r = hd (os_events (dw_outbox (sy_world tidy_recorded)))"
  have "r \<in> set (os_events (dw_outbox (sy_world tidy_recorded)))" and facts: "re_dispatchedAt r \<noteq> None" "re_error r = None"
    and "splitEventId (pe_id r) = (''t'', Some 1)" and "sy_clock tidy_recorded < pe_expiresAt r" and "pe_agentId r = ''a''"
    unfolding r_def by code_simp+
  with settled_event_was_run [OF tidy_recorded_reachable, of r "''t''" 1] show ?thesis by simp
qed

theorem pass_applies_state_and_events_witness:
  "\<exists>w'. worker_handler tidy_deps 1 ''a'' False (sy_world tidy_greeted) = (Inr (), w')
     \<and> progressOf (getRow ''a'' (dw_outbox w')) = \<lparr>cp_version = 2, cp_settled = True, cp_applied = True, cp_failures = []\<rparr>
     \<and> rs_lastAppliedHash (ag_store (dw_agents w' ''a'')) = Some ''A''
     \<and> map pe_id (pendingEvents 1 ''a'' (dw_outbox (sy_world tidy_greeted))) = [''t:1'']
     \<and> pendingEvents 1 ''a'' (dw_outbox w') = []"
proof -
  define caps where "caps = \<lparr>cap_contributions = [EnvKind], cap_events = [Trigger]\<rparr>"
  define row where "row = the (getRow ''a'' (dw_outbox (sy_world tidy_greeted)))"
  have inv: "outbox_inv (dw_outbox (sy_world tidy_greeted))"
    using delivery.reachable_inv [OF tidy_greeted_reachable] by (simp add: delivery_inv_def)
  have row: "getRow ''a'' (dw_outbox (sy_world tidy_greeted)) = Some row" unfolding row_def by code_simp
  have caps: "dw_capabilities (sy_world tidy_greeted) ''a'' = Some caps" unfolding caps_def by code_simp
  have "dd_running tidy_deps ''a''" and "dd_resolve tidy_deps ''a'' e \<noteq> None" for e by (simp_all add: tidy_deps_def)
  moreover have "rs_lastAppliedVersion (ag_store (dw_agents (sy_world tidy_greeted) ''a'')) \<le> ob_version row"
    and v: "ob_version row = 2" and hash: "sp_hash (state_build tidy_deps 1 ''a'' caps (dw_outbox (sy_world tidy_greeted))) = ''A''"
    and waits: "map pe_id (pendingEvents 1 ''a'' (dw_outbox (sy_world tidy_greeted))) = [''t:1'']"
    and none: "pendingEvents 1 ''a'' (dw_outbox (snd (worker_handler tidy_deps 1 ''a'' False (sy_world tidy_greeted)))) = []"
    unfolding row_def caps_def by code_simp+
  ultimately show ?thesis
    using pass_applies_state_and_events [OF inv row _ caps tidy_in_order, of 1 False] by auto
qed

end
