(* ===== verification/Satellite_Tables.thy ===== *)
theory Satellite_Tables
  imports Runtime_Delivery
begin

text \<open>
  Satellites: machines outside the platform that offer tools to an owner's agents. The tables of
  satellites, grants and jobs with every statement that changes them
  (\<^verbatim>\<open>satellites/infrastructure/satellites-repository.ts\<close>) and the admission of a call
  (\<^verbatim>\<open>domain/admission.ts\<close>). Arguments of a call, images and the schemas of tools are texts that the
  platform passes on. Random ids and tokens and the hash of a token are arguments. The grants by
  agent, and the lists that only a view shows, are left out.
\<close>

section \<open>Rows\<close>

datatype JobStatus = JobQueued | JobRunning | JobDone | JobInterrupted | JobCancelled

definition TERMINAL_STATUSES :: "JobStatus list" where
  "TERMINAL_STATUSES = [JobDone, JobInterrupted, JobCancelled]"

definition isTerminal :: "JobStatus \<Rightarrow> bool" where
  "isTerminal status \<longleftrightarrow> status \<in> set TERMINAL_STATUSES"

datatype TransferDirection = Download | Upload

record SatelliteTool =
  tl_name :: string
  tl_maxConcurrent :: "nat option"
  tl_transfer :: "TransferDirection option"

record SatelliteManifest =
  mf_name :: string
  mf_description :: "string option"
  mf_maxConcurrent :: nat
  mf_tools :: "SatelliteTool list"

record SatelliteRow =
  sa_owner :: user_sub
  sa_name :: string
  sa_description :: "string option"
  sa_host :: "string option"
  sa_maxConcurrent :: nat
  sa_tools :: "SatelliteTool list"
  sa_nextSequence :: nat
  sa_incarnation :: string
  sa_draining :: bool
  sa_lastSeenAt :: "time_ms option"
  sa_createdAt :: time_ms

record JobResult =
  jr_isError :: bool
  jr_exitCode :: "int option"
  jr_output :: "string option"
  jr_images :: "string list"
  jr_truncated :: bool

record JobRow =
  jb_owner :: user_sub
  jb_satellite :: string
  jb_sequence :: nat
  jb_agentId :: agent_id
  jb_tool :: string
  jb_args :: string
  jb_transferDirection :: "TransferDirection option"
  jb_status :: JobStatus
  jb_result :: JobResult
  jb_reason :: "string option"
  jb_cancelRequested :: bool
  jb_cancelSentAt :: "time_ms option"
  jb_transferTokenHash :: "string option"
  jb_deliveredAt :: "time_ms option"
  jb_wokeAt :: "time_ms option"
  jb_awaitedUntil :: "time_ms option"
  jb_leaseUntil :: "time_ms option"
  jb_startedAt :: "time_ms option"
  jb_endedAt :: "time_ms option"
  jb_expiresAt :: time_ms
  jb_createdAt :: time_ms

record SatelliteGrant =
  gr_owner :: user_sub
  gr_name :: string
  gr_agentId :: agent_id

record SatelliteState =
  sx_satellites :: "SatelliteRow table"
  sx_grants :: "SatelliteGrant table"
  sx_jobs :: "JobRow table"

section \<open>Statements on satellites and grants\<close>

definition is_satellite :: "user_sub \<Rightarrow> string \<Rightarrow> SatelliteRow \<Rightarrow> bool" where
  "is_satellite owner name r \<longleftrightarrow> sa_owner r = owner \<and> sa_name r = name"

definition sat_get :: "user_sub \<Rightarrow> string \<Rightarrow> SatelliteState \<Rightarrow> SatelliteRow option" where
  "sat_get owner name st = find (is_satellite owner name) (sx_satellites st)"

definition offered :: "time_ms \<Rightarrow> SatelliteManifest \<Rightarrow> string option \<Rightarrow> nat \<Rightarrow> SatelliteRow \<Rightarrow> SatelliteRow" where
  "offered now manifest host ceil r =
     r\<lparr>sa_description := mf_description manifest, sa_host := host, sa_maxConcurrent := min (mf_maxConcurrent manifest) ceil,
       sa_tools := mf_tools manifest, sa_lastSeenAt := Some now\<rparr>"

definition upsertFromManifest ::
  "time_ms \<Rightarrow> string \<Rightarrow> user_sub \<Rightarrow> SatelliteManifest \<Rightarrow> string option \<Rightarrow> nat \<Rightarrow> SatelliteState \<Rightarrow> string \<times> SatelliteState" where
  "upsertFromManifest now newId owner manifest host ceil st =
     (case sat_get owner (mf_name manifest) st of
        None \<Rightarrow>
          (newId, st\<lparr>sx_satellites := sx_satellites st @
             [\<lparr>sa_owner = owner, sa_name = mf_name manifest, sa_description = mf_description manifest, sa_host = host,
               sa_maxConcurrent = min (mf_maxConcurrent manifest) ceil, sa_tools = mf_tools manifest, sa_nextSequence = 1,
               sa_incarnation = newId, sa_draining = False, sa_lastSeenAt = Some now, sa_createdAt = now\<rparr>]\<rparr>)
      | Some row \<Rightarrow>
          (sa_incarnation row,
           st\<lparr>sx_satellites := update_where (is_satellite owner (mf_name manifest)) (offered now manifest host ceil) (sx_satellites st)\<rparr>))"

definition renewFromManifest ::
  "time_ms \<Rightarrow> user_sub \<Rightarrow> SatelliteManifest \<Rightarrow> string option \<Rightarrow> nat \<Rightarrow> string \<Rightarrow> SatelliteState
   \<Rightarrow> string option \<times> SatelliteState" where
  "renewFromManifest now owner manifest host ceil incarnation st =
     (let p = (\<lambda>r. is_satellite owner (mf_name manifest) r \<and> sa_incarnation r = incarnation)
      in (map_option sa_incarnation (find p (sx_satellites st)),
          st\<lparr>sx_satellites := update_where p (offered now manifest host ceil) (sx_satellites st)\<rparr>))"

definition is_job_of :: "user_sub \<Rightarrow> string \<Rightarrow> JobRow \<Rightarrow> bool" where
  "is_job_of owner name j \<longleftrightarrow> jb_owner j = owner \<and> jb_satellite j = name"

definition is_grant_of :: "user_sub \<Rightarrow> string \<Rightarrow> SatelliteGrant \<Rightarrow> bool" where
  "is_grant_of owner name g \<longleftrightarrow> gr_owner g = owner \<and> gr_name g = name"

definition sat_remove :: "user_sub \<Rightarrow> string \<Rightarrow> SatelliteState \<Rightarrow> SatelliteState" where
  "sat_remove owner name st =
     (if sat_get owner name st = None then st
      else \<lparr>sx_satellites = delete_where (is_satellite owner name) (sx_satellites st),
            sx_grants = delete_where (is_grant_of owner name) (sx_grants st),
            sx_jobs = delete_where (is_job_of owner name) (sx_jobs st)\<rparr>)"

text \<open>The row of a satellite, of the registration that the caller names if it names one.\<close>

definition names_registration :: "user_sub \<Rightarrow> string \<Rightarrow> string option \<Rightarrow> SatelliteRow \<Rightarrow> bool" where
  "names_registration owner name incarnation r \<longleftrightarrow>
     is_satellite owner name r \<and> (incarnation = None \<or> incarnation = Some (sa_incarnation r))"

definition touch :: "time_ms \<Rightarrow> user_sub \<Rightarrow> string \<Rightarrow> string option \<Rightarrow> SatelliteState \<Rightarrow> SatelliteState" where
  "touch now owner name incarnation st =
     st\<lparr>sx_satellites := update_where (names_registration owner name incarnation) (\<lambda>r. r\<lparr>sa_lastSeenAt := Some now\<rparr>) (sx_satellites st)\<rparr>"

definition setDraining :: "time_ms \<Rightarrow> user_sub \<Rightarrow> string \<Rightarrow> bool \<Rightarrow> string option \<Rightarrow> SatelliteState \<Rightarrow> SatelliteState" where
  "setDraining now owner name draining incarnation st =
     st\<lparr>sx_satellites := update_where (names_registration owner name incarnation)
          (\<lambda>r. r\<lparr>sa_lastSeenAt := Some now, sa_draining := draining\<rparr>) (sx_satellites st)\<rparr>"

definition grant_insert :: "user_sub \<Rightarrow> string \<Rightarrow> agent_id \<Rightarrow> SatelliteState \<Rightarrow> SatelliteState" where
  "grant_insert owner name agentId st =
     (let g = \<lparr>gr_owner = owner, gr_name = name, gr_agentId = agentId\<rparr>
      in if g \<in> set (sx_grants st) then st else st\<lparr>sx_grants := sx_grants st @ [g]\<rparr>)"

definition grant_revoke :: "user_sub \<Rightarrow> string \<Rightarrow> agent_id \<Rightarrow> SatelliteState \<Rightarrow> SatelliteState" where
  "grant_revoke owner name agentId st =
     st\<lparr>sx_grants := delete_where (\<lambda>g. is_grant_of owner name g \<and> gr_agentId g = agentId) (sx_grants st)\<rparr>"

definition grantedSatellite :: "agent_id \<Rightarrow> user_sub \<Rightarrow> string \<Rightarrow> SatelliteState \<Rightarrow> SatelliteRow option" where
  "grantedSatellite agentId owner name st =
     find (\<lambda>r. is_satellite owner name r
             \<and> list_ex (\<lambda>g. gr_agentId g = agentId \<and> is_grant_of (sa_owner r) (sa_name r) g) (sx_grants st)) (sx_satellites st)"

definition revokeAgentGrants :: "agent_id \<Rightarrow> SatelliteState \<Rightarrow> SatelliteState" where
  "revokeAgentGrants agentId st = st\<lparr>sx_grants := delete_where (\<lambda>g. gr_agentId g = agentId) (sx_grants st)\<rparr>"

definition listGrantedAgentIds :: "SatelliteState \<Rightarrow> agent_id list" where
  "listGrantedAgentIds st =
     first_occurrences (first_occurrences (map gr_agentId (sx_grants st)) @ first_occurrences (map jb_agentId (sx_jobs st)))"

section \<open>Statements on jobs\<close>

text \<open>The predicate that a statement on jobs carries: the satellite of the job is the registration that the caller names.\<close>

definition sameRegistration :: "string option \<Rightarrow> SatelliteState \<Rightarrow> JobRow \<Rightarrow> bool" where
  "sameRegistration incarnation st j \<longleftrightarrow>
     incarnation = None \<or> map_option sa_incarnation (sat_get (jb_owner j) (jb_satellite j) st) = incarnation"

definition is_job :: "user_sub \<Rightarrow> string \<Rightarrow> nat \<Rightarrow> JobRow \<Rightarrow> bool" where
  "is_job owner name sequence j \<longleftrightarrow> is_job_of owner name j \<and> jb_sequence j = sequence"

definition activeJobs :: "user_sub \<Rightarrow> string \<Rightarrow> SatelliteState \<Rightarrow> JobRow list" where
  "activeJobs owner name st = filter (\<lambda>j. is_job_of owner name j \<and> \<not> isTerminal (jb_status j)) (sx_jobs st)"

definition getJob :: "user_sub \<Rightarrow> string \<Rightarrow> nat \<Rightarrow> SatelliteState \<Rightarrow> JobRow option" where
  "getJob owner name sequence st = find (is_job owner name sequence) (sx_jobs st)"

record InsertJob =
  ij_owner :: user_sub
  ij_satellite :: string
  ij_agentId :: agent_id
  ij_tool :: string
  ij_args :: string
  ij_transferDirection :: "TransferDirection option"
  ij_expiresAt :: time_ms
  ij_maxConcurrent :: nat
  ij_toolMax :: "nat option"
  ij_incarnation :: string

datatype InsertJobResult = JobInserted JobRow | JobsFull nat nat | RegistrationStale

definition no_result :: JobResult where
  "no_result = \<lparr>jr_isError = False, jr_exitCode = None, jr_output = None, jr_images = [], jr_truncated = False\<rparr>"

definition new_job :: "time_ms \<Rightarrow> nat \<Rightarrow> InsertJob \<Rightarrow> JobRow" where
  "new_job now sequence i =
     \<lparr>jb_owner = ij_owner i, jb_satellite = ij_satellite i, jb_sequence = sequence, jb_agentId = ij_agentId i,
      jb_tool = ij_tool i, jb_args = ij_args i, jb_transferDirection = ij_transferDirection i, jb_status = JobQueued,
      jb_result = no_result, jb_reason = None, jb_cancelRequested = False, jb_cancelSentAt = None,
      jb_transferTokenHash = None, jb_deliveredAt = None, jb_wokeAt = None, jb_awaitedUntil = None,
      jb_leaseUntil = None, jb_startedAt = None, jb_endedAt = None, jb_expiresAt = ij_expiresAt i, jb_createdAt = now\<rparr>"

definition insertJob :: "time_ms \<Rightarrow> InsertJob \<Rightarrow> SatelliteState \<Rightarrow> InsertJobResult \<times> SatelliteState" where
  "insertJob now i st =
     (case sat_get (ij_owner i) (ij_satellite i) st of
        None \<Rightarrow> (RegistrationStale, st)
      | Some locked \<Rightarrow>
          if sa_incarnation locked \<noteq> ij_incarnation i then (RegistrationStale, st)
          else let live = activeJobs (ij_owner i) (ij_satellite i) st;
                   forTool = length (filter (\<lambda>j. jb_tool j = ij_tool i) live)
               in if ij_maxConcurrent i \<le> length live
                     \<or> (case ij_toolMax i of None \<Rightarrow> False | Some m \<Rightarrow> m \<le> forTool)
                  then (JobsFull (length live) forTool, st)
                  else let job = new_job now (sa_nextSequence locked) i
                       in (JobInserted job,
                           st\<lparr>sx_satellites := update_where (is_satellite (ij_owner i) (ij_satellite i))
                                 (\<lambda>r. r\<lparr>sa_nextSequence := sa_nextSequence r + 1\<rparr>) (sx_satellites st),
                              sx_jobs := sx_jobs st @ [job]\<rparr>))"

definition start_job :: "time_ms \<Rightarrow> time_ms \<Rightarrow> string \<Rightarrow> JobRow \<Rightarrow> JobRow" where
  "start_job now leaseUntil tokenHash j =
     j\<lparr>jb_status := JobRunning, jb_startedAt := Some now, jb_leaseUntil := Some leaseUntil, jb_transferTokenHash := Some tokenHash\<rparr>"

text \<open>The jobs come back with their token when they move a file.\<close>

definition claimQueued ::
  "(string \<Rightarrow> string) \<Rightarrow> (nat \<Rightarrow> string) \<Rightarrow> time_ms \<Rightarrow> user_sub \<Rightarrow> string \<Rightarrow> nat \<Rightarrow> time_ms \<Rightarrow> string option \<Rightarrow> SatelliteState
   \<Rightarrow> (JobRow \<times> string option) list \<times> SatelliteState" where
  "claimQueued hashOf token now owner name capacity leaseUntil incarnation st =
     (let pending = take capacity (sort_key jb_sequence
            (filter (\<lambda>j. is_job_of owner name j \<and> jb_status j = JobQueued \<and> sameRegistration incarnation st j) (sx_jobs st)));
          started = (\<lambda>j. start_job now leaseUntil (hashOf (token (jb_sequence j))) j)
      in (map (\<lambda>j. (started j, if jb_transferDirection j = None then None else Some (token (jb_sequence j)))) pending,
          st\<lparr>sx_jobs := update_where (\<lambda>j. is_job_of owner name j \<and> jb_sequence j \<in> set (map jb_sequence pending)
                                        \<and> sameRegistration incarnation st j) started (sx_jobs st)\<rparr>))"

definition consumeTransfer ::
  "(string \<Rightarrow> string) \<Rightarrow> user_sub \<Rightarrow> string \<Rightarrow> nat \<Rightarrow> string \<Rightarrow> SatelliteState \<Rightarrow> JobRow option \<times> SatelliteState" where
  "consumeTransfer hashOf owner name sequence token st =
     (let p = (\<lambda>j. is_job owner name sequence j \<and> jb_status j = JobRunning \<and> jb_transferTokenHash j = Some (hashOf token))
      in (map_option (\<lambda>j. j\<lparr>jb_transferTokenHash := None\<rparr>) (find p (sx_jobs st)),
          st\<lparr>sx_jobs := update_where p (\<lambda>j. j\<lparr>jb_transferTokenHash := None\<rparr>) (sx_jobs st)\<rparr>))"

definition transferTokenHashOf :: "user_sub \<Rightarrow> string \<Rightarrow> nat \<Rightarrow> SatelliteState \<Rightarrow> string option" where
  "transferTokenHashOf owner name sequence st = Option.bind (getJob owner name sequence st) jb_transferTokenHash"

definition takeCancellations ::
  "time_ms \<Rightarrow> user_sub \<Rightarrow> string \<Rightarrow> time_ms \<Rightarrow> string option \<Rightarrow> SatelliteState \<Rightarrow> JobRow list \<times> SatelliteState" where
  "takeCancellations now owner name resendBefore incarnation st =
     (let p = (\<lambda>j. is_job_of owner name j \<and> jb_status j = JobRunning \<and> jb_cancelRequested j
                   \<and> (case jb_cancelSentAt j of None \<Rightarrow> True | Some t \<Rightarrow> t < resendBefore) \<and> sameRegistration incarnation st j);
          sent = (\<lambda>j. j\<lparr>jb_cancelSentAt := Some now\<rparr>)
      in (map sent (filter p (sx_jobs st)), st\<lparr>sx_jobs := update_where p sent (sx_jobs st)\<rparr>))"

definition renewLeases ::
  "user_sub \<Rightarrow> string \<Rightarrow> nat list \<Rightarrow> time_ms \<Rightarrow> string option \<Rightarrow> SatelliteState \<Rightarrow> SatelliteState" where
  "renewLeases owner name sequences leaseUntil incarnation st =
     st\<lparr>sx_jobs := update_where (\<lambda>j. is_job_of owner name j \<and> jb_sequence j \<in> set sequences \<and> jb_status j = JobRunning
                                   \<and> sameRegistration incarnation st j)
                     (\<lambda>j. j\<lparr>jb_leaseUntil := Some leaseUntil\<rparr>) (sx_jobs st)\<rparr>"

text \<open>What a settlement writes: a part of the result or a reason that it does not name stays as it is.\<close>

record SettlePatch =
  pt_status :: JobStatus
  pt_result :: "JobResult \<Rightarrow> JobResult"
  pt_reason :: "string option" \<comment> \<open>\<^const>\<open>None\<close> when the patch has none\<close>

definition settle_job :: "time_ms \<Rightarrow> SettlePatch \<Rightarrow> JobRow \<Rightarrow> JobRow" where
  "settle_job now patch j =
     j\<lparr>jb_status := pt_status patch, jb_result := pt_result patch (jb_result j),
       jb_reason := (case pt_reason patch of None \<Rightarrow> jb_reason j | Some r \<Rightarrow> Some r), jb_leaseUntil := None,
       jb_endedAt := Some now\<rparr>"

definition job_settle ::
  "time_ms \<Rightarrow> user_sub \<Rightarrow> string \<Rightarrow> nat \<Rightarrow> SettlePatch \<Rightarrow> JobStatus option \<Rightarrow> string option \<Rightarrow> time_ms option \<Rightarrow> SatelliteState
   \<Rightarrow> JobRow option \<times> SatelliteState" where
  "job_settle now owner name sequence patch expect incarnation expiredBefore st =
     (let p = (\<lambda>j. is_job owner name sequence j \<and> \<not> isTerminal (jb_status j)
                   \<and> (case expect of None \<Rightarrow> True | Some s \<Rightarrow> jb_status j = s)
                   \<and> (case expiredBefore of None \<Rightarrow> True
                      | Some t \<Rightarrow> (case jb_leaseUntil j of None \<Rightarrow> False | Some l \<Rightarrow> l < t))
                   \<and> sameRegistration incarnation st j)
      in (map_option (settle_job now patch) (find p (sx_jobs st)),
          st\<lparr>sx_jobs := update_where p (settle_job now patch) (sx_jobs st)\<rparr>))"

definition requestCancel :: "user_sub \<Rightarrow> string \<Rightarrow> nat \<Rightarrow> string option \<Rightarrow> SatelliteState \<Rightarrow> SatelliteState" where
  "requestCancel owner name sequence incarnation st =
     st\<lparr>sx_jobs := update_where (\<lambda>j. is_job owner name sequence j \<and> sameRegistration incarnation st j)
          (\<lambda>j. j\<lparr>jb_cancelRequested := True\<rparr>) (sx_jobs st)\<rparr>"

text \<open>The statements by which an agent hears of an outcome name the job by its agent.\<close>

definition is_agent_job :: "agent_id \<Rightarrow> string \<Rightarrow> nat \<Rightarrow> JobRow \<Rightarrow> bool" where
  "is_agent_job agentId name sequence j \<longleftrightarrow> jb_agentId j = agentId \<and> jb_satellite j = name \<and> jb_sequence j = sequence"

definition markAwaited :: "agent_id \<Rightarrow> string \<Rightarrow> nat \<Rightarrow> time_ms \<Rightarrow> SatelliteState \<Rightarrow> bool \<times> SatelliteState" where
  "markAwaited agentId name sequence until' st =
     (let p = (\<lambda>j. is_agent_job agentId name sequence j \<and> jb_deliveredAt j = None)
      in (list_ex p (sx_jobs st), st\<lparr>sx_jobs := update_where p (\<lambda>j. j\<lparr>jb_awaitedUntil := Some until'\<rparr>) (sx_jobs st)\<rparr>))"

definition releaseAwaited :: "agent_id \<Rightarrow> string \<Rightarrow> nat \<Rightarrow> SatelliteState \<Rightarrow> SatelliteState" where
  "releaseAwaited agentId name sequence st =
     st\<lparr>sx_jobs := update_where (is_agent_job agentId name sequence) (\<lambda>j. j\<lparr>jb_awaitedUntil := None\<rparr>) (sx_jobs st)\<rparr>"

definition markSeen :: "time_ms \<Rightarrow> agent_id \<Rightarrow> string \<Rightarrow> nat \<Rightarrow> SatelliteState \<Rightarrow> bool \<times> SatelliteState" where
  "markSeen now agentId name sequence st =
     (let p = (\<lambda>j. is_agent_job agentId name sequence j \<and> jb_deliveredAt j = None)
      in (list_ex p (sx_jobs st),
          st\<lparr>sx_jobs := update_where p (\<lambda>j. j\<lparr>jb_deliveredAt := Some now, jb_wokeAt := Some now\<rparr>) (sx_jobs st)\<rparr>))"

type_synonym job_key = "user_sub \<times> string \<times> nat"

definition job_key :: "JobRow \<Rightarrow> job_key" where
  "job_key j = (jb_owner j, jb_satellite j, jb_sequence j)"

text \<open>\<^verbatim>\<open>ORDER BY ended_at\<close>: a row without an end comes last.\<close>

definition ended_order :: "JobRow \<Rightarrow> nat \<times> int" where
  "ended_order j = (case jb_endedAt j of None \<Rightarrow> (1, 0) | Some t \<Rightarrow> (0, t))"

definition undelivered_outcomes :: "time_ms \<Rightarrow> agent_id \<Rightarrow> nat \<Rightarrow> SatelliteState \<Rightarrow> job_key list" where
  "undelivered_outcomes now agentId limit st =
     map job_key (take limit (sort_key ended_order
       (filter (\<lambda>j. jb_agentId j = agentId \<and> isTerminal (jb_status j) \<and> jb_deliveredAt j = None
                  \<and> (case jb_awaitedUntil j of None \<Rightarrow> True | Some t \<Rightarrow> t < now)) (sx_jobs st))))"

definition claim_outcomes :: "time_ms \<Rightarrow> agent_id \<Rightarrow> job_key list \<Rightarrow> SatelliteState \<Rightarrow> JobRow list \<times> SatelliteState" where
  "claim_outcomes now agentId oldest st =
     (let p = (\<lambda>j. jb_agentId j = agentId \<and> jb_deliveredAt j = None \<and> job_key j \<in> set oldest);
          delivered = (\<lambda>j. j\<lparr>jb_deliveredAt := Some now\<rparr>)
      in (map delivered (filter p (sx_jobs st)), st\<lparr>sx_jobs := update_where p delivered (sx_jobs st)\<rparr>))"

definition claimUndeliveredOutcomes :: "time_ms \<Rightarrow> agent_id \<Rightarrow> nat \<Rightarrow> SatelliteState \<Rightarrow> JobRow list \<times> SatelliteState" where
  "claimUndeliveredOutcomes now agentId limit st =
     (let oldest = undelivered_outcomes now agentId limit st
      in if oldest = [] then ([], st) else claim_outcomes now agentId oldest st)"

definition releaseOutcomes :: "user_sub \<Rightarrow> string \<Rightarrow> nat list \<Rightarrow> SatelliteState \<Rightarrow> SatelliteState" where
  "releaseOutcomes owner name sequences st =
     st\<lparr>sx_jobs := update_where (\<lambda>j. is_job_of owner name j \<and> jb_sequence j \<in> set sequences)
          (\<lambda>j. j\<lparr>jb_deliveredAt := None\<rparr>) (sx_jobs st)\<rparr>"

definition agentsWithPendingOutcomes :: "SatelliteState \<Rightarrow> agent_id list" where
  "agentsWithPendingOutcomes st =
     first_occurrences (map jb_agentId
       (filter (\<lambda>j. isTerminal (jb_status j) \<and> (jb_deliveredAt j = None \<or> jb_wokeAt j = None)) (sx_jobs st)))"

definition undeliveredFor :: "agent_id \<Rightarrow> SatelliteState \<Rightarrow> (string \<times> nat) list" where
  "undeliveredFor agentId st =
     map (\<lambda>j. (jb_satellite j, jb_sequence j))
       (filter (\<lambda>j. jb_agentId j = agentId \<and> isTerminal (jb_status j) \<and> jb_deliveredAt j \<noteq> None \<and> jb_wokeAt j = None) (sx_jobs st))"

definition markWoken :: "time_ms \<Rightarrow> agent_id \<Rightarrow> (string \<times> nat) list \<Rightarrow> SatelliteState \<Rightarrow> SatelliteState" where
  "markWoken now agentId refs st =
     st\<lparr>sx_jobs := update_where (\<lambda>j. jb_agentId j = agentId \<and> (jb_satellite j, jb_sequence j) \<in> set refs)
          (\<lambda>j. j\<lparr>jb_wokeAt := Some now\<rparr>) (sx_jobs st)\<rparr>"

definition expiredLeases :: "time_ms \<Rightarrow> SatelliteState \<Rightarrow> JobRow list" where
  "expiredLeases now st =
     filter (\<lambda>j. jb_status j = JobRunning \<and> (case jb_leaseUntil j of None \<Rightarrow> False | Some l \<Rightarrow> l < now)) (sx_jobs st)"

record DispatchScope =
  sc_owner :: "user_sub option"
  sc_satellite :: "string option"
  sc_agentId :: "agent_id option"

text \<open>A filter of the scope that is absent or the empty text is left out.\<close>

definition in_filter :: "string option \<Rightarrow> string \<Rightarrow> bool" where
  "in_filter f x \<longleftrightarrow> f = None \<or> f = Some [] \<or> f = Some x"

definition stopDispatch ::
  "time_ms \<Rightarrow> DispatchScope \<Rightarrow> string \<Rightarrow> int \<Rightarrow> time_ms option \<Rightarrow> SatelliteState \<Rightarrow> JobRow list \<times> SatelliteState" where
  "stopDispatch now scope reason ttlMs onlyExpiredBefore st =
     (let p = (\<lambda>j. \<not> isTerminal (jb_status j) \<and> jb_status j \<noteq> JobRunning
                   \<and> (case onlyExpiredBefore of None \<Rightarrow> True | Some t \<Rightarrow> jb_expiresAt j < t)
                   \<and> in_filter (sc_owner scope) (jb_owner j) \<and> in_filter (sc_satellite scope) (jb_satellite j)
                   \<and> in_filter (sc_agentId scope) (jb_agentId j));
          stopped = (\<lambda>j. j\<lparr>jb_status := JobCancelled, jb_reason := Some reason, jb_endedAt := Some now, jb_leaseUntil := None,
                           jb_expiresAt := now + ttlMs\<rparr>)
      in (map stopped (filter p (sx_jobs st)), st\<lparr>sx_jobs := update_where p stopped (sx_jobs st)\<rparr>))"

definition purgeExpired :: "time_ms \<Rightarrow> SatelliteState \<Rightarrow> SatelliteState" where
  "purgeExpired now st =
     st\<lparr>sx_jobs := delete_where (\<lambda>j. jb_expiresAt j < now \<and> jb_status j \<noteq> JobRunning \<and> jb_deliveredAt j \<noteq> None \<and> jb_wokeAt j \<noteq> None)
          (sx_jobs st)\<rparr>"

definition expireNow :: "time_ms \<Rightarrow> user_sub \<Rightarrow> string \<Rightarrow> nat \<Rightarrow> SatelliteState \<Rightarrow> SatelliteState" where
  "expireNow now owner name sequence st =
     st\<lparr>sx_jobs := update_where (is_job owner name sequence) (\<lambda>j. j\<lparr>jb_expiresAt := now\<rparr>) (sx_jobs st)\<rparr>"

section \<open>Admission\<close>

definition OFFLINE_AFTER_MS :: int where "OFFLINE_AFTER_MS = 90000"

definition isOnline :: "SatelliteRow \<Rightarrow> time_ms \<Rightarrow> bool" where
  "isOnline satellite now = (case sa_lastSeenAt satellite of None \<Rightarrow> False | Some t \<Rightarrow> now - t < OFFLINE_AFTER_MS)"

datatype AdmitRefusal =
    NeverConnected string | Offline string int | ShuttingDown string | NoTools string
  | NoSuchTool string string "string list" | AllBusy string nat nat | ToolBusy string nat nat

text \<open>The reason of a refusal is kept as its parts: the text is a template over them.\<close>

definition admit :: "SatelliteRow \<Rightarrow> string \<Rightarrow> JobRow list \<Rightarrow> time_ms \<Rightarrow> AdmitRefusal + (SatelliteTool \<times> nat option)" where
  "admit satellite tool active now =
     (if \<not> isOnline satellite now
      then Inl (case sa_lastSeenAt satellite of None \<Rightarrow> NeverConnected (sa_name satellite)
                | Some t \<Rightarrow> Offline (sa_name satellite) (now - t))
      else if sa_draining satellite then Inl (ShuttingDown (sa_name satellite))
      else case find (\<lambda>t. tl_name t = tool) (sa_tools satellite) of
             None \<Rightarrow> Inl (if sa_tools satellite = [] then NoTools (sa_name satellite)
                          else NoSuchTool (sa_name satellite) tool (map tl_name (sa_tools satellite)))
           | Some entry \<Rightarrow>
               if sa_maxConcurrent satellite \<le> length active
               then Inl (AllBusy (sa_name satellite) (length active) (sa_maxConcurrent satellite))
               else (case tl_maxConcurrent entry of
                       None \<Rightarrow> Inr (entry, None)
                     | Some perTool \<Rightarrow>
                         let running = length (filter (\<lambda>j. jb_tool j = tl_name entry) active)
                         in if perTool \<le> running then Inl (ToolBusy (tl_name entry) running perTool)
                            else Inr (entry, Some perTool)))"

end
