(* ===== verification/Satellite_Ops.thy ===== *)
theory Satellite_Ops
  imports Satellite_Tables
begin

text \<open>
  The operations over the tables of satellites: the turn that tells an agent of finished jobs
  (\<^verbatim>\<open>core/outcome-turn.ts\<close>, \<^verbatim>\<open>satellites/services/outcome-delivery.ts\<close>), the operations of the agent
  (\<^verbatim>\<open>agent-ops.ts\<close>), of the machine's worker with the sweep of leases (\<^verbatim>\<open>worker-ops.ts\<close>) and of the
  owner (\<^verbatim>\<open>satellites-service.ts\<close>, \<^verbatim>\<open>compose.ts\<close>), and the authorisation of a file transfer
  (\<^verbatim>\<open>routes/file-transfer.ts\<close>). Whether a write, a queue or a delivery throws and whether an agent
  wakes are arguments. Log lines and the views of satellites and jobs are left out.
\<close>

section \<open>The turn that tells an agent\<close>

definition MAX_TURN_CHARS :: int where "MAX_TURN_CHARS = 64 * 1024"

definition trim_note :: "string \<Rightarrow> string" where
  "trim_note trimHint = CHR 0x0A # ''(trimmed to fit this turn; '' @ trimHint @ '')''"

text \<open>The parts of a turn; only the first may be over what is left of the budget, and it is trimmed.\<close>

fun turn_parts :: "string \<Rightarrow> bool \<Rightarrow> int \<Rightarrow> string list \<Rightarrow> string list" where
  "turn_parts trimHint first budget [] = []"
| "turn_parts trimHint first budget (part # rest) =
     (if \<not> first \<and> budget < int (length part) + 1 then []
      else let trimmed = (if budget < int (length part) + 1 then take (nat (max (budget - 1) 0)) part @ trim_note trimHint else part)
           in trimmed # turn_parts trimHint False (budget - (int (length trimmed) + 1)) rest)"

definition TURN_ENDING :: string where
  "TURN_ENDING = ''Carry on with whatever you were asked to do with this result. If nothing was asked, summarize it briefly.''"

definition composeOutcomeTurn :: "string list \<Rightarrow> (nat \<Rightarrow> string) \<Rightarrow> string \<Rightarrow> nat \<Rightarrow> nat \<times> string" where
  "composeOutcomeTurn descriptions subject trimHint maxPerTurn =
     (let parts = turn_parts trimHint True MAX_TURN_CHARS (take maxPerTurn descriptions)
      in (length parts, join_char (CHR 0x0A) ([subject (length parts), []] @ parts @ [[], TURN_ENDING])))"

record 'd SatelliteWorld =
  zw_sats :: SatelliteState
  zw_delivery :: "'d DeliveryWorld"

definition map_sats :: "(SatelliteState \<Rightarrow> SatelliteState) \<Rightarrow> 'd SatelliteWorld \<Rightarrow> 'd SatelliteWorld" where
  "map_sats f w = w\<lparr>zw_sats := f (zw_sats w)\<rparr>"

text \<open>What the turn meets outside: a write that fails, a queue that fails, an agent that wakes, is stopped or fails to wake.\<close>

record TurnDeps =
  td_bumpFails :: bool
  td_enqueueFails :: bool
  td_wakeUnlessStopped :: "agent_id \<Rightarrow> bool option"
  td_payload :: "agent_id \<Rightarrow> string \<Rightarrow> string list \<Rightarrow> string" \<comment> \<open>the task and the references as the text of the event\<close>
  td_spillLog :: "agent_id \<Rightarrow> string \<Rightarrow> string \<Rightarrow> string option"

definition wakeOutcomeTurn ::
  "TurnDeps \<Rightarrow> agent_id \<Rightarrow> ('w \<Rightarrow> 'w) \<Rightarrow> 'w \<Rightarrow> 'w" where
  "wakeOutcomeTurn deps agentId markWoken' w =
     (case td_wakeUnlessStopped deps agentId of None \<Rightarrow> w | Some _ \<Rightarrow> markWoken' w)"

definition EVENT_TTL_MS :: int where "EVENT_TTL_MS = 7 * 24 * 60 * 60 * 1000"

definition deliverOutcomeTurn ::
  "TurnDeps \<Rightarrow> nat \<Rightarrow> agent_id \<Rightarrow> OutboxEvent \<Rightarrow> ('d SatelliteWorld \<Rightarrow> 'd SatelliteWorld) \<Rightarrow> ('d SatelliteWorld \<Rightarrow> 'd SatelliteWorld)
   \<Rightarrow> 'd SatelliteWorld \<Rightarrow> bool \<times> 'd SatelliteWorld" where
  "deliverOutcomeTurn deps firedAt agentId event release wake w =
     (if td_bumpFails deps then (False, release w)
      else let d = zw_delivery w;
               d1 = d\<lparr>dw_outbox := snd (mutator_bump (int firedAt) agentId [event] (dw_outbox d))\<rparr>;
               d2 = (if td_enqueueFails deps then d1 else enqueue agentId False d1)
           in (True, wake (w\<lparr>zw_delivery := d2\<rparr>)))"

definition INLINE_OUTPUT_LIMIT :: nat where "INLINE_OUTPUT_LIMIT = 4096"
definition MAX_OUTCOMES_PER_TURN :: nat where "MAX_OUTCOMES_PER_TURN = 20"

definition formatJobRef :: "string \<Rightarrow> nat \<Rightarrow> string" where
  "formatJobRef satellite sequence = satellite @ ''#'' @ show_nat sequence"

definition scopedName :: "string \<Rightarrow> string \<Rightarrow> string" where
  "scopedName satellite tool =
     map (\<lambda>c. let n = (of_char c :: nat) in if 97 \<le> n \<and> n \<le> 122 \<or> is_digit c then c else CHR ''_'') satellite @ ''__'' @ tool"

fun job_status_name :: "JobStatus \<Rightarrow> string" where
  "job_status_name JobQueued = ''queued''"
| "job_status_name JobRunning = ''running''"
| "job_status_name JobDone = ''done''"
| "job_status_name JobInterrupted = ''interrupted''"
| "job_status_name JobCancelled = ''cancelled''"

text \<open>The description of an outcome; its em dash is one character, as the budget of a turn counts it.\<close>

definition describe_job :: "TurnDeps \<Rightarrow> agent_id \<Rightarrow> JobRow \<Rightarrow> string" where
  "describe_job deps agentId job =
     (let ref = formatJobRef (jb_satellite job) (jb_sequence job);
          result = jb_result job;
          output = (case jr_output result of None \<Rightarrow> [] | Some t \<Rightarrow> t);
          images = length (jr_images result)
      in join_char (CHR 0x0A)
           ([ref @ '' ('' @ jb_tool job @ '' '' @ jb_args job @ '') '' @ [CHR 0x97] @ '' ''
               @ job_status_name (jb_status job) @ (case jr_exitCode result of None \<Rightarrow> [] | Some c \<Rightarrow> '', exit '' @ show_int c)]
            @ (case jb_reason job of None \<Rightarrow> [] | Some r \<Rightarrow> [r])
            @ (if output = [] then []
               else if length output \<le> INLINE_OUTPUT_LIMIT then [output]
               else [case td_spillLog deps agentId ref output of
                       None \<Rightarrow> ''(output too large to include and could not be written to your workspace)''
                     | Some path \<Rightarrow> ''Output was too large to include; it is at '' @ path])
            @ (if images = 0 then []
               else [(if images = 1 then ''An image came back with it'' else show_nat images @ '' images came back with it'')
                     @ '', which a turn cannot carry: read the job with '' @ scopedName (jb_satellite job) ''get''
                     @ '' to see '' @ (if images = 1 then ''it'' else ''them'') @ ''.''])))"

definition releaseClaim :: "JobRow list \<Rightarrow> SatelliteState \<Rightarrow> SatelliteState" where
  "releaseClaim claimed st =
     fold (\<lambda>name. releaseOutcomes (jb_owner (hd claimed)) name
             (map jb_sequence (filter (\<lambda>j. jb_satellite j = name) claimed)))
       (first_occurrences (map jb_satellite claimed)) st"

definition jobRefs :: "JobRow list \<Rightarrow> (string \<times> nat) list" where
  "jobRefs jobs = map (\<lambda>j. (jb_satellite j, jb_sequence j)) jobs"

definition outcome_subject :: "nat \<Rightarrow> string" where
  "outcome_subject count =
     (if count = 1 then ''A satellite job you started has finished.''
      else show_nat count @ '' satellite jobs you started have finished.'')"

definition outcome_turn :: "TurnDeps \<Rightarrow> agent_id \<Rightarrow> JobRow list \<Rightarrow> nat \<times> string" where
  "outcome_turn deps agentId claimed =
     composeOutcomeTurn (map (describe_job deps agentId) claimed) outcome_subject
       ''read the rest with the satellite job tools'' MAX_OUTCOMES_PER_TURN"

definition outcome_event :: "TurnDeps \<Rightarrow> nat \<Rightarrow> agent_id \<Rightarrow> JobRow list \<Rightarrow> string \<Rightarrow> OutboxEvent" where
  "outcome_event deps firedAt agentId toldJobs task =
     (let refs = map (\<lambda>j. formatJobRef (jb_satellite j) (jb_sequence j)) toldJobs
      in \<lparr>oe_id = ''satellite-outcome:'' @ agentId @ '':'' @ hd refs @ '':'' @ show_nat firedAt, oe_kind = SatelliteOutcome,
          oe_payload = OtherPayload (td_payload deps agentId task refs), oe_expiresAt = int firedAt + EVENT_TTL_MS\<rparr>)"

text \<open>A delivery after it has claimed its outcomes: it gives back what the turn does not carry, and writes the turn.\<close>

definition tell_outcomes :: "TurnDeps \<Rightarrow> nat \<Rightarrow> agent_id \<Rightarrow> JobRow list \<Rightarrow> 'd SatelliteWorld \<Rightarrow> bool \<times> 'd SatelliteWorld" where
  "tell_outcomes deps firedAt agentId claimed w =
     (case outcome_turn deps agentId claimed of
        (told, task) \<Rightarrow>
          let toldJobs = take told claimed;
              overflow = drop told claimed;
              w1 = (if overflow = [] then w else map_sats (releaseClaim overflow) w)
          in deliverOutcomeTurn deps firedAt agentId (outcome_event deps firedAt agentId toldJobs task) (map_sats (releaseClaim toldJobs))
               (wakeOutcomeTurn deps agentId (map_sats (markWoken (int firedAt) agentId (jobRefs toldJobs)))) w1)"

definition outcome_delivery :: "TurnDeps \<Rightarrow> nat \<Rightarrow> agent_id \<Rightarrow> 'd SatelliteWorld \<Rightarrow> bool \<times> 'd SatelliteWorld" where
  "outcome_delivery deps at' agentId w =
     (case claimUndeliveredOutcomes (int at') agentId MAX_OUTCOMES_PER_TURN (zw_sats w) of
        (claimed, st) \<Rightarrow> if claimed = [] then (False, w\<lparr>zw_sats := st\<rparr>) else tell_outcomes deps at' agentId claimed (w\<lparr>zw_sats := st\<rparr>))"

definition retry_agent :: "TurnDeps \<Rightarrow> nat \<Rightarrow> agent_id \<Rightarrow> 'd SatelliteWorld \<Rightarrow> 'd SatelliteWorld" where
  "retry_agent deps at' agentId w =
     (case outcome_delivery deps at' agentId w of
        (True, w1) \<Rightarrow> w1
      | (False, w1) \<Rightarrow>
          let claimed = undeliveredFor agentId (zw_sats w1)
          in if claimed = [] then w1 else wakeOutcomeTurn deps agentId (map_sats (markWoken (int at') agentId claimed)) w1)"

definition outcome_wake_retry :: "TurnDeps \<Rightarrow> nat \<Rightarrow> 'd SatelliteWorld \<Rightarrow> 'd SatelliteWorld" where
  "outcome_wake_retry deps at' w = fold (retry_agent deps at') (agentsWithPendingOutcomes (zw_sats w)) w"

section \<open>What an agent does\<close>

datatype SatelliteError =
    UnknownAgent | NoAccess string | NoSatellite string | Refused AdmitRefusal | RegisteredAgain string
  | NoFreeSlot nat nat | NoJobOfAgent string | NoSuchJob | UnknownSatellite | OtherRegistration string
  | KeyNotBound agent_id | NotYourAgent

definition JOB_TTL_MS :: int where "JOB_TTL_MS = 7 * 24 * 60 * 60 * 1000"
definition POLL_INTERVAL_MS :: int where "POLL_INTERVAL_MS = 500"
definition AWAIT_LEASE_MS :: int where "AWAIT_LEASE_MS = POLL_INTERVAL_MS * 4"
definition CANCEL_ATTEMPTS :: nat where "CANCEL_ATTEMPTS = 3"

record AgentOpsDeps =
  ao_ownerOf :: "agent_id \<Rightarrow> user_sub option"
  ao_spillLog :: "agent_id \<Rightarrow> string \<Rightarrow> string \<Rightarrow> string option"

definition sat_resolve :: "AgentOpsDeps \<Rightarrow> agent_id \<Rightarrow> string \<Rightarrow> SatelliteState \<Rightarrow> SatelliteError + (user_sub \<times> SatelliteRow)" where
  "sat_resolve deps agentId name st =
     (case ao_ownerOf deps agentId of
        None \<Rightarrow> Inl UnknownAgent
      | Some owner \<Rightarrow>
          (case grantedSatellite agentId owner name st of
             None \<Rightarrow> Inl (if sat_get owner name st \<noteq> None then NoAccess name else NoSatellite name)
           | Some satellite \<Rightarrow> Inr (owner, satellite)))"

record JobOutcome =
  jo_ref :: string
  jo_status :: JobStatus
  jo_result :: JobResult
  jo_outputPath :: "string option"
  jo_reason :: "string option"

definition job_outcome :: "AgentOpsDeps \<Rightarrow> agent_id \<Rightarrow> JobRow \<Rightarrow> JobOutcome" where
  "job_outcome deps agentId job =
     (let ref = formatJobRef (jb_satellite job) (jb_sequence job);
          path = (case jr_output (jb_result job) of
                    None \<Rightarrow> None
                  | Some output \<Rightarrow> if INLINE_OUTPUT_LIMIT < length output then ao_spillLog deps agentId ref output else None);
          result = (if path = None then jb_result job else (jb_result job)\<lparr>jr_output := None\<rparr>)
      in \<lparr>jo_ref = ref, jo_status = jb_status job, jo_result = result, jo_outputPath = path, jo_reason = jb_reason job\<rparr>)"

definition readClaiming ::
  "AgentOpsDeps \<Rightarrow> time_ms \<Rightarrow> agent_id \<Rightarrow> string \<Rightarrow> nat \<Rightarrow> SatelliteState
   \<Rightarrow> (SatelliteError + (JobOutcome \<times> bool)) \<times> SatelliteState" where
  "readClaiming deps now agentId name sequence st =
     (case sat_resolve deps agentId name st of
        Inl e \<Rightarrow> (Inl e, st)
      | Inr (owner, _) \<Rightarrow>
          (case getJob owner name sequence st of
             None \<Rightarrow> (Inl (NoJobOfAgent (formatJobRef name sequence)), st)
           | Some job \<Rightarrow>
               if jb_agentId job \<noteq> agentId then (Inl (NoJobOfAgent (formatJobRef name sequence)), st)
               else let (claimed, st1) = (if isTerminal (jb_status job) then markSeen now agentId name sequence st else (False, st))
                    in (Inr (job_outcome deps agentId job, claimed), st1)))"

text \<open>A start in its two halves: the call is admitted against what was read, and then inserted.\<close>

definition start_admit :: "AgentOpsDeps \<Rightarrow> time_ms \<Rightarrow> agent_id \<Rightarrow> string \<Rightarrow> string \<Rightarrow> string \<Rightarrow> SatelliteState \<Rightarrow> SatelliteError + InsertJob" where
  "start_admit deps now agentId name tool args st =
     (case sat_resolve deps agentId name st of
        Inl e \<Rightarrow> Inl e
      | Inr (owner, satellite) \<Rightarrow>
          (case admit satellite tool (activeJobs owner name st) now of
             Inl reason \<Rightarrow> Inl (Refused reason)
           | Inr (entry, toolMax) \<Rightarrow>
               Inr \<lparr>ij_owner = owner, ij_satellite = name, ij_agentId = agentId, ij_tool = tool, ij_args = args,
                    ij_transferDirection = tl_transfer entry, ij_expiresAt = now + JOB_TTL_MS,
                    ij_maxConcurrent = sa_maxConcurrent satellite, ij_toolMax = toolMax,
                    ij_incarnation = sa_incarnation satellite\<rparr>))"

definition start_insert :: "time_ms \<Rightarrow> InsertJob \<Rightarrow> SatelliteState \<Rightarrow> (SatelliteError + nat) \<times> SatelliteState" where
  "start_insert now i st =
     (case insertJob now i st of
        (RegistrationStale, st1) \<Rightarrow> (Inl (RegisteredAgain (ij_satellite i)), st1)
      | (JobsFull running forTool, st1) \<Rightarrow> (Inl (NoFreeSlot running forTool), st1)
      | (JobInserted job, st1) \<Rightarrow> (Inr (jb_sequence job), st1))"

definition sat_start ::
  "AgentOpsDeps \<Rightarrow> time_ms \<Rightarrow> agent_id \<Rightarrow> string \<Rightarrow> string \<Rightarrow> string \<Rightarrow> SatelliteState \<Rightarrow> (SatelliteError + nat) \<times> SatelliteState" where
  "sat_start deps now agentId name tool args st =
     (case start_admit deps now agentId name tool args st of Inl e \<Rightarrow> (Inl e, st) | Inr i \<Rightarrow> start_insert now i st)"

text \<open>
  One round of a wait, and the wait over the rounds that come: each with its time and what others
  did to the tables since the round before. \<^const>\<open>None\<close> is a wait that goes on.
\<close>

definition wait_round ::
  "AgentOpsDeps \<Rightarrow> time_ms \<Rightarrow> time_ms \<Rightarrow> agent_id \<Rightarrow> string \<Rightarrow> nat \<Rightarrow> SatelliteState
   \<Rightarrow> (SatelliteError + JobOutcome) option \<times> SatelliteState" where
  "wait_round deps deadline now agentId name sequence st =
     (case readClaiming deps now agentId name sequence (snd (markAwaited agentId name sequence (now + AWAIT_LEASE_MS) st)) of
        (Inl e, st1) \<Rightarrow> (Some (Inl e), st1)
      | (Inr (outcome, claimed), st1) \<Rightarrow>
          if isTerminal (jo_status outcome)
          then (Some (Inr outcome), if claimed then st1 else releaseAwaited agentId name sequence st1)
          else (if deadline \<le> now then Some (Inr outcome) else None, st1))"

fun sat_wait ::
  "AgentOpsDeps \<Rightarrow> time_ms \<Rightarrow> (time_ms \<times> (SatelliteState \<Rightarrow> SatelliteState)) list \<Rightarrow> agent_id \<Rightarrow> string \<Rightarrow> nat \<Rightarrow> SatelliteState
   \<Rightarrow> (SatelliteError + JobOutcome) option \<times> SatelliteState" where
  "sat_wait deps deadline [] agentId name sequence st = (None, st)"
| "sat_wait deps deadline ((now, others) # rounds) agentId name sequence st =
     (case wait_round deps deadline now agentId name sequence (others st) of
        (Some r, st1) \<Rightarrow> (Some r, st1)
      | (None, st1) \<Rightarrow> sat_wait deps deadline rounds agentId name sequence st1)"

text \<open>
  The attempts of a cancellation; others can change the tables between the reading of the job and
  the settlement. The last job read is what a cancellation without an attempt left answers with.
\<close>

definition cancelled_early :: SettlePatch where
  "cancelled_early = \<lparr>pt_status = JobCancelled, pt_result = id, pt_reason = Some ''cancelled before it started''\<rparr>"

fun cancel_attempts ::
  "AgentOpsDeps \<Rightarrow> time_ms \<Rightarrow> (nat \<Rightarrow> SatelliteState \<Rightarrow> SatelliteState) \<Rightarrow> nat \<Rightarrow> agent_id \<Rightarrow> user_sub \<Rightarrow> string \<Rightarrow> string \<Rightarrow> nat
   \<Rightarrow> JobRow option \<Rightarrow> SatelliteState \<Rightarrow> (SatelliteError + JobOutcome) \<times> SatelliteState" where
  "cancel_attempts deps now others 0 agentId owner name incarnation sequence job st =
     ((case job of None \<Rightarrow> Inl NoSuchJob | Some j \<Rightarrow> Inr (job_outcome deps agentId j)), st)"
| "cancel_attempts deps now others (Suc n) agentId owner name incarnation sequence _ st =
     (case getJob owner name sequence st of
        None \<Rightarrow> (Inl NoSuchJob, st)
      | Some job \<Rightarrow>
          if jb_agentId job \<noteq> agentId then (Inl NoSuchJob, st)
          else let st1 = others n st
               in if isTerminal (jb_status job)
                  then (Inr (job_outcome deps agentId job), snd (markSeen now agentId name sequence st1))
                  else if jb_status job = JobRunning
                  then (Inr (job_outcome deps agentId (job\<lparr>jb_reason := Some ''cancellation requested''\<rparr>)),
                        requestCancel owner name sequence (Some incarnation) st1)
                  else (case job_settle now owner name sequence cancelled_early (Some (jb_status job)) (Some incarnation) None st1 of
                          (None, st2) \<Rightarrow> cancel_attempts deps now others n agentId owner name incarnation sequence (Some job) st2
                        | (Some settled, st2) \<Rightarrow>
                            (Inr (job_outcome deps agentId settled), snd (markSeen now agentId name sequence st2))))"

definition sat_cancel ::
  "AgentOpsDeps \<Rightarrow> time_ms \<Rightarrow> (nat \<Rightarrow> SatelliteState \<Rightarrow> SatelliteState) \<Rightarrow> agent_id \<Rightarrow> string \<Rightarrow> nat \<Rightarrow> SatelliteState
   \<Rightarrow> (SatelliteError + JobOutcome) \<times> SatelliteState" where
  "sat_cancel deps now others agentId name sequence st =
     (case sat_resolve deps agentId name st of
        Inl e \<Rightarrow> (Inl e, st)
      | Inr (owner, satellite) \<Rightarrow>
          cancel_attempts deps now others CANCEL_ATTEMPTS agentId owner name (sa_incarnation satellite) sequence None st)"

section \<open>What the worker on a machine does\<close>

definition LEASE_MS :: int where "LEASE_MS = 60000"
definition STALE_JOB_TTL_MS :: int where "STALE_JOB_TTL_MS = 7 * 24 * 60 * 60 * 1000"

text \<open>
  A worker meets the hash and the mint of tokens, the ceiling on concurrent jobs and the names of
  agents; a delivery that throws leaves the tables as they are.
\<close>

record WorkerDeps =
  wd_hashOf :: "string \<Rightarrow> string"
  wd_token :: "time_ms \<Rightarrow> nat \<Rightarrow> string"
  wd_ceiling :: nat
  wd_agentName :: "agent_id \<Rightarrow> string option"
  wd_turn :: TurnDeps
  wd_deliverFails :: "job_key \<Rightarrow> bool"

definition deliver_for :: "WorkerDeps \<Rightarrow> nat \<Rightarrow> JobRow \<Rightarrow> 'd SatelliteWorld \<Rightarrow> 'd SatelliteWorld" where
  "deliver_for deps at' j w =
     (if wd_deliverFails deps (job_key j) then w else snd (outcome_delivery (wd_turn deps) at' (jb_agentId j) w))"

definition sat_connect ::
  "WorkerDeps \<Rightarrow> time_ms \<Rightarrow> string \<Rightarrow> user_sub \<Rightarrow> SatelliteManifest \<Rightarrow> string option \<Rightarrow> string option \<Rightarrow> SatelliteState
   \<Rightarrow> (SatelliteError + string) \<times> SatelliteState" where
  "sat_connect deps now newId owner manifest host resume st =
     (case resume of
        None \<Rightarrow> (case upsertFromManifest now newId owner manifest host (wd_ceiling deps) st of (i, st1) \<Rightarrow> (Inr i, st1))
      | Some i \<Rightarrow>
          (case renewFromManifest now owner manifest host (wd_ceiling deps) i st of
             (None, st1) \<Rightarrow> (Inl (OtherRegistration (mf_name manifest)), st1)
           | (Some renewed, st1) \<Rightarrow> (Inr renewed, st1)))"

datatype WorkItem =
    CancelItem nat string string
  | CallItem nat string string agent_id "string option" "string option" \<comment> \<open>the agent with its name, and the token of a transfer\<close>

record ClaimInput =
  ci_satellite :: string
  ci_capacity :: nat
  ci_waitMs :: int
  ci_incarnation :: "string option"

definition serves :: "user_sub \<Rightarrow> string \<Rightarrow> string option \<Rightarrow> SatelliteState \<Rightarrow> SatelliteRow option" where
  "serves owner name incarnation st =
     (case sat_get owner name st of
        None \<Rightarrow> None
      | Some satellite \<Rightarrow> if incarnation \<noteq> None \<and> incarnation \<noteq> Some (sa_incarnation satellite) then None else Some satellite)"

definition claim_round :: "WorkerDeps \<Rightarrow> time_ms \<Rightarrow> user_sub \<Rightarrow> ClaimInput \<Rightarrow> SatelliteState \<Rightarrow> (SatelliteError + WorkItem list) \<times> SatelliteState" where
  "claim_round deps now owner input st =
     (let name = ci_satellite input; incarnation = ci_incarnation input
      in case serves owner name incarnation st of
           None \<Rightarrow> (Inl UnknownSatellite, st)
         | Some satellite \<Rightarrow>
             let st1 = (if sa_draining satellite then setDraining now owner name False incarnation st else st);
                 st2 = touch now owner name incarnation st1
             in case takeCancellations now owner name (now - LEASE_MS) incarnation st2 of
                  (cancels, st3) \<Rightarrow>
                    (case claimQueued (wd_hashOf deps) (wd_token deps now) now owner name (ci_capacity input) (now + LEASE_MS) incarnation st3 of
                       (claimed, st4) \<Rightarrow>
                         (Inr (map (\<lambda>j. CancelItem (jb_sequence j) (jb_tool j) (jb_args j)) cancels
                               @ map (\<lambda>(j, token). CallItem (jb_sequence j) (jb_tool j) (jb_args j) (jb_agentId j)
                                        (wd_agentName deps (jb_agentId j)) token) claimed), st4)))"

fun sat_claim ::
  "WorkerDeps \<Rightarrow> time_ms \<Rightarrow> (time_ms \<times> (SatelliteState \<Rightarrow> SatelliteState)) list \<Rightarrow> user_sub \<Rightarrow> ClaimInput \<Rightarrow> SatelliteState
   \<Rightarrow> (SatelliteError + WorkItem list) option \<times> SatelliteState" where
  "sat_claim deps deadline [] owner input st = (None, st)"
| "sat_claim deps deadline ((now, others) # rounds) owner input st =
     (case claim_round deps now owner input (others st) of
        (Inl e, st1) \<Rightarrow> (Some (Inl e), st1)
      | (Inr items, st1) \<Rightarrow>
          if items \<noteq> [] \<or> deadline \<le> now then (Some (Inr items), st1)
          else sat_claim deps deadline rounds owner input st1)"

definition sat_heartbeat ::
  "time_ms \<Rightarrow> user_sub \<Rightarrow> string \<Rightarrow> nat list \<Rightarrow> string option \<Rightarrow> SatelliteState \<Rightarrow> (SatelliteError + unit) \<times> SatelliteState" where
  "sat_heartbeat now owner name running incarnation st =
     (case serves owner name incarnation st of
        None \<Rightarrow> (Inl UnknownSatellite, st)
      | Some _ \<Rightarrow> (Inr (), renewLeases owner name running (now + LEASE_MS) incarnation (touch now owner name incarnation st)))"

datatype JobReport =
    ReportDone bool "int option" "string option" "string list" bool \<comment> \<open>error, exit code, output, images, truncated\<close>
  | ReportCancelled "string option" bool
  | ReportInterrupted string "string option" bool

fun report_patch :: "JobReport \<Rightarrow> SettlePatch" where
  "report_patch (ReportDone isError exitCode output images truncated) =
     \<lparr>pt_status = JobDone,
      pt_result = (\<lambda>r. \<lparr>jr_isError = isError, jr_exitCode = exitCode, jr_output = output, jr_images = images, jr_truncated = truncated\<rparr>),
      pt_reason = None\<rparr>"
| "report_patch (ReportCancelled output truncated) =
     \<lparr>pt_status = JobCancelled, pt_result = (\<lambda>r. r\<lparr>jr_output := output, jr_truncated := truncated\<rparr>), pt_reason = Some ''cancelled''\<rparr>"
| "report_patch (ReportInterrupted reason output truncated) =
     \<lparr>pt_status = JobInterrupted, pt_result = (\<lambda>r. r\<lparr>jr_output := output, jr_truncated := truncated\<rparr>), pt_reason = Some reason\<rparr>"

definition sat_report ::
  "WorkerDeps \<Rightarrow> nat \<Rightarrow> user_sub \<Rightarrow> string \<Rightarrow> nat \<Rightarrow> JobReport \<Rightarrow> string option \<Rightarrow> 'd SatelliteWorld \<Rightarrow> 'd SatelliteWorld" where
  "sat_report deps at' owner name sequence outcome incarnation w =
     (case job_settle (int at') owner name sequence (report_patch outcome) (Some JobRunning) incarnation None (zw_sats w) of
        (None, st) \<Rightarrow> w\<lparr>zw_sats := st\<rparr>
      | (Some settled, st) \<Rightarrow> deliver_for deps at' settled (w\<lparr>zw_sats := st\<rparr>))"

definition sat_drain :: "time_ms \<Rightarrow> user_sub \<Rightarrow> string \<Rightarrow> string option \<Rightarrow> SatelliteState \<Rightarrow> (SatelliteError + unit) \<times> SatelliteState" where
  "sat_drain now owner name incarnation st =
     (if incarnation \<noteq> None \<and> serves owner name incarnation st = None then (Inl UnknownSatellite, st)
      else (Inr (), setDraining now owner name True incarnation st))"

definition EXPIRED_UNSTARTED :: string where
  "EXPIRED_UNSTARTED = ''it waited past its expiry without ever starting''"

definition lost_worker :: "JobRow \<Rightarrow> SettlePatch" where
  "lost_worker j =
     \<lparr>pt_status = JobInterrupted, pt_result = id,
      pt_reason = Some (formatJobRef (jb_satellite j) (jb_sequence j) @ '' lost its worker; the command may have completed'')\<rparr>"

text \<open>One job of the sweep whose lease ran out; a settlement that throws is logged and the sweep goes on.\<close>

definition sweep_lease :: "WorkerDeps \<Rightarrow> nat \<Rightarrow> (job_key \<Rightarrow> bool) \<Rightarrow> JobRow \<Rightarrow> 'd SatelliteWorld \<Rightarrow> 'd SatelliteWorld" where
  "sweep_lease deps at' settleFails j w =
     (if settleFails (job_key j) then w
      else case job_settle (int at') (jb_owner j) (jb_satellite j) (jb_sequence j) (lost_worker j) (Some JobRunning) None (Some (int at')) (zw_sats w) of
             (None, st) \<Rightarrow> w\<lparr>zw_sats := st\<rparr>
           | (Some _, st) \<Rightarrow> deliver_for deps at' j (w\<lparr>zw_sats := st\<rparr>))"

definition any_scope :: DispatchScope where "any_scope = \<lparr>sc_owner = None, sc_satellite = None, sc_agentId = None\<rparr>"

definition lease_sweep :: "WorkerDeps \<Rightarrow> nat \<Rightarrow> (job_key \<Rightarrow> bool) \<Rightarrow> 'd SatelliteWorld \<Rightarrow> nat \<times> 'd SatelliteWorld" where
  "lease_sweep deps at' settleFails w =
     (case stopDispatch (int at') any_scope EXPIRED_UNSTARTED STALE_JOB_TTL_MS (Some (int at')) (zw_sats w) of
        (stopped, st) \<Rightarrow>
          let w1 = fold (deliver_for deps at') stopped (w\<lparr>zw_sats := st\<rparr>);
              expired = expiredLeases (int at') (zw_sats w1);
              w2 = fold (sweep_lease deps at' settleFails) expired w1
          in (length expired, map_sats (purgeExpired (int at')) w2))"

section \<open>What the owner does\<close>

record OwnerDeps =
  xd_owner :: user_sub
  xd_agentBinding :: "agent_id list option" \<comment> \<open>\<^const>\<open>None\<close> is a key for all agents\<close>
  xd_isAgentOwnedBy :: "agent_id \<Rightarrow> user_sub \<Rightarrow> bool"
  xd_worker :: WorkerDeps

definition is_bound :: "OwnerDeps \<Rightarrow> agent_id \<Rightarrow> bool" where
  "is_bound deps agentId = (case xd_agentBinding deps of None \<Rightarrow> True | Some ids \<Rightarrow> agentId \<in> set ids)"

definition stop_and_tell :: "WorkerDeps \<Rightarrow> nat \<Rightarrow> DispatchScope \<Rightarrow> string \<Rightarrow> 'd SatelliteWorld \<Rightarrow> 'd SatelliteWorld" where
  "stop_and_tell deps at' scope reason w =
     (case stopDispatch (int at') scope reason JOB_TTL_MS None (zw_sats w) of
        (settled, st) \<Rightarrow> fold (deliver_for deps at') settled (w\<lparr>zw_sats := st\<rparr>))"

definition owner_remove :: "OwnerDeps \<Rightarrow> nat \<Rightarrow> string \<Rightarrow> 'd SatelliteWorld \<Rightarrow> (SatelliteError + unit) \<times> 'd SatelliteWorld" where
  "owner_remove deps at' name w =
     (if sat_get (xd_owner deps) name (zw_sats w) = None then (Inl (NoSatellite name), w)
      else (Inr (), map_sats (sat_remove (xd_owner deps) name)
             (stop_and_tell (xd_worker deps) at' \<lparr>sc_owner = Some (xd_owner deps), sc_satellite = Some name, sc_agentId = None\<rparr>
                ''satellite removed'' w)))"

definition owner_grant :: "OwnerDeps \<Rightarrow> string \<Rightarrow> agent_id \<Rightarrow> 'd SatelliteWorld \<Rightarrow> (SatelliteError + unit) \<times> 'd SatelliteWorld" where
  "owner_grant deps name agentId w =
     (if \<not> is_bound deps agentId then (Inl (KeyNotBound agentId), w)
      else if sat_get (xd_owner deps) name (zw_sats w) = None then (Inl (NoSatellite name), w)
      else if \<not> xd_isAgentOwnedBy deps agentId (xd_owner deps) then (Inl NotYourAgent, w)
      else (Inr (), map_sats (grant_insert (xd_owner deps) name agentId) w))"

definition owner_revoke :: "OwnerDeps \<Rightarrow> nat \<Rightarrow> string \<Rightarrow> agent_id \<Rightarrow> 'd SatelliteWorld \<Rightarrow> (SatelliteError + unit) \<times> 'd SatelliteWorld" where
  "owner_revoke deps at' name agentId w =
     (if \<not> is_bound deps agentId then (Inl (KeyNotBound agentId), w)
      else if sat_get (xd_owner deps) name (zw_sats w) = None then (Inl (NoSatellite name), w)
      else (Inr (), stop_and_tell (xd_worker deps) at'
                      \<lparr>sc_owner = Some (xd_owner deps), sc_satellite = Some name, sc_agentId = Some agentId\<rparr>
                      (''the agent'' @ [CHR 0x27] @ ''s access to this satellite was revoked'')
                      (map_sats (grant_revoke (xd_owner deps) name agentId) w)))"

fun cancelJob_attempts ::
  "OwnerDeps \<Rightarrow> nat \<Rightarrow> (nat \<Rightarrow> SatelliteState \<Rightarrow> SatelliteState) \<Rightarrow> nat \<Rightarrow> string \<Rightarrow> nat \<Rightarrow> 'd SatelliteWorld
   \<Rightarrow> (SatelliteError + unit) \<times> 'd SatelliteWorld" where
  "cancelJob_attempts deps at' others 0 name sequence w = (Inr (), w)"
| "cancelJob_attempts deps at' others (Suc n) name sequence w =
     (case (sat_get (xd_owner deps) name (zw_sats w), getJob (xd_owner deps) name sequence (zw_sats w)) of
        (Some satellite, Some job) \<Rightarrow>
          if \<not> is_bound deps (jb_agentId job) then (Inl NoSuchJob, w)
          else let w1 = map_sats (others n) w
               in if isTerminal (jb_status job) then (Inr (), w1)
                  else if jb_status job = JobRunning
                  then (Inr (), map_sats (requestCancel (xd_owner deps) name sequence (Some (sa_incarnation satellite))) w1)
                  else (case job_settle (int at') (xd_owner deps) name sequence cancelled_early (Some (jb_status job))
                               (Some (sa_incarnation satellite)) None (zw_sats w1) of
                          (None, st) \<Rightarrow> cancelJob_attempts deps at' others n name sequence (w1\<lparr>zw_sats := st\<rparr>)
                        | (Some settled, st) \<Rightarrow> (Inr (), deliver_for (xd_worker deps) at' settled (w1\<lparr>zw_sats := st\<rparr>)))
      | _ \<Rightarrow> (Inl NoSuchJob, w))"

definition owner_cancelJob ::
  "OwnerDeps \<Rightarrow> nat \<Rightarrow> (nat \<Rightarrow> SatelliteState \<Rightarrow> SatelliteState) \<Rightarrow> string \<Rightarrow> nat \<Rightarrow> 'd SatelliteWorld
   \<Rightarrow> (SatelliteError + unit) \<times> 'd SatelliteWorld" where
  "owner_cancelJob deps at' others name sequence w =
     (if sat_get (xd_owner deps) name (zw_sats w) = None then (Inl (NoSatellite name), w)
      else cancelJob_attempts deps at' others CANCEL_ATTEMPTS name sequence w)"

definition onAgentDeleted :: "WorkerDeps \<Rightarrow> nat \<Rightarrow> agent_id \<Rightarrow> 'd SatelliteWorld \<Rightarrow> 'd SatelliteWorld" where
  "onAgentDeleted deps at' agentId w =
     stop_and_tell deps at' \<lparr>sc_owner = None, sc_satellite = None, sc_agentId = Some agentId\<rparr> ''the agent was deleted''
       (map_sats (revokeAgentGrants agentId) w)"

section \<open>Moving a file\<close>

datatype TransferRefusal = NoServeKey | BadTransferRequest | NoRunningJob | WrongDirection | NotTheClaimant

text \<open>Whether the key may serve, and whether the name, the number and the token of the request parse, are arguments.\<close>

definition transfer_authorize ::
  "(string \<Rightarrow> string) \<Rightarrow> bool \<Rightarrow> bool \<Rightarrow> user_sub \<Rightarrow> string \<Rightarrow> nat \<Rightarrow> string \<Rightarrow> TransferDirection \<Rightarrow> SatelliteState \<Rightarrow> TransferRefusal + JobRow" where
  "transfer_authorize hashOf serveKey parses owner name sequence token direction st =
     (if \<not> serveKey then Inl NoServeKey
      else if \<not> parses then Inl BadTransferRequest
      else case getJob owner name sequence st of
             None \<Rightarrow> Inl NoRunningJob
           | Some job \<Rightarrow>
               if jb_status job \<noteq> JobRunning then Inl NoRunningJob
               else if jb_transferDirection job \<noteq> Some direction then Inl WrongDirection
               else if transferTokenHashOf owner name sequence st \<noteq> Some (hashOf token) then Inl NotTheClaimant
               else Inr job)"

definition transfer_spend :: "(string \<Rightarrow> string) \<Rightarrow> user_sub \<Rightarrow> JobRow \<Rightarrow> string \<Rightarrow> SatelliteState \<Rightarrow> bool \<times> SatelliteState" where
  "transfer_spend hashOf owner job token st =
     (case consumeTransfer hashOf owner (jb_satellite job) (jb_sequence job) token st of (spent, st1) \<Rightarrow> (spent \<noteq> None, st1))"

end
