(* ===== verification/Satellite_System.thy ===== *)
theory Satellite_System
  imports Satellite_Ops
begin

text \<open>
  Satellites as one transition system: agents, workers, owners, sweeps and the deliveries of
  outcomes interleave statement by statement, where the code lets go of the database between them.
  Two lists remember what the tables forget: the jobs whose outcome an agent was handed by a call,
  and those that a turn in the outbox tells of.
\<close>

section \<open>What a statement does to the jobs\<close>

definition outcome_part :: "JobRow \<Rightarrow> JobStatus \<times> JobResult \<times> string option \<times> time_ms option" where
  "outcome_part j = (jb_status j, jb_result j, jb_reason j, jb_endedAt j)"

text \<open>A change of one job that keeps what names it, leaves a finished outcome alone and delivers nothing.\<close>

definition calm :: "(JobRow \<Rightarrow> JobRow) \<Rightarrow> bool" where
  "calm f \<longleftrightarrow> (\<forall>j. job_key (f j) = job_key j \<and> jb_agentId (f j) = jb_agentId j
     \<and> (isTerminal (jb_status j) \<longrightarrow> outcome_part (f j) = outcome_part j)
     \<and> (jb_deliveredAt (f j) \<noteq> None \<longrightarrow> jb_deliveredAt j \<noteq> None))"

text \<open>The jobs of one state come from those of another by calm changes, and some may be gone.\<close>

definition jobs_move :: "SatelliteState \<Rightarrow> SatelliteState \<Rightarrow> bool" where
  "jobs_move st st' \<longleftrightarrow> sx_satellites st' = sx_satellites st
     \<and> (\<exists>f q. calm f \<and> sx_jobs st' = map f (filter q (sx_jobs st)))"

lemma outcome_part_status: "outcome_part j = outcome_part j' \<Longrightarrow> jb_status j = jb_status j'"
  by (simp add: outcome_part_def)

lemma calmI:
  assumes "\<And>j. job_key (f j) = job_key j \<and> jb_agentId (f j) = jb_agentId j
      \<and> (isTerminal (jb_status j) \<longrightarrow> outcome_part (f j) = outcome_part j)
      \<and> (jb_deliveredAt (f j) \<noteq> None \<longrightarrow> jb_deliveredAt j \<noteq> None)"
  shows "calm f"
  unfolding calm_def by (rule allI, rule assms)

lemma calmD:
  assumes "calm f"
  shows "job_key (f j) = job_key j" and "jb_agentId (f j) = jb_agentId j"
    and "isTerminal (jb_status j) \<Longrightarrow> outcome_part (f j) = outcome_part j"
    and "jb_deliveredAt (f j) \<noteq> None \<Longrightarrow> jb_deliveredAt j \<noteq> None"
  using spec [OF assms [unfolded calm_def], of j] by simp_all

lemma calm_terminal: "calm f \<Longrightarrow> isTerminal (jb_status j) \<Longrightarrow> isTerminal (jb_status (f j))"
  using outcome_part_status [OF calmD(3)] by simp

lemma calm_id: "calm (\<lambda>j. j)"
  by (rule calmI) simp

lemma calm_comp:
  assumes "calm f" and "calm g"
  shows "calm (\<lambda>j. f (g j))"
proof (rule calmI, intro conjI impI)
  fix j
  show "job_key (f (g j)) = job_key j" "jb_agentId (f (g j)) = jb_agentId j" by (simp_all add: calmD [OF assms(1)] calmD [OF assms(2)])
  show "outcome_part (f (g j)) = outcome_part j" if "isTerminal (jb_status j)"
    using calmD(3) [OF assms(1) calm_terminal [OF assms(2) that]] calmD(3) [OF assms(2) that] by simp
  show "jb_deliveredAt j \<noteq> None" if "jb_deliveredAt (f (g j)) \<noteq> None"
    using calmD(4) [OF assms(2) calmD(4) [OF assms(1) that]] .
qed

lemma jobs_move_update:
  assumes "\<And>j. j \<in> set (sx_jobs st) \<Longrightarrow> p j \<Longrightarrow> job_key (f j) = job_key j \<and> jb_agentId (f j) = jb_agentId j
      \<and> (isTerminal (jb_status j) \<longrightarrow> outcome_part (f j) = outcome_part j)
      \<and> (jb_deliveredAt (f j) \<noteq> None \<longrightarrow> jb_deliveredAt j \<noteq> None)"
  shows "jobs_move st (st\<lparr>sx_jobs := update_where p f (sx_jobs st)\<rparr>)"
proof -
  define g where "g = (\<lambda>j. if j \<in> set (sx_jobs st) \<and> p j then f j else j)"
  have "calm g"
  proof (rule calmI)
    fix j
    show "job_key (g j) = job_key j \<and> jb_agentId (g j) = jb_agentId j
      \<and> (isTerminal (jb_status j) \<longrightarrow> outcome_part (g j) = outcome_part j)
      \<and> (jb_deliveredAt (g j) \<noteq> None \<longrightarrow> jb_deliveredAt j \<noteq> None)"
      using assms [of j] by (simp add: g_def)
  qed
  moreover have "update_where p f (sx_jobs st) = map g (filter (\<lambda>_. True) (sx_jobs st))"
    by (simp add: update_where_def g_def)
  ultimately show ?thesis unfolding jobs_move_def by (intro conjI exI [of _ g] exI [of _ "\<lambda>_. True"]) simp_all
qed

lemma jobs_move_delete: "jobs_move st (st\<lparr>sx_jobs := delete_where p (sx_jobs st)\<rparr>)"
  unfolding jobs_move_def delete_where_def
  by (intro conjI exI [of _ "\<lambda>j. j"] exI [of _ "\<lambda>j. \<not> p j"]) (simp_all add: calm_id)

lemma jobs_move_refl [simp]: "jobs_move st st"
  unfolding jobs_move_def by (intro conjI exI [of _ "\<lambda>j. j"] exI [of _ "\<lambda>_. True"]) (simp_all add: calm_id)

lemma jobs_move_grants [simp]: "jobs_move st (st\<lparr>sx_grants := gs\<rparr>)"
  unfolding jobs_move_def by (intro conjI exI [of _ "\<lambda>j. j"] exI [of _ "\<lambda>_. True"]) (simp_all add: calm_id)

lemma jobs_move_trans:
  assumes "jobs_move st st'" and "jobs_move st' st''"
  shows "jobs_move st st''"
proof -
  obtain f q where f: "calm f" "sx_jobs st' = map f (filter q (sx_jobs st))" using assms(1) by (auto simp: jobs_move_def)
  obtain g p where g: "calm g" "sx_jobs st'' = map g (filter p (sx_jobs st'))" using assms(2) by (auto simp: jobs_move_def)
  have "filter p (map f js) = map f (filter (\<lambda>j. p (f j)) js)" for js by (induction js) auto
  then have "sx_jobs st'' = map (\<lambda>j. g (f j)) (filter (\<lambda>j. q j \<and> p (f j)) (sx_jobs st))"
    by (simp add: f(2) g(2) conj_commute)
  moreover have "calm (\<lambda>j. g (f j))" by (rule calm_comp [OF g(1) f(1)])
  ultimately show ?thesis using assms unfolding jobs_move_def by metis
qed

text \<open>Every statement on jobs but three is such a move: the three insert a job, or hand an outcome over.\<close>

lemmas job_parts = job_key_def outcome_part_def

lemma job_statements_move:
  "jobs_move st (snd (consumeTransfer hashOf owner name sequence tok st))"
  "jobs_move st (snd (takeCancellations now owner name before incarnation st))"
  "jobs_move st (renewLeases owner name sequences leaseUntil incarnation st)"
  "jobs_move st (requestCancel owner name sequence incarnation st)"
  "jobs_move st (snd (markAwaited agentId name sequence t st))"
  "jobs_move st (releaseAwaited agentId name sequence st)"
  "jobs_move st (releaseOutcomes owner name sequences st)"
  "jobs_move st (markWoken now agentId refs st)"
  "jobs_move st (purgeExpired now st)"
  "jobs_move st (expireNow now owner name sequence st)"
  unfolding consumeTransfer_def takeCancellations_def renewLeases_def requestCancel_def markAwaited_def releaseAwaited_def
    releaseOutcomes_def markWoken_def purgeExpired_def expireNow_def Let_def snd_conv
  by (rule jobs_move_update jobs_move_delete; simp add: job_parts)+

lemma settlements_move:
  "jobs_move st (snd (job_settle now owner name sequence patch expect incarnation expiredBefore st))"
  "jobs_move st (snd (stopDispatch now scope reason ttl only st))"
  unfolding job_settle_def stopDispatch_def Let_def snd_conv
  by (rule jobs_move_update; simp add: job_parts settle_job_def)+

lemma claimQueued_moves:
  assumes "distinct (map job_key (sx_jobs st))"
  shows "jobs_move st (snd (claimQueued hashOf token now owner name capacity leaseUntil incarnation st))"
proof -
  define pending where "pending = take capacity (sort_key jb_sequence
    (filter (\<lambda>j. is_job_of owner name j \<and> jb_status j = JobQueued \<and> sameRegistration incarnation st j) (sx_jobs st)))"
  have "jb_status j = JobQueued" if j: "j \<in> set (sx_jobs st)" "is_job_of owner name j" "jb_sequence j \<in> set (map jb_sequence pending)" for j
  proof -
    obtain j' where "j' \<in> set pending" "jb_sequence j' = jb_sequence j" using j(3) by auto
    then have j': "j' \<in> set (sx_jobs st)" "is_job_of owner name j'" "jb_status j' = JobQueued"
      unfolding pending_def by (auto dest: in_set_takeD)
    with j(2) \<open>jb_sequence j' = jb_sequence j\<close> have "job_key j' = job_key j" by (simp add: job_key_def is_job_of_def)
    with assms j(1) j'(1) have "j' = j" by (metis distinct_map inj_onD)
    with j'(3) show ?thesis by simp
  qed
  then show ?thesis unfolding claimQueued_def Let_def snd_conv pending_def [symmetric]
    by (intro jobs_move_update) (auto simp: job_parts start_job_def isTerminal_def TERMINAL_STATUSES_def)
qed

section \<open>The tables\<close>

definition sat_key :: "SatelliteRow \<Rightarrow> user_sub \<times> string" where "sat_key r = (sa_owner r, sa_name r)"

text \<open>What identifies a job beyond the removal of its satellite: its key and the registration.\<close>

type_synonym job_id = "job_key \<times> string option"

definition registration :: "SatelliteState \<Rightarrow> user_sub \<Rightarrow> string \<Rightarrow> (string \<times> nat) option" where
  "registration st owner name = map_option (\<lambda>r. (sa_incarnation r, sa_nextSequence r)) (sat_get owner name st)"

definition job_id :: "SatelliteState \<Rightarrow> JobRow \<Rightarrow> job_id" where
  "job_id st j = (job_key j, map_option fst (registration st (jb_owner j) (jb_satellite j)))"

definition sats_ok :: "nat \<Rightarrow> SatelliteState \<Rightarrow> bool" where
  "sats_ok ceil st \<longleftrightarrow> distinct (map sat_key (sx_satellites st)) \<and> list_all (\<lambda>r. sa_maxConcurrent r \<le> ceil) (sx_satellites st)"

definition job_ok :: "(agent_id \<Rightarrow> user_sub option) \<Rightarrow> SatelliteState \<Rightarrow> JobRow \<Rightarrow> bool" where
  "job_ok ownerOf st j \<longleftrightarrow> ownerOf (jb_agentId j) = Some (jb_owner j)
     \<and> (case registration st (jb_owner j) (jb_satellite j) of None \<Rightarrow> False | Some (i, n) \<Rightarrow> jb_sequence j < n)"

definition tables_ok :: "nat \<Rightarrow> (agent_id \<Rightarrow> user_sub option) \<Rightarrow> SatelliteState \<Rightarrow> bool" where
  "tables_ok ceil ownerOf st \<longleftrightarrow> sats_ok ceil st \<and> distinct (map job_key (sx_jobs st))
     \<and> list_all (job_ok ownerOf st) (sx_jobs st) \<and> (\<forall>owner name. length (activeJobs owner name st) \<le> ceil)"

text \<open>A change of the tables that adds no job: calm changes of jobs that keep their registration.\<close>

definition tables_move :: "nat \<Rightarrow> SatelliteState \<Rightarrow> SatelliteState \<Rightarrow> bool" where
  "tables_move ceil st st' \<longleftrightarrow> sats_ok ceil st'
     \<and> (\<exists>f q. calm f \<and> sx_jobs st' = map f (filter q (sx_jobs st)))
     \<and> list_all (\<lambda>j. registration st' (jb_owner j) (jb_satellite j) = registration st (jb_owner j) (jb_satellite j)) (sx_jobs st')"

lemma registration_jobs [simp]: "registration (st\<lparr>sx_jobs := js\<rparr>) = registration st"
  by (simp add: registration_def sat_get_def fun_eq_iff)

lemma sats_ok_same: "sx_satellites st' = sx_satellites st \<Longrightarrow> sats_ok ceil st' = sats_ok ceil st"
  by (simp add: sats_ok_def)

lemma registration_same: "sx_satellites st' = sx_satellites st \<Longrightarrow> registration st' = registration st"
  by (simp add: registration_def sat_get_def fun_eq_iff)

lemma jobs_move_tables: "sats_ok ceil st \<Longrightarrow> jobs_move st st' \<Longrightarrow> tables_move ceil st st'"
  by (simp add: tables_move_def jobs_move_def sats_ok_same [of st' st] registration_same [of st' st] list_all_def)

lemma job_key_eq: "job_key j = job_key j' \<longleftrightarrow> jb_owner j = jb_owner j' \<and> jb_satellite j = jb_satellite j' \<and> jb_sequence j = jb_sequence j'"
  by (simp add: job_key_def)

lemma calm_names:
  assumes "calm f"
  shows "jb_owner (f j) = jb_owner j" and "jb_satellite (f j) = jb_satellite j" and "jb_sequence (f j) = jb_sequence j"
  using calmD(1) [OF assms, of j] by (simp_all add: job_key_def)

lemma active_move:
  assumes "calm f"
  shows "length (filter (\<lambda>j. is_job_of owner name j \<and> \<not> isTerminal (jb_status j)) (map f (filter q js)))
    \<le> length (filter (\<lambda>j. is_job_of owner name j \<and> \<not> isTerminal (jb_status j)) js)"
proof (induction js)
  case (Cons j js)
  have "is_job_of owner name (f j) = is_job_of owner name j" by (simp add: is_job_of_def calm_names [OF assms])
  then show ?case using Cons calm_terminal [OF assms, of j] by auto
qed simp

lemma tables_ok_move:
  assumes "tables_ok ceil ownerOf st" and "tables_move ceil st st'"
  shows "tables_ok ceil ownerOf st'"
proof -
  obtain f q where f: "calm f" and jobs: "sx_jobs st' = map f (filter q (sx_jobs st))" using assms(2) by (auto simp: tables_move_def)
  have "map job_key (sx_jobs st') = map job_key (filter q (sx_jobs st))" by (simp add: jobs calmD(1) [OF f])
  then have "distinct (map job_key (sx_jobs st'))" using assms(1) by (simp add: tables_ok_def distinct_map_filter)
  moreover have "job_ok ownerOf st' j'" if j': "j' \<in> set (sx_jobs st')" for j'
  proof -
    obtain j where j: "j \<in> set (sx_jobs st)" "j' = f j" using j' unfolding jobs by auto
    have "registration st' (jb_owner j') (jb_satellite j') = registration st (jb_owner j') (jb_satellite j')"
      using assms(2) j' by (simp add: tables_move_def list_all_iff)
    then have "registration st' (jb_owner j) (jb_satellite j) = registration st (jb_owner j) (jb_satellite j)"
      by (simp add: j(2) calm_names [OF f])
    moreover have "job_ok ownerOf st j" using assms(1) j(1) by (simp add: tables_ok_def list_all_iff)
    ultimately show ?thesis by (simp add: job_ok_def j(2) calm_names [OF f] calmD(2) [OF f] split: option.splits prod.splits)
  qed
  moreover have "length (activeJobs owner name st') \<le> ceil" for owner name
    using active_move [OF f, of owner name q "sx_jobs st"] assms(1)
    by (simp add: tables_ok_def activeJobs_def jobs) (meson order_trans)
  ultimately show ?thesis using assms(2) by (simp add: tables_ok_def tables_move_def list_all_iff)
qed

section \<open>Every operation is a move\<close>

lemma tables_moveI:
  assumes "sats_ok ceil st'" and "calm f" and "sx_jobs st' = map f (filter q (sx_jobs st))"
    and "\<And>j. j \<in> set (sx_jobs st') \<Longrightarrow> registration st' (jb_owner j) (jb_satellite j) = registration st (jb_owner j) (jb_satellite j)"
  shows "tables_move ceil st st'"
  unfolding tables_move_def list_all_iff
  by (intro conjI ballI exI [of _ f] exI [of _ q]) (rule assms, assumption?)+

lemma tables_move_refl: "sats_ok ceil st \<Longrightarrow> tables_move ceil st st"
  by (rule jobs_move_tables) simp_all

lemma tables_move_trans:
  assumes "tables_move ceil st st'" and "tables_move ceil st' st''"
  shows "tables_move ceil st st''"
proof -
  obtain f q where f: "calm f" "sx_jobs st' = map f (filter q (sx_jobs st))" using assms(1) by (auto simp: tables_move_def)
  obtain g p where g: "calm g" "sx_jobs st'' = map g (filter p (sx_jobs st'))" using assms(2) by (auto simp: tables_move_def)
  have "filter p (map f js) = map f (filter (\<lambda>j. p (f j)) js)" for js by (induction js) auto
  then have jobs: "sx_jobs st'' = map (\<lambda>j. g (f j)) (filter (\<lambda>j. q j \<and> p (f j)) (sx_jobs st))"
    by (simp add: f(2) g(2) conj_commute)
  have "registration st'' (jb_owner j'') (jb_satellite j'') = registration st (jb_owner j'') (jb_satellite j'')"
    if j'': "j'' \<in> set (sx_jobs st'')" for j''
  proof -
    obtain j' where j': "j' \<in> set (sx_jobs st')" "j'' = g j'" using j'' unfolding g(2) by auto
    have "registration st' (jb_owner j') (jb_satellite j') = registration st (jb_owner j') (jb_satellite j')"
      using assms(1) j'(1) by (simp add: tables_move_def list_all_iff)
    moreover have "registration st'' (jb_owner j'') (jb_satellite j'') = registration st' (jb_owner j'') (jb_satellite j'')"
      using assms(2) j'' by (simp add: tables_move_def list_all_iff)
    ultimately show ?thesis by (simp add: j'(2) calm_names [OF g(1)])
  qed
  with tables_move_def assms(2) show ?thesis by (intro tables_moveI [OF _ calm_comp [OF g(1) f(1)] jobs]) auto
qed

lemma tables_move_sats: "tables_move ceil st st' \<Longrightarrow> sats_ok ceil st'"
  by (simp add: tables_move_def)

lemma sat_get_map:
  assumes "\<And>r. sat_key (g r) = sat_key r"
  shows "sat_get owner name (st\<lparr>sx_satellites := map g (sx_satellites st)\<rparr>) = map_option g (sat_get owner name st)"
proof -
  have "is_satellite owner name (g r) = is_satellite owner name r" for r
    using assms [of r] by (simp add: is_satellite_def sat_key_def)
  then have "find (is_satellite owner name) (map g rs) = map_option g (find (is_satellite owner name) rs)" for rs
    by (induction rs) auto
  then show ?thesis by (simp add: sat_get_def)
qed

lemma tables_move_map:
  assumes "sats_ok ceil st" and "\<And>r. sat_key (g r) = sat_key r \<and> sa_incarnation (g r) = sa_incarnation r \<and> sa_nextSequence (g r) = sa_nextSequence r"
    and "\<And>r. sa_maxConcurrent r \<le> ceil \<Longrightarrow> sa_maxConcurrent (g r) \<le> ceil"
  shows "tables_move ceil st (st\<lparr>sx_satellites := map g (sx_satellites st)\<rparr>)"
proof -
  have "registration (st\<lparr>sx_satellites := map g (sx_satellites st)\<rparr>) owner name = registration st owner name" for owner name
    using assms(2) by (simp add: registration_def sat_get_map option.map_comp o_def)
  moreover have "sats_ok ceil (st\<lparr>sx_satellites := map g (sx_satellites st)\<rparr>)"
    using assms by (simp add: sats_ok_def list_all_iff o_def)
  ultimately show ?thesis by (intro tables_moveI [OF _ calm_id, of _ _ "\<lambda>_. True"]) simp_all
qed

lemma tables_move_touch:
  assumes "sats_ok ceil st"
  shows "tables_move ceil st (touch now owner name incarnation st)" "tables_move ceil st (setDraining now owner name d incarnation st)"
  unfolding touch_def setDraining_def update_where_def using assms
  by (intro tables_move_map; simp add: sat_key_def)+

lemma tables_move_offer:
  assumes "sats_ok ceil st"
  shows "tables_move ceil st (st\<lparr>sx_satellites := update_where p (offered now manifest host ceil) (sx_satellites st)\<rparr>)"
  unfolding update_where_def using assms by (intro tables_move_map; simp add: sat_key_def offered_def)

lemma tables_move_remove:
  assumes "sats_ok ceil st"
  shows "tables_move ceil st (sat_remove owner name st)"
proof (cases "sat_get owner name st")
  case (Some row)
  define st' where "st' = sat_remove owner name st"
  have st': "sx_satellites st' = filter (\<lambda>r. \<not> is_satellite owner name r) (sx_satellites st)"
    "sx_jobs st' = map (\<lambda>j. j) (filter (\<lambda>j. \<not> is_job_of owner name j) (sx_jobs st))"
    using Some by (simp_all add: st'_def sat_remove_def delete_where_def)
  have find: "find (is_satellite o' n') (filter (\<lambda>r. \<not> is_satellite owner name r) rs) = find (is_satellite o' n') rs"
    if "(o', n') \<noteq> (owner, name)" for o' n' rs
    using that by (induction rs) (auto simp: is_satellite_def)
  have "registration st' (jb_owner j) (jb_satellite j) = registration st (jb_owner j) (jb_satellite j)" if "j \<in> set (sx_jobs st')" for j
    using that find [of "jb_owner j" "jb_satellite j"] by (auto simp: st' registration_def sat_get_def is_job_of_def)
  moreover have "sats_ok ceil st'" using assms by (simp add: sats_ok_def st' distinct_map_filter list_all_iff)
  ultimately show ?thesis unfolding st'_def [symmetric] by (intro tables_moveI [OF _ calm_id st'(2)]) simp_all
qed (simp add: sat_remove_def tables_move_refl [OF assms])

lemma tables_move_upsert:
  assumes "tables_ok ceil ownerOf st"
  shows "tables_move ceil st (snd (upsertFromManifest now newId owner manifest host ceil st))"
proof (cases "sat_get owner (mf_name manifest) st")
  case None
  define st' where "st' = snd (upsertFromManifest now newId owner manifest host ceil st)"
  obtain r where r: "sx_satellites st' = sx_satellites st @ [r]" "sat_key r = (owner, mf_name manifest)" "sa_maxConcurrent r \<le> ceil"
    and jobs: "sx_jobs st' = sx_jobs st"
    using None by (simp add: st'_def upsertFromManifest_def sat_key_def)
  have more: "find P (rs @ [r]) = (case find P rs of None \<Rightarrow> if P r then Some r else None | Some x \<Rightarrow> Some x)" for P rs
    by (induction rs) auto
  have "registration st' (jb_owner j) (jb_satellite j) = registration st (jb_owner j) (jb_satellite j)" if "j \<in> set (sx_jobs st)" for j
  proof -
    have "registration st (jb_owner j) (jb_satellite j) \<noteq> None"
      using assms that by (auto simp: tables_ok_def list_all_iff job_ok_def split: option.splits)
    then show ?thesis by (auto simp: registration_def sat_get_def r(1) more split: option.splits)
  qed
  moreover have "sat_key r \<notin> set (map sat_key (sx_satellites st))"
    using None r(2) by (auto simp: sat_get_def find_None_iff is_satellite_def sat_key_def)
  then have "sats_ok ceil st'" using assms r by (simp add: tables_ok_def sats_ok_def)
  ultimately show ?thesis unfolding st'_def [symmetric]
    by (intro tables_moveI [OF _ calm_id, of _ _ "\<lambda>_. True"]) (simp_all add: jobs)
next
  case (Some row)
  then show ?thesis using tables_move_offer assms by (simp add: upsertFromManifest_def tables_ok_def)
qed

text \<open>The statements that no other statement of the same call has to follow at once.\<close>

inductive plain_step :: "WorkerDeps \<Rightarrow> nat \<Rightarrow> SatelliteState \<Rightarrow> SatelliteState \<Rightarrow> bool"
  for deps :: WorkerDeps and at' :: nat and st :: SatelliteState where
  plain_connect: "plain_step deps at' st (snd (sat_connect deps (int at') newId owner manifest host resume st))"
| plain_claim: "plain_step deps at' st (snd (claim_round deps (int at') owner input st))"
| plain_heartbeat: "plain_step deps at' st (snd (sat_heartbeat (int at') owner name running incarnation st))"
| plain_drain: "plain_step deps at' st (snd (sat_drain (int at') owner name incarnation st))"
| plain_report: "plain_step deps at' st
    (snd (job_settle (int at') owner name sequence (report_patch outcome) (Some JobRunning) incarnation None st))"
| plain_lost: "plain_step deps at' st
    (snd (job_settle (int at') owner name sequence (lost_worker j) (Some JobRunning) None (Some t) st))"
| plain_cancel: "plain_step deps at' st
    (snd (job_settle (int at') owner name sequence cancelled_early (Some status) (Some i) None st))"
| plain_request: "plain_step deps at' st (requestCancel owner name sequence incarnation st)"
| plain_stop: "plain_step deps at' st (snd (stopDispatch (int at') scope reason ttl only st))"
| plain_purge: "plain_step deps at' st (purgeExpired (int at') st)"
| plain_expire: "plain_step deps at' st (expireNow (int at') owner name sequence st)"
| plain_await: "plain_step deps at' st (snd (markAwaited agentId name sequence t st))"
| plain_unawait: "plain_step deps at' st (releaseAwaited agentId name sequence st)"
| plain_woken: "plain_step deps at' st (markWoken (int at') agentId refs st)"
| plain_spend: "plain_step deps at' st (snd (transfer_spend (wd_hashOf deps) owner job token st))"
| plain_grant: "plain_step deps at' st (grant_insert owner name agentId st)"
| plain_revoke: "plain_step deps at' st (grant_revoke owner name agentId st)"
| plain_forget: "plain_step deps at' st (revokeAgentGrants agentId st)"
| plain_remove: "plain_step deps at' st (sat_remove owner name st)"

lemma claim_round_move:
  assumes "tables_ok ceil ownerOf st"
  shows "tables_move ceil st (snd (claim_round deps now owner input st))"
proof (cases "serves owner (ci_satellite input) (ci_incarnation input) st")
  case None
  then show ?thesis using assms by (simp add: claim_round_def Let_def tables_ok_def tables_move_refl)
next
  case (Some satellite)
  define name where "name = ci_satellite input"
  define inc where "inc = ci_incarnation input"
  define st1 where "st1 = (if sa_draining satellite then setDraining now owner name False inc st else st)"
  define st2 where "st2 = touch now owner name inc st1"
  define st3 where "st3 = snd (takeCancellations now owner name (now - LEASE_MS) inc st2)"
  define st4 where "st4 = snd (claimQueued (wd_hashOf deps) (wd_token deps now) now owner name (ci_capacity input) (now + LEASE_MS) inc st3)"
  have "tables_move ceil st st1"
    using assms tables_move_touch(2) by (simp add: st1_def tables_ok_def tables_move_refl)
  then have "tables_move ceil st st2"
    unfolding st2_def by (rule tables_move_trans) (rule tables_move_touch, rule tables_move_sats, fact)
  then have move3: "tables_move ceil st st3"
    unfolding st3_def by (rule tables_move_trans) (rule jobs_move_tables, rule tables_move_sats, fact, rule job_statements_move)
  have "distinct (map job_key (sx_jobs st3))"
    using tables_ok_move [OF assms move3] by (simp add: tables_ok_def)
  then have "tables_move ceil st3 st4"
    unfolding st4_def by (intro jobs_move_tables [OF tables_move_sats [OF move3]] claimQueued_moves)
  with move3 have "tables_move ceil st st4" by (rule tables_move_trans)
  moreover have "snd (claim_round deps now owner input st) = st4"
    using Some by (simp add: claim_round_def Let_def st4_def st3_def st2_def st1_def name_def inc_def split: prod.split)
  ultimately show ?thesis by simp
qed

lemma sat_connect_snd:
  "snd (sat_connect deps now newId owner manifest host resume st)
   = (case resume of None \<Rightarrow> snd (upsertFromManifest now newId owner manifest host (wd_ceiling deps) st)
      | Some i \<Rightarrow> snd (renewFromManifest now owner manifest host (wd_ceiling deps) i st))"
  by (simp add: sat_connect_def split: prod.split option.split)

lemma connect_move:
  assumes "tables_ok (wd_ceiling deps) ownerOf st"
  shows "tables_move (wd_ceiling deps) st (snd (sat_connect deps now newId owner manifest host resume st))"
  using assms tables_move_offer tables_move_upsert [OF assms]
  by (simp add: sat_connect_snd renewFromManifest_def Let_def tables_ok_def split: option.split)

lemma heartbeat_drain_move:
  assumes "sats_ok ceil st"
  shows "tables_move ceil st (snd (sat_heartbeat now owner name running incarnation st))"
    and "tables_move ceil st (snd (sat_drain now owner name incarnation st))"
proof -
  have touch: "tables_move ceil st (touch now owner name incarnation st)" by (rule tables_move_touch [OF assms])
  have "tables_move ceil st (renewLeases owner name running (now + LEASE_MS) incarnation (touch now owner name incarnation st))"
    by (rule tables_move_trans [OF touch], rule jobs_move_tables [OF tables_move_sats [OF touch]], rule job_statements_move)
  then show "tables_move ceil st (snd (sat_heartbeat now owner name running incarnation st))"
    using tables_move_refl [OF assms] by (simp add: sat_heartbeat_def split: option.split)
  show "tables_move ceil st (snd (sat_drain now owner name incarnation st))"
    using tables_move_refl [OF assms] tables_move_touch(2) [OF assms] by (simp add: sat_drain_def)
qed

lemma plain_step_move:
  assumes "tables_ok (wd_ceiling deps) ownerOf st" and "plain_step deps at' st st'"
  shows "tables_move (wd_ceiling deps) st st'"
proof -
  have sats: "sats_ok (wd_ceiling deps) st" using assms(1) by (simp add: tables_ok_def)
  note jobs = jobs_move_tables [OF sats]
  have spend: "snd (transfer_spend hashOf owner job token st) = snd (consumeTransfer hashOf owner (jb_satellite job) (jb_sequence job) token st)"
    for hashOf owner job token by (simp add: transfer_spend_def split: prod.split)
  have grants: "jobs_move st (grant_insert owner name agentId st)" "jobs_move st (grant_revoke owner name agentId st)"
    "jobs_move st (revokeAgentGrants agentId st)" for owner name agentId
    by (simp_all add: grant_insert_def grant_revoke_def revokeAgentGrants_def Let_def)
  show ?thesis using assms(2)
    by cases (simp_all add: connect_move [OF assms(1)] claim_round_move [OF assms(1)] heartbeat_drain_move [OF sats]
        tables_move_remove [OF sats] jobs job_statements_move settlements_move spend grants)
qed

section \<open>The system\<close>

record 'd SatelliteSystem =
  zs_world :: "'d SatelliteWorld"
  zs_clock :: nat
  zs_admitted :: "InsertJob list" \<comment> \<open>calls admitted and not inserted yet\<close>
  zs_selected :: "(agent_id \<times> job_key list) list" \<comment> \<open>what deliveries have read\<close>
  zs_claimed :: "(agent_id \<times> JobRow list \<times> job_id list) list" \<comment> \<open>what deliveries have claimed and not told yet\<close>
  zs_handed :: "job_id list" \<comment> \<open>outcomes that a call of the agent returned\<close>
  zs_told :: "job_id list" \<comment> \<open>outcomes that a turn in the outbox tells of\<close>

definition sats_of :: "'d SatelliteSystem \<Rightarrow> SatelliteState" where "sats_of s = zw_sats (zs_world s)"

definition set_sats :: "SatelliteState \<Rightarrow> 'd SatelliteSystem \<Rightarrow> 'd SatelliteSystem" where
  "set_sats st s = s\<lparr>zs_world := (zs_world s)\<lparr>zw_sats := st\<rparr>\<rparr>"

inductive sat_step :: "WorkerDeps \<Rightarrow> AgentOpsDeps \<Rightarrow> 'd SatelliteSystem \<Rightarrow> 'd SatelliteSystem \<Rightarrow> bool"
  for deps :: WorkerDeps and agents :: AgentOpsDeps and s :: "'d SatelliteSystem" where
  sat_time: "zs_clock s \<le> t \<Longrightarrow> sat_step deps agents s (s\<lparr>zs_clock := t\<rparr>)"
| sat_plain: "plain_step deps (zs_clock s) (sats_of s) st \<Longrightarrow> sat_step deps agents s (set_sats st s)"
| sat_admit: "start_admit agents (int (zs_clock s)) agentId name tool args (sats_of s) = Inr i
    \<Longrightarrow> sat_step deps agents s (s\<lparr>zs_admitted := i # zs_admitted s\<rparr>)"
| sat_insert: "i \<in> set (zs_admitted s)
    \<Longrightarrow> sat_step deps agents s (set_sats (snd (insertJob (int (zs_clock s)) i (sats_of s))) s)"
| sat_hand: "ao_ownerOf agents agentId = Some owner \<Longrightarrow> getJob owner name sequence (sats_of s) = Some j
    \<Longrightarrow> jb_agentId j = agentId \<Longrightarrow> isTerminal (jb_status j)
    \<Longrightarrow> sat_step deps agents s ((set_sats (snd (markSeen (int (zs_clock s)) agentId name sequence (sats_of s))) s)
          \<lparr>zs_handed := job_id (sats_of s) j # zs_handed s\<rparr>)"
| sat_select: "sat_step deps agents s (s\<lparr>zs_selected :=
    (agentId, undelivered_outcomes (int (zs_clock s)) agentId MAX_OUTCOMES_PER_TURN (sats_of s)) # zs_selected s\<rparr>)"
| sat_take: "(agentId, keys) \<in> set (zs_selected s)
    \<Longrightarrow> claim_outcomes (int (zs_clock s)) agentId keys (sats_of s) = (rows, st)
    \<Longrightarrow> sat_step deps agents s ((set_sats st s)\<lparr>zs_claimed := (agentId, rows, map (job_id (sats_of s)) rows) # zs_claimed s\<rparr>)"
| sat_tell: "(agentId, rows, ids) \<in> set (zs_claimed s) \<Longrightarrow> rows \<noteq> [] \<Longrightarrow> tell_outcomes turn (zs_clock s) agentId rows (zs_world s) = (written, w)
    \<Longrightarrow> sat_step deps agents s (s\<lparr>zs_world := w, zs_claimed := remove1 (agentId, rows, ids) (zs_claimed s),
          zs_told := (if written then take (fst (outcome_turn turn agentId rows)) ids else []) @ zs_told s\<rparr>)"

definition sat_init :: "'d SatelliteSystem \<Rightarrow> bool" where
  "sat_init s \<longleftrightarrow> sats_of s = \<lparr>sx_satellites = [], sx_grants = [], sx_jobs = []\<rparr> \<and> zs_admitted s = [] \<and> zs_claimed s = []"

definition claimed_ids :: "(agent_id \<times> JobRow list \<times> job_id list) list \<Rightarrow> job_id set" where
  "claimed_ids entries = (\<Union>(a, rows, ids) \<in> set entries. set ids)"

definition known_ids :: "'d SatelliteSystem \<Rightarrow> job_id set" where
  "known_ids s = set (zs_handed s) \<union> set (zs_told s) \<union> claimed_ids (zs_claimed s)"

definition delivered_in :: "job_id set \<Rightarrow> SatelliteState \<Rightarrow> bool" where
  "delivered_in A st \<longleftrightarrow> list_all (\<lambda>j. jb_deliveredAt j = None \<or> job_id st j \<in> A) (sx_jobs st)"

definition admitted_ok :: "nat \<Rightarrow> (agent_id \<Rightarrow> user_sub option) \<Rightarrow> InsertJob \<Rightarrow> bool" where
  "admitted_ok ceil ownerOf i \<longleftrightarrow> ownerOf (ij_agentId i) = Some (ij_owner i) \<and> ij_maxConcurrent i \<le> ceil"

definition claimed_ok :: "(agent_id \<Rightarrow> user_sub option) \<Rightarrow> agent_id \<times> JobRow list \<times> job_id list \<Rightarrow> bool" where
  "claimed_ok ownerOf e = (case e of (a, rows, ids) \<Rightarrow>
     map fst ids = map job_key rows \<and> list_all (\<lambda>r. ownerOf a = Some (jb_owner r)) rows)"

definition sat_inv :: "nat \<Rightarrow> (agent_id \<Rightarrow> user_sub option) \<Rightarrow> 'd SatelliteSystem \<Rightarrow> bool" where
  "sat_inv ceil ownerOf s \<longleftrightarrow> tables_ok ceil ownerOf (sats_of s) \<and> list_all (admitted_ok ceil ownerOf) (zs_admitted s)
     \<and> list_all (claimed_ok ownerOf) (zs_claimed s) \<and> delivered_in (known_ids s) (sats_of s)"

lemma set_sats_simps [simp]:
  "sats_of (set_sats st s) = st" "zs_admitted (set_sats st s) = zs_admitted s" "zs_claimed (set_sats st s) = zs_claimed s"
  "zs_handed (set_sats st s) = zs_handed s" "zs_told (set_sats st s) = zs_told s" "zs_clock (set_sats st s) = zs_clock s"
  by (simp_all add: set_sats_def sats_of_def)

lemma delivered_in_mono: "delivered_in A st \<Longrightarrow> A \<subseteq> B \<Longrightarrow> delivered_in B st"
  unfolding delivered_in_def list_all_iff by blast

lemma delivered_in_move:
  assumes "tables_move ceil st st'" and "delivered_in A st"
  shows "delivered_in A st'"
  unfolding delivered_in_def list_all_iff
proof
  fix j' assume j': "j' \<in> set (sx_jobs st')"
  obtain f q where f: "calm f" "sx_jobs st' = map f (filter q (sx_jobs st))" using assms(1) by (auto simp: tables_move_def)
  obtain j where j: "j \<in> set (sx_jobs st)" "j' = f j" using j' unfolding f(2) by auto
  have "registration st' (jb_owner j') (jb_satellite j') = registration st (jb_owner j') (jb_satellite j')"
    using assms(1) j' by (simp add: tables_move_def list_all_iff)
  then have "job_id st' j' = job_id st j" by (simp add: job_id_def j(2) calm_names [OF f(1)] calmD(1) [OF f(1)])
  moreover have "jb_deliveredAt j = None \<or> job_id st j \<in> A" using assms(2) j(1) by (simp add: delivered_in_def list_all_iff)
  moreover have "jb_deliveredAt j = None \<Longrightarrow> jb_deliveredAt j' = None" using calmD(4) [OF f(1), of j] j(2) by blast
  ultimately show "jb_deliveredAt j' = None \<or> job_id st' j' \<in> A" by auto
qed

lemma sat_inv_move:
  assumes "sat_inv ceil ownerOf s" and "tables_move ceil (sats_of s) st"
  shows "sat_inv ceil ownerOf (set_sats st s)"
  using assms tables_ok_move delivered_in_move by (auto simp: sat_inv_def known_ids_def)

text \<open>A start: the new job has a fresh key, and there was room for it.\<close>

lemma insertJob_cases:
  obtains "snd (insertJob now i st) = st"
  | locked where "sat_get (ij_owner i) (ij_satellite i) st = Some locked" "sa_incarnation locked = ij_incarnation i"
      "length (activeJobs (ij_owner i) (ij_satellite i) st) < ij_maxConcurrent i"
      "snd (insertJob now i st) = st\<lparr>sx_satellites := update_where (is_satellite (ij_owner i) (ij_satellite i))
         (\<lambda>r. r\<lparr>sa_nextSequence := sa_nextSequence r + 1\<rparr>) (sx_satellites st), sx_jobs := sx_jobs st @ [new_job now (sa_nextSequence locked) i]\<rparr>"
proof (cases "sat_get (ij_owner i) (ij_satellite i) st")
  case None
  then show ?thesis using that(1) by (simp add: insertJob_def)
next
  case (Some locked)
  define full where "full \<longleftrightarrow> ij_maxConcurrent i \<le> length (activeJobs (ij_owner i) (ij_satellite i) st)
    \<or> (case ij_toolMax i of None \<Rightarrow> False | Some m \<Rightarrow> m \<le> length (filter (\<lambda>j. jb_tool j = ij_tool i) (activeJobs (ij_owner i) (ij_satellite i) st)))"
  show ?thesis
  proof (cases "sa_incarnation locked = ij_incarnation i \<and> \<not> full")
    case True
    then show ?thesis by (intro that(2) [OF Some]) (auto simp: insertJob_def Some Let_def full_def [symmetric], simp add: full_def)
  next
    case False
    then show ?thesis by (intro that(1)) (auto simp: insertJob_def Some Let_def full_def [symmetric])
  qed
qed

lemma registration_insert:
  "registration (st\<lparr>sx_satellites := update_where (is_satellite owner name) (\<lambda>r. r\<lparr>sa_nextSequence := sa_nextSequence r + 1\<rparr>)
       (sx_satellites st), sx_jobs := js\<rparr>) o' n'
   = (if o' = owner \<and> n' = name then map_option (\<lambda>(a, k). (a, k + 1)) (registration st o' n') else registration st o' n')"
proof -
  define g where "g = (\<lambda>r. if is_satellite owner name r then r\<lparr>sa_nextSequence := sa_nextSequence r + 1\<rparr> else r)"
  have upd: "update_where (is_satellite owner name) (\<lambda>r. r\<lparr>sa_nextSequence := sa_nextSequence r + 1\<rparr>) (sx_satellites st) = map g (sx_satellites st)"
    by (simp add: update_where_def g_def)
  have "sat_get o' n' (st\<lparr>sx_satellites := map g (sx_satellites st), sx_jobs := js\<rparr>)
      = sat_get o' n' (st\<lparr>sx_satellites := map g (sx_satellites st)\<rparr>)" by (simp add: sat_get_def)
  also have "\<dots> = map_option g (sat_get o' n' st)" by (rule sat_get_map) (simp add: g_def sat_key_def)
  finally have get: "sat_get o' n' (st\<lparr>sx_satellites := map g (sx_satellites st), sx_jobs := js\<rparr>) = map_option g (sat_get o' n' st)" .
  show ?thesis
  proof (cases "sat_get o' n' st")
    case None
    then show ?thesis unfolding upd registration_def get by auto
  next
    case (Some r)
    then have "is_satellite o' n' r" using find_SomeD(1) unfolding sat_get_def by fastforce
    then have "is_satellite owner name r \<longleftrightarrow> o' = owner \<and> n' = name" by (auto simp: is_satellite_def)
    then show ?thesis unfolding upd registration_def get Some by (simp add: g_def)
  qed
qed

lemma sats_ok_map:
  assumes "sats_ok ceil st" and "\<And>r. sat_key (g r) = sat_key r" and "\<And>r. sa_maxConcurrent (g r) = sa_maxConcurrent r"
  shows "sats_ok ceil (st\<lparr>sx_satellites := map g (sx_satellites st), sx_jobs := js\<rparr>)"
  using assms by (simp add: sats_ok_def o_def list_all_iff)

lemma insertJob_ok:
  assumes "tables_ok ceil ownerOf st" and "admitted_ok ceil ownerOf i"
  shows "tables_ok ceil ownerOf (snd (insertJob now i st))" and "delivered_in A st \<Longrightarrow> delivered_in A (snd (insertJob now i st))"
proof -
  have "tables_ok ceil ownerOf (snd (insertJob now i st)) \<and> (delivered_in A st \<longrightarrow> delivered_in A (snd (insertJob now i st)))"
  proof (cases rule: insertJob_cases [of now i st])
    case (2 locked)
    define job where "job = new_job now (sa_nextSequence locked) i"
    define st' where "st' = snd (insertJob now i st)"
    note st' = 2(4) [folded st'_def job_def]
    have jobs: "sx_jobs st' = sx_jobs st @ [job]" by (simp add: st')
    have job: "jb_owner job = ij_owner i" "jb_satellite job = ij_satellite i" "jb_sequence job = sa_nextSequence locked"
      "jb_agentId job = ij_agentId i" "jb_deliveredAt job = None" "\<not> isTerminal (jb_status job)"
      by (simp_all add: job_def new_job_def isTerminal_def TERMINAL_STATUSES_def)
    have reg: "registration st (ij_owner i) (ij_satellite i) = Some (sa_incarnation locked, sa_nextSequence locked)"
      using 2(1) by (simp add: registration_def)
    have reg': "registration st' o' n' = (if o' = ij_owner i \<and> n' = ij_satellite i
        then map_option (\<lambda>(a, k). (a, k + 1)) (registration st o' n') else registration st o' n')" for o' n'
      unfolding st' by (rule registration_insert)
    have old: "job_ok ownerOf st' j \<and> job_id st' j = job_id st j \<and> job_key j \<noteq> job_key job" if "j \<in> set (sx_jobs st)" for j
    proof -
      have "job_ok ownerOf st j" using assms(1) that by (simp add: tables_ok_def list_all_iff)
      then obtain a k where "ownerOf (jb_agentId j) = Some (jb_owner j)" "registration st (jb_owner j) (jb_satellite j) = Some (a, k)" "jb_sequence j < k"
        by (auto simp: job_ok_def split: option.splits)
      then show ?thesis using reg job(1-3) by (auto simp: job_ok_def job_id_def job_key_def reg')
    qed
    have "job_ok ownerOf st' job" using assms(2) job reg by (simp add: job_ok_def admitted_ok_def reg')
    moreover have "distinct (map job_key (sx_jobs st'))" using assms(1) old by (force simp: jobs tables_ok_def)
    moreover have "sats_ok ceil st'"
      using assms(1) unfolding st' update_where_def tables_ok_def by (intro sats_ok_map) (simp_all add: sat_key_def)
    moreover have "length (activeJobs o' n' st') \<le> ceil" for o' n'
    proof (cases "is_job_of o' n' job")
      case True
      then have "activeJobs o' n' st' = activeJobs (ij_owner i) (ij_satellite i) st @ [job]"
        using job by (simp add: activeJobs_def jobs is_job_of_def)
      then show ?thesis using 2(3) assms(2) by (simp add: admitted_ok_def)
    next
      case False
      then have "activeJobs o' n' st' = activeJobs o' n' st" by (simp add: activeJobs_def jobs)
      then show ?thesis using assms(1) by (simp add: tables_ok_def)
    qed
    ultimately have "tables_ok ceil ownerOf st'" using old by (simp add: tables_ok_def jobs list_all_iff)
    moreover have "delivered_in A st'" if "delivered_in A st" using that old job(5) by (simp add: delivered_in_def jobs list_all_iff)
    ultimately show ?thesis by (simp add: st'_def)
  qed (use assms in simp)
  then show "tables_ok ceil ownerOf (snd (insertJob now i st))" and "delivered_in A st \<Longrightarrow> delivered_in A (snd (insertJob now i st))" by simp_all
qed

lemma start_admit_ok:
  assumes "sats_ok ceil st" and "start_admit agents now agentId name tool args st = Inr i"
  shows "admitted_ok ceil (ao_ownerOf agents) i"
proof -
  obtain owner satellite where res: "sat_resolve agents agentId name st = Inr (owner, satellite)"
    using assms(2) by (cases "sat_resolve agents agentId name st") (auto simp: start_admit_def)
  then have owner: "ao_ownerOf agents agentId = Some owner" and "grantedSatellite agentId owner name st = Some satellite"
    by (auto simp: sat_resolve_def split: option.splits)
  then have "satellite \<in> set (sx_satellites st)" unfolding grantedSatellite_def by (auto dest: find_SomeD)
  then have "sa_maxConcurrent satellite \<le> ceil" using assms(1) by (simp add: sats_ok_def list_all_iff)
  then show ?thesis using assms(2) res owner by (auto simp: start_admit_def admitted_ok_def split: sum.splits)
qed

text \<open>A hand-over: the rows it delivers are the ones it names, whatever the rest of the change is.\<close>

lemma deliver_ok:
  assumes "tables_ok ceil ownerOf st" and "delivered_in A st"
    and f: "\<And>j. j \<in> set (sx_jobs st) \<Longrightarrow> job_key (f j) = job_key j \<and> jb_agentId (f j) = jb_agentId j \<and> jb_status (f j) = jb_status j"
    and told: "\<And>j. j \<in> set (sx_jobs st) \<Longrightarrow> jb_deliveredAt (f j) = None \<or> jb_deliveredAt (f j) = jb_deliveredAt j \<and> job_id st j \<notin> C \<or> job_id st j \<in> B"
  shows "tables_ok ceil ownerOf (st\<lparr>sx_jobs := map f (sx_jobs st)\<rparr>)" and "delivered_in (A - C \<union> B) (st\<lparr>sx_jobs := map f (sx_jobs st)\<rparr>)"
proof -
  define st' where "st' = st\<lparr>sx_jobs := map f (sx_jobs st)\<rparr>"
  have jobs: "sx_jobs st' = map f (sx_jobs st)" and sats: "sx_satellites st' = sx_satellites st" by (simp_all add: st'_def)
  have names: "jb_owner (f j) = jb_owner j" "jb_satellite (f j) = jb_satellite j" "jb_sequence (f j) = jb_sequence j"
    if "j \<in> set (sx_jobs st)" for j using f [OF that] by (simp_all add: job_key_eq)
  have ident: "job_id st' (f j) = job_id st j" if "j \<in> set (sx_jobs st)" for j
    using names [OF that] f [OF that] by (simp add: job_id_def registration_same [OF sats])
  have keys: "map job_key (sx_jobs st') = map job_key (sx_jobs st)" using f by (simp add: jobs)
  have "length (activeJobs owner name st') = length (activeJobs owner name st)" for owner name
  proof -
    have "filter (\<lambda>j. is_job_of owner name j \<and> \<not> isTerminal (jb_status j)) (map f (sx_jobs st))
        = map f (filter (\<lambda>j. is_job_of owner name j \<and> \<not> isTerminal (jb_status j)) (sx_jobs st))"
      unfolding filter_map o_def using f names by (intro arg_cong [of _ _ "map f"] filter_cong) (simp_all add: is_job_of_def)
    then show ?thesis by (simp add: activeJobs_def jobs)
  qed
  moreover have "job_ok ownerOf st' (f j)" if "j \<in> set (sx_jobs st)" for j
  proof -
    have "job_ok ownerOf st j" using assms(1) that by (simp add: tables_ok_def list_all_iff)
    then show ?thesis using f [OF that] names [OF that] by (simp add: job_ok_def registration_same [OF sats] split: option.splits prod.splits)
  qed
  ultimately show "tables_ok ceil ownerOf (st\<lparr>sx_jobs := map f (sx_jobs st)\<rparr>)"
    using assms(1) keys by (simp add: st'_def [symmetric] tables_ok_def jobs sats_ok_same [OF sats] list_all_iff del: map_map)
  have "jb_deliveredAt (f j) = None \<or> job_id st' (f j) \<in> A - C \<union> B" if "j \<in> set (sx_jobs st)" for j
    using told [OF that] ident [OF that] assms(2) that by (auto simp: delivered_in_def list_all_iff)
  then show "delivered_in (A - C \<union> B) (st\<lparr>sx_jobs := map f (sx_jobs st)\<rparr>)"
    by (simp add: st'_def [symmetric] delivered_in_def jobs list_all_iff)
qed

lemma job_of_key:
  assumes "tables_ok ceil ownerOf st" and "j \<in> set (sx_jobs st)" and "j' \<in> set (sx_jobs st)" and "job_key j = job_key j'"
  shows "j = j'"
proof -
  have "inj_on job_key (set (sx_jobs st))" using assms(1) by (simp add: tables_ok_def distinct_map)
  from inj_onD [OF this assms(4) assms(2,3)] show ?thesis .
qed

lemma markSeen_ok:
  assumes "tables_ok ceil ownerOf st" and "delivered_in A st" and "getJob owner name sequence st = Some j" and "ownerOf agentId = Some owner"
    and "jb_agentId j = agentId"
  shows "tables_ok ceil ownerOf (snd (markSeen now agentId name sequence st))"
    and "delivered_in (insert (job_id st j) A) (snd (markSeen now agentId name sequence st))"
proof -
  define f where "f = (\<lambda>j. if is_agent_job agentId name sequence j \<and> jb_deliveredAt j = None
    then j\<lparr>jb_deliveredAt := Some now, jb_wokeAt := Some now\<rparr> else j)"
  have st': "snd (markSeen now agentId name sequence st) = st\<lparr>sx_jobs := map f (sx_jobs st)\<rparr>"
    by (simp add: markSeen_def Let_def update_where_def f_def)
  have j: "j \<in> set (sx_jobs st)" "is_job owner name sequence j" using find_SomeD [OF assms(3) [unfolded getJob_def]] by simp_all
  have same: "job_id st j' = job_id st j" if "j' \<in> set (sx_jobs st)" "is_agent_job agentId name sequence j'" for j'
  proof -
    have "ownerOf (jb_agentId j') = Some (jb_owner j')" using assms(1) that(1) by (simp add: tables_ok_def list_all_iff job_ok_def)
    then have "job_key j' = job_key j" using j(2) that(2) assms(4) by (simp add: is_agent_job_def is_job_def is_job_of_def job_key_eq)
    then have "j' = j" by (rule job_of_key [OF assms(1) that(1) j(1)])
    then show ?thesis by simp
  qed
  have told: "jb_deliveredAt (f j') = None \<or> jb_deliveredAt (f j') = jb_deliveredAt j' \<and> job_id st j' \<notin> {} \<or> job_id st j' \<in> {job_id st j}"
    if "j' \<in> set (sx_jobs st)" for j' using same [OF that] by (simp add: f_def)
  have keep: "job_key (f j') = job_key j' \<and> jb_agentId (f j') = jb_agentId j' \<and> jb_status (f j') = jb_status j'" for j'
    by (simp add: f_def job_key_def)
  show "tables_ok ceil ownerOf (snd (markSeen now agentId name sequence st))"
    and "delivered_in (insert (job_id st j) A) (snd (markSeen now agentId name sequence st))"
    unfolding st' using deliver_ok [OF assms(1,2) keep told] by simp_all
qed

lemma claim_outcomes_ok:
  assumes "tables_ok ceil ownerOf st" and "delivered_in A st" and "claim_outcomes now agentId keys st = (rows, st')"
  shows "tables_ok ceil ownerOf st'" and "delivered_in (A \<union> set (map (job_id st) rows)) st'"
    and "claimed_ok ownerOf (agentId, rows, map (job_id st) rows)"
proof -
  define p where "p = (\<lambda>j. jb_agentId j = agentId \<and> jb_deliveredAt j = None \<and> job_key j \<in> set keys)"
  define g where "g = (\<lambda>j :: JobRow. j\<lparr>jb_deliveredAt := Some now\<rparr>)"
  define f where "f = (\<lambda>j. if p j then g j else j)"
  have rows: "rows = map g (filter p (sx_jobs st))" and st': "st' = st\<lparr>sx_jobs := map f (sx_jobs st)\<rparr>"
    using assms(3) unfolding claim_outcomes_def Let_def update_where_def f_def g_def p_def by simp_all
  have g: "job_key (g j) = job_key j" "jb_agentId (g j) = jb_agentId j" "jb_status (g j) = jb_status j" "jb_owner (g j) = jb_owner j"
    "job_id st (g j) = job_id st j" for j by (simp_all add: g_def job_key_def job_id_def)
  have ids: "map (job_id st) rows = map (job_id st) (filter p (sx_jobs st))" by (simp add: rows g)
  have keep: "job_key (f j) = job_key j \<and> jb_agentId (f j) = jb_agentId j \<and> jb_status (f j) = jb_status j" for j
    by (simp add: f_def g)
  have told: "jb_deliveredAt (f j) = None \<or> jb_deliveredAt (f j) = jb_deliveredAt j \<and> job_id st j \<notin> {} \<or> job_id st j \<in> set (map (job_id st) rows)"
    if "j \<in> set (sx_jobs st)" for j unfolding ids using that by (simp add: f_def)
  show "tables_ok ceil ownerOf st'" and "delivered_in (A \<union> set (map (job_id st) rows)) st'"
    unfolding st' using deliver_ok [OF assms(1,2) keep told] by simp_all
  have "ownerOf agentId = Some (jb_owner j)" if "j \<in> set (sx_jobs st)" "p j" for j
    using assms(1) that by (auto simp: tables_ok_def list_all_iff job_ok_def p_def)
  then show "claimed_ok ownerOf (agentId, rows, map (job_id st) rows)"
    by (simp add: claimed_ok_def rows g job_id_def list_all_iff)
qed

lemma update_where_twice:
  assumes "\<And>x. q (f x) = q x" and "\<And>x. f (f x) = f x"
  shows "update_where q f (update_where p f xs) = update_where (\<lambda>x. p x \<or> q x) f xs"
  using assms by (auto simp: update_where_def)

lemma fold_release:
  "fold (\<lambda>name. releaseOutcomes owner name (seqs name)) names st
   = st\<lparr>sx_jobs := update_where (\<lambda>j. jb_owner j = owner \<and> jb_satellite j \<in> set names \<and> jb_sequence j \<in> set (seqs (jb_satellite j)))
        (\<lambda>j. j\<lparr>jb_deliveredAt := None\<rparr>) (sx_jobs st)\<rparr>"
proof (induction names arbitrary: st)
  case (Cons name names)
  have "fold (\<lambda>name. releaseOutcomes owner name (seqs name)) (name # names) st
      = fold (\<lambda>name. releaseOutcomes owner name (seqs name)) names (releaseOutcomes owner name (seqs name) st)" by simp
  also note Cons.IH
  also have "sx_jobs (releaseOutcomes owner name (seqs name) st)
      = update_where (\<lambda>j. is_job_of owner name j \<and> jb_sequence j \<in> set (seqs name)) (\<lambda>j. j\<lparr>jb_deliveredAt := None\<rparr>) (sx_jobs st)"
    by (simp add: releaseOutcomes_def)
  also note update_where_twice
  also have "(\<lambda>j. (is_job_of owner name j \<and> jb_sequence j \<in> set (seqs name))
        \<or> (jb_owner j = owner \<and> jb_satellite j \<in> set names \<and> jb_sequence j \<in> set (seqs (jb_satellite j))))
      = (\<lambda>j. jb_owner j = owner \<and> jb_satellite j \<in> set (name # names) \<and> jb_sequence j \<in> set (seqs (jb_satellite j)))"
    by (auto simp: is_job_of_def)
  finally show ?case by (simp add: releaseOutcomes_def)
qed (simp add: update_where_def)

lemma releaseClaim_eq:
  assumes "list_all (\<lambda>r. jb_owner r = owner) rows"
  shows "releaseClaim rows st = st\<lparr>sx_jobs := map (\<lambda>j. if job_key j \<in> set (map job_key rows) then j\<lparr>jb_deliveredAt := None\<rparr> else j) (sx_jobs st)\<rparr>"
proof (cases rows)
  case (Cons r rs)
  then have "jb_owner (hd rows) = owner" using assms by simp
  moreover have "jb_owner j = owner \<and> jb_satellite j \<in> set (first_occurrences (map jb_satellite rows))
        \<and> jb_sequence j \<in> set (map jb_sequence (filter (\<lambda>r. jb_satellite r = jb_satellite j) rows))
      \<longleftrightarrow> job_key j \<in> set (map job_key rows)" for j
    using assms by (auto simp: job_key_def list_all_iff image_iff) metis
  ultimately show ?thesis by (simp only: releaseClaim_def fold_release update_where_def)
qed (simp add: releaseClaim_def)

lemma releaseClaim_ok:
  assumes "tables_ok ceil ownerOf st" and "delivered_in A st" and "list_all (\<lambda>r. jb_owner r = owner) rows" and "map fst ids = map job_key rows"
  shows "tables_ok ceil ownerOf (releaseClaim rows st)" and "delivered_in (A - set ids) (releaseClaim rows st)"
proof -
  have key: "fst (job_id st j) = job_key j" for j by (simp add: job_id_def)
  have "job_id st j \<notin> set ids" if "job_key j \<notin> set (map job_key rows)" for j
    using that key [of j] unfolding assms(4) [symmetric] by (metis image_eqI set_map)
  then show "tables_ok ceil ownerOf (releaseClaim rows st)" and "delivered_in (A - set ids) (releaseClaim rows st)"
    unfolding releaseClaim_eq [OF assms(3)]
    using deliver_ok [OF assms(1,2), of "\<lambda>j. if job_key j \<in> set (map job_key rows) then j\<lparr>jb_deliveredAt := None\<rparr> else j" "set ids" "{}"]
    by (simp_all add: job_key_def)
qed

text \<open>A turn: what it tells is in the outbox, and everything else that was claimed is given back.\<close>

lemma tell_outcomes_sats:
  assumes "tell_outcomes turn firedAt agentId rows w = (written, w')"
  defines "k \<equiv> fst (outcome_turn turn agentId rows)"
  shows "\<not> written \<Longrightarrow> zw_sats w' = releaseClaim (take k rows) (releaseClaim (drop k rows) (zw_sats w))"
    and "written \<Longrightarrow> zw_sats w' \<in> {releaseClaim (drop k rows) (zw_sats w),
      markWoken (int firedAt) agentId (jobRefs (take k rows)) (releaseClaim (drop k rows) (zw_sats w))}"
proof -
  obtain task where turn: "outcome_turn turn agentId rows = (k, task)" by (cases "outcome_turn turn agentId rows") (simp add: k_def)
  have "releaseClaim [] st = st" for st by (simp add: releaseClaim_def)
  then have one: "zw_sats (if drop k rows = [] then w else map_sats (releaseClaim (drop k rows)) w) = releaseClaim (drop k rows) (zw_sats w)"
    by (simp add: map_sats_def)
  define w1 where "w1 = (if drop k rows = [] then w else map_sats (releaseClaim (drop k rows)) w)"
  define ev where "ev = outcome_event turn firedAt agentId (take k rows) task"
  have w1: "zw_sats w1 = releaseClaim (drop k rows) (zw_sats w)" unfolding w1_def by (rule one)
  have tell: "deliverOutcomeTurn turn firedAt agentId ev (map_sats (releaseClaim (take k rows)))
      (wakeOutcomeTurn turn agentId (map_sats (markWoken (int firedAt) agentId (jobRefs (take k rows))))) w1 = (written, w')"
    using assms(1) unfolding tell_outcomes_def turn prod.case Let_def w1_def ev_def .
  show "zw_sats w' = releaseClaim (take k rows) (releaseClaim (drop k rows) (zw_sats w))" if "\<not> written"
    using tell that by (auto simp: deliverOutcomeTurn_def Let_def map_sats_def w1 split: if_splits)
  show "zw_sats w' \<in> {releaseClaim (drop k rows) (zw_sats w),
      markWoken (int firedAt) agentId (jobRefs (take k rows)) (releaseClaim (drop k rows) (zw_sats w))}" if written
    using tell that by (auto simp: deliverOutcomeTurn_def Let_def map_sats_def wakeOutcomeTurn_def w1 split: if_splits option.splits)
qed

lemma tell_outcomes_ok:
  assumes "tables_ok ceil ownerOf (zw_sats w)" and "delivered_in A (zw_sats w)" and "claimed_ok ownerOf (agentId, rows, ids)"
    and "tell_outcomes turn firedAt agentId rows w = (written, w')"
  defines "k \<equiv> fst (outcome_turn turn agentId rows)"
  shows "tables_ok ceil ownerOf (zw_sats w')" and "delivered_in (A - set ids \<union> (if written then set (take k ids) else {})) (zw_sats w')"
proof -
  define st1 where "st1 = releaseClaim (drop k rows) (zw_sats w)"
  define owner where "owner = the (ownerOf agentId)"
  have rows: "list_all (\<lambda>r. jb_owner r = owner) rows" and keys: "map fst ids = map job_key rows"
    using assms(3) by (auto simp: claimed_ok_def owner_def list_all_iff)
  then have parts: "list_all (\<lambda>r. jb_owner r = owner) (take k rows)" "list_all (\<lambda>r. jb_owner r = owner) (drop k rows)"
    "map fst (take k ids) = map job_key (take k rows)" "map fst (drop k ids) = map job_key (drop k rows)"
    by (auto simp: list_all_iff take_map [symmetric] drop_map [symmetric] dest: in_set_takeD in_set_dropD)
  have ids: "set ids = set (take k ids) \<union> set (drop k ids)" by (metis append_take_drop_id set_append)
  note st1 = releaseClaim_ok [OF assms(1,2) parts(2,4), folded st1_def]
  note sats = tell_outcomes_sats [OF assms(4), folded k_def st1_def]
  have "tables_ok ceil ownerOf (zw_sats w') \<and> delivered_in (A - set ids \<union> (if written then set (take k ids) else {})) (zw_sats w')"
  proof (cases written)
    case True
    have "sats_ok ceil st1" using st1(1) by (simp add: tables_ok_def)
    moreover have "jobs_move st1 (zw_sats w')" using sats(2) [OF True] job_statements_move(8) by auto
    ultimately have "tables_move ceil st1 (zw_sats w')" by (rule jobs_move_tables)
    moreover from this have "delivered_in (A - set (drop k ids)) (zw_sats w')" using st1(2) by (rule delivered_in_move)
    then have "delivered_in (A - set ids \<union> set (take k ids)) (zw_sats w')" by (rule delivered_in_mono) (auto simp: ids)
    ultimately show ?thesis using tables_ok_move [OF st1(1)] True by simp
  next
    case False
    have "A - set (drop k ids) - set (take k ids) = A - set ids" by (auto simp: ids)
    then show ?thesis using releaseClaim_ok [OF st1 parts(1,3)] sats(1) [OF False] False by simp
  qed
  then show "tables_ok ceil ownerOf (zw_sats w')" and "delivered_in (A - set ids \<union> (if written then set (take k ids) else {})) (zw_sats w')"
    by simp_all
qed

lemma sat_inv_tell:
  assumes "sat_inv ceil ownerOf s" and "(agentId, rows, ids) \<in> set (zs_claimed s)"
    and "tell_outcomes turn (zs_clock s) agentId rows (zs_world s) = (written, w)"
  shows "sat_inv ceil ownerOf (s\<lparr>zs_world := w, zs_claimed := remove1 (agentId, rows, ids) (zs_claimed s),
    zs_told := (if written then take (fst (outcome_turn turn agentId rows)) ids else []) @ zs_told s\<rparr>)" (is "sat_inv ceil ownerOf ?s")
proof -
  have inv: "tables_ok ceil ownerOf (zw_sats (zs_world s))" "delivered_in (known_ids s) (zw_sats (zs_world s))"
    "claimed_ok ownerOf (agentId, rows, ids)"
    using assms(1,2) by (auto simp: sat_inv_def sats_of_def list_all_iff)
  note told = tell_outcomes_ok [OF inv assms(3)]
  have "set (zs_claimed s) \<subseteq> insert (agentId, rows, ids) (set (remove1 (agentId, rows, ids) (zs_claimed s)))"
    by (metis in_set_remove1 insert_iff subsetI)
  then have "claimed_ids (zs_claimed s) \<subseteq> set ids \<union> claimed_ids (remove1 (agentId, rows, ids) (zs_claimed s))"
    unfolding claimed_ids_def by fastforce
  then have "delivered_in (known_ids ?s) (zw_sats w)"
    by (intro delivered_in_mono [OF told(2)]) (auto simp: known_ids_def)
  then show ?thesis using told(1) assms(1) by (auto simp: sat_inv_def sats_of_def list_all_iff dest: notin_set_remove1)
qed

theorem sat_step_inv:
  assumes "sat_inv (wd_ceiling deps) (ao_ownerOf agents) s" and "sat_step deps agents s s'"
  shows "sat_inv (wd_ceiling deps) (ao_ownerOf agents) s'"
proof -
  let ?inv = "sat_inv (wd_ceiling deps) (ao_ownerOf agents)"
  have tables: "tables_ok (wd_ceiling deps) (ao_ownerOf agents) (sats_of s)" "delivered_in (known_ids s) (sats_of s)"
    using assms(1) by (simp_all add: sat_inv_def)
  have same: "?inv t" if "sats_of t = sats_of s" "known_ids t = known_ids s" "zs_claimed t = zs_claimed s"
    "list_all (admitted_ok (wd_ceiling deps) (ao_ownerOf agents)) (zs_admitted t)" for t :: "'a SatelliteSystem"
    using assms(1) that by (simp add: sat_inv_def)
  show ?thesis using assms(2)
  proof cases
    case (sat_time t)
    then show ?thesis using assms(1) by (simp add: sat_inv_def sats_of_def known_ids_def)
  next
    case (sat_plain st)
    then show ?thesis using sat_inv_move [OF assms(1)] plain_step_move [OF tables(1)] by simp
  next
    case (sat_admit agentId name tool args i)
    then have "admitted_ok (wd_ceiling deps) (ao_ownerOf agents) i"
      using tables(1) start_admit_ok by (auto simp: tables_ok_def)
    then show ?thesis using sat_admit(1) assms(1) by (simp add: sat_inv_def sats_of_def known_ids_def)
  next
    case (sat_insert i)
    then have "admitted_ok (wd_ceiling deps) (ao_ownerOf agents) i" using assms(1) by (simp add: sat_inv_def list_all_iff)
    then show ?thesis using insertJob_ok [OF tables(1)] tables(2) assms(1) unfolding sat_insert(1)
      by (simp add: sat_inv_def known_ids_def)
  next
    case (sat_hand agentId owner name sequence j)
    have "known_ids s' = insert (job_id (sats_of s) j) (known_ids s)" by (simp add: sat_hand(1) known_ids_def)
    then show ?thesis using markSeen_ok [OF tables sat_hand(3,2,4), of "int (zs_clock s)"] assms(1)
      by (simp add: sat_inv_def sat_hand(1) sats_of_def set_sats_def)
  next
    case (sat_select agentId)
    then show ?thesis using assms(1) by (simp add: sat_inv_def sats_of_def known_ids_def)
  next
    case (sat_take agentId keys rows st)
    have "known_ids s' = known_ids s \<union> set (map (job_id (sats_of s)) rows)"
      by (auto simp: sat_take(1) known_ids_def claimed_ids_def)
    then show ?thesis using claim_outcomes_ok [OF tables sat_take(3)] assms(1)
      by (simp add: sat_inv_def sat_take(1) sats_of_def set_sats_def)
  next
    case (sat_tell agentId rows ids turn written w)
    then show ?thesis using sat_inv_tell [OF assms(1)] by simp
  qed
qed

interpretation satellites: invariant_system sat_init "sat_step deps agents" "sat_inv (wd_ceiling deps) (ao_ownerOf agents)" for deps agents
proof unfold_locales
  show "sat_inv (wd_ceiling deps) (ao_ownerOf agents) s" if "sat_init s" for s :: "'a SatelliteSystem"
    using that by (simp add: sat_init_def sat_inv_def tables_ok_def sats_ok_def delivered_in_def activeJobs_def)
qed (rule sat_step_inv)

section \<open>Finished jobs\<close>

text \<open>What every step does to the jobs that stay: a finished one keeps its outcome.\<close>

definition soft :: "(JobRow \<Rightarrow> JobRow) \<Rightarrow> bool" where
  "soft f \<longleftrightarrow> (\<forall>j. job_key (f j) = job_key j \<and> jb_agentId (f j) = jb_agentId j
     \<and> (isTerminal (jb_status j) \<longrightarrow> outcome_part (f j) = outcome_part j))"

definition evolves :: "SatelliteState \<Rightarrow> SatelliteState \<Rightarrow> bool" where
  "evolves st st' \<longleftrightarrow> (\<exists>f q js. soft f \<and> sx_jobs st' = map f (filter q (sx_jobs st)) @ js
     \<and> set (map job_key js) \<inter> set (map job_key (sx_jobs st)) = {})"

lemma softI:
  assumes "\<And>j. job_key (f j) = job_key j \<and> jb_agentId (f j) = jb_agentId j \<and> (isTerminal (jb_status j) \<longrightarrow> outcome_part (f j) = outcome_part j)"
  shows "soft f"
  unfolding soft_def by (rule allI, rule assms)

lemma softD:
  assumes "soft f"
  shows "job_key (f j) = job_key j" and "jb_agentId (f j) = jb_agentId j" and "isTerminal (jb_status j) \<Longrightarrow> outcome_part (f j) = outcome_part j"
  using spec [OF assms [unfolded soft_def], of j] by simp_all

lemma calm_soft: "calm f \<Longrightarrow> soft f"
  by (rule softI) (simp add: calmD)

lemma evolvesI: "soft f \<Longrightarrow> sx_jobs st' = map f (filter q (sx_jobs st)) \<Longrightarrow> evolves st st'"
  unfolding evolves_def by (intro exI [of _ f] exI [of _ q] exI [of _ "[]"] conjI) simp_all

lemma evolves_map: "soft f \<Longrightarrow> evolves st (st\<lparr>sx_jobs := map f (sx_jobs st)\<rparr>)"
  by (rule evolvesI [of f _ "\<lambda>_. True"]) simp_all

lemma evolves_same: "sx_jobs st' = sx_jobs st \<Longrightarrow> evolves st st'"
  by (rule evolvesI [OF calm_soft [OF calm_id], of _ "\<lambda>_. True"]) simp

lemma evolves_move:
  assumes "tables_move ceil st st'"
  shows "evolves st st'"
proof -
  obtain f q where f: "calm f" "sx_jobs st' = map f (filter q (sx_jobs st))" using assms by (auto simp: tables_move_def)
  then show ?thesis by (intro evolvesI [OF calm_soft [OF f(1)], of _ q]) simp
qed

lemma soft_release: "list_all (\<lambda>r. jb_owner r = owner) rows \<Longrightarrow> jobs_move st (releaseClaim rows st)"
  unfolding releaseClaim_eq jobs_move_def
  by (intro conjI exI [of _ "\<lambda>j. if job_key j \<in> set (map job_key rows) then j\<lparr>jb_deliveredAt := None\<rparr> else j"] exI [of _ "\<lambda>_. True"] calmI)
    (simp_all add: job_parts)

lemma sat_step_evolves:
  assumes "sat_inv (wd_ceiling deps) (ao_ownerOf agents) s" and "sat_step deps agents s s'"
  shows "evolves (sats_of s) (sats_of s')"
  using assms(2)
proof cases
  case (sat_plain st)
  have "tables_ok (wd_ceiling deps) (ao_ownerOf agents) (sats_of s)" using assms(1) by (simp add: sat_inv_def)
  then show ?thesis using sat_plain evolves_move [OF plain_step_move] by simp
next
  case (sat_insert i)
  show ?thesis
  proof (cases rule: insertJob_cases [of "int (zs_clock s)" i "sats_of s"])
    case 1
    then show ?thesis by (simp add: sat_insert(1) evolves_same)
  next
    case (2 locked)
    define job where "job = new_job (int (zs_clock s)) (sa_nextSequence locked) i"
    have jobs: "sx_jobs (sats_of s') = map (\<lambda>j. j) (filter (\<lambda>_. True) (sx_jobs (sats_of s))) @ [job]" using 2(4) by (simp add: sat_insert(1) job_def)
    have "distinct (map job_key (sx_jobs (sats_of s')))"
      using sat_step_inv [OF assms] by (simp add: sat_inv_def tables_ok_def)
    then have "set (map job_key [job]) \<inter> set (map job_key (sx_jobs (sats_of s))) = {}" by (simp add: jobs)
    then show ?thesis unfolding evolves_def using jobs calm_soft [OF calm_id] by blast
  qed
next
  case (sat_hand agentId owner name sequence j)
  have "soft (\<lambda>j. if p j then j\<lparr>jb_deliveredAt := Some t, jb_wokeAt := Some t\<rparr> else j)" for p t by (rule softI) (simp add: job_parts)
  from evolves_map [OF this] show ?thesis by (simp add: sat_hand(1) sats_of_def set_sats_def markSeen_def Let_def update_where_def)
next
  case (sat_take agentId keys rows st)
  have "soft (\<lambda>j. if p j then j\<lparr>jb_deliveredAt := Some t\<rparr> else j)" for p t by (rule softI) (simp add: job_parts)
  from evolves_map [OF this] have "evolves (sats_of s) st" using sat_take(3) by (auto simp: claim_outcomes_def Let_def update_where_def)
  then show ?thesis by (simp add: sat_take(1) sats_of_def set_sats_def)
next
  case (sat_tell agentId rows ids turn written w)
  define k where "k = fst (outcome_turn turn agentId rows)"
  have "claimed_ok (ao_ownerOf agents) (agentId, rows, ids)" using assms(1) sat_tell(2) by (auto simp: sat_inv_def list_all_iff)
  then have rows: "list_all (\<lambda>r. jb_owner r = the (ao_ownerOf agents agentId)) rows" by (auto simp: claimed_ok_def list_all_iff)
  then have parts: "list_all (\<lambda>r. jb_owner r = the (ao_ownerOf agents agentId)) (take k rows)"
    "list_all (\<lambda>r. jb_owner r = the (ao_ownerOf agents agentId)) (drop k rows)"
    by (auto simp: list_all_iff dest: in_set_takeD in_set_dropD)
  have "jobs_move (sats_of s) (zw_sats w)"
    using tell_outcomes_sats [OF sat_tell(4), folded k_def] jobs_move_trans [OF soft_release [OF parts(2)]] soft_release [OF parts(1)]
      soft_release [OF parts(2)] job_statements_move(8)
    unfolding sats_of_def by (cases written) auto
  then have "tables_move (wd_ceiling deps) (sats_of s) (zw_sats w)"
    using assms(1) by (intro jobs_move_tables) (simp_all add: sat_inv_def tables_ok_def)
  then show ?thesis using evolves_move by (simp add: sat_tell(1) sats_of_def)
qed (simp_all add: sats_of_def evolves_same)

lemma evolves_final:
  assumes "tables_ok ceil ownerOf st" and "evolves st st'" and "j \<in> set (sx_jobs st)" and "j' \<in> set (sx_jobs st')" and "job_key j' = job_key j"
  shows "jb_agentId j' = jb_agentId j" and "isTerminal (jb_status j) \<Longrightarrow> outcome_part j' = outcome_part j"
proof -
  obtain f q js where f: "soft f" and jobs: "sx_jobs st' = map f (filter q (sx_jobs st)) @ js"
    and fresh: "set (map job_key js) \<inter> set (map job_key (sx_jobs st)) = {}" using assms(2) unfolding evolves_def by blast
  have "job_key j' \<in> set (map job_key (sx_jobs st))" using assms(3,5) by simp
  then have "job_key j' \<notin> set (map job_key js)" using fresh by blast
  then have "j' \<notin> set js" by auto
  then obtain j0 where j0: "j0 \<in> set (sx_jobs st)" "j' = f j0" using assms(4) unfolding jobs by auto
  have "j0 = j" using job_of_key [OF assms(1) j0(1) assms(3)] softD(1) [OF f, of j0] j0(2) assms(5) by simp
  then show "jb_agentId j' = jb_agentId j" and "isTerminal (jb_status j) \<Longrightarrow> outcome_part j' = outcome_part j"
    using j0(2) softD [OF f] by simp_all
qed

text \<open>No step drops a row that was not delivered, but the removal of its satellite.\<close>

lemma keys_update: "(\<And>j. p j \<Longrightarrow> job_key (f j) = job_key j) \<Longrightarrow> map job_key (update_where p f xs) = map job_key xs"
  by (simp add: update_where_def)

lemma job_statements_keys [simp]:
  "map job_key (sx_jobs (snd (consumeTransfer hashOf owner name sequence tok st))) = map job_key (sx_jobs st)"
  "map job_key (sx_jobs (snd (takeCancellations now owner name before incarnation st))) = map job_key (sx_jobs st)"
  "map job_key (sx_jobs (renewLeases owner name sequences leaseUntil incarnation st)) = map job_key (sx_jobs st)"
  "map job_key (sx_jobs (requestCancel owner name sequence incarnation st)) = map job_key (sx_jobs st)"
  "map job_key (sx_jobs (snd (markAwaited agentId name sequence t st))) = map job_key (sx_jobs st)"
  "map job_key (sx_jobs (releaseAwaited agentId name sequence st)) = map job_key (sx_jobs st)"
  "map job_key (sx_jobs (markWoken now agentId refs st)) = map job_key (sx_jobs st)"
  "map job_key (sx_jobs (expireNow now owner name sequence st)) = map job_key (sx_jobs st)"
  "map job_key (sx_jobs (snd (job_settle now owner name sequence patch expect incarnation expiredBefore st))) = map job_key (sx_jobs st)"
  "map job_key (sx_jobs (snd (stopDispatch now scope reason ttl only st))) = map job_key (sx_jobs st)"
  "map job_key (sx_jobs (snd (claimQueued hashOf token now owner name capacity leaseUntil incarnation st))) = map job_key (sx_jobs st)"
  "map job_key (sx_jobs (snd (markSeen now agentId name sequence st))) = map job_key (sx_jobs st)"
  "map job_key (sx_jobs (snd (claim_outcomes now agentId keys st))) = map job_key (sx_jobs st)"
  unfolding consumeTransfer_def takeCancellations_def renewLeases_def requestCancel_def markAwaited_def releaseAwaited_def
    markWoken_def expireNow_def job_settle_def stopDispatch_def claimQueued_def markSeen_def claim_outcomes_def Let_def snd_conv
  by (simp; rule keys_update; simp add: job_key_def settle_job_def start_job_def)+

lemma sat_rows_keys [simp]:
  "sx_jobs (touch now owner name incarnation st) = sx_jobs st" "sx_jobs (setDraining now owner name d incarnation st) = sx_jobs st"
  "sx_jobs (snd (upsertFromManifest now newId owner manifest host ceil st)) = sx_jobs st"
  "sx_jobs (snd (renewFromManifest now owner manifest host ceil i st)) = sx_jobs st"
  "sx_jobs (grant_insert owner name agentId st) = sx_jobs st" "sx_jobs (grant_revoke owner name agentId st) = sx_jobs st"
  "sx_jobs (revokeAgentGrants agentId st) = sx_jobs st"
  by (simp_all add: touch_def setDraining_def upsertFromManifest_def renewFromManifest_def Let_def grant_insert_def grant_revoke_def
      revokeAgentGrants_def split: option.split)

lemma worker_keys [simp]:
  "map job_key (sx_jobs (snd (sat_connect deps now newId owner manifest host resume st))) = map job_key (sx_jobs st)"
  "map job_key (sx_jobs (snd (claim_round deps now owner input st))) = map job_key (sx_jobs st)"
  "map job_key (sx_jobs (snd (sat_heartbeat now owner name running incarnation st))) = map job_key (sx_jobs st)"
  "map job_key (sx_jobs (snd (sat_drain now owner name incarnation st))) = map job_key (sx_jobs st)"
  "map job_key (sx_jobs (snd (transfer_spend hashOf owner job tok st))) = map job_key (sx_jobs st)"
proof -
  show "map job_key (sx_jobs (snd (sat_connect deps now newId owner manifest host resume st))) = map job_key (sx_jobs st)"
    by (simp add: sat_connect_snd split: option.split)
  show "map job_key (sx_jobs (snd (claim_round deps now owner input st))) = map job_key (sx_jobs st)"
    by (simp add: claim_round_def Let_def case_prod_beta split: option.splits)
  show "map job_key (sx_jobs (snd (transfer_spend hashOf owner job tok st))) = map job_key (sx_jobs st)"
    by (simp add: transfer_spend_def case_prod_beta)
qed (simp_all add: sat_heartbeat_def sat_drain_def split: option.splits)

lemma plain_step_keeps:
  assumes "plain_step deps at' st st'" and "j \<in> set (sx_jobs st)" and "jb_deliveredAt j = None"
  shows "job_key j \<in> set (map job_key (sx_jobs st')) \<or> registration st' (jb_owner j) (jb_satellite j) = None"
proof -
  have key: "job_key j \<in> set (map job_key (sx_jobs st))" using assms(2) by simp
  then have same: ?thesis if "map job_key (sx_jobs st') = map job_key (sx_jobs st)" unfolding that by blast
  show ?thesis using assms(1)
  proof cases
    case plain_purge
    have "j \<in> set (sx_jobs st')" using assms(2,3) by (simp add: plain_purge purgeExpired_def delete_where_def)
    then show ?thesis by simp
  next
    case (plain_remove owner name)
    show ?thesis
    proof (cases "is_job_of owner name j \<and> sat_get owner name st \<noteq> None")
      case True
      then have "registration st' (jb_owner j) (jb_satellite j) = None"
        by (auto simp: plain_remove sat_remove_def registration_def sat_get_def find_None_iff delete_where_def is_job_of_def)
      then show ?thesis ..
    next
      case False
      then have "j \<in> set (sx_jobs st')" using assms(2) by (auto simp: plain_remove sat_remove_def delete_where_def)
      then show ?thesis by simp
    qed
  qed (rule same, simp)+
qed

lemma releaseClaim_keys:
  "list_all (\<lambda>r. jb_owner r = owner) rows \<Longrightarrow> map job_key (sx_jobs (releaseClaim rows st)) = map job_key (sx_jobs st)"
  by (simp add: releaseClaim_eq job_key_def)

lemma tell_outcomes_keys:
  assumes "tell_outcomes turn firedAt agentId rows w = (written, w')" and "list_all (\<lambda>r. jb_owner r = owner) rows"
  shows "map job_key (sx_jobs (zw_sats w')) = map job_key (sx_jobs (zw_sats w))"
proof -
  define k where "k = fst (outcome_turn turn agentId rows)"
  have parts: "list_all (\<lambda>r. jb_owner r = owner) (take k rows)" "list_all (\<lambda>r. jb_owner r = owner) (drop k rows)"
    using assms(2) by (auto simp: list_all_iff dest: in_set_takeD in_set_dropD)
  show ?thesis using tell_outcomes_sats [OF assms(1), folded k_def] releaseClaim_keys [OF parts(1)] releaseClaim_keys [OF parts(2)]
    by (cases written) auto
qed

lemma sat_step_keeps:
  assumes "sat_inv (wd_ceiling deps) (ao_ownerOf agents) s" and "sat_step deps agents s s'"
    and "j \<in> set (sx_jobs (sats_of s))" and "jb_deliveredAt j = None"
  shows "job_key j \<in> set (map job_key (sx_jobs (sats_of s'))) \<or> registration (sats_of s') (jb_owner j) (jb_satellite j) = None"
proof -
  have key: "job_key j \<in> set (map job_key (sx_jobs (sats_of s)))" using assms(3) by simp
  then have same: ?thesis if "map job_key (sx_jobs (sats_of s')) = map job_key (sx_jobs (sats_of s))" unfolding that by blast
  show ?thesis using assms(2)
  proof cases
    case (sat_plain st)
    then show ?thesis using plain_step_keeps assms(3,4) by simp
  next
    case (sat_insert i)
    then show ?thesis using key by (cases rule: insertJob_cases [of "int (zs_clock s)" i "sats_of s"]) auto
  next
    case (sat_take agentId keys rows st)
    then have "st = snd (claim_outcomes (int (zs_clock s)) agentId keys (sats_of s))" by simp
    then show ?thesis by (intro same) (simp add: sat_take(1) sats_of_def set_sats_def)
  next
    case (sat_tell agentId rows ids turn written w)
    have "claimed_ok (ao_ownerOf agents) (agentId, rows, ids)" using assms(1) sat_tell(2) by (auto simp: sat_inv_def list_all_iff)
    then have "list_all (\<lambda>r. jb_owner r = the (ao_ownerOf agents agentId)) rows" by (auto simp: claimed_ok_def list_all_iff)
    from tell_outcomes_keys [OF sat_tell(4) this] show ?thesis by (intro same) (simp add: sat_tell(1) sats_of_def)
  qed (rule same, simp add: sats_of_def set_sats_def)+
qed

end
