(* ===== verification/Satellite_Outcomes.thy ===== *)
theory Satellite_Outcomes
  imports Satellite_System
begin

text \<open>
  What the satellites promise: jobs within the ceiling, outcomes that stay as they were reported
  and are not dropped before their agent has them, turns that fit, a sweep that leaves no job
  hanging, and a worker of an old registration that changes nothing.
\<close>

section \<open>The sweep of leases\<close>

text \<open>What the sweep reads of a job: deliveries leave it alone.\<close>

definition sweep_view :: "JobRow \<Rightarrow> job_key \<times> JobStatus \<times> time_ms option \<times> time_ms" where
  "sweep_view j = (job_key j, jb_status j, jb_leaseUntil j, jb_expiresAt j)"

definition overdue :: "time_ms \<Rightarrow> JobRow \<Rightarrow> bool" where
  "overdue now j \<longleftrightarrow> jb_status j = JobRunning \<and> (case jb_leaseUntil j of None \<Rightarrow> False | Some l \<Rightarrow> l < now)"

definition never_started :: "time_ms \<Rightarrow> JobRow \<Rightarrow> bool" where
  "never_started now j \<longleftrightarrow> jb_status j = JobQueued \<and> jb_expiresAt j < now"

definition swept_but :: "job_key set \<Rightarrow> time_ms \<Rightarrow> job_key \<times> JobStatus \<times> time_ms option \<times> time_ms \<Rightarrow> bool" where
  "swept_but A now v = (case v of (key, status, lease, expires) \<Rightarrow>
     (status = JobRunning \<and> (case lease of None \<Rightarrow> False | Some l \<Rightarrow> l < now) \<longrightarrow> key \<in> A) \<and> \<not> (status = JobQueued \<and> expires < now))"

abbreviation sweep_views :: "'d SatelliteWorld \<Rightarrow> (job_key \<times> JobStatus \<times> time_ms option \<times> time_ms) list" where
  "sweep_views w \<equiv> map sweep_view (sx_jobs (zw_sats w))"

lemma swept_but_view: "swept_but A now (sweep_view j) \<longleftrightarrow> (overdue now j \<longrightarrow> job_key j \<in> A) \<and> \<not> never_started now j"
  by (simp add: swept_but_def sweep_view_def overdue_def never_started_def)

lemma views_update: "(\<And>j. sweep_view (f j) = sweep_view j) \<Longrightarrow> map sweep_view (update_where p f xs) = map sweep_view xs"
  by (simp add: update_where_def)

lemma delivery_views:
  "map sweep_view (sx_jobs (releaseClaim rows st)) = map sweep_view (sx_jobs st)"
  "map sweep_view (sx_jobs (markWoken now agentId refs st)) = map sweep_view (sx_jobs st)"
  "map sweep_view (sx_jobs (snd (claimUndeliveredOutcomes now agentId limit st))) = map sweep_view (sx_jobs st)"
  unfolding releaseClaim_def fold_release markWoken_def claimUndeliveredOutcomes_def claim_outcomes_def Let_def
  by (simp_all add: views_update sweep_view_def job_key_def)

lemma tell_outcomes_views: "sweep_views (snd (tell_outcomes turn at' agentId rows w)) = sweep_views w"
proof (cases "tell_outcomes turn at' agentId rows w")
  case (Pair written w')
  then show ?thesis using tell_outcomes_sats [OF Pair] by (cases written) (auto simp: delivery_views)
qed

lemma deliver_for_views: "sweep_views (deliver_for deps at' j w) = sweep_views w"
proof (cases "claimUndeliveredOutcomes (int at') (jb_agentId j) MAX_OUTCOMES_PER_TURN (zw_sats w)")
  case (Pair claimed st)
  then have "map sweep_view (sx_jobs st) = sweep_views w" using delivery_views(3) by (metis snd_conv)
  then show ?thesis by (simp add: deliver_for_def outcome_delivery_def Pair tell_outcomes_views)
qed

lemma deliver_all_views: "sweep_views (fold (deliver_for deps at') js w) = sweep_views w"
  by (induction js arbitrary: w) (simp_all add: deliver_for_views)

lemma sweep_lease_swept:
  assumes "list_all (swept_but (insert (job_key e) A) (int at')) (sweep_views w)" and "settleFails (job_key e) \<Longrightarrow> job_key e \<in> A"
  shows "list_all (swept_but A (int at')) (sweep_views (sweep_lease deps at' settleFails e w))"
proof (cases "settleFails (job_key e)")
  case True
  then show ?thesis using assms by (simp add: sweep_lease_def insert_absorb)
next
  case False
  obtain r st where settled: "job_settle (int at') (jb_owner e) (jb_satellite e) (jb_sequence e) (lost_worker e) (Some JobRunning) None (Some (int at')) (zw_sats w) = (r, st)"
    by (cases "job_settle (int at') (jb_owner e) (jb_satellite e) (jb_sequence e) (lost_worker e) (Some JobRunning) None (Some (int at')) (zw_sats w)")
  define p where "p = (\<lambda>j. is_job (jb_owner e) (jb_satellite e) (jb_sequence e) j \<and> overdue (int at') j)"
  have p: "is_job (jb_owner e) (jb_satellite e) (jb_sequence e) j \<longleftrightarrow> job_key j = job_key e" for j
    by (auto simp: is_job_def is_job_of_def job_key_def)
  have st: "sx_jobs st = update_where p (settle_job (int at') (lost_worker e)) (sx_jobs (zw_sats w))"
    using settled unfolding job_settle_def Let_def p_def overdue_def
    by (auto simp: sameRegistration_def isTerminal_def TERMINAL_STATUSES_def intro!: arg_cong [of _ _ "\<lambda>p. update_where p _ _"] ext)
  have "swept_but A (int at') (sweep_view (if p j then settle_job (int at') (lost_worker e) j else j))" if "j \<in> set (sx_jobs (zw_sats w))" for j
  proof (cases "p j")
    case True
    then show ?thesis by (simp add: swept_but_def sweep_view_def settle_job_def lost_worker_def)
  next
    case False
    have "swept_but (insert (job_key e) A) (int at') (sweep_view j)" using assms(1) that by (simp add: list_all_iff)
    then show ?thesis using False by (auto simp: swept_but_view p_def p)
  qed
  then have "list_all (swept_but A (int at')) (map sweep_view (sx_jobs st))" by (simp add: st update_where_def list_all_iff)
  then show ?thesis using False by (cases r) (simp_all add: sweep_lease_def settled deliver_for_views)
qed

lemma sweep_leases_swept:
  assumes "list_all (swept_but (set (map job_key es) \<union> {k. settleFails k}) (int at')) (sweep_views w)"
  shows "list_all (swept_but {k. settleFails k} (int at')) (sweep_views (fold (sweep_lease deps at' settleFails) es w))"
  using assms
proof (induction es arbitrary: w)
  case (Cons e es)
  have "list_all (swept_but (set (map job_key es) \<union> {k. settleFails k}) (int at')) (sweep_views (sweep_lease deps at' settleFails e w))"
    using Cons.prems by (intro sweep_lease_swept) simp_all
  from Cons.IH [OF this] show ?case by simp
qed simp

lemma stop_expired_swept:
  assumes "stopDispatch now any_scope reason ttl (Some now) st = (stopped, st')"
  shows "list_all (swept_but (set (map job_key (expiredLeases now st'))) now) (map sweep_view (sx_jobs st'))"
proof -
  have "\<not> never_started now j" if "j \<in> set (sx_jobs st')" for j
    using assms that by (auto simp: stopDispatch_def Let_def update_where_def never_started_def any_scope_def in_filter_def isTerminal_def TERMINAL_STATUSES_def split: if_splits)
  moreover have "job_key j \<in> set (map job_key (expiredLeases now st'))" if "j \<in> set (sx_jobs st')" "overdue now j" for j
    using that by (auto simp: expiredLeases_def overdue_def)
  ultimately show ?thesis by (simp add: list_all_iff swept_but_view)
qed

section \<open>The turn\<close>

lemma turn_parts_take:
  "length (turn_parts hint first budget ds) \<le> length ds"
  "ds \<noteq> [] \<Longrightarrow> first \<Longrightarrow> turn_parts hint first budget ds \<noteq> []"
  "\<not> first \<Longrightarrow> turn_parts hint first budget ds = take (length (turn_parts hint first budget ds)) ds"
  by (induction hint first budget ds rule: turn_parts.induct) (auto simp: Let_def)

lemma turn_parts_later:
  "\<not> first \<Longrightarrow> sum_list (map (\<lambda>p. int (length p) + 1) (turn_parts hint first budget ds)) \<le> max budget 0"
  by (induction hint first budget ds rule: turn_parts.induct) (auto simp: Let_def)

lemma turn_parts_first:
  assumes "0 < budget"
  shows "sum_list (map (\<lambda>p. int (length p) + 1) (turn_parts hint True budget (d # ds))) \<le> budget + int (length (trim_note hint))"
    and "turn_parts hint True budget (d # ds) = d # turn_parts hint False (budget - (int (length d) + 1)) ds
      \<or> turn_parts hint True budget (d # ds) = [take (nat (budget - 1)) d @ trim_note hint]"
proof -
  define part where "part = (if budget < int (length d) + 1 then take (nat (max (budget - 1) 0)) d @ trim_note hint else d)"
  have parts: "turn_parts hint True budget (d # ds) = part # turn_parts hint False (budget - (int (length part) + 1)) ds"
    by (simp add: part_def Let_def)
  have "int (length part) + 1 \<le> budget + int (length (trim_note hint))" using assms by (auto simp: part_def min_def)
  then show "sum_list (map (\<lambda>p. int (length p) + 1) (turn_parts hint True budget (d # ds))) \<le> budget + int (length (trim_note hint))"
    using turn_parts_later [of False hint "budget - (int (length part) + 1)" ds] unfolding parts by (simp del: turn_parts.simps)
  show "turn_parts hint True budget (d # ds) = d # turn_parts hint False (budget - (int (length d) + 1)) ds
      \<or> turn_parts hint True budget (d # ds) = [take (nat (budget - 1)) d @ trim_note hint]"
  proof (cases "budget < int (length d) + 1")
    case True
    then have part: "part = take (nat (budget - 1)) d @ trim_note hint" using assms by (simp add: part_def)
    have "budget - (int (length part) + 1) < 0" using True assms by (simp add: part min_def trim_note_def)
    then have "turn_parts hint False (budget - (int (length part) + 1)) ds = []" by (cases ds) simp_all
    then show ?thesis using parts part by simp
  qed (simp add: parts part_def)
qed

lemma outcome_turn_tells: "claimed \<noteq> [] \<Longrightarrow> 0 < fst (outcome_turn deps agentId claimed)"
  using turn_parts_take(2) [of "take MAX_OUTCOMES_PER_TURN (map (describe_job deps agentId) claimed)" True]
  by (simp add: outcome_turn_def composeOutcomeTurn_def Let_def MAX_OUTCOMES_PER_TURN_def)

text \<open>
  A turn of outcomes tells at least one and at most twenty of the jobs that were claimed, in
  order. Only the first can be cut, and then it stands alone: every other part is the whole
  description of its job. The parts with their line ends are within the budget of a turn, and a
  note about the cut is all that can come on top.
\<close>

theorem outcome_turn_fits:
  fixes deps :: TurnDeps and agentId :: agent_id and claimed :: "JobRow list"
  assumes "claimed \<noteq> []"
  defines "descriptions \<equiv> map (describe_job deps agentId) claimed"
    and "hint \<equiv> ''read the rest with the satellite job tools''"
  shows "\<exists>parts. outcome_turn deps agentId claimed
        = (length parts, join_char (CHR 0x0A) ([outcome_subject (length parts), []] @ parts @ [[], TURN_ENDING]))
      \<and> 1 \<le> length parts \<and> length parts \<le> min 20 (length claimed)
      \<and> (parts = take (length parts) descriptions \<or> parts = [take (nat (MAX_TURN_CHARS - 1)) (hd descriptions) @ trim_note hint])
      \<and> sum_list (map (\<lambda>p. int (length p) + 1) parts) \<le> MAX_TURN_CHARS + int (length (trim_note hint))"
proof -
  obtain d ds where ds: "take MAX_OUTCOMES_PER_TURN descriptions = d # ds"
    using assms(1) by (cases "take MAX_OUTCOMES_PER_TURN descriptions") (auto simp: descriptions_def MAX_OUTCOMES_PER_TURN_def)
  define parts where "parts = turn_parts hint True MAX_TURN_CHARS (d # ds)"
  have n: "length (d # ds) \<le> min 20 (length claimed)" unfolding ds [symmetric] by (simp add: descriptions_def MAX_OUTCOMES_PER_TURN_def)
  have budget: "0 < MAX_TURN_CHARS" by (simp add: MAX_TURN_CHARS_def)
  have whole: "parts = take (length parts) (d # ds) \<or> parts = [take (nat (MAX_TURN_CHARS - 1)) d @ trim_note hint]"
    using turn_parts_first(2) [OF budget, of hint d ds] turn_parts_take(3) [of False hint _ ds] unfolding parts_def by auto
  have "take k (d # ds) = take k descriptions" if "k \<le> length (d # ds)" for k
    using that unfolding ds [symmetric] by (simp add: min.absorb1)
  moreover have len: "length parts \<le> length (d # ds)" unfolding parts_def by (rule turn_parts_take)
  moreover have "hd descriptions = d" using ds by (cases descriptions) (auto simp: MAX_OUTCOMES_PER_TURN_def)
  ultimately have "parts = take (length parts) descriptions \<or> parts = [take (nat (MAX_TURN_CHARS - 1)) (hd descriptions) @ trim_note hint]"
    using whole by simp
  moreover have "outcome_turn deps agentId claimed
      = (length parts, join_char (CHR 0x0A) ([outcome_subject (length parts), []] @ parts @ [[], TURN_ENDING]))"
    unfolding outcome_turn_def composeOutcomeTurn_def descriptions_def [symmetric] ds hint_def [symmetric] Let_def parts_def ..
  moreover have "1 \<le> length parts" using turn_parts_take(2) [of "d # ds" True] unfolding parts_def by (simp add: Suc_le_eq del: turn_parts.simps)
  moreover have "length parts \<le> min 20 (length claimed)" using len n by (rule order_trans)
  ultimately show ?thesis using turn_parts_first(1) [OF budget, of hint d ds] unfolding parts_def [symmetric] by blast
qed

text \<open>
  C10. A sweep of leases leaves no job hanging: afterwards no job runs whose lease had run out,
  except one whose own settlement failed, and none still waits past its expiry. A delivery that
  throws and a settlement that fails cost no other job its end.
\<close>

theorem sweep_leaves_no_job_hanging:
  assumes "lease_sweep deps at' settleFails w = (n, w')"
  shows "list_all (\<lambda>j. (overdue (int at') j \<longrightarrow> settleFails (job_key j)) \<and> \<not> never_started (int at') j) (sx_jobs (zw_sats w'))"
proof -
  obtain stopped st where stop: "stopDispatch (int at') any_scope EXPIRED_UNSTARTED STALE_JOB_TTL_MS (Some (int at')) (zw_sats w) = (stopped, st)"
    by (cases "stopDispatch (int at') any_scope EXPIRED_UNSTARTED STALE_JOB_TTL_MS (Some (int at')) (zw_sats w)")
  define w1 where "w1 = fold (deliver_for deps at') stopped (w\<lparr>zw_sats := st\<rparr>)"
  define w2 where "w2 = fold (sweep_lease deps at' settleFails) (expiredLeases (int at') (zw_sats w1)) w1"
  have views: "sweep_views w1 = map sweep_view (sx_jobs st)" by (simp add: w1_def deliver_all_views)
  have "map job_key (filter (overdue (int at')) js) = map fst (filter (\<lambda>(k, s, l, e). s = JobRunning \<and> (case l of None \<Rightarrow> False | Some t \<Rightarrow> t < int at')) (map sweep_view js))" for js
    by (induction js) (simp_all add: sweep_view_def overdue_def)
  then have "map job_key (expiredLeases (int at') (zw_sats w1)) = map job_key (expiredLeases (int at') st)"
    unfolding expiredLeases_def overdue_def [symmetric] by (simp only: views)
  moreover have "swept_but A now v \<Longrightarrow> swept_but (A \<union> B) now v" for A B now v by (auto simp: swept_but_def)
  ultimately have "list_all (swept_but (set (map job_key (expiredLeases (int at') (zw_sats w1))) \<union> {k. settleFails k}) (int at')) (sweep_views w1)"
    using stop_expired_swept [OF stop] unfolding views by (auto simp: list_all_iff)
  from sweep_leases_swept [OF this, of deps] have "list_all (swept_but {k. settleFails k} (int at')) (sweep_views w2)" by (simp add: w2_def)
  moreover have "w' = map_sats (purgeExpired (int at')) w2"
    using assms stop by (simp add: lease_sweep_def Let_def w1_def w2_def)
  ultimately show ?thesis by (auto simp: map_sats_def purgeExpired_def delete_where_def list_all_iff swept_but_view)
qed

section \<open>A worker of an old registration\<close>

lemma sat_get_unique:
  assumes "distinct (map sat_key (sx_satellites st))" and "r \<in> set (sx_satellites st)" and "is_satellite owner name r"
  shows "sat_get owner name st = Some r"
proof -
  obtain r' where r': "sat_get owner name st = Some r'"
    using assms(2,3) by (cases "sat_get owner name st") (auto simp: sat_get_def find_None_iff)
  then have "r' \<in> set (sx_satellites st)" "is_satellite owner name r'" using find_SomeD [OF r' [unfolded sat_get_def]] by simp_all
  then have "sat_key r' = sat_key r" using assms(3) by (simp add: is_satellite_def sat_key_def)
  then have "r' = r" using inj_onD [OF _ _ \<open>r' \<in> _\<close> assms(2), of sat_key] assms(1) by (simp add: distinct_map)
  then show ?thesis using r' by simp
qed

lemma find_none: "(\<And>x. x \<in> set xs \<Longrightarrow> \<not> p x) \<Longrightarrow> find p xs = None"
  by (simp add: find_None_iff)

text \<open>
  C9. A worker that names a registration which is not the one its satellite has (the satellite was
  removed, or removed and registered again) changes nothing: its claims, heartbeats, drains and
  reconnections are answered with an error, its report is dropped, and the tables and the outbox
  stay as they are.
\<close>

theorem stale_worker_changes_nothing:
  assumes "distinct (map sat_key (sx_satellites (zw_sats w)))"
    and "map_option sa_incarnation (sat_get owner name (zw_sats w)) \<noteq> Some i"
  shows "sat_claim deps deadline ((now, id) # rounds) owner \<lparr>ci_satellite = name, ci_capacity = c, ci_waitMs = wait, ci_incarnation = Some i\<rparr> (zw_sats w)
      = (Some (Inl UnknownSatellite), zw_sats w)
    \<and> sat_heartbeat now owner name running (Some i) (zw_sats w) = (Inl UnknownSatellite, zw_sats w)
    \<and> sat_drain now owner name (Some i) (zw_sats w) = (Inl UnknownSatellite, zw_sats w)
    \<and> sat_connect deps now newId owner (manifest\<lparr>mf_name := name\<rparr>) host (Some i) (zw_sats w) = (Inl (OtherRegistration name), zw_sats w)
    \<and> sat_report deps at' owner name sequence outcome (Some i) w = w"
proof -
  have none: "serves owner name (Some i) (zw_sats w) = None"
    using assms(2) by (auto simp: serves_def split: option.split)
  have other: "sa_incarnation r \<noteq> i" if "r \<in> set (sx_satellites (zw_sats w))" "is_satellite owner name r" for r
    using sat_get_unique [OF assms(1) that] assms(2) by simp
  have report: "\<not> (is_job owner name sequence j \<and> P j \<and> Q j \<and> R j \<and> sameRegistration (Some i) (zw_sats w) j)" for j P Q R
    using assms(2) by (auto simp: is_job_def is_job_of_def sameRegistration_def)
  have "sat_connect deps now newId owner (manifest\<lparr>mf_name := name\<rparr>) host (Some i) (zw_sats w) = (Inl (OtherRegistration name), zw_sats w)"
    using other by (simp add: sat_connect_def renewFromManifest_def Let_def update_where_none find_none)
  moreover have "sat_report deps at' owner name sequence outcome (Some i) w = w"
    using report by (simp add: sat_report_def job_settle_def Let_def update_where_none find_none)
  ultimately show ?thesis using none by (simp add: claim_round_def sat_heartbeat_def sat_drain_def)
qed

section \<open>Outcomes in every reachable state\<close>

text \<open>
  C8. In every state the operations can reach, whatever calls, workers and sweeps interleave, a
  satellite has no more jobs queued or running than the platform's ceiling, although the admission
  of a call and its insertion are two transactions, and no two jobs have the same number.
\<close>

theorem live_jobs_within_ceiling:
  assumes "reachable sat_init (sat_step deps agents) s"
  shows "length (activeJobs owner name (sats_of s)) \<le> wd_ceiling deps \<and> distinct (map job_key (sx_jobs (sats_of s)))"
  using satellites.reachable_inv [OF assms] by (simp add: sat_inv_def tables_ok_def)

text \<open>
  C6. A finished job is final: whatever is done next, as long as its row is there it has the
  status, result, reason and end it finished with, and it belongs to the same agent. A late report,
  a second cancellation or a sweep cannot rewrite it.
\<close>

theorem finished_job_is_final:
  assumes "reachable sat_init (sat_step deps agents) s" and "sat_step deps agents s s'"
    and "j \<in> set (sx_jobs (sats_of s))" and "isTerminal (jb_status j)"
    and "j' \<in> set (sx_jobs (sats_of s'))" and "job_key j' = job_key j"
  shows "outcome_part j' = outcome_part j \<and> jb_agentId j' = jb_agentId j"
proof -
  note inv = satellites.reachable_inv [OF assms(1)]
  have "tables_ok (wd_ceiling deps) (ao_ownerOf agents) (sats_of s)" using inv by (simp add: sat_inv_def)
  from evolves_final [OF this sat_step_evolves [OF inv assms(2)] assms(3,5,6)] assms(4) show ?thesis by simp
qed

text \<open>
  C7. An outcome is not lost before its agent has it: when a job has finished and neither a call
  of the agent returned its outcome, nor a delivery holds it, nor a turn in the outbox tells of it,
  then its agent is among those the hourly retry visits, and the next step keeps the row,
  unless it removes the satellite.
\<close>

theorem untold_outcome_is_kept:
  assumes "reachable sat_init (sat_step deps agents) s" and "sat_step deps agents s s'"
    and "j \<in> set (sx_jobs (sats_of s))" and "isTerminal (jb_status j)" and "job_id (sats_of s) j \<notin> known_ids s"
  shows "jb_agentId j \<in> set (agentsWithPendingOutcomes (sats_of s))
    \<and> (job_key j \<in> set (map job_key (sx_jobs (sats_of s'))) \<or> sat_get (jb_owner j) (jb_satellite j) (sats_of s') = None)"
proof -
  note inv = satellites.reachable_inv [OF assms(1)]
  then have undelivered: "jb_deliveredAt j = None" using assms(3,5) by (auto simp: sat_inv_def delivered_in_def list_all_iff)
  then have "jb_agentId j \<in> set (agentsWithPendingOutcomes (sats_of s))"
    using assms(3,4) by (auto simp: agentsWithPendingOutcomes_def)
  moreover have "registration st o' n' = None \<longleftrightarrow> sat_get o' n' st = None" for st o' n' by (simp add: registration_def)
  ultimately show ?thesis using sat_step_keeps [OF inv assms(2,3) undelivered] by simp
qed

section \<open>A run\<close>

definition sample_turn :: TurnDeps where
  "sample_turn = \<lparr>td_bumpFails = False, td_enqueueFails = False, td_wakeUnlessStopped = (\<lambda>_. Some True),
     td_payload = (\<lambda>a task refs. task), td_spillLog = (\<lambda>_ _ _. None)\<rparr>"

definition sample_worker :: WorkerDeps where
  "sample_worker = \<lparr>wd_hashOf = id, wd_token = (\<lambda>t n. show_nat n), wd_ceiling = 1, wd_agentName = (\<lambda>_. None), wd_turn = sample_turn,
     wd_deliverFails = (\<lambda>_. False)\<rparr>"

definition sample_agents :: AgentOpsDeps where
  "sample_agents = \<lparr>ao_ownerOf = (\<lambda>a. if a = ''a'' then Some ''u'' else None), ao_spillLog = (\<lambda>_ _ _. None)\<rparr>"

definition sample_offer :: SatelliteManifest where
  "sample_offer = \<lparr>mf_name = ''gpu'', mf_description = None, mf_maxConcurrent = 2,
     mf_tools = [\<lparr>tl_name = ''run'', tl_maxConcurrent = None, tl_transfer = None\<rparr>]\<rparr>"

definition sample_satellite :: SatelliteRow where
  "sample_satellite =
     \<lparr>sa_owner = ''u'', sa_name = ''gpu'', sa_description = None, sa_host = None, sa_maxConcurrent = 1,
      sa_tools = mf_tools sample_offer, sa_nextSequence = 1, sa_incarnation = ''i'', sa_draining = False,
      sa_lastSeenAt = Some 0, sa_createdAt = 0\<rparr>"

definition sample_call :: InsertJob where
  "sample_call =
     \<lparr>ij_owner = ''u'', ij_satellite = ''gpu'', ij_agentId = ''a'', ij_tool = ''run'', ij_args = ''{}'', ij_transferDirection = None,
      ij_expiresAt = JOB_TTL_MS, ij_maxConcurrent = 1, ij_toolMax = None, ij_incarnation = ''i''\<rparr>"

definition sample_job :: JobRow where "sample_job = new_job 0 1 sample_call"

definition sample_finished :: JobRow where "sample_finished = settle_job 0 cancelled_early sample_job"

definition sample_tables :: "JobRow list \<Rightarrow> SatelliteState" where
  "sample_tables js =
     \<lparr>sx_satellites = [sample_satellite\<lparr>sa_nextSequence := if js = [] then 1 else 2\<rparr>],
      sx_grants = [\<lparr>gr_owner = ''u'', gr_name = ''gpu'', gr_agentId = ''a''\<rparr>], sx_jobs = js\<rparr>"

definition sample_system :: "SatelliteState \<Rightarrow> InsertJob list \<Rightarrow> unit SatelliteSystem" where
  "sample_system st calls =
     \<lparr>zs_world = \<lparr>zw_sats = st,
        zw_delivery = \<lparr>dw_outbox = empty_outbox, dw_capabilities = (\<lambda>_. None), dw_agents = (\<lambda>_. fresh_agent ()), dw_queue = [], dw_emitted = []\<rparr>\<rparr>,
      zs_clock = 0, zs_admitted = calls, zs_selected = [], zs_claimed = [], zs_handed = [], zs_told = []\<rparr>"

lemmas sample_defs = sample_system_def sample_tables_def sample_satellite_def sample_offer_def sample_call_def sample_job_def
  sample_finished_def sample_worker_def sample_agents_def new_job_def no_result_def settle_job_def cancelled_early_def

lemma sample_system_simps [simp]:
  "sats_of (sample_system st calls) = st" "set_sats st' (sample_system st calls) = sample_system st' calls"
  "zs_clock (sample_system st calls) = 0" "zs_admitted (sample_system st calls) = calls"
  "(sample_system st calls)\<lparr>zs_admitted := calls'\<rparr> = sample_system st calls'"
  by (simp_all add: sample_system_def sats_of_def set_sats_def)

lemma sample_statements:
  "grant_insert ''u'' ''gpu'' ''a'' (snd (sat_connect sample_worker 0 ''i'' ''u'' sample_offer None None
     \<lparr>sx_satellites = [], sx_grants = [], sx_jobs = []\<rparr>)) = sample_tables []"
  "start_admit sample_agents 0 ''a'' ''gpu'' ''run'' ''{}'' (sample_tables []) = Inr sample_call"
  "snd (insertJob 0 sample_call (sample_tables [])) = sample_tables [sample_job]"
  "snd (job_settle 0 ''u'' ''gpu'' 1 cancelled_early (Some JobQueued) (Some ''i'') None (sample_tables [sample_job])) = sample_tables [sample_finished]"
  by (simp_all add: sat_connect_def upsertFromManifest_def sat_get_def grant_insert_def start_admit_def sat_resolve_def grantedSatellite_def
      is_satellite_def is_grant_of_def admit_def isOnline_def OFFLINE_AFTER_MS_def activeJobs_def insertJob_def job_settle_def is_job_def is_job_of_def
      isTerminal_def TERMINAL_STATUSES_def sameRegistration_def update_where_def Let_def sample_defs)

lemma sample_reachable:
  "reachable sat_init (sat_step sample_worker sample_agents) (sample_system (sample_tables []) [])"
  "reachable sat_init (sat_step sample_worker sample_agents) (sample_system (sample_tables [sample_job]) [sample_call])"
  "reachable sat_init (sat_step sample_worker sample_agents) (sample_system (sample_tables [sample_finished]) [sample_call])"
proof -
  let ?step = "sat_step sample_worker sample_agents"
  let ?nothing = "\<lparr>sx_satellites = [], sx_grants = [], sx_jobs = []\<rparr>"
  define st1 where "st1 = snd (sat_connect sample_worker 0 ''i'' ''u'' sample_offer None None ?nothing)"
  have "reachable sat_init ?step (sample_system ?nothing [])"
    by (rule reachable_init) (simp add: sat_init_def, simp add: sample_system_def)
  moreover have "?step (sample_system ?nothing []) (sample_system st1 [])"
    using sat_plain [OF plain_connect, of sample_worker sample_agents "sample_system ?nothing []" "''i''" "''u''" sample_offer None None]
    by (simp add: st1_def)
  moreover have "?step (sample_system st1 []) (sample_system (sample_tables []) [])"
    using sat_plain [OF plain_grant, of sample_worker sample_agents "sample_system st1 []" "''u''" "''gpu''" "''a''"]
    by (simp add: st1_def sample_statements(1))
  ultimately show empty: "reachable sat_init ?step (sample_system (sample_tables []) [])" by (meson reachable_step)
  have "?step (sample_system (sample_tables []) []) (sample_system (sample_tables []) [sample_call])"
    using sat_admit [of sample_agents "sample_system (sample_tables []) []" "''a''" "''gpu''" "''run''" "''{}''" sample_call sample_worker]
    by (simp add: sample_statements(2))
  moreover have "?step (sample_system (sample_tables []) [sample_call]) (sample_system (sample_tables [sample_job]) [sample_call])"
    using sat_insert [of sample_call "sample_system (sample_tables []) [sample_call]" sample_worker sample_agents]
    by (simp add: sample_statements(3))
  ultimately show job: "reachable sat_init ?step (sample_system (sample_tables [sample_job]) [sample_call])" using empty by (meson reachable_step)
  have "?step (sample_system (sample_tables [sample_job]) [sample_call]) (sample_system (sample_tables [sample_finished]) [sample_call])"
    using sat_plain [OF plain_cancel, of sample_worker sample_agents "sample_system (sample_tables [sample_job]) [sample_call]" "''u''" "''gpu''" 1 JobQueued "''i''"]
      sample_statements(4) by simp
  with job show "reachable sat_init ?step (sample_system (sample_tables [sample_finished]) [sample_call])" by (rule reachable_step)
qed

lemma sample_job_simps [simp]:
  "jb_status sample_job = JobQueued" "jb_status sample_finished = JobCancelled" "job_key sample_job = (''u'', ''gpu'', 1)"
  "job_key sample_finished = (''u'', ''gpu'', 1)" "sx_jobs (sample_tables js) = js" "jb_agentId sample_finished = ''a''"
  "jb_deliveredAt sample_finished = None"
  by (simp_all add: sample_job_def sample_finished_def new_job_def settle_job_def sample_call_def cancelled_early_def job_key_def sample_tables_def)

theorem live_jobs_within_ceiling_witness:
  "activeJobs ''u'' ''gpu'' (sats_of (sample_system (sample_tables [sample_job]) [sample_call])) = [sample_job]
   \<and> length (activeJobs ''u'' ''gpu'' (sats_of (sample_system (sample_tables [sample_job]) [sample_call]))) \<le> wd_ceiling sample_worker
   \<and> wd_ceiling sample_worker = 1"
  using live_jobs_within_ceiling [OF sample_reachable(2), of "''u''" "''gpu''"]
  by (simp add: activeJobs_def is_job_of_def isTerminal_def TERMINAL_STATUSES_def) (simp add: sample_defs)

theorem finished_job_is_final_witness:
  "\<exists>s'. sat_step sample_worker sample_agents (sample_system (sample_tables [sample_finished]) [sample_call]) s'
     \<and> outcome_part (hd (sx_jobs (sats_of s'))) = outcome_part sample_finished
     \<and> sx_jobs (sats_of s') \<noteq> [sample_finished]"
proof -
  let ?st = "requestCancel ''u'' ''gpu'' 1 None (sample_tables [sample_finished])"
  have jobs: "sx_jobs ?st = [sample_finished\<lparr>jb_cancelRequested := True\<rparr>]"
    by (simp add: requestCancel_def update_where_def is_job_def is_job_of_def sameRegistration_def sample_defs)
  have step: "sat_step sample_worker sample_agents (sample_system (sample_tables [sample_finished]) [sample_call]) (sample_system ?st [sample_call])"
    using sat_plain [OF plain_request, of sample_worker sample_agents "sample_system (sample_tables [sample_finished]) [sample_call]" "''u''" "''gpu''" 1 None]
    by simp
  have "outcome_part (sample_finished\<lparr>jb_cancelRequested := True\<rparr>) = outcome_part sample_finished"
  proof (rule finished_job_is_final [OF sample_reachable(3) step, THEN conjunct1])
    show "sample_finished\<lparr>jb_cancelRequested := True\<rparr> \<in> set (sx_jobs (sats_of (sample_system ?st [sample_call])))" unfolding sample_system_simps jobs by simp
  qed (simp_all add: isTerminal_def TERMINAL_STATUSES_def, simp add: sample_defs job_key_def)
  then show ?thesis by (intro exI [of _ "sample_system ?st [sample_call]"] conjI step) (simp_all only: sample_system_simps jobs list.sel, simp add: sample_defs)
qed

theorem untold_outcome_is_kept_witness:
  "\<exists>s'. sat_step sample_worker sample_agents (sample_system (sample_tables [sample_finished]) [sample_call]) s'
     \<and> sats_of s' = purgeExpired 0 (sample_tables [sample_finished])
     \<and> ''a'' \<in> set (agentsWithPendingOutcomes (sample_tables [sample_finished]))
     \<and> (''u'', ''gpu'', 1) \<in> set (map job_key (sx_jobs (sats_of s')))"
proof -
  let ?st = "purgeExpired 0 (sample_tables [sample_finished])"
  have step: "sat_step sample_worker sample_agents (sample_system (sample_tables [sample_finished]) [sample_call]) (sample_system ?st [sample_call])"
    using sat_plain [OF plain_purge, of sample_worker sample_agents "sample_system (sample_tables [sample_finished]) [sample_call]"] by simp
  have there: "sat_get ''u'' ''gpu'' ?st \<noteq> None" by (simp add: purgeExpired_def sat_get_def is_satellite_def sample_defs)
  have "known_ids (sample_system (sample_tables [sample_finished]) [sample_call]) = {}"
    by (simp add: known_ids_def claimed_ids_def sample_system_def)
  moreover have "jb_owner sample_finished = ''u''" "jb_satellite sample_finished = ''gpu''" by (simp_all add: sample_defs)
  ultimately show ?thesis
    using untold_outcome_is_kept [OF sample_reachable(3) step, of sample_finished] there
    by (intro exI [of _ "sample_system ?st [sample_call]"] conjI step) (simp_all add: isTerminal_def TERMINAL_STATUSES_def)
qed

theorem outcome_turn_fits_witness:
  "\<exists>parts. outcome_turn sample_turn ''a'' [sample_finished]
      = (length parts, join_char (CHR 0x0A) ([outcome_subject (length parts), []] @ parts @ [[], TURN_ENDING])) \<and> length parts = 1"
  using outcome_turn_fits [of "[sample_finished]" sample_turn "''a''"] by (auto intro: le_antisym)

definition sample_running :: JobRow where "sample_running = start_job 0 0 [] sample_job"

definition sample_waiting :: JobRow where "sample_waiting = sample_job\<lparr>jb_sequence := 2, jb_expiresAt := 3\<rparr>"

theorem sweep_leaves_no_job_hanging_witness:
  "overdue 5 sample_running \<and> never_started 5 sample_waiting
   \<and> list_all (\<lambda>j. \<not> overdue 5 j \<and> \<not> never_started 5 j)
       (sx_jobs (zw_sats (snd (lease_sweep sample_worker 5 (\<lambda>_. False) (zs_world (sample_system (sample_tables [sample_running, sample_waiting]) []))))))"
proof (intro conjI)
  let ?w = "zs_world (sample_system (sample_tables [sample_running, sample_waiting]) [])"
  show "list_all (\<lambda>j. \<not> overdue 5 j \<and> \<not> never_started 5 j) (sx_jobs (zw_sats (snd (lease_sweep sample_worker 5 (\<lambda>_. False) ?w))))"
    using sweep_leaves_no_job_hanging [of sample_worker 5 "\<lambda>_. False" ?w, OF prod.collapse [symmetric]] by simp
qed (simp_all add: overdue_def never_started_def sample_running_def sample_waiting_def start_job_def)

theorem stale_worker_changes_nothing_witness:
  "sat_heartbeat 5 ''u'' ''gpu'' [1] (Some ''old'') (sample_tables [sample_job]) = (Inl UnknownSatellite, sample_tables [sample_job])
   \<and> sat_report sample_worker 5 ''u'' ''gpu'' 1 (ReportCancelled None False) (Some ''old'') (zs_world (sample_system (sample_tables [sample_job]) []))
     = zs_world (sample_system (sample_tables [sample_job]) [])"
proof -
  have sats: "zw_sats (zs_world (sample_system (sample_tables [sample_job]) [])) = sample_tables [sample_job]" by (simp add: sample_system_def)
  have "distinct (map sat_key (sx_satellites (sample_tables [sample_job])))"
    and "map_option sa_incarnation (sat_get ''u'' ''gpu'' (sample_tables [sample_job])) \<noteq> Some ''old''"
    by (simp_all add: sample_tables_def sat_get_def is_satellite_def sample_satellite_def)
  then show ?thesis
    using stale_worker_changes_nothing [of "zs_world (sample_system (sample_tables [sample_job]) [])" "''u''" "''gpu''" "''old''", unfolded sats] by blast
qed

section \<open>From the job to the outbox\<close>

text \<open>
  C11. A delivery that says it told the agent did: the turn is an event of the agent's outbox that
  the next delivery to the agent finds pending, it is composed from the first of the claimed
  outcomes, at least one of them, and nothing but the queue's failure can keep the agent out of the
  queue, which the sweep of the outbox makes good.
\<close>

theorem told_outcomes_are_pending:
  fixes w :: "'d SatelliteWorld"
  assumes "outcome_delivery deps at' agentId w = (True, w')"
  defines "claimed \<equiv> fst (claimUndeliveredOutcomes (int at') agentId MAX_OUTCOMES_PER_TURN (zw_sats w))"
  defines "turn \<equiv> outcome_turn deps agentId claimed"
  defines "event \<equiv> outcome_event deps at' agentId (take (fst turn) claimed) (snd turn)"
  assumes "oe_id event \<notin> pe_id ` set (os_events (dw_outbox (zw_delivery w)))"
  shows "take (fst turn) claimed \<noteq> []
    \<and> (\<exists>row \<in> set (pendingEvents (int at') agentId (dw_outbox (zw_delivery w'))).
         pe_id row = oe_id event \<and> pe_kind row = SatelliteOutcome \<and> pe_payload row = oe_payload event)
    \<and> (td_enqueueFails deps \<or> (agentId, False) \<in> set (dw_queue (zw_delivery w')))"
proof -
  obtain st where claim: "claimUndeliveredOutcomes (int at') agentId MAX_OUTCOMES_PER_TURN (zw_sats w) = (claimed, st)"
    by (cases "claimUndeliveredOutcomes (int at') agentId MAX_OUTCOMES_PER_TURN (zw_sats w)") (simp add: claimed_def)
  then have ne: "claimed \<noteq> []" and tell: "tell_outcomes deps at' agentId claimed (w\<lparr>zw_sats := st\<rparr>) = (True, w')"
    using assms(1) by (auto simp: outcome_delivery_def split: if_splits)
  obtain k task where turn: "outcome_turn deps agentId claimed = (k, task)" by (cases "outcome_turn deps agentId claimed")
  define d1 where "d1 = (zw_delivery w)\<lparr>dw_outbox := snd (mutator_bump (int at') agentId [event] (dw_outbox (zw_delivery w)))\<rparr>"
  have "zw_delivery (map_sats f v) = zw_delivery v" for f and v :: "'d SatelliteWorld" by (simp add: map_sats_def)
  then have "zw_delivery w' = (if td_enqueueFails deps then d1 else enqueue agentId False d1)"
    using tell unfolding tell_outcomes_def turn prod.case Let_def
    by (auto simp: deliverOutcomeTurn_def Let_def wakeOutcomeTurn_def d1_def event_def turn_def turn split: if_splits option.splits)
  moreover have "oe_kind event = SatelliteOutcome" "int at' < oe_expiresAt event"
    by (simp_all add: event_def outcome_event_def Let_def EVENT_TTL_MS_def)
  moreover have "0 < fst turn" unfolding turn_def by (rule outcome_turn_tells [OF ne])
  ultimately show ?thesis
    using mutator_bump_pending [OF assms(5), of "int at'" agentId "int at'"] ne by (auto simp: d1_def enqueue_def)
qed

lemma tell_outcomes_written: "fst (tell_outcomes deps at' agentId rows w) \<longleftrightarrow> \<not> td_bumpFails deps"
  by (simp add: tell_outcomes_def deliverOutcomeTurn_def Let_def split: prod.split)

theorem told_outcomes_are_pending_witness:
  "\<exists>row \<in> set (pendingEvents 5 ''a'' (dw_outbox (zw_delivery (snd (outcome_delivery sample_turn 5 ''a''
      (zs_world (sample_system (sample_tables [sample_finished]) []))))))). pe_kind row = SatelliteOutcome"
proof -
  define w where "w = zs_world (sample_system (sample_tables [sample_finished]) [])"
  have sats: "zw_sats w = sample_tables [sample_finished]" and outbox: "os_events (dw_outbox (zw_delivery w)) = []"
    by (simp_all add: w_def sample_system_def empty_outbox_def)
  have "jb_awaitedUntil sample_finished = None" by (simp add: sample_defs)
  then have "undelivered_outcomes 5 ''a'' MAX_OUTCOMES_PER_TURN (zw_sats w) = [job_key sample_finished]"
    by (simp add: undelivered_outcomes_def sats isTerminal_def TERMINAL_STATUSES_def MAX_OUTCOMES_PER_TURN_def)
  then have "fst (claimUndeliveredOutcomes 5 ''a'' MAX_OUTCOMES_PER_TURN (zw_sats w)) \<noteq> []"
    by (simp add: claimUndeliveredOutcomes_def claim_outcomes_def Let_def sats)
  then have "fst (outcome_delivery sample_turn 5 ''a'' w)"
    by (simp add: outcome_delivery_def case_prod_beta tell_outcomes_written) (simp add: sample_turn_def)
  then have "outcome_delivery sample_turn 5 ''a'' w = (True, snd (outcome_delivery sample_turn 5 ''a'' w))"
    by (metis prod.collapse)
  from told_outcomes_are_pending [OF this] show ?thesis unfolding w_def [symmetric] by (auto simp: outbox)
qed

end
