(* ===== verification/Schedules_Table.thy ===== *)
theory Schedules_Table
  imports Spend_Limits Runtime_Delivery
begin

text \<open>
  Schedules: tasks that the platform sends to an agent at a moment or over and over. The table with
  every statement that changes it (\<^verbatim>\<open>schedules/infrastructure/schedules-repository.ts\<close>), how a row is
  read with the profile it names, the queue of fires (\<^verbatim>\<open>schedule-queue.ts\<close>) and the domain rules
  (\<^verbatim>\<open>once.ts\<close>, \<^verbatim>\<open>recurrences.ts\<close>, \<^verbatim>\<open>status-transitions.ts\<close>). The parsers of cron and recurrence rules
  and the resolution of a profile are arguments. Settings are association lists in the order of
  their keys. The time of the last change of a row, which nothing reads, is left out.
\<close>

section \<open>Schedules\<close>

type_synonym settings = "(string \<times> string) list"

datatype SessionMode = ContinuousSession | FreshSession

datatype OnceMode = ContinueSession | ReportToSession

record ScheduleOnceOrigin =
  oo_sessionRef :: string
  oo_mode :: OnceMode

datatype ScheduleKind =
    CronSchedule string
  | RRuleSchedule string string "string list option" \<comment> \<open>the rule, its time zone and its quiet hours\<close>
  | OnceSchedule time_ms string "ScheduleOnceOrigin option"

datatype ScheduleCreator = CreatedByUser | CreatedByAgent

record ScheduleSpec =
  spc_kind :: ScheduleKind
  spc_task :: "string option"
  spc_precheck :: "string option"
  spc_harness :: "string option"
  spc_model :: "string option"
  spc_settings :: "settings option"
  spc_profile :: "string option"
  spc_subagentProfile :: "string option"
  spc_subagentSettings :: "settings option"
  spc_migrationNote :: "string option"
  spc_sessionTitle :: "string option"
  spc_enabled :: bool
  spc_sessionMode :: "SessionMode option"
  spc_createdBy :: ScheduleCreator

definition is_once :: "ScheduleSpec \<Rightarrow> bool" where
  "is_once spec = (case spc_kind spec of OnceSchedule _ _ _ \<Rightarrow> True | _ \<Rightarrow> False)"

record ScheduleRow =
  rw_id :: string
  rw_agentId :: agent_id
  rw_owner :: user_sub
  rw_name :: string
  rw_spec :: ScheduleSpec
  rw_enabled :: bool
  rw_nextRun :: "time_ms option"
  rw_lastFiredAt :: "time_ms option"
  rw_lastFiredResult :: "string option"
  rw_lastDeclinedAt :: "time_ms option"
  rw_declinedCount :: nat
  rw_lastPrecheckError :: "string option"
  rw_precheckFailedCount :: nat
  rw_createdAt :: time_ms

text \<open>A schedule as it is read; of the status the parts that an operation looks at.\<close>

record Schedule =
  se_id :: string
  se_agentId :: agent_id
  se_name :: string
  se_spec :: ScheduleSpec
  se_profileIssue :: "string option"
  se_subagentSettings :: "settings option"
  se_lastRun :: "time_ms option"
  se_nextRun :: "time_ms option"
  se_lastResult :: "string option"

definition rowToSchedule :: "ScheduleRow \<Rightarrow> Schedule" where
  "rowToSchedule row =
     \<lparr>se_id = rw_id row, se_agentId = rw_agentId row, se_name = rw_name row, se_spec = (rw_spec row)\<lparr>spc_enabled := rw_enabled row\<rparr>,
      se_profileIssue = None, se_subagentSettings = None, se_lastRun = rw_lastFiredAt row, se_nextRun = rw_nextRun row,
      se_lastResult = nonempty (rw_lastFiredResult row)\<rparr>"

record ResolvedProfile =
  rp_unavailable :: "string option"
  rp_harness :: string
  rp_pairModel :: "string option"
  rp_pairSettings :: "settings option"
  rp_model :: string
  rp_subagent :: "settings option"
  rp_subagentUnavailable :: "string option"
  rp_platformSubagent :: settings \<comment> \<open>the pair of the profile as the settings of a subagent\<close>

type_synonym profile_resolver = "string \<Rightarrow> agent_id \<Rightarrow> user_sub option \<Rightarrow> ResolvedProfile option"

type_synonym lent_subagent = "settings option \<times> string option"

definition composedSubagent ::
  "string option \<Rightarrow> settings option \<Rightarrow> lent_subagent option \<Rightarrow> profile_resolver \<Rightarrow> agent_id \<Rightarrow> user_sub option \<Rightarrow> string + settings option" where
  "composedSubagent subProfile subSettings lent resolveProfile agentId owner =
     (case nonempty subProfile of
        Some named \<Rightarrow>
          Inr (case resolveProfile named agentId owner of
                 None \<Rightarrow> None
               | Some slot \<Rightarrow> if rp_unavailable slot = None then Some (rp_platformSubagent slot) else None)
      | None \<Rightarrow>
          (case subSettings of
             Some s \<Rightarrow> Inr (Some s)
           | None \<Rightarrow>
               (case lent of
                  None \<Rightarrow> Inr None
                | Some (s, unavailable) \<Rightarrow> (case nonempty unavailable of Some why \<Rightarrow> Inl why | None \<Rightarrow> Inr s))))"

definition withProfile :: "profile_resolver \<Rightarrow> Schedule \<Rightarrow> Schedule \<times> lent_subagent option" where
  "withProfile resolveProfile schedule =
     (case spc_profile (se_spec schedule) of
        None \<Rightarrow> (schedule, None)
      | Some profileId \<Rightarrow>
          let resolved = resolveProfile profileId (se_agentId schedule) None;
              spec = (se_spec schedule)\<lparr>spc_harness := None, spc_model := None, spc_settings := None\<rparr>
          in case resolved of
               None \<Rightarrow> (schedule\<lparr>se_spec := spec, se_profileIssue := Some ''its profile is gone''\<rparr>, None)
             | Some r \<Rightarrow>
                 (case nonempty (rp_unavailable r) of
                    None \<Rightarrow>
                      (schedule\<lparr>se_spec := spec\<lparr>spc_harness := Some (rp_harness r), spc_model := Some (rp_model r),
                          spc_settings := rp_pairSettings r\<rparr>\<rparr>, Some (rp_subagent r, rp_subagentUnavailable r))
                  | Some why \<Rightarrow> (schedule\<lparr>se_spec := spec, se_profileIssue := Some why\<rparr>, None)))"

definition effective :: "profile_resolver \<Rightarrow> ScheduleRow \<Rightarrow> Schedule" where
  "effective resolveProfile row =
     (case withProfile resolveProfile (rowToSchedule row) of
        (primary, lent) \<Rightarrow>
          if se_profileIssue primary \<noteq> None then primary
          else (case composedSubagent (spc_subagentProfile (se_spec primary)) (spc_subagentSettings (se_spec primary)) lent
                       resolveProfile (se_agentId primary) None of
                  Inl refused \<Rightarrow> primary\<lparr>se_profileIssue := Some refused\<rparr>
                | Inr None \<Rightarrow> primary
                | Inr (Some s) \<Rightarrow> primary\<lparr>se_subagentSettings := Some s\<rparr>))"

section \<open>Statements\<close>

definition has_schedule_id :: "string \<Rightarrow> ScheduleRow \<Rightarrow> bool" where "has_schedule_id i r \<longleftrightarrow> rw_id r = i"

definition is_owned :: "string \<Rightarrow> user_sub \<Rightarrow> ScheduleRow \<Rightarrow> bool" where
  "is_owned i owner r \<longleftrightarrow> rw_id r = i \<and> rw_owner r = owner"

definition schedule_get :: "profile_resolver \<Rightarrow> string \<Rightarrow> user_sub \<Rightarrow> ScheduleRow table \<Rightarrow> Schedule option" where
  "schedule_get resolveProfile i owner t = map_option (effective resolveProfile) (find (is_owned i owner) t)"

definition schedule_getById :: "profile_resolver \<Rightarrow> string \<Rightarrow> ScheduleRow table \<Rightarrow> Schedule option" where
  "schedule_getById resolveProfile i t = map_option (effective resolveProfile) (find (has_schedule_id i) t)"

definition getOwnerById :: "string \<Rightarrow> ScheduleRow table \<Rightarrow> user_sub option" where
  "getOwnerById i t = map_option rw_owner (find (has_schedule_id i) t)"

definition listAllEnabled :: "profile_resolver \<Rightarrow> ScheduleRow table \<Rightarrow> Schedule list" where
  "listAllEnabled resolveProfile t = map (effective resolveProfile) (filter rw_enabled t)"

definition schedule_create :: "time_ms \<Rightarrow> string \<Rightarrow> agent_id \<Rightarrow> user_sub \<Rightarrow> string \<Rightarrow> ScheduleSpec \<Rightarrow> ScheduleRow table \<Rightarrow> ScheduleRow table" where
  "schedule_create now newId agentId owner name spec t =
     t @ [\<lparr>rw_id = newId, rw_agentId = agentId, rw_owner = owner, rw_name = name, rw_spec = spec, rw_enabled = spc_enabled spec,
           rw_nextRun = None, rw_lastFiredAt = None, rw_lastFiredResult = None, rw_lastDeclinedAt = None, rw_declinedCount = 0,
           rw_lastPrecheckError = None, rw_precheckFailedCount = 0, rw_createdAt = now\<rparr>]"

text \<open>A write stores the reference to a profile without the values it resolves to.\<close>

definition stored_spec :: "ScheduleSpec \<Rightarrow> ScheduleSpec" where
  "stored_spec spec =
     (if nonempty (spc_profile spec) = None then spec else spec\<lparr>spc_harness := None, spc_model := None, spc_settings := None\<rparr>)"

definition updateSpec :: "string \<Rightarrow> user_sub \<Rightarrow> ScheduleSpec \<Rightarrow> ScheduleRow table \<Rightarrow> ScheduleRow table" where
  "updateSpec i owner spec t =
     update_where (is_owned i owner) (\<lambda>r. r\<lparr>rw_spec := stored_spec spec, rw_enabled := spc_enabled spec\<rparr>) t"

definition updateName :: "string \<Rightarrow> user_sub \<Rightarrow> string \<Rightarrow> ScheduleRow table \<Rightarrow> ScheduleRow table" where
  "updateName i owner name t = update_where (is_owned i owner) (\<lambda>r. r\<lparr>rw_name := name\<rparr>) t"

definition schedule_delete :: "string \<Rightarrow> user_sub \<Rightarrow> ScheduleRow table \<Rightarrow> ScheduleRow table" where
  "schedule_delete i owner t = delete_where (is_owned i owner) t"

definition listIdsByAgent :: "agent_id \<Rightarrow> ScheduleRow table \<Rightarrow> string list" where
  "listIdsByAgent agentId t = map rw_id (filter (\<lambda>r. rw_agentId r = agentId) t)"

definition deleteByAgent :: "agent_id \<Rightarrow> ScheduleRow table \<Rightarrow> ScheduleRow table" where
  "deleteByAgent agentId t = delete_where (\<lambda>r. rw_agentId r = agentId) t"

text \<open>A status write sets exactly the columns it names; \<^const>\<open>None\<close> outside is a column that is not named.\<close>

record ScheduleStatusWrite =
  wr_lastFiredAt :: "time_ms option"
  wr_lastFiredResult :: "string option option"
  wr_nextRun :: "time_ms option option"

definition writeStatus :: "string \<Rightarrow> ScheduleStatusWrite \<Rightarrow> ScheduleRow table \<Rightarrow> ScheduleRow table" where
  "writeStatus i patch t =
     update_where (has_schedule_id i)
       (\<lambda>r. r\<lparr>rw_lastFiredAt := (case wr_lastFiredAt patch of None \<Rightarrow> rw_lastFiredAt r | Some at' \<Rightarrow> Some at'),
              rw_lastFiredResult := (case wr_lastFiredResult patch of None \<Rightarrow> rw_lastFiredResult r | Some x \<Rightarrow> x),
              rw_nextRun := (case wr_nextRun patch of None \<Rightarrow> rw_nextRun r | Some x \<Rightarrow> x)\<rparr>) t"

datatype CounterWrite = IncrementCounter | ResetCounter

fun counter_write :: "CounterWrite \<Rightarrow> nat \<Rightarrow> nat" where
  "counter_write IncrementCounter n = n + 1"
| "counter_write ResetCounter n = 0"

record ScheduleStatusPatch =
  pa_lastFiredAt :: "time_ms option"
  pa_lastFiredResult :: "string option option"
  pa_lastDeclinedAt :: "time_ms option"
  pa_declinedCount :: CounterWrite
  pa_lastPrecheckError :: "string option"
  pa_precheckFailedCount :: CounterWrite

definition applyStatusPatch :: "string \<Rightarrow> ScheduleStatusPatch \<Rightarrow> ScheduleRow table \<Rightarrow> ScheduleRow table" where
  "applyStatusPatch i patch t =
     update_where (has_schedule_id i)
       (\<lambda>r. r\<lparr>rw_lastFiredAt := (case pa_lastFiredAt patch of None \<Rightarrow> rw_lastFiredAt r | Some at' \<Rightarrow> Some at'),
              rw_lastFiredResult := (case pa_lastFiredResult patch of None \<Rightarrow> rw_lastFiredResult r | Some x \<Rightarrow> x),
              rw_lastDeclinedAt := pa_lastDeclinedAt patch,
              rw_declinedCount := counter_write (pa_declinedCount patch) (rw_declinedCount r),
              rw_lastPrecheckError := pa_lastPrecheckError patch,
              rw_precheckFailedCount := counter_write (pa_precheckFailedCount patch) (rw_precheckFailedCount r)\<rparr>) t"

definition clearPrecheckStatus :: "string \<Rightarrow> ScheduleRow table \<Rightarrow> ScheduleRow table" where
  "clearPrecheckStatus i t =
     update_where (has_schedule_id i)
       (\<lambda>r. r\<lparr>rw_lastDeclinedAt := None, rw_declinedCount := 0, rw_lastPrecheckError := None, rw_precheckFailedCount := 0\<rparr>) t"

definition DAY_MS :: int where "DAY_MS = 24 * 60 * 60 * 1000"

definition is_finished_once :: "time_ms \<Rightarrow> nat \<Rightarrow> string \<Rightarrow> ScheduleRow \<Rightarrow> bool" where
  "is_finished_once now days keepResult r \<longleftrightarrow>
     is_once (rw_spec r)
     \<and> (case rw_lastFiredAt r of None \<Rightarrow> False | Some t \<Rightarrow> t < now - int days * DAY_MS)
     \<and> (case rw_lastFiredResult r of None \<Rightarrow> False | Some x \<Rightarrow> x \<noteq> keepResult)"

definition deleteFinishedOnceOlderThan :: "time_ms \<Rightarrow> nat \<Rightarrow> string \<Rightarrow> ScheduleRow table \<Rightarrow> ScheduleRow list \<times> ScheduleRow table" where
  "deleteFinishedOnceOlderThan now days keepResult t =
     (filter (is_finished_once now days keepResult) t, delete_where (is_finished_once now days keepResult) t)"

definition is_agent_once :: "agent_id \<Rightarrow> ScheduleRow \<Rightarrow> bool" where
  "is_agent_once agentId r \<longleftrightarrow> rw_agentId r = agentId \<and> is_once (rw_spec r) \<and> spc_createdBy (rw_spec r) = CreatedByAgent"

definition countAgentOnce :: "agent_id \<Rightarrow> string \<Rightarrow> time_ms \<Rightarrow> ScheduleRow table \<Rightarrow> nat \<times> nat" where
  "countAgentOnce agentId openResult createdSince t =
     (let rows = filter (is_agent_once agentId) t
      in (length (filter (\<lambda>r. rw_lastFiredResult r = None \<or> rw_lastFiredResult r = Some openResult) rows),
          length (filter (\<lambda>r. createdSince < rw_createdAt r) rows)))"

definition replaceResult :: "string \<Rightarrow> string \<Rightarrow> string \<Rightarrow> ScheduleRow table \<Rightarrow> bool \<times> ScheduleRow table" where
  "replaceResult i expected next t =
     (let p = (\<lambda>r. rw_id r = i \<and> rw_lastFiredResult r = Some expected)
      in (list_ex p t, update_where p (\<lambda>r. r\<lparr>rw_lastFiredResult := Some next\<rparr>) t))"

definition claimWaitingOnce :: "user_sub \<Rightarrow> time_ms \<Rightarrow> ScheduleRow table \<Rightarrow> string list \<times> ScheduleRow table" where
  "claimWaitingOnce owner now t =
     (let p = (\<lambda>r. rw_owner r = owner \<and> rw_enabled r \<and> rw_lastFiredAt r = None
                 \<and> (case rw_nextRun r of None \<Rightarrow> False | Some n \<Rightarrow> now < n)
                 \<and> (case spc_kind (rw_spec r) of OnceSchedule at' _ _ \<Rightarrow> at' \<le> now | _ \<Rightarrow> False))
      in (map rw_id (filter p t), update_where p (\<lambda>r. r\<lparr>rw_nextRun := Some now\<rparr>) t))"

section \<open>Domain rules\<close>

definition ONCE_DELIVERY_WINDOW_MS :: int where "ONCE_DELIVERY_WINDOW_MS = 24 * 60 * 60 * 1000"

definition OnceDelivering :: string where "OnceDelivering = ''delivering''"
definition OnceSuccess :: string where "OnceSuccess = ''success''"
definition OnceMissed :: string where "OnceMissed = ''missed''"

definition onceExpiry :: "time_ms \<Rightarrow> time_ms" where "onceExpiry at' = at' + ONCE_DELIVERY_WINDOW_MS"

definition onceFireAt :: "time_ms \<Rightarrow> time_ms option \<Rightarrow> time_ms \<Rightarrow> time_ms option" where
  "onceFireAt at' lastRun now = (if lastRun \<noteq> None then None else if now < onceExpiry at' then Some at' else None)"

datatype OnceFireAction = DropFire | PokeFire | MissedFire | CommitFire time_ms

definition onceFireAction :: "time_ms \<Rightarrow> string option \<Rightarrow> time_ms \<Rightarrow> OnceFireAction" where
  "onceFireAction at' lastResult now =
     (if lastResult = Some OnceDelivering then PokeFire
      else if lastResult \<noteq> None then DropFire
      else if onceExpiry at' \<le> now then MissedFire else CommitFire (onceExpiry at'))"

definition CREATE_SKEW_MS :: int where "CREATE_SKEW_MS = 60000"

definition resolveOnceMoment ::
  "(string \<Rightarrow> string \<Rightarrow> string + time_ms) \<Rightarrow> string option \<Rightarrow> string \<Rightarrow> time_ms \<Rightarrow> string + time_ms" where
  "resolveOnceMoment localToInstant local timezone now =
     (case local of
        None \<Rightarrow> Inr now
      | Some text \<Rightarrow>
          (case localToInstant text timezone of
             Inl why \<Rightarrow> Inl why
           | Inr at' \<Rightarrow> if at' < now - CREATE_SKEW_MS then Inl (text @ '' '' @ timezone @ '' is in the past'') else Inr at'))"

datatype NextFire = NextAt time_ms | FireStopped string

definition nextFire :: "(ScheduleKind \<Rightarrow> time_ms \<Rightarrow> NextFire) \<Rightarrow> ScheduleSpec \<Rightarrow> time_ms \<Rightarrow> NextFire" where
  "nextFire recur spec from' =
     (case spc_kind spec of
        OnceSchedule at' _ _ \<Rightarrow> if from' < at' then NextAt at' else FireStopped ''its moment has passed''
      | kind \<Rightarrow> recur kind from')"

definition nextFireAt :: "(ScheduleKind \<Rightarrow> time_ms \<Rightarrow> NextFire) \<Rightarrow> ScheduleSpec \<Rightarrow> time_ms \<Rightarrow> time_ms option" where
  "nextFireAt recur spec from' = (case nextFire recur spec from' of NextAt t \<Rightarrow> Some t | FireStopped _ \<Rightarrow> None)"

definition triggerExpiry :: "time_ms \<Rightarrow> time_ms option \<Rightarrow> int \<Rightarrow> time_ms" where
  "triggerExpiry firedAt next ttlSec =
     (let byTtl = firedAt + ttlSec * 1000
      in case next of None \<Rightarrow> byTtl | Some n \<Rightarrow> if n \<le> firedAt then byTtl else min byTtl n)"

definition isFailureResult :: "string option \<Rightarrow> bool" where
  "isFailureResult result =
     (case nonempty result of
        None \<Rightarrow> False
      | Some x \<Rightarrow> x \<noteq> OnceSuccess \<and> x \<noteq> OnceDelivering \<and> \<not> prefix ''held:'' x)"

datatype PrecheckVerdict = PrecheckAllowed | PrecheckDeclined | PrecheckBroken

definition statusForVerdict :: "PrecheckVerdict \<Rightarrow> time_ms \<Rightarrow> string option \<Rightarrow> string option \<Rightarrow> ScheduleStatusPatch" where
  "statusForVerdict verdict at' detail lastResult =
     (if verdict = PrecheckDeclined
      then \<lparr>pa_lastFiredAt = None, pa_lastFiredResult = (if isFailureResult lastResult then Some None else None),
            pa_lastDeclinedAt = Some at', pa_declinedCount = IncrementCounter, pa_lastPrecheckError = None,
            pa_precheckFailedCount = ResetCounter\<rparr>
      else let broke = (verdict = PrecheckBroken)
           in \<lparr>pa_lastFiredAt = Some at', pa_lastFiredResult = Some (Some ''success''), pa_lastDeclinedAt = None,
               pa_declinedCount = ResetCounter, pa_lastPrecheckError = (if broke then detail else None),
               pa_precheckFailedCount = (if broke then IncrementCounter else ResetCounter)\<rparr>)"

section \<open>The queue of fires\<close>

text \<open>
  The jobs of the queue library, named by the schedule and the time they are for. A job that has
  ended stays for a while; adding a job whose name is taken does nothing, and only a job that waits
  can be removed. \<open>jq_attempts\<close> counts the attempts that were started.
\<close>

datatype JobState = JobWaiting | JobActive | JobCompleted | JobFailed

record FireJob =
  jq_schedule :: string
  jq_fireAt :: time_ms
  jq_state :: JobState
  jq_attempts :: nat

definition FIRE_ATTEMPTS :: nat where "FIRE_ATTEMPTS = 3"

definition is_fire_job :: "string \<Rightarrow> time_ms \<Rightarrow> FireJob \<Rightarrow> bool" where
  "is_fire_job i fireAt j \<longleftrightarrow> jq_schedule j = i \<and> jq_fireAt j = fireAt"

definition removePending :: "string \<Rightarrow> FireJob list \<Rightarrow> FireJob list" where
  "removePending i jobs = delete_where (\<lambda>j. jq_schedule j = i \<and> jq_state j = JobWaiting) jobs"

definition queue_add :: "string \<Rightarrow> time_ms \<Rightarrow> FireJob list \<Rightarrow> FireJob list" where
  "queue_add i fireAt jobs =
     (if list_ex (is_fire_job i fireAt) jobs then jobs
      else jobs @ [\<lparr>jq_schedule = i, jq_fireAt = fireAt, jq_state = JobWaiting, jq_attempts = 0\<rparr>])"

definition queue_enqueue :: "string \<Rightarrow> time_ms \<Rightarrow> FireJob list \<Rightarrow> FireJob list" where
  "queue_enqueue i fireAt jobs = queue_add i fireAt (removePending i jobs)"

definition queue_ensure :: "string \<Rightarrow> time_ms \<Rightarrow> FireJob list \<Rightarrow> FireJob list" where
  "queue_ensure i fireAt jobs =
     (if list_ex (is_fire_job i fireAt) jobs
      then update_where (\<lambda>j. is_fire_job i fireAt j \<and> jq_state j = JobFailed) (\<lambda>j. j\<lparr>jq_state := JobWaiting\<rparr>) jobs
      else queue_add i fireAt jobs)"

definition queue_cancel :: "string \<Rightarrow> FireJob list \<Rightarrow> FireJob list" where
  "queue_cancel i jobs = removePending i jobs"

end
