(* ===== verification/Schedules_Runner.thy ===== *)
theory Schedules_Runner
  imports Schedules_Table
begin

text \<open>
  The runner of schedules (\<^verbatim>\<open>schedules/services/scheduler-runner.ts\<close>), the worker of the queue, the saga
  that resumes held tasks and the clean-up (\<^verbatim>\<open>sagas/resume-held-once.ts\<close>, \<^verbatim>\<open>compose.ts\<close>). What the rest
  of the platform answers (profiles, the pair of harness and model, the spend gate, whether the agent
  is disabled, onboarding or wakes) are arguments, and so are the statements that fail. A fire reads
  the clock once. The result of an operation that can throw is the error, if there is one, and the
  world it leaves. Spans and log lines are left out.
\<close>

section \<open>The world of the runner\<close>

datatype FireError = ProfileRefused string | NoDefaultModel string | FireFailure string

fun error_message :: "FireError \<Rightarrow> string" where
  "error_message (ProfileRefused m) = m"
| "error_message (NoDefaultModel m) = m"
| "error_message (FireFailure m) = m"

fun is_final_error :: "FireError \<Rightarrow> bool" where
  "is_final_error (ProfileRefused _) = True"
| "is_final_error (NoDefaultModel _) = True"
| "is_final_error (FireFailure _) = False"

record ActivityStamp =
  ay_previous :: "string option"
  ay_written :: string

record SessionPair =
  sn_harness :: string
  sn_provider :: "string option"
  sn_model :: "string option"
  sn_settings :: "settings option"

datatype SpendHoldReason = HoldLimit | HoldCeiling

record TriggerPayload =
  tg_scheduleId :: string
  tg_task :: string
  tg_fireAt :: time_ms
  tg_sessionMode :: "SessionMode option"
  tg_precheck :: "string option"
  tg_sessionTitle :: "string option"
  tg_model :: "string option"
  tg_harness :: "string option"
  tg_provider :: "string option"
  tg_settings :: "settings option"
  tg_onDefault :: bool
  tg_lastRunAt :: "time_ms option"
  tg_once :: bool
  tg_origin :: "(ScheduleOnceOrigin \<times> string) option" \<comment> \<open>with the name of the schedule\<close>

record Choices =
  hc_harness :: "string option"
  hc_model :: "string option"
  hc_settings :: "settings option"

record RunnerDeps =
  rd_recur :: "ScheduleKind \<Rightarrow> time_ms \<Rightarrow> NextFire"
  rd_resolveProfile :: profile_resolver
  rd_ensureDefault :: "agent_id \<Rightarrow> FireError + ActivityStamp option"
  rd_scheduleModelFor :: "agent_id \<Rightarrow> string \<Rightarrow> FireError + string option"
  rd_firePair :: "(agent_id \<Rightarrow> string option \<Rightarrow> string option \<Rightarrow> FireError + SessionPair option) option"
  rd_boundary :: "(agent_id \<Rightarrow> SessionPair \<Rightarrow> settings \<Rightarrow> FireError + settings) option"
  rd_validateSessionChoices :: "agent_id \<Rightarrow> Choices \<Rightarrow> FireError + string option"
  rd_spendHold :: "agent_id \<Rightarrow> string option \<Rightarrow> FireError + SpendHoldReason option"
  rd_onboardingPending :: "agent_id \<Rightarrow> FireError + bool"
  rd_agentDisabled :: "agent_id \<Rightarrow> FireError + bool"
  rd_defaultPendingAfterMove :: "agent_id \<Rightarrow> FireError + bool"
  rd_wakeAgent :: "agent_id \<Rightarrow> FireError + ActivityStamp option"
  rd_commitFails :: "FireError option"
  rd_enqueueFails :: "FireError option"
  rd_statusFails :: "FireError option" \<comment> \<open>a write of a status outside a transaction\<close>
  rd_queueFails :: "FireError option"
  rd_stashFails :: bool
  rd_restoreFails :: bool
  rd_encode :: "TriggerPayload \<Rightarrow> string"

datatype ScheduleEvent =
    ScheduleCreated string agent_id user_sub
  | ScheduleUpdated string agent_id user_sub
  | ScheduleDeleted string agent_id user_sub
  | ScheduleFired string agent_id user_sub SessionMode bool "string option" \<comment> \<open>success, and the harness it ran on\<close>
  | PrecheckReported string agent_id user_sub

record 'd ScheduleWorld =
  kw_table :: "ScheduleRow table"
  kw_jobs :: "FireJob list"
  kw_delivery :: "'d DeliveryWorld"
  kw_stamps :: "(string \<times> ActivityStamp) list" \<comment> \<open>the stamps of fires that wait for a precheck\<close>
  kw_firedHarness :: "(string \<times> string) list" \<comment> \<open>the oldest first\<close>
  kw_emitted :: "ScheduleEvent list"
  kw_sent :: "(string \<times> string \<times> bool) list" \<comment> \<open>the triggers that were committed: schedule, event, whether it runs once\<close>
  kw_restored :: "(agent_id \<times> ActivityStamp) list" \<comment> \<open>the activity that was given back\<close>

definition map_table :: "(ScheduleRow table \<Rightarrow> ScheduleRow table) \<Rightarrow> 'd ScheduleWorld \<Rightarrow> 'd ScheduleWorld" where
  "map_table f w = w\<lparr>kw_table := f (kw_table w)\<rparr>"

definition map_jobs :: "(FireJob list \<Rightarrow> FireJob list) \<Rightarrow> 'd ScheduleWorld \<Rightarrow> 'd ScheduleWorld" where
  "map_jobs f w = w\<lparr>kw_jobs := f (kw_jobs w)\<rparr>"

type_synonym 'd outcome = "FireError option \<times> 'd ScheduleWorld"

text \<open>A statement that may fail, and one whose failure is swallowed.\<close>

definition put_table :: "RunnerDeps \<Rightarrow> (ScheduleRow table \<Rightarrow> ScheduleRow table) \<Rightarrow> 'd ScheduleWorld \<Rightarrow> 'd outcome" where
  "put_table deps f w = (case rd_statusFails deps of Some e \<Rightarrow> (Some e, w) | None \<Rightarrow> (None, map_table f w))"

definition put_status :: "RunnerDeps \<Rightarrow> string \<Rightarrow> ScheduleStatusWrite \<Rightarrow> 'd ScheduleWorld \<Rightarrow> 'd outcome" where
  "put_status deps i patch = put_table deps (writeStatus i patch)"

definition try_status :: "RunnerDeps \<Rightarrow> string \<Rightarrow> ScheduleStatusWrite \<Rightarrow> 'd ScheduleWorld \<Rightarrow> 'd ScheduleWorld" where
  "try_status deps i patch w = snd (put_status deps i patch w)"

definition put_jobs :: "RunnerDeps \<Rightarrow> (FireJob list \<Rightarrow> FireJob list) \<Rightarrow> 'd ScheduleWorld \<Rightarrow> 'd outcome" where
  "put_jobs deps f w = (case rd_queueFails deps of Some e \<Rightarrow> (Some e, w) | None \<Rightarrow> (None, map_jobs f w))"

definition and_then :: "'d outcome \<Rightarrow> ('d ScheduleWorld \<Rightarrow> 'd outcome) \<Rightarrow> 'd outcome" where
  "and_then r f = (case r of (Some e, w) \<Rightarrow> (Some e, w) | (None, w) \<Rightarrow> f w)"

definition next_run :: "time_ms option \<Rightarrow> ScheduleStatusWrite" where
  "next_run t = \<lparr>wr_lastFiredAt = None, wr_lastFiredResult = None, wr_nextRun = Some t\<rparr>"

definition result_and_next :: "string option \<Rightarrow> time_ms option \<Rightarrow> ScheduleStatusWrite" where
  "result_and_next result t = \<lparr>wr_lastFiredAt = None, wr_lastFiredResult = Some result, wr_nextRun = Some t\<rparr>"

definition fired_status :: "time_ms \<Rightarrow> string \<Rightarrow> time_ms option \<Rightarrow> ScheduleStatusWrite" where
  "fired_status now result t = \<lparr>wr_lastFiredAt = Some now, wr_lastFiredResult = Some (Some result), wr_nextRun = Some t\<rparr>"

definition emit_for :: "string \<Rightarrow> (user_sub \<Rightarrow> ScheduleEvent) \<Rightarrow> 'd ScheduleWorld \<Rightarrow> 'd ScheduleWorld" where
  "emit_for i event w =
     (case nonempty (getOwnerById i (kw_table w)) of None \<Rightarrow> w | Some owner \<Rightarrow> w\<lparr>kw_emitted := kw_emitted w @ [event owner]\<rparr>)"

definition emitChanged :: "agent_id \<Rightarrow> string \<Rightarrow> 'd ScheduleWorld \<Rightarrow> 'd ScheduleWorld" where
  "emitChanged agentId i w = emit_for i (ScheduleUpdated i agentId) w"

definition session_mode :: "ScheduleSpec \<Rightarrow> SessionMode" where
  "session_mode spec = (case spc_sessionMode spec of None \<Rightarrow> FreshSession | Some m \<Rightarrow> m)"

definition emitFired :: "Schedule \<Rightarrow> bool \<Rightarrow> 'd ScheduleWorld \<Rightarrow> 'd ScheduleWorld" where
  "emitFired sched success w =
     emit_for (se_id sched) (\<lambda>owner. ScheduleFired (se_id sched) (se_agentId sched) owner (session_mode (se_spec sched)) success
        (map_of (kw_firedHarness w) (se_id sched))) w"

definition FIRED_HARNESS_CAP :: nat where "FIRED_HARNESS_CAP = 1000"

definition rememberFiredHarness :: "string \<Rightarrow> string \<Rightarrow> (string \<times> string) list \<Rightarrow> (string \<times> string) list" where
  "rememberFiredHarness i harness m =
     (let m1 = filter (\<lambda>e. fst e \<noteq> i) m @ [(i, harness)] in if length m1 \<le> FIRED_HARNESS_CAP then m1 else tl m1)"

section \<open>The payload of a fire\<close>

definition continues_session :: "ScheduleSpec \<Rightarrow> bool" where
  "continues_session spec =
     (case spc_kind spec of OnceSchedule _ _ (Some origin) \<Rightarrow> oo_mode origin = ContinueSession | _ \<Rightarrow> False)"

text \<open>\<^verbatim>\<open>{...a, ...b}\<close> on settings: a key of the second replaces the value where the first has it.\<close>

definition merge_settings :: "settings \<Rightarrow> settings \<Rightarrow> settings" where
  "merge_settings a b =
     map (\<lambda>(k, v). (k, case map_of b k of None \<Rightarrow> v | Some v' \<Rightarrow> v')) a @ filter (\<lambda>(k, _). map_of a k = None) b"

definition NO_PROVIDER :: string where
  "NO_PROVIDER = ''no model provider granted to this agent can run its harness; grant one to run this schedule''"

text \<open>The settings of a run: its own slots, or those of the pair, as the boundary derives them.\<close>

definition payload_settings :: "RunnerDeps \<Rightarrow> Schedule \<Rightarrow> SessionPair option \<Rightarrow> FireError + settings option" where
  "payload_settings deps sched pair =
     (let spec = se_spec sched;
          slots = (if spc_settings spec = None \<and> se_subagentSettings sched = None then None
                   else Some (merge_settings (case spc_settings spec of None \<Rightarrow> [] | Some s \<Rightarrow> s)
                                (case se_subagentSettings sched of None \<Rightarrow> [] | Some s \<Rightarrow> s)));
          held = (case slots of Some s \<Rightarrow> Some s | None \<Rightarrow> Option.bind pair sn_settings)
      in case (held, pair, rd_boundary deps) of
           (Some h, Some p, Some boundary) \<Rightarrow> map_sum id Some (boundary (se_agentId sched) p h)
         | _ \<Rightarrow> Inr held)"

definition names_own_choices :: "Schedule \<Rightarrow> bool" where
  "names_own_choices sched \<longleftrightarrow>
     nonempty (spc_harness (se_spec sched)) \<noteq> None \<or> nonempty (spc_model (se_spec sched)) \<noteq> None
     \<or> (case spc_settings (se_spec sched) of None \<Rightarrow> False | Some s \<Rightarrow> s \<noteq> []) \<or> se_subagentSettings sched \<noteq> None"

definition fire_pair :: "RunnerDeps \<Rightarrow> Schedule \<Rightarrow> string option \<Rightarrow> FireError + SessionPair option" where
  "fire_pair deps sched model =
     (case (continues_session (se_spec sched), rd_firePair deps) of
        (False, Some pick) \<Rightarrow>
          (case pick (se_agentId sched) (nonempty (spc_harness (se_spec sched))) (nonempty model) of
             Inl e \<Rightarrow> Inl e
           | Inr None \<Rightarrow> Inl (FireFailure NO_PROVIDER)
           | Inr (Some p) \<Rightarrow> Inr (Some p))
      | _ \<Rightarrow> Inr None)"

definition checked_choices :: "RunnerDeps \<Rightarrow> Schedule \<Rightarrow> string option \<Rightarrow> settings option \<Rightarrow> FireError option" where
  "checked_choices deps sched model s =
     (let choices = \<lparr>hc_harness = nonempty (spc_harness (se_spec sched)), hc_model = nonempty model, hc_settings = s\<rparr>
      in if continues_session (se_spec sched) \<or> (hc_harness choices = None \<and> hc_model choices = None \<and> s = None) then None
         else case rd_validateSessionChoices deps (se_agentId sched) choices of
                Inl e \<Rightarrow> Some e
              | Inr refusal \<Rightarrow> map_option FireFailure (nonempty refusal))"

definition base_payload :: "Schedule \<Rightarrow> time_ms \<Rightarrow> TriggerPayload" where
  "base_payload sched fireAt =
     (let spec = se_spec sched
      in \<lparr>tg_scheduleId = se_id sched, tg_task = (case spc_task spec of None \<Rightarrow> [] | Some t \<Rightarrow> t), tg_fireAt = fireAt,
          tg_sessionMode = spc_sessionMode spec, tg_precheck = nonempty (spc_precheck spec), tg_sessionTitle = nonempty (spc_sessionTitle spec),
          tg_model = None, tg_harness = None, tg_provider = None, tg_settings = None, tg_onDefault = False,
          tg_lastRunAt = se_lastRun sched, tg_once = is_once spec,
          tg_origin = (case spc_kind spec of OnceSchedule _ _ (Some origin) \<Rightarrow> Some (origin, se_name sched) | _ \<Rightarrow> None)\<rparr>)"

text \<open>What a run needs before its payload is made: the stamp of an early wake, the model, the pair and the settings.\<close>

definition payload_parts ::
  "RunnerDeps \<Rightarrow> Schedule \<Rightarrow> bool \<Rightarrow> FireError + ActivityStamp option \<times> string option \<times> SessionPair option \<times> settings option" where
  "payload_parts deps sched wakeFirst =
     (case se_profileIssue sched of
        Some issue \<Rightarrow> Inl (ProfileRefused (''this schedule'' @ [CHR 0x27] @ ''s profile cannot run: '' @ issue))
      | None \<Rightarrow>
     (case (if \<not> continues_session (se_spec sched) \<and> wakeFirst then rd_ensureDefault deps (se_agentId sched) else Inr None) of
        Inl e \<Rightarrow> Inl e
      | Inr early \<Rightarrow>
     (case (case nonempty (spc_model (se_spec sched)) of None \<Rightarrow> Inr None | Some m \<Rightarrow> rd_scheduleModelFor deps (se_agentId sched) m) of
        Inl e \<Rightarrow> Inl e
      | Inr model \<Rightarrow>
     (case fire_pair deps sched model of
        Inl e \<Rightarrow> Inl e
      | Inr pair \<Rightarrow>
     (case payload_settings deps sched pair of
        Inl e \<Rightarrow> Inl e
      | Inr s \<Rightarrow>
     (case checked_choices deps sched model s of
        Some e \<Rightarrow> Inl e
      | None \<Rightarrow> Inr (early, model, pair, s)))))))"

text \<open>The harness of the pair is remembered once the choices have passed.\<close>

definition remember_pair :: "string \<Rightarrow> SessionPair option \<Rightarrow> 'd ScheduleWorld \<Rightarrow> 'd ScheduleWorld" where
  "remember_pair i pair w =
     (case pair of None \<Rightarrow> w | Some p \<Rightarrow> w\<lparr>kw_firedHarness := rememberFiredHarness i (sn_harness p) (kw_firedHarness w)\<rparr>)"

definition triggerPayload ::
  "RunnerDeps \<Rightarrow> Schedule \<Rightarrow> time_ms \<Rightarrow> bool \<Rightarrow> 'd ScheduleWorld
   \<Rightarrow> (FireError + TriggerPayload \<times> ActivityStamp option) \<times> 'd ScheduleWorld" where
  "triggerPayload deps sched fireAt wakeFirst w =
     (case payload_parts deps sched wakeFirst of
        Inl e \<Rightarrow> (Inl e, w)
      | Inr (early, model, pair, s) \<Rightarrow>
          (Inr ((base_payload sched fireAt)
                  \<lparr>tg_model := (case pair of None \<Rightarrow> nonempty model | Some p \<Rightarrow> sn_model p),
                   tg_harness := map_option sn_harness pair, tg_provider := Option.bind pair sn_provider, tg_settings := s,
                   tg_onDefault := (pair \<noteq> None \<and> \<not> names_own_choices sched)\<rparr>, early),
           remember_pair (se_id sched) pair w))"

definition hold_result :: "SpendHoldReason \<Rightarrow> string" where
  "hold_result reason =
     (case reason of HoldLimit \<Rightarrow> ''held: spend limit reached for today'' | HoldCeiling \<Rightarrow> ''held: spend ceiling reached for today'')"

definition spendHeld :: "RunnerDeps \<Rightarrow> Schedule \<Rightarrow> TriggerPayload \<Rightarrow> FireError + SpendHoldReason option" where
  "spendHeld deps sched payload = rd_spendHold deps (se_agentId sched) (tg_provider payload)"

text \<open>The payload of a trigger, the stamp of an early wake and why the spend gate holds it, if it does.\<close>

definition prepareTrigger ::
  "RunnerDeps \<Rightarrow> Schedule \<Rightarrow> time_ms \<Rightarrow> bool \<Rightarrow> 'd ScheduleWorld
   \<Rightarrow> (FireError + TriggerPayload \<times> ActivityStamp option \<times> SpendHoldReason option) \<times> 'd ScheduleWorld" where
  "prepareTrigger deps sched fireAt wakeFirst w =
     (case triggerPayload deps sched fireAt wakeFirst w of
        (Inl e, w1) \<Rightarrow> (Inl e, w1)
      | (Inr (payload, early), w1) \<Rightarrow>
          (case spendHeld deps sched payload of Inl e \<Rightarrow> (Inl e, w1) | Inr held \<Rightarrow> (Inr (payload, early, held), w1)))"

section \<open>Sending a trigger\<close>

definition fire_event_id :: "string \<Rightarrow> time_ms \<Rightarrow> string" where
  "fire_event_id i fireAt = i @ '':'' @ show_int fireAt"

definition trigger_event :: "RunnerDeps \<Rightarrow> string \<Rightarrow> TriggerPayload \<Rightarrow> time_ms \<Rightarrow> OutboxEvent" where
  "trigger_event deps eventId payload expiresAt =
     \<lparr>oe_id = eventId, oe_kind = Trigger, oe_payload = OtherPayload (rd_encode deps payload), oe_expiresAt = expiresAt\<rparr>"

definition note_sent :: "Schedule \<Rightarrow> string \<Rightarrow> 'd ScheduleWorld \<Rightarrow> 'd ScheduleWorld" where
  "note_sent sched eventId w = w\<lparr>kw_sent := kw_sent w @ [(se_id sched, eventId, is_once (se_spec sched))]\<rparr>"

definition bump_world :: "time_ms \<Rightarrow> agent_id \<Rightarrow> OutboxEvent \<Rightarrow> 'd ScheduleWorld \<Rightarrow> 'd ScheduleWorld" where
  "bump_world now agentId event w =
     w\<lparr>kw_delivery := (kw_delivery w)\<lparr>dw_outbox := snd (mutator_bump now agentId [event] (dw_outbox (kw_delivery w)))\<rparr>\<rparr>"

text \<open>The trigger of a one-time schedule and its status are one transaction.\<close>

definition commitTrigger ::
  "RunnerDeps \<Rightarrow> time_ms \<Rightarrow> Schedule \<Rightarrow> string \<Rightarrow> TriggerPayload \<Rightarrow> time_ms \<Rightarrow> 'd ScheduleWorld \<Rightarrow> 'd outcome" where
  "commitTrigger deps now sched eventId payload expiresAt w =
     (case rd_commitFails deps of
        Some e \<Rightarrow> (Some e, w)
      | None \<Rightarrow>
          (None, note_sent sched eventId (bump_world now (se_agentId sched) (trigger_event deps eventId payload expiresAt)
             (if is_once (se_spec sched) then map_table (writeStatus (se_id sched) (fired_status now OnceDelivering None)) w else w))))"

definition pokeAgent :: "RunnerDeps \<Rightarrow> Schedule \<Rightarrow> string \<Rightarrow> ActivityStamp option \<Rightarrow> 'd ScheduleWorld \<Rightarrow> 'd outcome" where
  "pokeAgent deps sched eventId early w =
     (case rd_enqueueFails deps of
        Some e \<Rightarrow> (Some e, w)
      | None \<Rightarrow>
          let w1 = w\<lparr>kw_delivery := enqueue (se_agentId sched) False (kw_delivery w)\<rparr>
          in case rd_wakeAgent deps (se_agentId sched) of
               Inl e \<Rightarrow> (Some e, w1)
             | Inr woke \<Rightarrow>
                 let stamp = (case (woke, early) of
                                (Some k, Some y) \<Rightarrow> Some \<lparr>ay_previous = ay_previous y, ay_written = ay_written k\<rparr>
                              | _ \<Rightarrow> woke)
                 in (None, case stamp of
                             Some s \<Rightarrow> if nonempty (spc_precheck (se_spec sched)) \<noteq> None \<and> \<not> rd_stashFails deps
                                       then w1\<lparr>kw_stamps := (eventId, s) # filter (\<lambda>e. fst e \<noteq> eventId) (kw_stamps w1)\<rparr> else w1
                           | None \<Rightarrow> w1))"

section \<open>A fire\<close>

definition once_missed :: "RunnerDeps \<Rightarrow> time_ms \<Rightarrow> Schedule \<Rightarrow> 'd ScheduleWorld \<Rightarrow> 'd outcome" where
  "once_missed deps now sched w =
     and_then (put_status deps (se_id sched) (fired_status now OnceMissed None) w) (\<lambda>w1. (None, emitChanged (se_agentId sched) (se_id sched) w1))"

text \<open>Waiting for a later try: the status names the time and the queue has the job.\<close>

definition wait_until :: "RunnerDeps \<Rightarrow> string \<Rightarrow> time_ms \<Rightarrow> 'd ScheduleWorld \<Rightarrow> 'd outcome" where
  "wait_until deps i t w = and_then (put_status deps i (next_run (Some t)) w) (put_jobs deps (queue_ensure i t))"

text \<open>
  The commit of a one-time schedule: an error, or the stamp of an early wake when the trigger is
  written, or nothing when the schedule is held and waits for its next try.
\<close>

definition once_commit ::
  "RunnerDeps \<Rightarrow> time_ms \<Rightarrow> Schedule \<Rightarrow> time_ms \<Rightarrow> time_ms \<Rightarrow> 'd ScheduleWorld \<Rightarrow> (FireError + ActivityStamp option option) \<times> 'd ScheduleWorld" where
  "once_commit deps now sched fireAt expiresAt w =
     (case prepareTrigger deps sched fireAt True w of
        (Inl e, w1) \<Rightarrow> (Inl e, w1)
      | (Inr (payload, early, Some _), w1) \<Rightarrow>
          (case wait_until deps (se_id sched) (min (nextUtcMidnight now) expiresAt) w1 of
             (Some e, w2) \<Rightarrow> (Inl e, w2)
           | (None, w2) \<Rightarrow> (Inr None, emitChanged (se_agentId sched) (se_id sched) w2))
      | (Inr (payload, early, None), w1) \<Rightarrow>
          (case commitTrigger deps now sched (fire_event_id (se_id sched) fireAt) payload expiresAt w1 of
             (Some e, w2) \<Rightarrow> (Inl e, w2)
           | (None, w2) \<Rightarrow> (Inr (Some early), w2)))"

definition once_failed :: "RunnerDeps \<Rightarrow> time_ms \<Rightarrow> Schedule \<Rightarrow> bool \<Rightarrow> FireError \<Rightarrow> 'd ScheduleWorld \<Rightarrow> 'd outcome" where
  "once_failed deps now sched lastAttempt e w =
     (let final = (lastAttempt \<or> is_final_error e);
          w1 = (if final then emitFired sched False (try_status deps (se_id sched) (fired_status now (error_message e) None) w) else w)
      in (if final \<and> \<not> lastAttempt then None else Some e, w1))"

definition fireOnce :: "RunnerDeps \<Rightarrow> time_ms \<Rightarrow> Schedule \<Rightarrow> time_ms \<Rightarrow> time_ms \<Rightarrow> bool \<Rightarrow> 'd ScheduleWorld \<Rightarrow> 'd outcome" where
  "fireOnce deps now sched at' fireAt lastAttempt w =
     (let eventId = fire_event_id (se_id sched) fireAt
      in case onceFireAction at' (se_lastResult sched) now of
           DropFire \<Rightarrow> (None, w)
         | MissedFire \<Rightarrow> once_missed deps now sched w
         | PokeFire \<Rightarrow> pokeAgent deps sched eventId None w
         | CommitFire expiresAt \<Rightarrow>
             (case rd_agentDisabled deps (se_agentId sched) of
                Inl e \<Rightarrow> (Some e, w)
              | Inr True \<Rightarrow> once_missed deps now sched w
              | Inr False \<Rightarrow>
                  (case once_commit deps now sched fireAt expiresAt w of
                     (Inl e, w1) \<Rightarrow> once_failed deps now sched lastAttempt e w1
                   | (Inr None, w1) \<Rightarrow> (None, w1)
                   | (Inr (Some early), w1) \<Rightarrow> pokeAgent deps sched eventId early w1)))"

definition TRIGGER_TTL_SECONDS :: int where "TRIGGER_TTL_SECONDS = 3600"

definition enqueue_next :: "RunnerDeps \<Rightarrow> string \<Rightarrow> time_ms option \<Rightarrow> 'd ScheduleWorld \<Rightarrow> 'd outcome" where
  "enqueue_next deps i next w = (case next of None \<Rightarrow> (None, w) | Some t \<Rightarrow> put_jobs deps (queue_enqueue i t) w)"

definition hold_fire :: "RunnerDeps \<Rightarrow> time_ms \<Rightarrow> Schedule \<Rightarrow> string \<Rightarrow> 'd ScheduleWorld \<Rightarrow> 'd outcome" where
  "hold_fire deps now sched result w =
     (let after = nextFireAt (rd_recur deps) (se_spec sched) now
      in enqueue_next deps (se_id sched) after (try_status deps (se_id sched) (result_and_next (Some result) after) w))"

text \<open>The part of a fire that its \<^verbatim>\<open>catch\<close> covers: the error with the stage that it hit, or whether a trigger went out.\<close>

definition recurring_commit ::
  "RunnerDeps \<Rightarrow> time_ms \<Rightarrow> Schedule \<Rightarrow> time_ms \<Rightarrow> 'd ScheduleWorld \<Rightarrow> (FireError \<times> bool + bool) \<times> 'd ScheduleWorld" where
  "recurring_commit deps now sched fireAt w =
     (let eventId = fire_event_id (se_id sched) fireAt;
          expiresAt = triggerExpiry now (nextFireAt (rd_recur deps) (se_spec sched) now) TRIGGER_TTL_SECONDS
      in case prepareTrigger deps sched fireAt True w of
           (Inl e, w1) \<Rightarrow> (Inl (e, False), w1)
         | (Inr (payload, early, Some reason), w1) \<Rightarrow>
             (case hold_fire deps now sched (hold_result reason) w1 of
                (Some e, w2) \<Rightarrow> (Inl (e, False), w2)
              | (None, w2) \<Rightarrow> (Inr False, w2))
         | (Inr (payload, early, None), w1) \<Rightarrow>
             (case commitTrigger deps now sched eventId payload expiresAt w1 of
                (Some e, w2) \<Rightarrow> (Inl (e, False), w2)
              | (None, w2) \<Rightarrow>
                  (case pokeAgent deps sched eventId early w2 of
                     (Some e, w3) \<Rightarrow> (Inl (e, True), w3)
                   | (None, w3) \<Rightarrow> (Inr True, w3))))"

definition recurring_failed ::
  "RunnerDeps \<Rightarrow> time_ms \<Rightarrow> Schedule \<Rightarrow> time_ms \<Rightarrow> bool \<Rightarrow> FireError \<Rightarrow> bool \<Rightarrow> 'd ScheduleWorld \<Rightarrow> 'd outcome" where
  "recurring_failed deps now sched fireAt lastAttempt e poked w =
     (let result = error_message e;
          final = (lastAttempt \<or> is_final_error e);
          after = (if final then nextFireAt (rd_recur deps) (se_spec sched) now else Some fireAt);
          w1 = try_status deps (se_id sched) (if poked then fired_status now result after else result_and_next (Some result) after) w
      in if \<not> final then (Some e, w1)
         else and_then (enqueue_next deps (se_id sched) after w1)
                (\<lambda>w2. (if lastAttempt then Some e else None, emitFired sched False w2)))"

definition recurring_succeeded :: "RunnerDeps \<Rightarrow> time_ms \<Rightarrow> Schedule \<Rightarrow> 'd ScheduleWorld \<Rightarrow> 'd outcome" where
  "recurring_succeeded deps now sched w =
     (let next = nextFireAt (rd_recur deps) (se_spec sched) now;
          status = (if nonempty (spc_precheck (se_spec sched)) = None then fired_status now ''success'' next
                    else if isFailureResult (se_lastResult sched) then result_and_next None next
                    else next_run next)
      in and_then (put_status deps (se_id sched) status w)
           (\<lambda>w1. and_then (enqueue_next deps (se_id sched) next w1) (\<lambda>w2. (None, emitFired sched True w2))))"

definition fireRecurring :: "RunnerDeps \<Rightarrow> time_ms \<Rightarrow> Schedule \<Rightarrow> time_ms \<Rightarrow> bool \<Rightarrow> 'd ScheduleWorld \<Rightarrow> 'd outcome" where
  "fireRecurring deps now sched fireAt lastAttempt w =
     (case rd_onboardingPending deps (se_agentId sched) of
        Inl e \<Rightarrow> (Some e, w)
      | Inr True \<Rightarrow> hold_fire deps now sched ''held: onboarding not complete'' w
      | Inr False \<Rightarrow>
          (case rd_agentDisabled deps (se_agentId sched) of
             Inl e \<Rightarrow> (Some e, w)
           | Inr True \<Rightarrow> hold_fire deps now sched ''held: agent disabled'' w
           | Inr False \<Rightarrow>
               (case recurring_commit deps now sched fireAt w of
                  (Inl (e, poked), w1) \<Rightarrow> recurring_failed deps now sched fireAt lastAttempt e poked w1
                | (Inr False, w1) \<Rightarrow> (None, w1)
                | (Inr True, w1) \<Rightarrow> recurring_succeeded deps now sched w1)))"

text \<open>A fire after it has read its schedule, and a fire; others can change the world after the reading.\<close>

definition fire_read :: "RunnerDeps \<Rightarrow> time_ms \<Rightarrow> Schedule option \<Rightarrow> time_ms \<Rightarrow> bool \<Rightarrow> 'd ScheduleWorld \<Rightarrow> 'd outcome" where
  "fire_read deps now read fireAt lastAttempt w =
     (case read of
        None \<Rightarrow> (None, w)
      | Some sched \<Rightarrow>
          if \<not> spc_enabled (se_spec sched) then (None, w)
          else case spc_kind (se_spec sched) of
                 OnceSchedule at' _ _ \<Rightarrow> fireOnce deps now sched at' fireAt lastAttempt w
               | _ \<Rightarrow> fireRecurring deps now sched fireAt lastAttempt w)"

definition fire ::
  "RunnerDeps \<Rightarrow> time_ms \<Rightarrow> ('d ScheduleWorld \<Rightarrow> 'd ScheduleWorld) \<Rightarrow> string \<Rightarrow> time_ms \<Rightarrow> bool \<Rightarrow> 'd ScheduleWorld \<Rightarrow> 'd outcome" where
  "fire deps now others i fireAt lastAttempt w =
     fire_read deps now (schedule_getById (rd_resolveProfile deps) i (kw_table w)) fireAt lastAttempt (others w)"

section \<open>The other operations of the runner\<close>

definition upcoming :: "RunnerDeps \<Rightarrow> time_ms \<Rightarrow> Schedule \<Rightarrow> time_ms option" where
  "upcoming deps now sched =
     (case spc_kind (se_spec sched) of
        OnceSchedule at' _ _ \<Rightarrow> onceFireAt at' (se_lastRun sched) now
      | _ \<Rightarrow> nextFireAt (rd_recur deps) (se_spec sched) now)"

definition runner_cancel :: "RunnerDeps \<Rightarrow> string \<Rightarrow> 'd ScheduleWorld \<Rightarrow> 'd outcome" where
  "runner_cancel deps i w = and_then (put_jobs deps (queue_cancel i) w) (put_status deps i (next_run None))"

definition runner_sync :: "RunnerDeps \<Rightarrow> time_ms \<Rightarrow> string \<Rightarrow> 'd ScheduleWorld \<Rightarrow> 'd outcome" where
  "runner_sync deps now i w =
     (case schedule_getById (rd_resolveProfile deps) i (kw_table w) of
        None \<Rightarrow> runner_cancel deps i w
      | Some sched \<Rightarrow>
          if \<not> spc_enabled (se_spec sched) then runner_cancel deps i w
          else let next = upcoming deps now sched
               in and_then (put_status deps i (next_run next) w)
                    (put_jobs deps (case next of Some t \<Rightarrow> queue_enqueue i t | None \<Rightarrow> queue_cancel i)))"

datatype RunNowResult = RunStarted | RunOnboardingPending | RunSpendLimit | RunSpendCeiling | RunNoDefaultModel | RunDefaultPending

definition run_event_id :: "string \<Rightarrow> time_ms \<Rightarrow> string" where
  "run_event_id i now = ''run:'' @ i @ '':'' @ show_int now"

text \<open>A status write of a run on demand leaves the time of the next fire as it is.\<close>

definition run_status :: "time_ms option \<Rightarrow> string option \<Rightarrow> ScheduleStatusWrite" where
  "run_status firedAt result = \<lparr>wr_lastFiredAt = firedAt, wr_lastFiredResult = Some result, wr_nextRun = None\<rparr>"

definition run_commit_failed :: "RunnerDeps \<Rightarrow> time_ms \<Rightarrow> Schedule \<Rightarrow> FireError \<Rightarrow> 'd ScheduleWorld \<Rightarrow> (FireError + RunNowResult) \<times> 'd ScheduleWorld" where
  "run_commit_failed deps now sched e w =
     (let w1 = emitFired sched False w
      in if is_final_error e
         then (Inr RunNoDefaultModel, try_status deps (se_id sched) (run_status (Some now) (Some (error_message e))) w1)
         else (Inl e, w1))"

definition run_done :: "RunnerDeps \<Rightarrow> time_ms \<Rightarrow> Schedule \<Rightarrow> 'd ScheduleWorld \<Rightarrow> 'd outcome" where
  "run_done deps now sched w =
     (if nonempty (spc_precheck (se_spec sched)) = None then put_status deps (se_id sched) (run_status (Some now) (Some ''success'')) w
      else if isFailureResult (se_lastResult sched) then put_status deps (se_id sched) (run_status None None) w
      else (None, w))"

definition run_poke :: "RunnerDeps \<Rightarrow> time_ms \<Rightarrow> Schedule \<Rightarrow> ActivityStamp option \<Rightarrow> 'd ScheduleWorld \<Rightarrow> (FireError + RunNowResult) \<times> 'd ScheduleWorld" where
  "run_poke deps now sched early w =
     (case pokeAgent deps sched (run_event_id (se_id sched) now) early w of
        (Some e, w1) \<Rightarrow>
          (Inl e, emitFired sched False (try_status deps (se_id sched) (run_status (Some now) (Some (error_message e))) w1))
      | (None, w1) \<Rightarrow>
          (case run_done deps now sched w1 of
             (Some e, w2) \<Rightarrow> (Inl e, w2)
           | (None, w2) \<Rightarrow> (Inr RunStarted, emitFired sched True w2)))"

definition run_start :: "RunnerDeps \<Rightarrow> time_ms \<Rightarrow> Schedule \<Rightarrow> 'd ScheduleWorld \<Rightarrow> (FireError + RunNowResult) \<times> 'd ScheduleWorld" where
  "run_start deps now sched w =
     (case prepareTrigger deps sched now False w of
        (Inl e, w1) \<Rightarrow> run_commit_failed deps now sched e w1
      | (Inr (payload, early, Some reason), w1) \<Rightarrow> (Inr (case reason of HoldLimit \<Rightarrow> RunSpendLimit | HoldCeiling \<Rightarrow> RunSpendCeiling), w1)
      | (Inr (payload, early, None), w1) \<Rightarrow>
          (case commitTrigger deps now sched (run_event_id (se_id sched) now) payload (now + TRIGGER_TTL_SECONDS * 1000) w1 of
             (Some e, w2) \<Rightarrow> run_commit_failed deps now sched e w2
           | (None, w2) \<Rightarrow> run_poke deps now sched early w2))"

definition runNow :: "RunnerDeps \<Rightarrow> time_ms \<Rightarrow> string \<Rightarrow> 'd ScheduleWorld \<Rightarrow> (FireError + RunNowResult) \<times> 'd ScheduleWorld" where
  "runNow deps now i w =
     (case schedule_getById (rd_resolveProfile deps) i (kw_table w) of
        None \<Rightarrow> (Inl (FireFailure (''schedule '' @ i @ '' not found'')), w)
      | Some sched \<Rightarrow>
          (case (rd_onboardingPending deps (se_agentId sched), rd_defaultPendingAfterMove deps (se_agentId sched)) of
             (Inl e, _) \<Rightarrow> (Inl e, w)
           | (Inr True, _) \<Rightarrow> (Inr RunOnboardingPending, w)
           | (Inr False, Inl e) \<Rightarrow> (Inl e, w)
           | (Inr False, Inr True) \<Rightarrow> (Inr RunDefaultPending, w)
           | (Inr False, Inr False) \<Rightarrow> run_start deps now sched w))"

definition resetSession :: "RunnerDeps \<Rightarrow> time_ms \<Rightarrow> string \<Rightarrow> 'd ScheduleWorld \<Rightarrow> 'd outcome" where
  "resetSession deps now i w =
     (case schedule_getById (rd_resolveProfile deps) i (kw_table w) of
        None \<Rightarrow> (None, w)
      | Some sched \<Rightarrow>
          (case rd_commitFails deps of
             Some e \<Rightarrow> (Some e, w)
           | None \<Rightarrow>
               let w1 = bump_world now (se_agentId sched)
                          \<lparr>oe_id = ''reset:'' @ i @ '':'' @ show_int now, oe_kind = ScheduleReset, oe_payload = OtherPayload i,
                           oe_expiresAt = now + TRIGGER_TTL_SECONDS * 1000\<rparr> w
               in (case rd_enqueueFails deps of
                     Some e \<Rightarrow> (Some e, w1)
                   | None \<Rightarrow> (None, w1\<lparr>kw_delivery := enqueue (se_agentId sched) False (kw_delivery w1)\<rparr>))))"

text \<open>What the runtime reports of a fire; the stage is whether the run itself is meant.\<close>

record FireReport =
  rt_scheduleId :: string
  rt_eventId :: string
  rt_ranPrecheck :: "string option"
  rt_outcome :: EventOutcome
  rt_runStage :: bool
  rt_detail :: "string option"

fun verdict_of :: "EventOutcome \<Rightarrow> PrecheckVerdict" where
  "verdict_of OutcomeOk = PrecheckAllowed"
| "verdict_of OutcomeDeclined = PrecheckDeclined"
| "verdict_of OutcomeFailed = PrecheckBroken"

definition report_status :: "RunnerDeps \<Rightarrow> time_ms \<Rightarrow> FireReport \<Rightarrow> Schedule \<Rightarrow> 'd ScheduleWorld \<Rightarrow> 'd outcome" where
  "report_status deps now input sched w =
     (if rt_runStage input \<and> rt_outcome input = OutcomeFailed
      then put_status deps (rt_scheduleId input)
             (run_status None (Some (case rt_detail input of None \<Rightarrow> ''the run could not start'' | Some d \<Rightarrow> d))) w
      else if spc_precheck (se_spec sched) = rt_ranPrecheck input
      then put_table deps (applyStatusPatch (rt_scheduleId input)
             (statusForVerdict (verdict_of (rt_outcome input)) now
                (Some (case rt_detail input of None \<Rightarrow> ''precheck failed'' | Some d \<Rightarrow> d)) (se_lastResult sched))) w
      else (None, w))"

definition give_activity_back :: "RunnerDeps \<Rightarrow> agent_id \<Rightarrow> string \<Rightarrow> 'd ScheduleWorld \<Rightarrow> 'd ScheduleWorld" where
  "give_activity_back deps agentId eventId w =
     (case map_of (kw_stamps w) eventId of
        None \<Rightarrow> w
      | Some stamp \<Rightarrow>
          w\<lparr>kw_stamps := filter (\<lambda>e. fst e \<noteq> eventId) (kw_stamps w),
            kw_restored := (if rd_restoreFails deps then kw_restored w else kw_restored w @ [(agentId, stamp)])\<rparr>)"

definition reportFire :: "RunnerDeps \<Rightarrow> time_ms \<Rightarrow> FireReport \<Rightarrow> 'd ScheduleWorld \<Rightarrow> 'd outcome" where
  "reportFire deps now input w =
     (case schedule_getById (rd_resolveProfile deps) (rt_scheduleId input) (kw_table w) of
        None \<Rightarrow> (None, w)
      | Some sched \<Rightarrow>
          if \<not> (rt_runStage input \<and> rt_outcome input = OutcomeFailed) \<and> rt_ranPrecheck input = None then (None, w)
          else and_then (report_status deps now input sched w)
                 (\<lambda>w1. let w2 = (if rt_outcome input = OutcomeDeclined then give_activity_back deps (se_agentId sched) (rt_eventId input) w1 else w1)
                       in (None, emit_for (rt_scheduleId input) (PrecheckReported (rt_scheduleId input) (se_agentId sched)) w2)))"

definition recordDelivery :: "RunnerDeps \<Rightarrow> string \<Rightarrow> bool \<Rightarrow> 'd ScheduleWorld \<Rightarrow> 'd outcome" where
  "recordDelivery deps i settled w =
     (case schedule_getById (rd_resolveProfile deps) i (kw_table w) of
        None \<Rightarrow> (None, w)
      | Some sched \<Rightarrow>
          if \<not> is_once (se_spec sched) then (None, w)
          else case rd_statusFails deps of
                 Some e \<Rightarrow> (Some e, w)
               | None \<Rightarrow>
                   (case replaceResult i OnceDelivering (if settled then OnceSuccess else OnceMissed) (kw_table w) of
                      (changed, t) \<Rightarrow>
                        (None, if changed then emitFired sched settled (emitChanged (se_agentId sched) i (w\<lparr>kw_table := t\<rparr>)) else w)))"

definition recordOnceFailure :: "RunnerDeps \<Rightarrow> string \<Rightarrow> string \<Rightarrow> 'd ScheduleWorld \<Rightarrow> 'd outcome" where
  "recordOnceFailure deps i reason w =
     (case schedule_getById (rd_resolveProfile deps) i (kw_table w) of
        None \<Rightarrow> (None, w)
      | Some sched \<Rightarrow>
          if \<not> is_once (se_spec sched) then (None, w)
          else and_then (put_status deps i (result_and_next (Some reason) None) w)
                 (\<lambda>w1. (None, emitChanged (se_agentId sched) i w1)))"

text \<open>What is registered for the outcome of a trigger and for its end in the outbox (\<^verbatim>\<open>bootstrap.ts\<close>).\<close>

definition trigger_outcome ::
  "RunnerDeps \<Rightarrow> time_ms \<Rightarrow> TriggerPayload \<Rightarrow> string \<Rightarrow> EventOutcome \<Rightarrow> bool \<Rightarrow> string option \<Rightarrow> 'd ScheduleWorld \<Rightarrow> 'd outcome" where
  "trigger_outcome deps now payload eventId outcome runStage detail w =
     (if tg_scheduleId payload = [] then (None, w)
      else if tg_once payload
      then if outcome = OutcomeFailed
           then recordOnceFailure deps (tg_scheduleId payload) (case detail of None \<Rightarrow> ''the one-time task could not start'' | Some d \<Rightarrow> d) w
           else (None, w)
      else if nonempty (tg_precheck payload) = None \<and> \<not> runStage then (None, w)
      else reportFire deps now \<lparr>rt_scheduleId = tg_scheduleId payload, rt_eventId = eventId, rt_ranPrecheck = tg_precheck payload,
             rt_outcome = outcome, rt_runStage = runStage, rt_detail = nonempty detail\<rparr> w)"

definition trigger_ended :: "RunnerDeps \<Rightarrow> TriggerPayload \<Rightarrow> bool \<Rightarrow> 'd ScheduleWorld \<Rightarrow> 'd outcome" where
  "trigger_ended deps payload settled w =
     (if tg_scheduleId payload = [] then (None, w) else recordDelivery deps (tg_scheduleId payload) settled w)"

section \<open>Restoring, resuming and cleaning up\<close>

definition restoreOnce :: "RunnerDeps \<Rightarrow> time_ms \<Rightarrow> Schedule \<Rightarrow> time_ms \<Rightarrow> 'd ScheduleWorld \<Rightarrow> 'd outcome" where
  "restoreOnce deps now sched at' w =
     (if se_lastRun sched \<noteq> None then (None, w)
      else case onceFireAt at' (se_lastRun sched) now of
             Some t \<Rightarrow>
               let next = (case se_nextRun sched of Some waiting \<Rightarrow> max waiting t | None \<Rightarrow> t)
               in wait_until deps (se_id sched) next w
           | None \<Rightarrow> once_missed deps now sched w)"

definition restore_schedule :: "RunnerDeps \<Rightarrow> time_ms \<Rightarrow> Schedule \<Rightarrow> 'd ScheduleWorld \<Rightarrow> 'd outcome" where
  "restore_schedule deps now sched w =
     (case spc_kind (se_spec sched) of
        OnceSchedule at' _ _ \<Rightarrow> restoreOnce deps now sched at' w
      | _ \<Rightarrow>
          let next = (case se_nextRun sched of Some t \<Rightarrow> Some t | None \<Rightarrow> nextFireAt (rd_recur deps) (se_spec sched) now)
          in and_then (if se_nextRun sched = None then put_status deps (se_id sched) (next_run next) w else (None, w))
               (\<lambda>w1. case next of None \<Rightarrow> (None, w1) | Some t \<Rightarrow> put_jobs deps (queue_ensure (se_id sched) t) w1))"

fun restore_each :: "RunnerDeps \<Rightarrow> time_ms \<Rightarrow> Schedule list \<Rightarrow> 'd ScheduleWorld \<Rightarrow> 'd outcome" where
  "restore_each deps now [] w = (None, w)"
| "restore_each deps now (s # ss) w = and_then (restore_schedule deps now s w) (restore_each deps now ss)"

definition restoreAll :: "RunnerDeps \<Rightarrow> time_ms \<Rightarrow> 'd ScheduleWorld \<Rightarrow> 'd outcome" where
  "restoreAll deps now w = restore_each deps now (listAllEnabled (rd_resolveProfile deps) (kw_table w)) w"

fun resume_each :: "RunnerDeps \<Rightarrow> time_ms \<Rightarrow> string list \<Rightarrow> 'd ScheduleWorld \<Rightarrow> 'd outcome" where
  "resume_each deps now [] w = (None, w)"
| "resume_each deps now (i # is) w = and_then (put_jobs deps (queue_enqueue i now) w) (resume_each deps now is)"

text \<open>When the spend limits of an owner change, the one-time schedules that wait for them fire at once.\<close>

definition resumeHeldOnce :: "RunnerDeps \<Rightarrow> time_ms \<Rightarrow> user_sub \<Rightarrow> 'd ScheduleWorld \<Rightarrow> 'd ScheduleWorld" where
  "resumeHeldOnce deps now owner w =
     (if rd_statusFails deps \<noteq> None then w
      else case claimWaitingOnce owner now (kw_table w) of (ids, t) \<Rightarrow> snd (resume_each deps now ids (w\<lparr>kw_table := t\<rparr>)))"

definition ONCE_RETENTION_DAYS :: nat where "ONCE_RETENTION_DAYS = 30"

fun prune_each :: "RunnerDeps \<Rightarrow> ScheduleRow list \<Rightarrow> 'd ScheduleWorld \<Rightarrow> 'd outcome" where
  "prune_each deps [] w = (None, w)"
| "prune_each deps (r # rs) w =
     and_then (put_jobs deps (queue_cancel (rw_id r)) w)
       (\<lambda>w1. prune_each deps rs (w1\<lparr>kw_emitted := kw_emitted w1 @ [ScheduleDeleted (rw_id r) (rw_agentId r) (rw_owner r)]\<rparr>))"

definition retentionTick :: "RunnerDeps \<Rightarrow> time_ms \<Rightarrow> 'd ScheduleWorld \<Rightarrow> 'd outcome" where
  "retentionTick deps now w =
     (case rd_statusFails deps of
        Some e \<Rightarrow> (Some e, w)
      | None \<Rightarrow>
          (case deleteFinishedOnceOlderThan now ONCE_RETENTION_DAYS OnceDelivering (kw_table w) of
             (pruned, t) \<Rightarrow> prune_each deps pruned (w\<lparr>kw_table := t\<rparr>)))"

fun cancel_each :: "RunnerDeps \<Rightarrow> string list \<Rightarrow> 'd ScheduleWorld \<Rightarrow> 'd outcome" where
  "cancel_each deps [] w = (None, w)"
| "cancel_each deps (i # is) w = and_then (runner_cancel deps i w) (cancel_each deps is)"

definition cleanupSchedules :: "RunnerDeps \<Rightarrow> agent_id \<Rightarrow> 'd ScheduleWorld \<Rightarrow> 'd outcome" where
  "cleanupSchedules deps agentId w =
     and_then (cancel_each deps (listIdsByAgent agentId (kw_table w)) w) (put_table deps (deleteByAgent agentId))"

section \<open>The worker of the queue\<close>

definition is_active_job :: "string \<Rightarrow> time_ms \<Rightarrow> FireJob \<Rightarrow> bool" where
  "is_active_job i fireAt j \<longleftrightarrow> is_fire_job i fireAt j \<and> jq_state j = JobActive"

definition is_waiting_job :: "string \<Rightarrow> time_ms \<Rightarrow> FireJob \<Rightarrow> bool" where
  "is_waiting_job i fireAt j \<longleftrightarrow> is_fire_job i fireAt j \<and> jq_state j = JobWaiting"

definition start_fire_job :: "string \<Rightarrow> time_ms \<Rightarrow> FireJob list \<Rightarrow> FireJob list" where
  "start_fire_job i fireAt jobs =
     update_where (is_waiting_job i fireAt) (\<lambda>j. j\<lparr>jq_state := JobActive, jq_attempts := jq_attempts j + 1\<rparr>) jobs"

text \<open>The queue tries a job that threw again until its attempts are used up.\<close>

definition end_job :: "string \<Rightarrow> time_ms \<Rightarrow> bool \<Rightarrow> FireJob list \<Rightarrow> FireJob list" where
  "end_job i fireAt threw jobs =
     update_where (is_active_job i fireAt)
       (\<lambda>j. j\<lparr>jq_state := (if \<not> threw then JobCompleted else if jq_attempts j < FIRE_ATTEMPTS then JobWaiting else JobFailed)\<rparr>) jobs"

text \<open>One attempt at a job that waits; the queue picks the moment, and others may act after the fire has read its schedule.\<close>

definition worker_step ::
  "RunnerDeps \<Rightarrow> time_ms \<Rightarrow> ('d ScheduleWorld \<Rightarrow> 'd ScheduleWorld) \<Rightarrow> string \<Rightarrow> time_ms \<Rightarrow> 'd ScheduleWorld \<Rightarrow> 'd ScheduleWorld" where
  "worker_step deps now others i fireAt w =
     (case find (is_waiting_job i fireAt) (kw_jobs w) of
        None \<Rightarrow> w
      | Some j \<Rightarrow>
          (case fire deps now others i fireAt (FIRE_ATTEMPTS \<le> jq_attempts j + 1) (map_jobs (start_fire_job i fireAt) w) of
             (err, w1) \<Rightarrow> map_jobs (end_job i fireAt (err \<noteq> None)) w1))"

end
