(* ===== verification/Schedules_Service.thy ===== *)
theory Schedules_Service
  imports Schedules_Runner
begin

text \<open>
  What a person or an agent does with schedules (\<^verbatim>\<open>schedules/services/schedules-service.ts\<close>): making,
  editing, pausing, deleting and running them, each for one owner. A choice of an edit is omitted,
  null or a value, written as an option of an option. The checks of cron expressions and time zones
  and the reading of a local time are arguments; a recurrence rule is checked by its next fire. The
  security log is left out.
\<close>

section \<open>Inputs\<close>

type_synonym 'a field = "'a option option" \<comment> \<open>omitted, null or a value\<close>

definition given :: "string field \<Rightarrow> string option" where
  "given f = (case f of Some (Some v) \<Rightarrow> nonempty (Some v) | _ \<Rightarrow> None)"

definition given_settings :: "settings field \<Rightarrow> settings option" where
  "given_settings f = (case f of Some (Some v) \<Rightarrow> Some v | _ \<Rightarrow> None)"

record ScheduleInput =
  in_name :: string
  in_task :: string
  in_sessionMode :: "SessionMode option"
  in_precheck :: "string field"
  in_harness :: "string field"
  in_model :: "string field"
  in_settings :: "settings field"
  in_profile :: "string field"
  in_subagentProfile :: "string field"
  in_sessionTitle :: "string field"

datatype ServiceError =
    BadRequest string
  | NotFound string
  | TooManyRequests string
  | RunConflict string
  | ServiceFailure FireError

record ServiceDeps =
  sv_runner :: RunnerDeps
  sv_agentExists :: "agent_id \<Rightarrow> bool"
  sv_agentOnceLimits :: "(nat \<times> nat) option" \<comment> \<open>how many may be open, and made in an hour\<close>
  sv_validateCron :: "string \<Rightarrow> string option"
  sv_validateTimezone :: "string \<Rightarrow> string option"
  sv_localToInstant :: "string \<Rightarrow> string \<Rightarrow> string + time_ms"

type_synonym ('r, 'd) reply = "(ServiceError + 'r) \<times> 'd ScheduleWorld"

section \<open>Choices of a session\<close>

datatype SpecChoices = ProfileChoice string | OwnChoices Choices

definition choicesOf :: "string option \<Rightarrow> string option \<Rightarrow> string option \<Rightarrow> settings option \<Rightarrow> SpecChoices" where
  "choicesOf profile harness model s =
     (case nonempty profile of
        Some p \<Rightarrow> ProfileChoice p
      | None \<Rightarrow> OwnChoices \<lparr>hc_harness = nonempty harness, hc_model = nonempty model, hc_settings = s\<rparr>)"

definition input_choices :: "ScheduleInput \<Rightarrow> SpecChoices" where
  "input_choices input = choicesOf (given (in_profile input)) (given (in_harness input)) (given (in_model input)) (given_settings (in_settings input))"

definition or_kept :: "'a option \<Rightarrow> 'a option \<Rightarrow> 'a option" where
  "or_kept a b = (case a of None \<Rightarrow> b | Some v \<Rightarrow> Some v)"

fun with_choices :: "SpecChoices \<Rightarrow> ScheduleSpec \<Rightarrow> ScheduleSpec" where
  "with_choices (ProfileChoice p) spec = spec\<lparr>spc_profile := Some p\<rparr>"
| "with_choices (OwnChoices c) spec =
     spec\<lparr>spc_harness := or_kept (hc_harness c) (spc_harness spec), spc_model := or_kept (hc_model c) (spc_model spec),
          spc_settings := or_kept (hc_settings c) (spc_settings spec)\<rparr>"

definition is_value :: "'a field \<Rightarrow> bool" where
  "is_value f = (case f of Some (Some _) \<Rightarrow> True | _ \<Rightarrow> False)"

definition applyProfile :: "ScheduleInput \<Rightarrow> ScheduleSpec \<Rightarrow> ScheduleSpec" where
  "applyProfile input spec =
     (case given (in_profile input) of
        Some p \<Rightarrow> spec\<lparr>spc_profile := Some p\<rparr>
      | None \<Rightarrow>
          if in_profile input = Some None \<or> is_value (in_harness input) \<or> is_value (in_model input) \<or> is_value (in_settings input)
          then spec\<lparr>spc_profile := None\<rparr> else spec)"

definition PLATFORM_SUBAGENT_PREFIX :: string where "PLATFORM_SUBAGENT_PREFIX = ''platformSubagent.''"

definition isPlatformSubagentSetting :: "string \<Rightarrow> bool" where
  "isPlatformSubagentSetting i = prefix PLATFORM_SUBAGENT_PREFIX i"

definition subagent_part :: "bool \<Rightarrow> settings \<Rightarrow> settings" where
  "subagent_part own s = filter (\<lambda>(i, _). isPlatformSubagentSetting i = own) s"

text \<open>Subagent values among the settings of a spec move to its slot when the slot is empty.\<close>

definition split_settings :: "ScheduleSpec \<Rightarrow> ScheduleSpec" where
  "split_settings spec =
     (case spc_settings spec of
        None \<Rightarrow> spec
      | Some s \<Rightarrow>
          let primary = subagent_part False s; inline = subagent_part True s
          in spec\<lparr>spc_settings := (if primary = [] then None else Some primary),
                  spc_subagentSettings :=
                    (if inline \<noteq> [] \<and> nonempty (spc_subagentProfile spec) = None \<and> spc_subagentSettings spec = None
                     then Some inline else spc_subagentSettings spec)\<rparr>)"

definition applySubagent :: "ScheduleInput \<Rightarrow> ScheduleSpec \<Rightarrow> ScheduleSpec" where
  "applySubagent input spec =
     (let spec1 = split_settings spec;
          own = (case given_settings (in_settings input) of None \<Rightarrow> [] | Some s \<Rightarrow> subagent_part True s);
          reference = (if in_subagentProfile input \<noteq> None then in_subagentProfile input else if own \<noteq> [] then Some None else None)
      in case reference of
           None \<Rightarrow> spec1
         | Some r \<Rightarrow>
             (case nonempty r of
                Some p \<Rightarrow> spec1\<lparr>spc_subagentProfile := Some p, spc_subagentSettings := None\<rparr>
              | None \<Rightarrow> spec1\<lparr>spc_subagentProfile := None, spc_subagentSettings := (if own \<noteq> [] then Some own else None)\<rparr>))"

definition merged_slots :: "settings option \<Rightarrow> settings option \<Rightarrow> settings option" where
  "merged_slots a b =
     (if a = None \<and> b = None then None
      else Some (merge_settings (case a of None \<Rightarrow> [] | Some s \<Rightarrow> s) (case b of None \<Rightarrow> [] | Some s \<Rightarrow> s)))"

definition composedChoices :: "ScheduleSpec \<Rightarrow> SpecChoices" where
  "composedChoices spec =
     choicesOf (spc_profile spec) (spc_harness spec) (spc_model spec) (merged_slots (spc_settings spec) (spc_subagentSettings spec))"

definition choicesChanged :: "ScheduleSpec \<Rightarrow> ScheduleSpec \<Rightarrow> bool" where
  "choicesChanged spec current \<longleftrightarrow>
     composedChoices spec \<noteq> composedChoices current \<or> spc_subagentSettings spec \<noteq> spc_subagentSettings current"

section \<open>Checks\<close>

definition ensureAgent :: "ServiceDeps \<Rightarrow> agent_id \<Rightarrow> ServiceError option" where
  "ensureAgent deps agentId = (if sv_agentExists deps agentId then None else Some (NotFound ''agent not found''))"

definition ensureProfileRuns :: "ServiceDeps \<Rightarrow> user_sub \<Rightarrow> string option \<Rightarrow> agent_id \<Rightarrow> ServiceError option" where
  "ensureProfileRuns deps owner profileId agentId =
     (case nonempty profileId of
        None \<Rightarrow> None
      | Some p \<Rightarrow>
          (case rd_resolveProfile (sv_runner deps) p agentId (Some owner) of
             None \<Rightarrow> Some (BadRequest ''unknown profile'')
           | Some r \<Rightarrow> map_option (\<lambda>why. BadRequest (''that profile cannot run: '' @ why)) (nonempty (rp_unavailable r))))"

definition KEEPS_CHOICES :: string where
  "KEEPS_CHOICES = ''a task that continues its session keeps that session'' @ [CHR 0x27] @ ''s harness, model and settings; drop them or run it fresh''"

definition continues_origin :: "ScheduleOnceOrigin option \<Rightarrow> bool" where
  "continues_origin origin = (case origin of Some x \<Rightarrow> oo_mode x = ContinueSession | None \<Rightarrow> False)"

definition ensureSessionChoices :: "ServiceDeps \<Rightarrow> agent_id \<Rightarrow> Choices \<Rightarrow> ScheduleOnceOrigin option \<Rightarrow> ServiceError option" where
  "ensureSessionChoices deps agentId choices origin =
     (if hc_harness choices = None \<and> hc_model choices = None \<and> hc_settings choices = None then None
      else if continues_origin origin then Some (BadRequest KEEPS_CHOICES)
      else case rd_validateSessionChoices (sv_runner deps) agentId choices of
             Inl e \<Rightarrow> Some (ServiceFailure e)
           | Inr refusal \<Rightarrow> map_option BadRequest (nonempty refusal))"

definition ensureSpecChoices :: "ServiceDeps \<Rightarrow> user_sub \<Rightarrow> agent_id \<Rightarrow> ScheduleSpec \<Rightarrow> ScheduleOnceOrigin option \<Rightarrow> ServiceError option" where
  "ensureSpecChoices deps owner agentId spec origin =
     (case composedChoices spec of
        OwnChoices c \<Rightarrow> ensureSessionChoices deps agentId c origin
      | ProfileChoice p \<Rightarrow>
          (case rd_resolveProfile (sv_runner deps) p agentId (Some owner) of
             None \<Rightarrow> None
           | Some r \<Rightarrow>
               (case composedSubagent (spc_subagentProfile spec) (spc_subagentSettings spec) (Some (rp_subagent r, rp_subagentUnavailable r))
                       (rd_resolveProfile (sv_runner deps)) agentId (Some owner) of
                  Inl refused \<Rightarrow> Some (BadRequest (''that profile cannot run: '' @ refused))
                | Inr None \<Rightarrow> None
                | Inr (Some s) \<Rightarrow>
                    ensureSessionChoices deps agentId
                      \<lparr>hc_harness = Some (rp_harness r), hc_model = nonempty (rp_pairModel r),
                       hc_settings = Some (merge_settings (case rp_pairSettings r of None \<Rightarrow> [] | Some t \<Rightarrow> t) s)\<rparr> origin)))"

text \<open>The messages of the limits are cut after the limit; what follows says what the agent may do instead.\<close>

definition HOUR_MS :: int where "HOUR_MS = 60 * 60 * 1000"

definition ensureAgentWithinLimits :: "ServiceDeps \<Rightarrow> time_ms \<Rightarrow> agent_id \<Rightarrow> ScheduleRow table \<Rightarrow> ServiceError option" where
  "ensureAgentWithinLimits deps now agentId t =
     (case sv_agentOnceLimits deps of
        None \<Rightarrow> None
      | Some (maxOpen, maxPerHour) \<Rightarrow>
          (case countAgentOnce agentId OnceDelivering (now - HOUR_MS) t of
             (open_now, recent) \<Rightarrow>
               if maxOpen \<le> open_now
               then Some (TooManyRequests (''this agent already has '' @ show_int (int open_now)
                      @ '' one-time schedules waiting to run (limit '' @ show_int (int maxOpen) @ '')''))
               else if maxPerHour \<le> recent
               then Some (TooManyRequests (''this agent created '' @ show_int (int recent)
                      @ '' one-time schedules in the last hour (limit '' @ show_int (int maxPerHour) @ '')''))
               else None))"

definition first_error :: "ServiceError option list \<Rightarrow> ServiceError option" where
  "first_error checks = Option.bind (find (\<lambda>c. c \<noteq> None) checks) id"

section \<open>Making a schedule\<close>

definition created_spec :: "ScheduleKind \<Rightarrow> ScheduleCreator \<Rightarrow> ScheduleInput \<Rightarrow> ScheduleSpec" where
  "created_spec kind createdBy input =
     (let once = (case kind of OnceSchedule _ _ _ \<Rightarrow> True | _ \<Rightarrow> False)
      in applySubagent input (with_choices (input_choices input)
           \<lparr>spc_kind = kind, spc_task = Some (in_task input), spc_precheck = (if once then None else given (in_precheck input)),
            spc_harness = None, spc_model = None, spc_settings = None, spc_profile = None, spc_subagentProfile = None,
            spc_subagentSettings = None, spc_migrationNote = None, spc_sessionTitle = given (in_sessionTitle input),
            spc_enabled = True, spc_sessionMode = (if once then None else in_sessionMode input), spc_createdBy = createdBy\<rparr>))"

definition emit_event :: "ScheduleEvent \<Rightarrow> 'd ScheduleWorld \<Rightarrow> 'd ScheduleWorld" where
  "emit_event e w = w\<lparr>kw_emitted := kw_emitted w @ [e]\<rparr>"

definition store_schedule ::
  "ServiceDeps \<Rightarrow> user_sub \<Rightarrow> time_ms \<Rightarrow> string \<Rightarrow> agent_id \<Rightarrow> string \<Rightarrow> ScheduleSpec \<Rightarrow> 'd ScheduleWorld \<Rightarrow> (Schedule, 'd) reply" where
  "store_schedule deps owner now newId agentId name spec w =
     (let rd = sv_runner deps
      in case put_table rd (schedule_create now newId agentId owner name spec) w of
           (Some e, w1) \<Rightarrow> (Inl (ServiceFailure e), w1)
         | (None, w1) \<Rightarrow>
             (case schedule_get (rd_resolveProfile rd) newId owner (kw_table w1) of
                None \<Rightarrow> (Inl (ServiceFailure (FireFailure (''create: schedule '' @ newId @ '' not found after insert''))), w1)
              | Some schedule \<Rightarrow>
                  (case runner_sync rd now newId w1 of
                     (Some e, w2) \<Rightarrow> (Inl (ServiceFailure e), w2)
                   | (None, w2) \<Rightarrow> (Inr schedule, emit_event (ScheduleCreated newId agentId owner) w2))))"

definition create_checks :: "ServiceDeps \<Rightarrow> user_sub \<Rightarrow> agent_id \<Rightarrow> ScheduleInput \<Rightarrow> ServiceError option list" where
  "create_checks deps owner agentId input =
     [ensureAgent deps agentId, ensureProfileRuns deps owner (given (in_profile input)) agentId,
      ensureProfileRuns deps owner (given (in_subagentProfile input)) agentId]"

definition createCron ::
  "ServiceDeps \<Rightarrow> user_sub \<Rightarrow> time_ms \<Rightarrow> string \<Rightarrow> ScheduleCreator \<Rightarrow> agent_id \<Rightarrow> string \<Rightarrow> ScheduleInput \<Rightarrow> 'd ScheduleWorld \<Rightarrow> (Schedule, 'd) reply" where
  "createCron deps owner now newId createdBy agentId cron input w =
     (let spec = created_spec (CronSchedule cron) createdBy input
      in case first_error (map_option BadRequest (sv_validateCron deps cron) # create_checks deps owner agentId input
                @ [ensureSpecChoices deps owner agentId spec None]) of
           Some e \<Rightarrow> (Inl e, w)
         | None \<Rightarrow> store_schedule deps owner now newId agentId (in_name input) spec w)"

definition quiet_of :: "string list option \<Rightarrow> string list option" where
  "quiet_of q = (case q of Some (x # xs) \<Rightarrow> Some (x # xs) | _ \<Rightarrow> None)"

definition validateRRule :: "ServiceDeps \<Rightarrow> string \<Rightarrow> string \<Rightarrow> string list option \<Rightarrow> time_ms \<Rightarrow> ServiceError option" where
  "validateRRule deps rrule timezone quiet now =
     (case rd_recur (sv_runner deps) (RRuleSchedule rrule timezone (quiet_of quiet)) now of
        NextAt _ \<Rightarrow> None
      | FireStopped reason \<Rightarrow> Some (BadRequest (''rrule is rejected, '' @ reason @ '': '' @ rrule)))"

definition createRRule ::
  "ServiceDeps \<Rightarrow> user_sub \<Rightarrow> time_ms \<Rightarrow> string \<Rightarrow> ScheduleCreator \<Rightarrow> agent_id \<Rightarrow> string \<Rightarrow> string \<Rightarrow> string list option \<Rightarrow> ScheduleInput
   \<Rightarrow> 'd ScheduleWorld \<Rightarrow> (Schedule, 'd) reply" where
  "createRRule deps owner now newId createdBy agentId rrule timezone quiet input w =
     (let spec = created_spec (RRuleSchedule rrule timezone (quiet_of quiet)) createdBy input
      in case first_error (map_option BadRequest (sv_validateTimezone deps timezone) # validateRRule deps rrule timezone quiet now
                # create_checks deps owner agentId input @ [ensureSpecChoices deps owner agentId spec None]) of
           Some e \<Rightarrow> (Inl e, w)
         | None \<Rightarrow> store_schedule deps owner now newId agentId (in_name input) spec w)"

definition title_check :: "string \<Rightarrow> ScheduleInput \<Rightarrow> ScheduleOnceOrigin option \<Rightarrow> ServiceError option" where
  "title_check hint input origin =
     (if given (in_sessionTitle input) \<noteq> None \<and> continues_origin origin
      then Some (BadRequest (''a task that continues its session keeps that session'' @ [CHR 0x27] @ ''s title; drop the session title'' @ hint))
      else None)"

definition createOnce ::
  "ServiceDeps \<Rightarrow> user_sub \<Rightarrow> time_ms \<Rightarrow> string \<Rightarrow> ScheduleCreator \<Rightarrow> agent_id \<Rightarrow> string option \<Rightarrow> string \<Rightarrow> ScheduleOnceOrigin option \<Rightarrow> ScheduleInput
   \<Rightarrow> 'd ScheduleWorld \<Rightarrow> (Schedule, 'd) reply" where
  "createOnce deps owner now newId createdBy agentId at' timezone origin input w =
     (case sv_validateTimezone deps timezone of
        Some why \<Rightarrow> (Inl (BadRequest why), w)
      | None \<Rightarrow>
     (case resolveOnceMoment (sv_localToInstant deps) at' timezone now of
        Inl why \<Rightarrow> (Inl (BadRequest why), w)
      | Inr moment \<Rightarrow>
          let spec = created_spec (OnceSchedule moment timezone origin) createdBy input
          in (case first_error (create_checks deps owner agentId input
                    @ [title_check '' or run it fresh'' input origin,
                       if createdBy = CreatedByAgent then ensureAgentWithinLimits deps now agentId (kw_table w) else None,
                       ensureSpecChoices deps owner agentId spec origin]) of
                Some e \<Rightarrow> (Inl e, w)
              | None \<Rightarrow>
                  (case store_schedule deps owner now newId agentId (in_name input) spec w of
                     (Inl e, w1) \<Rightarrow> (Inl e, w1)
                   | (Inr schedule, w1) \<Rightarrow>
                       (Inr (case schedule_get (rd_resolveProfile (sv_runner deps)) newId owner (kw_table w1) of None \<Rightarrow> schedule | Some s \<Rightarrow> s), w1)))))"

section \<open>Editing a schedule\<close>

definition edited :: "string field \<Rightarrow> string option \<Rightarrow> string option" where
  "edited f old = (case given f of Some v \<Rightarrow> Some v | None \<Rightarrow> if f = None then old else None)"

definition edited_spec :: "ScheduleInput \<Rightarrow> ScheduleKind \<Rightarrow> ScheduleSpec \<Rightarrow> ScheduleSpec" where
  "edited_spec input kind current =
     applySubagent input (applyProfile input (current
       \<lparr>spc_kind := kind, spc_task := Some (in_task input), spc_sessionMode := in_sessionMode input,
        spc_precheck := edited (in_precheck input) (spc_precheck current),
        spc_model := edited (in_model input) (spc_model current),
        spc_harness := edited (in_harness input) (spc_harness current),
        spc_settings := (case in_settings input of None \<Rightarrow> spc_settings current | Some s \<Rightarrow> s),
        spc_migrationNote := (if in_model input \<noteq> None \<or> in_harness input \<noteq> None then None else spc_migrationNote current)\<rparr>))"

definition once_edited_spec :: "ScheduleInput \<Rightarrow> time_ms \<Rightarrow> string \<Rightarrow> ScheduleSpec \<Rightarrow> ScheduleSpec" where
  "once_edited_spec input moment timezone current =
     applySubagent input (applyProfile input (with_choices (input_choices input) (current
       \<lparr>spc_kind := (case spc_kind current of OnceSchedule _ _ origin \<Rightarrow> OnceSchedule moment timezone origin | k \<Rightarrow> k),
        spc_task := Some (in_task input), spc_harness := None, spc_model := None, spc_settings := None, spc_migrationNote := None,
        spc_sessionTitle := given (in_sessionTitle input)\<rparr>)))"

definition choice_check :: "ServiceDeps \<Rightarrow> user_sub \<Rightarrow> Schedule \<Rightarrow> ScheduleSpec \<Rightarrow> ScheduleOnceOrigin option \<Rightarrow> ServiceError option" where
  "choice_check deps owner current spec origin =
     (if choicesChanged spec (se_spec current) then ensureSpecChoices deps owner (se_agentId current) spec origin else None)"

definition profile_checks :: "ServiceDeps \<Rightarrow> user_sub \<Rightarrow> Schedule \<Rightarrow> ScheduleInput \<Rightarrow> ServiceError option list" where
  "profile_checks deps owner current input =
     [ensureProfileRuns deps owner (given (in_profile input)) (se_agentId current),
      ensureProfileRuns deps owner (given (in_subagentProfile input)) (se_agentId current)]"

definition store_edit ::
  "ServiceDeps \<Rightarrow> user_sub \<Rightarrow> time_ms \<Rightarrow> string \<Rightarrow> string \<Rightarrow> ScheduleSpec \<Rightarrow> bool \<Rightarrow> 'd ScheduleWorld \<Rightarrow> (Schedule option, 'd) reply" where
  "store_edit deps owner now i name spec clears w =
     (let rd = sv_runner deps
      in case and_then (put_table rd (updateName i owner name) w) (put_table rd (updateSpec i owner spec)) of
           (Some e, w1) \<Rightarrow> (Inl (ServiceFailure e), w1)
         | (None, w1) \<Rightarrow>
             (case schedule_get (rd_resolveProfile rd) i owner (kw_table w1) of
                None \<Rightarrow> (Inr None, w1)
              | Some updated \<Rightarrow>
                  (case and_then (if clears then put_table rd (clearPrecheckStatus i) w1 else (None, w1)) (runner_sync rd now i) of
                     (Some e, w2) \<Rightarrow> (Inl (ServiceFailure e), w2)
                   | (None, w2) \<Rightarrow> (Inr (Some updated), emit_event (ScheduleUpdated i (se_agentId updated) owner) w2))))"

definition once_edit ::
  "ServiceDeps \<Rightarrow> user_sub \<Rightarrow> time_ms \<Rightarrow> string \<Rightarrow> string \<Rightarrow> string \<Rightarrow> ScheduleInput \<Rightarrow> Schedule \<Rightarrow> ScheduleOnceOrigin option
   \<Rightarrow> 'd ScheduleWorld \<Rightarrow> (Schedule option, 'd) reply" where
  "once_edit deps owner now i at' timezone input current origin w =
     (case first_error (profile_checks deps owner current input) of
        Some e \<Rightarrow> (Inl e, w)
      | None \<Rightarrow>
     (case resolveOnceMoment (sv_localToInstant deps) (Some at') timezone now of
        Inl why \<Rightarrow> (Inl (BadRequest why), w)
      | Inr moment \<Rightarrow>
          let spec = once_edited_spec input moment timezone (se_spec current)
          in (case first_error [title_check [] input origin, choice_check deps owner current spec origin] of
                Some e \<Rightarrow> (Inl e, w)
              | None \<Rightarrow>
                  (case store_edit deps owner now i (in_name input) spec False w of
                     (Inr (Some _), w1) \<Rightarrow> (Inr (schedule_get (rd_resolveProfile (sv_runner deps)) i owner (kw_table w1)), w1)
                   | r \<Rightarrow> r))))"

definition updateOnce ::
  "ServiceDeps \<Rightarrow> user_sub \<Rightarrow> time_ms \<Rightarrow> string \<Rightarrow> string \<Rightarrow> string \<Rightarrow> ScheduleInput \<Rightarrow> 'd ScheduleWorld \<Rightarrow> (Schedule option, 'd) reply" where
  "updateOnce deps owner now i at' timezone input w =
     (case sv_validateTimezone deps timezone of
        Some why \<Rightarrow> (Inl (BadRequest why), w)
      | None \<Rightarrow>
     (case schedule_get (rd_resolveProfile (sv_runner deps)) i owner (kw_table w) of
        None \<Rightarrow> (Inr None, w)
      | Some current \<Rightarrow>
          (case spc_kind (se_spec current) of
             OnceSchedule _ _ origin \<Rightarrow>
               if se_lastRun current \<noteq> None then (Inl (BadRequest ''a one-time schedule cannot be edited once it fired''), w)
               else once_edit deps owner now i at' timezone input current origin w
           | _ \<Rightarrow> (Inl (BadRequest ''not a one-time schedule''), w))))"

definition recurring_edit ::
  "ServiceDeps \<Rightarrow> user_sub \<Rightarrow> time_ms \<Rightarrow> string \<Rightarrow> ScheduleKind \<Rightarrow> ScheduleInput \<Rightarrow> Schedule \<Rightarrow> 'd ScheduleWorld \<Rightarrow> (Schedule option, 'd) reply" where
  "recurring_edit deps owner now i kind input current w =
     (let spec = edited_spec input kind (se_spec current)
      in case first_error (profile_checks deps owner current input @ [choice_check deps owner current spec None]) of
           Some e \<Rightarrow> (Inl e, w)
         | None \<Rightarrow>
             store_edit deps owner now i (in_name input) (spec\<lparr>spc_sessionTitle := edited (in_sessionTitle input) (spc_sessionTitle spec)\<rparr>)
               (spc_precheck spec \<noteq> spc_precheck (se_spec current)) w)"

definition updateCron ::
  "ServiceDeps \<Rightarrow> user_sub \<Rightarrow> time_ms \<Rightarrow> string \<Rightarrow> string \<Rightarrow> ScheduleInput \<Rightarrow> 'd ScheduleWorld \<Rightarrow> (Schedule option, 'd) reply" where
  "updateCron deps owner now i cron input w =
     (case sv_validateCron deps cron of
        Some why \<Rightarrow> (Inl (BadRequest why), w)
      | None \<Rightarrow>
     (case schedule_get (rd_resolveProfile (sv_runner deps)) i owner (kw_table w) of
        None \<Rightarrow> (Inr None, w)
      | Some current \<Rightarrow>
          (case spc_kind (se_spec current) of
             CronSchedule _ \<Rightarrow> recurring_edit deps owner now i (CronSchedule cron) input current w
           | _ \<Rightarrow> (Inl (BadRequest ''only a cron schedule is edited with updateCron''), w))))"

text \<open>Quiet hours: omitted keeps them, null or an empty list clears them.\<close>

definition edited_quiet :: "string list field \<Rightarrow> ScheduleKind \<Rightarrow> string list option" where
  "edited_quiet quiet kind =
     (case quiet of
        None \<Rightarrow> (case kind of RRuleSchedule _ _ q \<Rightarrow> q | _ \<Rightarrow> None)
      | Some q \<Rightarrow> quiet_of q)"

definition updateRRule ::
  "ServiceDeps \<Rightarrow> user_sub \<Rightarrow> time_ms \<Rightarrow> string \<Rightarrow> string \<Rightarrow> string \<Rightarrow> string list field \<Rightarrow> ScheduleInput \<Rightarrow> 'd ScheduleWorld
   \<Rightarrow> (Schedule option, 'd) reply" where
  "updateRRule deps owner now i rrule timezone quiet input w =
     (case first_error [map_option BadRequest (sv_validateTimezone deps timezone), validateRRule deps rrule timezone (Option.bind quiet id) now] of
        Some e \<Rightarrow> (Inl e, w)
      | None \<Rightarrow>
     (case schedule_get (rd_resolveProfile (sv_runner deps)) i owner (kw_table w) of
        None \<Rightarrow> (Inr None, w)
      | Some current \<Rightarrow>
          if is_once (se_spec current) then (Inl (BadRequest ''a one-time schedule is edited with updateOnce''), w)
          else recurring_edit deps owner now i (RRuleSchedule rrule timezone (edited_quiet quiet (spc_kind (se_spec current)))) input current w))"

section \<open>Deleting, pausing and running\<close>

definition delete_schedule :: "ServiceDeps \<Rightarrow> user_sub \<Rightarrow> string \<Rightarrow> 'd ScheduleWorld \<Rightarrow> 'd outcome" where
  "delete_schedule deps owner i w =
     (let rd = sv_runner deps; current = schedule_get (rd_resolveProfile rd) i owner (kw_table w)
      in and_then (and_then (runner_cancel rd i w) (put_table rd (schedule_delete i owner)))
           (\<lambda>w1. (None, case current of None \<Rightarrow> w1 | Some s \<Rightarrow> emit_event (ScheduleDeleted i (se_agentId s) owner) w1)))"

definition store_spec ::
  "ServiceDeps \<Rightarrow> user_sub \<Rightarrow> string \<Rightarrow> ScheduleSpec \<Rightarrow> (Schedule \<Rightarrow> 'd ScheduleWorld \<Rightarrow> 'd outcome) \<Rightarrow> 'd ScheduleWorld \<Rightarrow> (Schedule option, 'd) reply" where
  "store_spec deps owner i spec after w =
     (let rd = sv_runner deps
      in case put_table rd (updateSpec i owner spec) w of
           (Some e, w1) \<Rightarrow> (Inl (ServiceFailure e), w1)
         | (None, w1) \<Rightarrow>
             (case schedule_get (rd_resolveProfile rd) i owner (kw_table w1) of
                None \<Rightarrow> (Inr None, w1)
              | Some next \<Rightarrow>
                  (case after next w1 of
                     (Some e, w2) \<Rightarrow> (Inl (ServiceFailure e), w2)
                   | (None, w2) \<Rightarrow> (Inr (Some next), emit_event (ScheduleUpdated i (se_agentId next) owner) w2))))"

definition toggle_schedule :: "ServiceDeps \<Rightarrow> user_sub \<Rightarrow> time_ms \<Rightarrow> string \<Rightarrow> bool option \<Rightarrow> 'd ScheduleWorld \<Rightarrow> (Schedule option, 'd) reply" where
  "toggle_schedule deps owner now i enabled w =
     (let rd = sv_runner deps
      in case schedule_get (rd_resolveProfile rd) i owner (kw_table w) of
           None \<Rightarrow> (Inr None, w)
         | Some current \<Rightarrow>
             if is_once (se_spec current) then (Inl (BadRequest ''a one-time schedule cannot be paused; delete it''), w)
             else store_spec deps owner i
                    ((se_spec current)\<lparr>spc_enabled := (case enabled of None \<Rightarrow> \<not> spc_enabled (se_spec current) | Some x \<Rightarrow> x)\<rparr>)
                    (\<lambda>next. if spc_enabled (se_spec next) then runner_sync rd now i else runner_cancel rd i) w)"

definition clearSessionChoices :: "ServiceDeps \<Rightarrow> user_sub \<Rightarrow> string \<Rightarrow> 'd ScheduleWorld \<Rightarrow> (Schedule option, 'd) reply" where
  "clearSessionChoices deps owner i w =
     (case schedule_get (rd_resolveProfile (sv_runner deps)) i owner (kw_table w) of
        None \<Rightarrow> (Inr None, w)
      | Some current \<Rightarrow>
          if continues_session (se_spec current) then (Inl (BadRequest (''a task that continues its session keeps that session'' @ [CHR 0x27] @ ''s choices'')), w)
          else store_spec deps owner i
                 ((se_spec current)\<lparr>spc_harness := None, spc_model := None, spc_settings := None, spc_profile := None, spc_migrationNote := None\<rparr>)
                 (\<lambda>_ w1. (None, w1)) w)"

definition reset_schedule :: "ServiceDeps \<Rightarrow> user_sub \<Rightarrow> time_ms \<Rightarrow> string \<Rightarrow> 'd ScheduleWorld \<Rightarrow> 'd outcome" where
  "reset_schedule deps owner now i w =
     (case schedule_get (rd_resolveProfile (sv_runner deps)) i owner (kw_table w) of
        None \<Rightarrow> (None, w)
      | Some _ \<Rightarrow> resetSession (sv_runner deps) now i w)"

fun run_refusal :: "RunNowResult \<Rightarrow> string option" where
  "run_refusal RunStarted = None"
| "run_refusal RunOnboardingPending = Some ''the agent has not finished onboarding yet''"
| "run_refusal RunSpendLimit = Some ''the agent reached its spend limit for today. Continue the limit, or wait until midnight UTC''"
| "run_refusal RunSpendCeiling =
     Some (''the agent'' @ [CHR 0x27] @ ''s owner reached the spend ceiling for today. The platform operator can raise it; otherwise wait until midnight UTC'')"
| "run_refusal RunNoDefaultModel =
     Some (''the agent has no model it can run on: connect a model provider on its Providers page, or pick another model if its default''
       @ [CHR 0x27] @ ''s provider is gone'')"
| "run_refusal RunDefaultPending = Some ''the agent is setting up its default model. Try again in a minute''"

definition run_schedule :: "ServiceDeps \<Rightarrow> user_sub \<Rightarrow> time_ms \<Rightarrow> string \<Rightarrow> 'd ScheduleWorld \<Rightarrow> (unit, 'd) reply" where
  "run_schedule deps owner now i w =
     (case schedule_get (rd_resolveProfile (sv_runner deps)) i owner (kw_table w) of
        None \<Rightarrow> (Inl (NotFound ''schedule not found''), w)
      | Some sched \<Rightarrow>
          if is_once (se_spec sched) then (Inl (BadRequest ''a one-time task runs only at its own moment''), w)
          else (case runNow (sv_runner deps) now i w of
                  (Inl e, w1) \<Rightarrow> (Inl (ServiceFailure e), w1)
                | (Inr outcome, w1) \<Rightarrow> (case run_refusal outcome of None \<Rightarrow> (Inr (), w1) | Some why \<Rightarrow> (Inl (RunConflict why), w1))))"

end
