(* ===== verification/Schedules_System.thy ===== *)
theory Schedules_System
  imports Schedules_Service
begin

text \<open>
  Everything that happens to schedules, one operation after another: the fires, what is reported of
  them, the service of every owner, restarts, the resuming of held tasks and the clean-up, with any
  failures. The order \<open>keeps\<close> relates a world to what an operation without a commit may make of it;
  the invariant says that a one-time task that was sent has a result, so it is not sent again.
\<close>

section \<open>What operations keep\<close>

definition once_row :: "ScheduleRow \<Rightarrow> bool" where "once_row r = is_once (rw_spec r)"

definition has_result :: "ScheduleRow \<Rightarrow> bool" where "has_result r \<longleftrightarrow> nonempty (rw_lastFiredResult r) \<noteq> None"

definition row_keeps :: "ScheduleRow \<Rightarrow> ScheduleRow \<Rightarrow> bool" where
  "row_keeps r r' \<longleftrightarrow> rw_id r' = rw_id r \<and> once_row r' = once_row r \<and> (once_row r \<longrightarrow> has_result r \<longrightarrow> has_result r')"

definition table_keeps :: "ScheduleRow table \<Rightarrow> ScheduleRow table \<Rightarrow> bool" where
  "table_keeps t t' \<longleftrightarrow> (distinct (map rw_id t) \<longrightarrow> distinct (map rw_id t')) \<and> (\<forall>r' \<in> set t'. \<exists>r \<in> set t. row_keeps r r')"

definition keeps :: "'d ScheduleWorld \<Rightarrow> 'd ScheduleWorld \<Rightarrow> bool" where
  "keeps w w' \<longleftrightarrow> kw_sent w' = kw_sent w \<and> table_keeps (kw_table w) (kw_table w')"

lemma row_keeps_refl [simp]: "row_keeps r r" by (simp add: row_keeps_def)

lemma row_keeps_trans: "row_keeps r s \<Longrightarrow> row_keeps s u \<Longrightarrow> row_keeps r u" by (auto simp: row_keeps_def)

lemma table_keeps_refl [simp]: "table_keeps t t" unfolding table_keeps_def by (blast intro: row_keeps_refl)

lemma table_keeps_trans: "table_keeps t u \<Longrightarrow> table_keeps u v \<Longrightarrow> table_keeps t v"
  unfolding table_keeps_def by (blast intro: row_keeps_trans)

lemma keeps_refl [simp]: "keeps w w" by (simp add: keeps_def)

lemma keeps_trans: "keeps w u \<Longrightarrow> keeps u v \<Longrightarrow> keeps w v"
  unfolding keeps_def using table_keeps_trans [of "kw_table w" "kw_table u" "kw_table v"] by simp

lemma keeps_same: "kw_sent w' = kw_sent w \<Longrightarrow> kw_table w' = kw_table w \<Longrightarrow> keeps w w'" by (simp add: keeps_def)

lemma table_keeps_update:
  assumes "\<And>r. r \<in> set t \<Longrightarrow> p r \<Longrightarrow> row_keeps r (f r)"
  shows "table_keeps t (update_where p f t)"
proof -
  have "map rw_id (update_where p f t) = map rw_id t"
    unfolding update_where_def using assms by (auto simp: row_keeps_def)
  moreover have "\<exists>r \<in> set t. row_keeps r r'" if "r' \<in> set (update_where p f t)" for r'
  proof -
    from that obtain r where r: "r \<in> set t" and r': "r' = (if p r then f r else r)" unfolding set_update_where by blast
    have "row_keeps r r'" unfolding r' using assms [OF r] by simp
    with r show ?thesis by blast
  qed
  ultimately show ?thesis unfolding table_keeps_def by simp
qed

lemma table_keeps_delete: "table_keeps t (delete_where p t)"
  unfolding table_keeps_def using distinct_map_delete_where [of rw_id t p]
  by (auto simp: delete_where_def intro: row_keeps_refl)

lemma keeps_map_table: "table_keeps (kw_table w) (f (kw_table w)) \<Longrightarrow> keeps w (map_table f w)"
  by (simp add: keeps_def map_table_def)

lemma keeps_map_jobs [simp]: "keeps w (map_jobs f w)" by (simp add: keeps_def map_jobs_def)

lemma keeps_put_table: "table_keeps (kw_table w) (f (kw_table w)) \<Longrightarrow> keeps w (snd (put_table deps f w))"
  by (simp add: put_table_def keeps_map_table split: option.splits)

lemma keeps_put_jobs [simp]: "keeps w (snd (put_jobs deps f w))"
  by (simp add: put_jobs_def split: option.splits)

lemma keeps_and_then:
  assumes "keeps w (snd r)" and "\<And>w1. r = (None, w1) \<Longrightarrow> keeps w1 (snd (f w1))"
  shows "keeps w (snd (and_then r f))"
proof (cases r)
  case (Pair e w1)
  then show ?thesis using assms keeps_trans [of w w1] by (cases e) (auto simp: and_then_def)
qed

lemma keeps_emit_for [simp]: "keeps w (emit_for i event w)"
  by (simp add: emit_for_def keeps_def split: option.splits)

lemma emit_for_same [simp]:
  "kw_table (emit_for i event w) = kw_table w" "kw_sent (emit_for i event w) = kw_sent w" "kw_jobs (emit_for i event w) = kw_jobs w"
  by (simp_all add: emit_for_def split: option.splits)

lemma keeps_emitChanged [simp]: "keeps w (emitChanged a i w)" by (simp add: emitChanged_def)

lemma keeps_emitFired [simp]: "keeps w (emitFired s b w)" by (simp add: emitFired_def)

lemma keeps_emit_event [simp]: "keeps w (emit_event e w)" by (simp add: emit_event_def keeps_def)

section \<open>Status writes\<close>

text \<open>No one-time row of this name has a result that a write could take away.\<close>

definition open_once :: "string \<Rightarrow> ScheduleRow table \<Rightarrow> bool" where
  "open_once i t \<longleftrightarrow> list_all (\<lambda>r. rw_id r = i \<and> once_row r \<longrightarrow> \<not> has_result r) t"

definition gives_result :: "ScheduleStatusWrite \<Rightarrow> bool" where
  "gives_result patch \<longleftrightarrow> (case wr_lastFiredResult patch of None \<Rightarrow> True | Some x \<Rightarrow> nonempty x \<noteq> None)"

lemma table_keeps_writeStatus:
  assumes "gives_result patch \<or> open_once i t"
  shows "table_keeps t (writeStatus i patch t)"
proof (unfold writeStatus_def, rule table_keeps_update)
  fix r assume r: "r \<in> set t" and "has_schedule_id i r"
  then have i: "rw_id r = i" by (simp add: has_schedule_id_def)
  have "gives_result patch \<or> (once_row r \<longrightarrow> \<not> has_result r)"
    using assms r i unfolding open_once_def list_all_iff by blast
  then show "row_keeps r (r\<lparr>rw_lastFiredAt := case wr_lastFiredAt patch of None \<Rightarrow> rw_lastFiredAt r | Some at' \<Rightarrow> Some at',
      rw_lastFiredResult := case wr_lastFiredResult patch of None \<Rightarrow> rw_lastFiredResult r | Some x \<Rightarrow> x,
      rw_nextRun := case wr_nextRun patch of None \<Rightarrow> rw_nextRun r | Some x \<Rightarrow> x\<rparr>)"
    unfolding row_keeps_def once_row_def has_result_def gives_result_def by (auto split: option.splits)
qed

lemma keeps_put_status: "gives_result patch \<or> open_once i (kw_table w) \<Longrightarrow> keeps w (snd (put_status deps i patch w))"
  by (simp add: put_status_def keeps_put_table table_keeps_writeStatus)

lemma keeps_try_status: "gives_result patch \<or> open_once i (kw_table w) \<Longrightarrow> keeps w (try_status deps i patch w)"
  by (simp add: try_status_def keeps_put_status)

lemma writeStatus_result:
  assumes "s' \<in> set (writeStatus i patch t)" and "rw_id s' = i" and "wr_lastFiredResult patch = Some x"
  shows "rw_lastFiredResult s' = x"
proof -
  from assms(1) obtain s where "s' = (if has_schedule_id i s
      then s\<lparr>rw_lastFiredAt := case wr_lastFiredAt patch of None \<Rightarrow> rw_lastFiredAt s | Some at' \<Rightarrow> Some at',
             rw_lastFiredResult := case wr_lastFiredResult patch of None \<Rightarrow> rw_lastFiredResult s | Some x \<Rightarrow> x,
             rw_nextRun := case wr_nextRun patch of None \<Rightarrow> rw_nextRun s | Some x \<Rightarrow> x\<rparr> else s)"
    unfolding writeStatus_def set_update_where by blast
  then show ?thesis using assms(2,3) by (simp add: has_schedule_id_def split: if_splits)
qed

lemma gives_result_simps [simp]:
  "gives_result (next_run t)" "gives_result (fired_status now OnceMissed t)"
  "gives_result (fired_status now OnceDelivering t)"
  by (simp_all add: gives_result_def next_run_def fired_status_def OnceMissed_def OnceDelivering_def nonempty_def)

text \<open>What a keeping operation does to a name whose rows recur, or have no result.\<close>

definition recurs :: "string \<Rightarrow> ScheduleRow table \<Rightarrow> bool" where
  "recurs i t \<longleftrightarrow> list_all (\<lambda>r. rw_id r = i \<longrightarrow> \<not> once_row r) t"

lemma recurs_open: "recurs i t \<Longrightarrow> open_once i t" by (auto simp: recurs_def open_once_def list_all_iff)

lemma recurs_table_keeps: "recurs i t \<Longrightarrow> table_keeps t t' \<Longrightarrow> recurs i t'"
proof -
  assume rec: "recurs i t" and tk: "table_keeps t t'"
  have "\<not> once_row r'" if r': "r' \<in> set t'" and i: "rw_id r' = i" for r'
  proof -
    from tk r' obtain r where r: "r \<in> set t" and k: "row_keeps r r'" unfolding table_keeps_def by blast
    have "rw_id r = i" using k i by (simp add: row_keeps_def)
    then have "\<not> once_row r" using rec r unfolding recurs_def list_all_iff by blast
    then show ?thesis using k by (simp add: row_keeps_def)
  qed
  then show ?thesis unfolding recurs_def list_all_iff by blast
qed

lemma recurs_keeps: "recurs i (kw_table w) \<Longrightarrow> keeps w w' \<Longrightarrow> recurs i (kw_table w')"
  unfolding keeps_def using recurs_table_keeps by simp

section \<open>Reading a row\<close>

lemma withProfile_same:
  "se_id (fst (withProfile res s)) = se_id s" "se_agentId (fst (withProfile res s)) = se_agentId s"
  "spc_kind (se_spec (fst (withProfile res s))) = spc_kind (se_spec s)" "spc_enabled (se_spec (fst (withProfile res s))) = spc_enabled (se_spec s)"
  "se_lastRun (fst (withProfile res s)) = se_lastRun s" "se_nextRun (fst (withProfile res s)) = se_nextRun s"
  "se_lastResult (fst (withProfile res s)) = se_lastResult s"
  by (simp_all add: withProfile_def Let_def split: option.splits)

lemma rowToSchedule_same [simp]:
  "se_id (rowToSchedule r) = rw_id r" "se_agentId (rowToSchedule r) = rw_agentId r"
  "spc_kind (se_spec (rowToSchedule r)) = spc_kind (rw_spec r)" "spc_enabled (se_spec (rowToSchedule r)) = rw_enabled r"
  "se_lastRun (rowToSchedule r) = rw_lastFiredAt r" "se_nextRun (rowToSchedule r) = rw_nextRun r"
  "se_lastResult (rowToSchedule r) = nonempty (rw_lastFiredResult r)"
  by (simp_all add: rowToSchedule_def)

lemma effective_same [simp]:
  "se_id (effective res r) = rw_id r" "se_agentId (effective res r) = rw_agentId r"
  "spc_kind (se_spec (effective res r)) = spc_kind (rw_spec r)" "spc_enabled (se_spec (effective res r)) = rw_enabled r"
  "se_lastRun (effective res r) = rw_lastFiredAt r" "se_nextRun (effective res r) = rw_nextRun r"
  "se_lastResult (effective res r) = nonempty (rw_lastFiredResult r)"
  using withProfile_same [of res "rowToSchedule r"]
  by (cases "withProfile res (rowToSchedule r)"; simp add: effective_def split: sum.splits option.splits)+

lemma effective_once [simp]: "is_once (se_spec (effective res r)) = once_row r"
  by (simp add: is_once_def once_row_def)

lemma getById_SomeE:
  assumes "schedule_getById res i t = Some sched"
  obtains r where "find (has_schedule_id i) t = Some r" and "r \<in> set t" and "rw_id r = i" and "sched = effective res r"
proof -
  from assms obtain r where r: "find (has_schedule_id i) t = Some r" and s: "sched = effective res r"
    unfolding schedule_getById_def map_option_eq_Some by blast
  from find_SomeD [OF r] have a: "r \<in> set t" "rw_id r = i" by (simp_all add: has_schedule_id_def)
  show thesis by (rule that [OF r a s])
qed

lemma schedule_get_SomeE:
  assumes "schedule_get res i owner t = Some sched"
  obtains r where "find (is_owned i owner) t = Some r" and "r \<in> set t" and "rw_id r = i" and "rw_owner r = owner" and "sched = effective res r"
proof -
  from assms obtain r where r: "find (is_owned i owner) t = Some r" and s: "sched = effective res r"
    unfolding schedule_get_def map_option_eq_Some by blast
  from find_SomeD [OF r] have a: "r \<in> set t" "rw_id r = i" "rw_owner r = owner" by (simp_all add: is_owned_def)
  show thesis by (rule that [OF r a s])
qed

lemma distinct_row: "distinct (map rw_id t) \<Longrightarrow> r \<in> set t \<Longrightarrow> s \<in> set t \<Longrightarrow> rw_id r = rw_id s \<Longrightarrow> r = s"
  by (meson distinct_map inj_onD)

section \<open>The invariant\<close>

definition once_sends :: "string \<Rightarrow> (string \<times> string \<times> bool) list \<Rightarrow> (string \<times> string \<times> bool) list" where
  "once_sends i sent = filter (\<lambda>s. fst s = i \<and> snd (snd s)) sent"

definition was_sent :: "string \<Rightarrow> (string \<times> string \<times> bool) list \<Rightarrow> bool" where
  "was_sent i sent = list_ex (\<lambda>s. fst s = i) sent"

definition row_inv :: "(string \<times> string \<times> bool) list \<Rightarrow> ScheduleRow \<Rightarrow> bool" where
  "row_inv sent r \<longleftrightarrow>
     list_all (\<lambda>s. fst s = rw_id r \<longrightarrow> snd (snd s) = once_row r) sent \<and> (once_row r \<and> \<not> has_result r \<longrightarrow> \<not> was_sent (rw_id r) sent)"

definition sched_inv :: "'d ScheduleWorld \<Rightarrow> bool" where
  "sched_inv w \<longleftrightarrow>
     distinct (map rw_id (kw_table w)) \<and> (\<forall>r \<in> set (kw_table w). row_inv (kw_sent w) r) \<and> (\<forall>i. length (once_sends i (kw_sent w)) \<le> 1)"

lemma row_inv_keeps: "row_inv sent r \<Longrightarrow> row_keeps r r' \<Longrightarrow> row_inv sent r'"
  unfolding row_inv_def row_keeps_def by auto

lemma inv_keeps:
  assumes "sched_inv w" and "keeps w w'"
  shows "sched_inv w'"
proof -
  have sent: "kw_sent w' = kw_sent w" and tk: "table_keeps (kw_table w) (kw_table w')" using assms(2) by (simp_all add: keeps_def)
  have "row_inv (kw_sent w) r'" if r': "r' \<in> set (kw_table w')" for r'
  proof -
    from tk r' obtain r where r: "r \<in> set (kw_table w)" and k: "row_keeps r r'" unfolding table_keeps_def by blast
    have "row_inv (kw_sent w) r" using assms(1) r unfolding sched_inv_def by blast
    then show ?thesis using k by (rule row_inv_keeps)
  qed
  moreover have "distinct (map rw_id (kw_table w'))" using assms(1) tk unfolding sched_inv_def table_keeps_def by blast
  moreover have "\<forall>i. length (once_sends i (kw_sent w)) \<le> 1" using assms(1) unfolding sched_inv_def by blast
  ultimately show ?thesis unfolding sched_inv_def sent by blast
qed

lemma inv_same: "sched_inv w \<Longrightarrow> kw_sent w' = kw_sent w \<Longrightarrow> kw_table w' = kw_table w \<Longrightarrow> sched_inv w'"
  by (simp add: sched_inv_def)

lemma once_sends_none: "\<not> was_sent i sent \<Longrightarrow> once_sends i sent = []"
  by (simp add: was_sent_def once_sends_def list_ex_iff filter_empty_conv)

text \<open>A trigger for a row that recurs, or that has no result yet and gets one with the trigger.\<close>

lemma inv_send:
  assumes inv: "sched_inv w" and r: "r \<in> set (kw_table w)" and fresh: "once_row r \<Longrightarrow> \<not> has_result r"
    and sent: "kw_sent w' = kw_sent w @ [(rw_id r, e, once_row r)]"
    and table: "kw_table w' = (if once_row r then writeStatus (rw_id r) (fired_status now OnceDelivering None) (kw_table w) else kw_table w)"
  shows "sched_inv w'"
proof -
  have d: "distinct (map rw_id (kw_table w))" and rows: "\<And>s. s \<in> set (kw_table w) \<Longrightarrow> row_inv (kw_sent w) s"
    and le: "\<And>i. length (once_sends i (kw_sent w)) \<le> 1" using inv by (auto simp: sched_inv_def)
  have tk: "table_keeps (kw_table w) (kw_table w')" by (simp add: table table_keeps_writeStatus)
  have ns: "once_row r \<Longrightarrow> \<not> was_sent (rw_id r) (kw_sent w)" using rows [OF r] fresh by (simp add: row_inv_def)
  have "row_inv (kw_sent w') s'" if s': "s' \<in> set (kw_table w')" for s'
  proof -
    from tk s' obtain s where s: "s \<in> set (kw_table w)" and sk: "row_keeps s s'" unfolding table_keeps_def by blast
    have old: "row_inv (kw_sent w) s'" by (rule row_inv_keeps [OF rows [OF s] sk])
    show ?thesis
    proof (cases "rw_id s' = rw_id r")
      case True
      then have kind: "once_row s' = once_row r" using distinct_row [OF d s r] sk by (simp add: row_keeps_def)
      have "has_result s'" if o: "once_row r"
        using writeStatus_result [of s' "rw_id r" "fired_status now OnceDelivering None" "kw_table w" "Some OnceDelivering"] s' True
        by (simp add: table o fired_status_def has_result_def OnceDelivering_def nonempty_def)
      then show ?thesis using old kind by (auto simp: row_inv_def sent)
    next
      case False
      then show ?thesis using old by (simp add: row_inv_def sent was_sent_def)
    qed
  qed
  moreover have "length (once_sends i (kw_sent w')) \<le> 1" for i
    using le [of i] ns once_sends_none [of i "kw_sent w"] by (auto simp: sent once_sends_def)
  ultimately show ?thesis using d tk unfolding sched_inv_def table_keeps_def by blast
qed

section \<open>Parts of a fire\<close>

lemma triggerPayload_same [simp]:
  "kw_table (snd (triggerPayload deps s t b w)) = kw_table w" "kw_sent (snd (triggerPayload deps s t b w)) = kw_sent w"
  "kw_jobs (snd (triggerPayload deps s t b w)) = kw_jobs w" "kw_delivery (snd (triggerPayload deps s t b w)) = kw_delivery w"
  by (simp_all add: triggerPayload_def remember_pair_def split: option.splits sum.splits)

lemma pokeAgent_same [simp]:
  "kw_table (snd (pokeAgent deps s e y w)) = kw_table w" "kw_sent (snd (pokeAgent deps s e y w)) = kw_sent w"
  "kw_jobs (snd (pokeAgent deps s e y w)) = kw_jobs w"
  by (simp_all add: pokeAgent_def Let_def split: option.splits sum.splits)

lemma keeps_pokeAgent [simp]: "keeps w (snd (pokeAgent deps s e y w))" by (rule keeps_same) simp_all

lemma commitTrigger_failed: "commitTrigger deps now s e p x w = (Some err, w') \<Longrightarrow> w' = w"
  by (simp add: commitTrigger_def split: option.splits)

lemma commitTrigger_sent:
  assumes "commitTrigger deps now s e p x w = (None, w')"
  shows "kw_sent w' = kw_sent w @ [(se_id s, e, is_once (se_spec s))]"
    and "kw_table w' = (if is_once (se_spec s) then writeStatus (se_id s) (fired_status now OnceDelivering None) (kw_table w) else kw_table w)"
    and "kw_jobs w' = kw_jobs w"
proof -
  have "w' = note_sent s e (bump_world now (se_agentId s) (trigger_event deps e p x)
      (if is_once (se_spec s) then map_table (writeStatus (se_id s) (fired_status now OnceDelivering None)) w else w))"
    using assms unfolding commitTrigger_def by (cases "rd_commitFails deps") simp_all
  then show "kw_sent w' = kw_sent w @ [(se_id s, e, is_once (se_spec s))]"
    and "kw_table w' = (if is_once (se_spec s) then writeStatus (se_id s) (fired_status now OnceDelivering None) (kw_table w) else kw_table w)"
    and "kw_jobs w' = kw_jobs w"
    by (simp_all add: note_sent_def bump_world_def map_table_def)
qed

lemma inv_commitTrigger:
  assumes inv: "sched_inv w" and r: "r \<in> set (kw_table w)" and fresh: "once_row r \<Longrightarrow> \<not> has_result r"
  shows "sched_inv (snd (commitTrigger deps now (effective res r) e p x w))"
proof (cases "commitTrigger deps now (effective res r) e p x w")
  case (Pair err w')
  show ?thesis
  proof (cases err)
    case None
    with Pair have c: "commitTrigger deps now (effective res r) e p x w = (None, w')" by simp
    show ?thesis using inv_send [OF inv r fresh, of w' e now] commitTrigger_sent [OF c] Pair by simp
  next
    case (Some a)
    with Pair have "w' = w" using commitTrigger_failed by blast
    with Pair inv show ?thesis by simp
  qed
qed

lemma keeps_once_missed [simp]: "keeps w (snd (once_missed deps now s w))"
  unfolding once_missed_def by (rule keeps_and_then) (simp_all add: keeps_put_status)

lemma keeps_enqueue_next [simp]: "keeps w (snd (enqueue_next deps i n w))"
  by (simp add: enqueue_next_def split: option.splits)

lemma open_once_next_run: "open_once i t \<Longrightarrow> open_once i (writeStatus j (next_run x) t)"
  by (simp add: open_once_def writeStatus_def update_where_def list_all_length next_run_def once_row_def has_result_def)

lemma open_once_row:
  assumes "sched_inv w" and "r \<in> set (kw_table w)" and "once_row r \<Longrightarrow> \<not> has_result r"
  shows "open_once (rw_id r) (kw_table w)"
proof -
  have d: "distinct (map rw_id (kw_table w))" using assms(1) by (simp add: sched_inv_def)
  have "\<not> has_result s" if "s \<in> set (kw_table w)" "rw_id s = rw_id r" "once_row s" for s
    using distinct_row [OF d that(1) assms(2) that(2)] that(3) assms(3) by simp
  then show ?thesis unfolding open_once_def list_all_iff by blast
qed

lemma recurs_row:
  assumes "sched_inv w" and "r \<in> set (kw_table w)" and "\<not> once_row r"
  shows "recurs (rw_id r) (kw_table w)"
proof -
  have d: "distinct (map rw_id (kw_table w))" using assms(1) by (simp add: sched_inv_def)
  have "\<not> once_row s" if "s \<in> set (kw_table w)" "rw_id s = rw_id r" for s
    using distinct_row [OF d that(1) assms(2) that(2)] assms(3) by simp
  then show ?thesis unfolding recurs_def list_all_iff by blast
qed

lemma put_status_open: "open_once i (kw_table w) \<Longrightarrow> open_once i (kw_table (snd (put_status deps j (next_run x) w)))"
  by (simp add: put_status_def put_table_def map_table_def open_once_next_run split: option.splits)

lemma put_jobs_same [simp]: "kw_table (snd (put_jobs deps f w)) = kw_table w" "kw_sent (snd (put_jobs deps f w)) = kw_sent w"
  by (simp_all add: put_jobs_def map_jobs_def split: option.splits)

lemma wait_until_keeps: "keeps w (snd (wait_until deps i t w))"
  unfolding wait_until_def by (rule keeps_and_then) (simp_all add: keeps_put_status)

lemma wait_until_open: "open_once i (kw_table w) \<Longrightarrow> open_once i (kw_table (snd (wait_until deps j t w)))"
  using put_status_open [of i w deps j "Some t"]
  by (cases "put_status deps j (next_run (Some t)) w") (simp add: wait_until_def and_then_def split: option.splits)

lemma prepareTrigger_same [simp]:
  "kw_table (snd (prepareTrigger deps s t b w)) = kw_table w" "kw_sent (snd (prepareTrigger deps s t b w)) = kw_sent w"
  "kw_jobs (snd (prepareTrigger deps s t b w)) = kw_jobs w"
  using triggerPayload_same [of deps s t b w]
  by (cases "triggerPayload deps s t b w"; simp add: prepareTrigger_def split: sum.splits prod.splits)+

lemma prepareTrigger_keeps:
  assumes "prepareTrigger deps s t b w = (x, w1)"
  shows "keeps w w1" and "kw_table w1 = kw_table w" and "kw_jobs w1 = kw_jobs w" and "kw_sent w1 = kw_sent w"
  using assms prepareTrigger_same [of deps s t b w] by (simp_all add: keeps_same)

text \<open>The three ways on from a prepared trigger.\<close>

lemma prepared_cases:
  obtains (failed) e w1 where "prepareTrigger deps s t b w = (Inl e, w1)"
    | (held) p y why w1 where "prepareTrigger deps s t b w = (Inr (p, y, Some why), w1)"
    | (ready) p y w1 where "prepareTrigger deps s t b w = (Inr (p, y, None), w1)"
  by (metis old.sum.exhaust option.exhaust surj_pair)

lemma once_commit_cases:
  obtains (failed) e w1 where "once_commit deps now s t x w = (Inl e, w1)" and "keeps w w1"
      and "\<And>i. open_once i (kw_table w) \<Longrightarrow> open_once i (kw_table w1)"
    | (held) w1 where "once_commit deps now s t x w = (Inr None, w1)" and "keeps w w1"
    | (sent) p y w1 w2 where "once_commit deps now s t x w = (Inr (Some y), w2)" and "kw_table w1 = kw_table w" and "kw_sent w1 = kw_sent w"
      and "commitTrigger deps now s (fire_event_id (se_id s) t) p x w1 = (None, w2)"
proof (cases rule: prepared_cases [of deps s t True w])
  case (failed e w1)
  then show thesis using that(1) [of e w1] prepareTrigger_keeps [OF failed] by (simp add: once_commit_def)
next
  case (held p y why w1)
  note base = prepareTrigger_keeps [OF held]
  obtain err w2 where wait: "wait_until deps (se_id s) (min (nextUtcMidnight now) x) w1 = (err, w2)" by (rule prod.exhaust)
  then have w2: "keeps w1 w2" "\<And>i. open_once i (kw_table w1) \<Longrightarrow> open_once i (kw_table w2)"
    using wait_until_keeps [of w1 deps "se_id s" "min (nextUtcMidnight now) x"]
      wait_until_open [of _ w1 deps "se_id s" "min (nextUtcMidnight now) x"] by simp_all
  show thesis
  proof (cases err)
    case None
    have "keeps w (emitChanged (se_agentId s) (se_id s) w2)" using keeps_trans [OF keeps_trans [OF base(1) w2(1)] keeps_emitChanged] .
    then show thesis using that(2) held wait None by (simp add: once_commit_def)
  next
    case (Some e)
    then show thesis using that(1) [of e w2] held wait keeps_trans [OF base(1) w2(1)] w2(2) base(2) by (simp add: once_commit_def)
  qed
next
  case (ready p y w1)
  note base = prepareTrigger_keeps [OF ready]
  obtain err w2 where c: "commitTrigger deps now s (fire_event_id (se_id s) t) p x w1 = (err, w2)" by (rule prod.exhaust)
  show thesis
  proof (cases err)
    case None
    then show thesis using that(3) [of y w2 w1 p] ready c base by (simp add: once_commit_def)
  next
    case (Some e)
    then have "w2 = w1" using c commitTrigger_failed by blast
    then show thesis using that(1) [of e w1] ready c Some base by (simp add: once_commit_def)
  qed
qed

lemma keeps_once_failed: "open_once (se_id s) (kw_table w) \<Longrightarrow> keeps w (snd (once_failed deps now s b e w))"
  using keeps_trans [OF keeps_try_status [of "fired_status now (error_message e) None" "se_id s" w] keeps_emitFired]
  by (simp add: once_failed_def Let_def)

lemma inv_fireOnce:
  assumes inv: "sched_inv w" and r: "r \<in> set (kw_table w)"
  shows "sched_inv (snd (fireOnce deps now (effective res r) at' t b w))"
proof (cases "onceFireAction at' (nonempty (rw_lastFiredResult r)) now")
  case (CommitFire x)
  let ?s = "effective res r"
  have fresh: "\<not> has_result r" using CommitFire by (simp add: onceFireAction_def has_result_def split: if_splits)
  show ?thesis
  proof (cases "rd_agentDisabled deps (rw_agentId r) = Inr False")
    case True
    show ?thesis
    proof (cases rule: once_commit_cases [of deps now ?s t x w])
      case (failed e w1)
      then have "keeps w1 (snd (once_failed deps now ?s b e w1))"
        using keeps_once_failed [of ?s w1] open_once_row [OF inv r] fresh by simp
      then show ?thesis using CommitFire True failed inv_keeps [OF inv keeps_trans [OF failed(2)]] by (simp add: fireOnce_def Let_def)
    next
      case (held w1)
      then show ?thesis using CommitFire True inv_keeps [OF inv held(2)] by (simp add: fireOnce_def Let_def)
    next
      case (sent p y w1 w2)
      have "sched_inv w2"
        using inv_commitTrigger [OF inv_same [OF inv sent(3) sent(2)], of r deps now res "fire_event_id (se_id ?s) t" p x] r fresh sent(2,4) by simp
      then show ?thesis using CommitFire True sent(1) inv_keeps [OF _ keeps_pokeAgent] by (simp add: fireOnce_def Let_def)
    qed
  next
    case False
    then show ?thesis using CommitFire inv inv_keeps [OF inv keeps_once_missed]
      by (simp add: fireOnce_def Let_def split: sum.splits bool.splits)
  qed
qed (use inv inv_keeps [OF inv keeps_once_missed] inv_keeps [OF inv keeps_pokeAgent] in \<open>simp_all add: fireOnce_def Let_def\<close>)

lemma keeps_hold_fire: "recurs (se_id s) (kw_table w) \<Longrightarrow> keeps w (snd (hold_fire deps now s result w))"
  unfolding hold_fire_def Let_def by (rule keeps_trans [OF keeps_try_status keeps_enqueue_next]) (simp add: recurs_open)

lemma inv_recurring_commit:
  assumes inv: "sched_inv w" and r: "r \<in> set (kw_table w)" and recurring: "\<not> once_row r"
  shows "sched_inv (snd (recurring_commit deps now (effective res r) t w))
    \<and> recurs (rw_id r) (kw_table (snd (recurring_commit deps now (effective res r) t w)))"
proof -
  let ?s = "effective res r" and ?e = "fire_event_id (rw_id r) t"
  let ?x = "triggerExpiry now (nextFireAt (rd_recur deps) (se_spec ?s) now) TRIGGER_TTL_SECONDS"
  have rec: "recurs (rw_id r) (kw_table w)" using recurs_row [OF inv r recurring] .
  have kept: ?thesis if "keeps w (snd (recurring_commit deps now ?s t w))"
    using inv_keeps [OF inv that] recurs_keeps [OF rec that] ..
  show ?thesis
  proof (cases rule: prepared_cases [of deps ?s t True w])
    case (failed e w1)
    then show ?thesis using kept prepareTrigger_keeps [OF failed] by (simp add: recurring_commit_def Let_def)
  next
    case (held p y why w1)
    note base = prepareTrigger_keeps [OF held]
    have "keeps w (snd (hold_fire deps now ?s (hold_result why) w1))"
      using keeps_trans [OF base(1) keeps_hold_fire] rec base(2) by simp
    then have "keeps w (snd (recurring_commit deps now ?s t w))"
      using held by (cases "hold_fire deps now ?s (hold_result why) w1") (simp add: recurring_commit_def Let_def split: option.splits)
    then show ?thesis by (rule kept)
  next
    case (ready p y w1)
    note base = prepareTrigger_keeps [OF ready]
    obtain err w2 where c: "commitTrigger deps now ?s ?e p ?x w1 = (err, w2)" by (rule prod.exhaust)
    have inv2: "sched_inv w2"
      using inv_commitTrigger [OF inv_same [OF inv base(4,2)], of r deps now res ?e p ?x] r recurring c base(2) by simp
    have rec2: "recurs (rw_id r) (kw_table w2)"
      using c commitTrigger_failed commitTrigger_sent(2) rec base(2) recurring by (cases err) fastforce+
    obtain err2 w3 where k: "pokeAgent deps ?s ?e y w2 = (err2, w3)" by (rule prod.exhaust)
    then have "keeps w2 w3" using keeps_pokeAgent [of w2 deps ?s ?e y] by simp
    then have "sched_inv w3 \<and> recurs (rw_id r) (kw_table w3)" using inv_keeps [OF inv2] recurs_keeps [OF rec2] by simp
    then show ?thesis using ready c k inv2 rec2 by (simp add: recurring_commit_def Let_def split: option.splits)
  qed
qed

lemma keeps_recurring_failed:
  assumes "recurs (se_id s) (kw_table w)"
  shows "keeps w (snd (recurring_failed deps now s t b e poked w))"
proof -
  have st: "keeps w (try_status deps (se_id s) x w)" for x using assms by (simp add: keeps_try_status recurs_open)
  have "keeps w (snd (and_then (enqueue_next deps (se_id s) n (try_status deps (se_id s) x w)) (\<lambda>w2. (y, emitFired s False w2))))" for x n y
    by (rule keeps_trans [OF st [of x]], rule keeps_and_then) simp_all
  then show ?thesis unfolding recurring_failed_def Let_def using st by (simp only: split: if_splits) simp
qed

lemma keeps_recurring_succeeded:
  assumes "recurs (se_id s) (kw_table w)"
  shows "keeps w (snd (recurring_succeeded deps now s w))"
  unfolding recurring_succeeded_def Let_def
  by (rule keeps_and_then; (rule keeps_and_then)?) (simp_all add: assms keeps_put_status recurs_open)

lemma inv_fireRecurring:
  assumes inv: "sched_inv w" and r: "r \<in> set (kw_table w)" and recurring: "\<not> once_row r"
  shows "sched_inv (snd (fireRecurring deps now (effective res r) t b w))"
proof -
  let ?s = "effective res r"
  have rec: "recurs (rw_id r) (kw_table w)" using recurs_row [OF inv r recurring] .
  have hold: "sched_inv (snd (hold_fire deps now ?s x w))" for x
    using inv_keeps [OF inv keeps_hold_fire] rec by simp
  obtain o1 w1 where c: "recurring_commit deps now ?s t w = (o1, w1)" by (rule prod.exhaust)
  then have i1: "sched_inv w1" and rec1: "recurs (se_id ?s) (kw_table w1)"
    using inv_recurring_commit [OF inv r recurring, of deps now res t] by simp_all
  have "sched_inv (snd (recurring_failed deps now ?s t b e p w1))" for e p
    using inv_keeps [OF i1 keeps_recurring_failed [OF rec1]] .
  moreover have "sched_inv (snd (recurring_succeeded deps now ?s w1))"
    using inv_keeps [OF i1 keeps_recurring_succeeded [OF rec1]] .
  ultimately show ?thesis using inv hold i1 c
    by (simp add: fireRecurring_def split: sum.splits bool.splits prod.splits)
qed

lemma inv_fire:
  assumes inv: "sched_inv w"
  shows "sched_inv (snd (fire deps now id i t b w))"
proof (cases "schedule_getById (rd_resolveProfile deps) i (kw_table w)")
  case None
  then show ?thesis using inv by (simp add: fire_def fire_read_def)
next
  case (Some sched)
  then obtain r where r: "r \<in> set (kw_table w)" and s: "sched = effective (rd_resolveProfile deps) r" by (rule getById_SomeE)
  have "\<not> once_row r" if "spc_kind (rw_spec r) = CronSchedule c \<or> spc_kind (rw_spec r) = RRuleSchedule c z q" for c z q
    using that by (auto simp: once_row_def is_once_def)
  then show ?thesis using Some s inv inv_fireOnce [OF inv r] inv_fireRecurring [OF inv r]
    by (simp add: fire_def fire_read_def split: ScheduleKind.splits)
qed

section \<open>The other operations of the runner keep everything\<close>

lemma keeps_runner_cancel [simp]: "keeps w (snd (runner_cancel deps i w))"
  unfolding runner_cancel_def by (rule keeps_and_then) (simp_all add: keeps_put_status)

lemma keeps_runner_sync [simp]: "keeps w (snd (runner_sync deps now i w))"
proof -
  have "keeps w (snd (and_then (put_status deps i (next_run n) w) (put_jobs deps f)))" for n f
    by (rule keeps_and_then) (simp_all add: keeps_put_status)
  then show ?thesis unfolding runner_sync_def Let_def by (simp split: option.splits)
qed

lemma keeps_resetSession [simp]: "keeps w (snd (resetSession deps now i w))"
  unfolding resetSession_def Let_def bump_world_def by (simp add: keeps_same split: option.splits)

lemma keeps_update: "(\<And>r. r \<in> set (kw_table w) \<Longrightarrow> p r \<Longrightarrow> row_keeps r (f r)) \<Longrightarrow> table_keeps (kw_table w) (update_where p f (kw_table w))"
  by (rule table_keeps_update)

lemma table_keeps_applyStatusPatch:
  assumes "recurs i t"
  shows "table_keeps t (applyStatusPatch i patch t)"
  unfolding applyStatusPatch_def
proof (rule table_keeps_update)
  fix r assume r: "r \<in> set t" "has_schedule_id i r"
  then have "\<not> once_row r" using assms unfolding recurs_def list_all_iff has_schedule_id_def by blast
  then show "row_keeps r (r\<lparr>rw_lastFiredAt := case pa_lastFiredAt patch of None \<Rightarrow> rw_lastFiredAt r | Some at' \<Rightarrow> Some at',
      rw_lastFiredResult := case pa_lastFiredResult patch of None \<Rightarrow> rw_lastFiredResult r | Some x \<Rightarrow> x,
      rw_lastDeclinedAt := pa_lastDeclinedAt patch, rw_declinedCount := counter_write (pa_declinedCount patch) (rw_declinedCount r),
      rw_lastPrecheckError := pa_lastPrecheckError patch,
      rw_precheckFailedCount := counter_write (pa_precheckFailedCount patch) (rw_precheckFailedCount r)\<rparr>)"
    by (simp add: row_keeps_def once_row_def)
qed

lemma keeps_give_activity_back [simp]: "keeps w (give_activity_back deps a e w)"
  by (simp add: give_activity_back_def keeps_same split: option.splits)

lemma keeps_reportFire:
  assumes "recurs (rt_scheduleId input) (kw_table w)"
  shows "keeps w (snd (reportFire deps now input w))"
proof -
  have st: "keeps w (snd (report_status deps now input sched w))" for sched
    by (simp add: report_status_def keeps_put_status keeps_put_table table_keeps_applyStatusPatch assms recurs_open)
  show ?thesis unfolding reportFire_def Let_def
    by (auto split: option.splits intro!: keeps_and_then st intro: keeps_trans [OF keeps_give_activity_back keeps_emit_for])
qed

lemma table_keeps_replaceResult: "nonempty (Some x) \<noteq> None \<Longrightarrow> table_keeps t (snd (replaceResult i y x t))"
  unfolding replaceResult_def Let_def snd_conv
  by (rule table_keeps_update) (simp add: row_keeps_def once_row_def has_result_def)

lemma keeps_recordDelivery [simp]: "keeps w (snd (recordDelivery deps i settled w))"
proof -
  obtain changed t where t: "replaceResult i OnceDelivering (if settled then OnceSuccess else OnceMissed) (kw_table w) = (changed, t)"
    by (rule prod.exhaust)
  have "table_keeps (kw_table w) t"
    using table_keeps_replaceResult [of "if settled then OnceSuccess else OnceMissed" "kw_table w" i OnceDelivering] t
    by (simp add: OnceSuccess_def OnceMissed_def nonempty_def)
  then have k: "keeps w (w\<lparr>kw_table := t\<rparr>)" by (simp add: keeps_def)
  have "keeps w (emitFired s settled (emitChanged a i (w\<lparr>kw_table := t\<rparr>)))" for s a
    by (rule keeps_trans [OF keeps_trans [OF k keeps_emitChanged] keeps_emitFired])
  then show ?thesis unfolding recordDelivery_def t by (simp split: option.splits)
qed

lemma keeps_recordOnceFailure: "reason \<noteq> [] \<Longrightarrow> keeps w (snd (recordOnceFailure deps i reason w))"
  unfolding recordOnceFailure_def
  by (auto simp: keeps_put_status gives_result_def result_and_next_def nonempty_def split: option.splits intro!: keeps_and_then)

text \<open>An outcome with a reason that is not empty; the trigger of a schedule that recurs is not of one that runs once.\<close>

lemma keeps_trigger_outcome:
  assumes "detail \<noteq> Some []" and "\<not> tg_once payload \<Longrightarrow> recurs (tg_scheduleId payload) (kw_table w)"
  shows "keeps w (snd (trigger_outcome deps now payload e outcome b detail w))"
  using assms by (auto simp: trigger_outcome_def intro!: keeps_recordOnceFailure keeps_reportFire split: option.splits)

lemma keeps_trigger_ended [simp]: "keeps w (snd (trigger_ended deps payload settled w))"
  by (simp add: trigger_ended_def)

lemma keeps_restore_schedule [simp]: "keeps w (snd (restore_schedule deps now s w))"
proof -
  have once: "keeps w (snd (restoreOnce deps now s at' w))" for at'
    by (simp add: restoreOnce_def Let_def wait_until_keeps split: option.splits)
  have "keeps w1 (snd (case n of None \<Rightarrow> (None, w1) | Some t \<Rightarrow> put_jobs deps (f t) w1))" for w1 :: "'a ScheduleWorld" and n f
    by (simp split: option.splits)
  then have "keeps w (snd (and_then (if c then put_status deps i (next_run n) w else (None, w))
      (\<lambda>w1. case n of None \<Rightarrow> (None, w1) | Some t \<Rightarrow> put_jobs deps (f t) w1)))" for c i n f
    by (intro keeps_and_then) (simp_all add: keeps_put_status)
  with once show ?thesis unfolding restore_schedule_def Let_def by (cases "spc_kind (se_spec s)") (simp_all only: ScheduleKind.case)
qed

lemma keeps_restore_each [simp]: "keeps w (snd (restore_each deps now ss w))"
  by (induction ss arbitrary: w) (auto intro!: keeps_and_then)

lemma keeps_restoreAll [simp]: "keeps w (snd (restoreAll deps now w))" by (simp add: restoreAll_def)

lemma keeps_resume_each [simp]: "keeps w (snd (resume_each deps now is w))"
  by (induction "is" arbitrary: w) (auto intro!: keeps_and_then)

lemma keeps_resumeHeldOnce [simp]: "keeps w (resumeHeldOnce deps now owner w)"
proof -
  have "table_keeps (kw_table w) (snd (claimWaitingOnce owner now (kw_table w)))"
    unfolding claimWaitingOnce_def Let_def snd_conv by (rule table_keeps_update) (simp add: row_keeps_def once_row_def has_result_def)
  then have "keeps w (w\<lparr>kw_table := snd (claimWaitingOnce owner now (kw_table w))\<rparr>)" by (simp add: keeps_def)
  then show ?thesis unfolding resumeHeldOnce_def
    by (cases "claimWaitingOnce owner now (kw_table w)") (simp add: keeps_trans [OF _ keeps_resume_each])
qed

lemma keeps_prune_each [simp]: "keeps w (snd (prune_each deps rs w))"
proof (induction rs arbitrary: w)
  case (Cons r rs)
  have "keeps w1 (snd (prune_each deps rs (w1\<lparr>kw_emitted := x\<rparr>)))" for w1 :: "'a ScheduleWorld" and x
    by (rule keeps_trans [OF keeps_same Cons.IH]) simp_all
  then show ?case by (auto intro!: keeps_and_then)
qed simp

lemma keeps_retentionTick [simp]: "keeps w (snd (retentionTick deps now w))"
proof -
  have "keeps w (w\<lparr>kw_table := delete_where p (kw_table w)\<rparr>)" for p by (simp add: keeps_def table_keeps_delete)
  then have "keeps w (snd (prune_each deps rs (w\<lparr>kw_table := delete_where p (kw_table w)\<rparr>)))" for rs p
    using keeps_trans keeps_prune_each by blast
  then show ?thesis by (simp add: retentionTick_def deleteFinishedOnceOlderThan_def split: option.splits)
qed

lemma keeps_cancel_each [simp]: "keeps w (snd (cancel_each deps is w))"
  by (induction "is" arbitrary: w) (auto intro!: keeps_and_then)

lemma keeps_cleanupSchedules [simp]: "keeps w (snd (cleanupSchedules deps a w))"
  unfolding cleanupSchedules_def by (rule keeps_and_then) (simp_all add: keeps_put_table deleteByAgent_def table_keeps_delete)

lemma keeps_run_poke:
  assumes "recurs (se_id s) (kw_table w)"
  shows "keeps w (snd (run_poke deps now s y w))"
proof -
  obtain err w1 where k: "pokeAgent deps s (run_event_id (se_id s) now) y w = (err, w1)" by (rule prod.exhaust)
  then have k1: "keeps w w1" using keeps_pokeAgent [of w deps s "run_event_id (se_id s) now" y] by simp
  then have o1: "open_once (se_id s) (kw_table w1)" using assms recurs_keeps recurs_open by blast
  obtain err2 w2 where d: "run_done deps now s w1 = (err2, w2)" by (rule prod.exhaust)
  have "keeps w1 (snd (run_done deps now s w1))" using o1 by (simp add: run_done_def keeps_put_status)
  then have k2: "keeps w w2" using k1 d keeps_trans by fastforce
  have "keeps w (emitFired s False (try_status deps (se_id s) x w1))" for x
    using keeps_trans [OF k1 keeps_trans [OF keeps_try_status keeps_emitFired]] o1 by blast
  then show ?thesis using k2 keeps_trans [OF k2 keeps_emitFired] by (simp add: run_poke_def k d split: option.splits)
qed

section \<open>The service\<close>

lemma inv_run_start:
  assumes inv: "sched_inv w" and r: "r \<in> set (kw_table w)" and recurring: "\<not> once_row r"
  shows "sched_inv (snd (run_start deps now (effective res r) w))"
proof -
  let ?s = "effective res r" and ?e = "run_event_id (rw_id r) now" and ?x = "now + TRIGGER_TTL_SECONDS * 1000"
  have rec: "recurs (rw_id r) (kw_table w)" using recurs_row [OF inv r recurring] .
  have failed': "sched_inv (snd (run_commit_failed deps now ?s e w1))" if "sched_inv w1" "recurs (rw_id r) (kw_table w1)" for e w1
    using inv_keeps [OF that(1) keeps_trans [OF keeps_emitFired keeps_try_status]] that(2) inv_keeps [OF that(1) keeps_emitFired]
      recurs_keeps [OF that(2) keeps_emitFired]
    by (simp add: run_commit_failed_def Let_def recurs_open)
  show ?thesis
  proof (cases rule: prepared_cases [of deps ?s now False w])
    case (failed e w1)
    note base = prepareTrigger_keeps [OF failed]
    then show ?thesis using failed failed' [of w1 e] inv_keeps [OF inv base(1)] rec by (simp add: run_start_def)
  next
    case (held p y why w1)
    then show ?thesis using inv_keeps [OF inv prepareTrigger_keeps(1) [OF held]] by (simp add: run_start_def)
  next
    case (ready p y w1)
    note base = prepareTrigger_keeps [OF ready]
    obtain err w2 where c: "commitTrigger deps now ?s ?e p ?x w1 = (err, w2)" by (rule prod.exhaust)
    have inv2: "sched_inv w2"
      using inv_commitTrigger [OF inv_same [OF inv base(4,2)], of r deps now res ?e p ?x] r recurring c base(2) by simp
    have rec2: "recurs (rw_id r) (kw_table w2)"
      using c commitTrigger_failed commitTrigger_sent(2) rec base(2) recurring by (cases err) fastforce+
    have "sched_inv (snd (run_poke deps now ?s y w2))"
      by (rule inv_keeps [OF inv2 keeps_run_poke]) (simp add: rec2)
    then show ?thesis using ready c failed' [OF inv2 rec2] by (simp add: run_start_def split: option.splits)
  qed
qed

lemma inv_runNow:
  assumes inv: "sched_inv w" and rec: "recurs i (kw_table w)"
  shows "sched_inv (snd (runNow deps now i w))"
proof (cases "schedule_getById (rd_resolveProfile deps) i (kw_table w)")
  case None
  then show ?thesis using inv by (simp add: runNow_def)
next
  case (Some sched)
  then obtain r where r: "r \<in> set (kw_table w)" "rw_id r = i" and s: "sched = effective (rd_resolveProfile deps) r" by (rule getById_SomeE)
  have "\<not> once_row r" using rec r unfolding recurs_def list_all_iff by blast
  then show ?thesis using inv inv_run_start [OF inv r(1), of deps now] Some s by (simp add: runNow_def split: sum.splits bool.splits)
qed

lemma kind_same [simp]:
  "spc_kind (with_choices c spec) = spc_kind spec" "spc_kind (applyProfile input spec) = spc_kind spec"
  "spc_kind (split_settings spec) = spc_kind spec" "spc_kind (applySubagent input spec) = spc_kind spec"
  "spc_kind (stored_spec spec) = spc_kind spec"
  by (cases c; simp add: applyProfile_def split_settings_def applySubagent_def stored_spec_def Let_def split: option.splits)+

definition owned_kind :: "string \<Rightarrow> user_sub \<Rightarrow> bool \<Rightarrow> ScheduleRow table \<Rightarrow> bool" where
  "owned_kind i owner k t \<longleftrightarrow> list_all (\<lambda>r. is_owned i owner r \<longrightarrow> once_row r = k) t"

lemma owned_kind_get:
  assumes inv: "sched_inv w" and get: "schedule_get res i owner (kw_table w) = Some current"
  shows "owned_kind i owner (is_once (se_spec current)) (kw_table w)"
proof -
  have d: "distinct (map rw_id (kw_table w))" using inv by (simp add: sched_inv_def)
  from get obtain r where r: "r \<in> set (kw_table w)" "rw_id r = i" and c: "current = effective res r" by (rule schedule_get_SomeE)
  have "once_row s = once_row r" if "s \<in> set (kw_table w)" "is_owned i owner s" for s
    using distinct_row [OF d that(1) r(1)] that(2) r(2) by (simp add: is_owned_def)
  then show ?thesis unfolding owned_kind_def list_all_iff c effective_once by blast
qed

lemma owned_kind_updateName: "owned_kind i owner k t \<Longrightarrow> owned_kind i owner k (updateName i owner name t)"
  by (simp add: owned_kind_def updateName_def update_where_def list_all_length is_owned_def once_row_def)

lemma table_keeps_updateName: "table_keeps t (updateName i owner name t)"
  unfolding updateName_def by (rule table_keeps_update) (simp add: row_keeps_def once_row_def has_result_def)

lemma table_keeps_clearPrecheckStatus: "table_keeps t (clearPrecheckStatus i t)"
  unfolding clearPrecheckStatus_def by (rule table_keeps_update) (simp add: row_keeps_def once_row_def has_result_def)

lemma table_keeps_updateSpec:
  assumes "owned_kind i owner (is_once spec) t"
  shows "table_keeps t (updateSpec i owner spec t)"
  unfolding updateSpec_def
proof (rule table_keeps_update)
  fix r assume "r \<in> set t" "is_owned i owner r"
  then have "once_row r = is_once spec" using assms unfolding owned_kind_def list_all_iff by blast
  then show "row_keeps r (r\<lparr>rw_spec := stored_spec spec, rw_enabled := spc_enabled spec\<rparr>)"
    by (simp add: row_keeps_def once_row_def is_once_def has_result_def)
qed

lemma keeps_store_edit:
  assumes "owned_kind i owner (is_once spec) (kw_table w)"
  shows "keeps w (snd (store_edit deps owner now i name spec clears w))"
proof -
  let ?rd = "sv_runner deps"
  define edit where "edit = and_then (put_table ?rd (updateName i owner name) w) (put_table ?rd (updateSpec i owner spec))"
  obtain err w1 where e: "edit = (err, w1)" by (rule prod.exhaust)
  have "keeps w (snd edit)" unfolding edit_def
  proof (rule keeps_and_then)
    fix w2 assume "put_table ?rd (updateName i owner name) w = (None, w2)"
    then have "kw_table w2 = updateName i owner name (kw_table w)" by (auto simp: put_table_def map_table_def split: option.splits)
    then show "keeps w2 (snd (put_table ?rd (updateSpec i owner spec) w2))"
      using assms owned_kind_updateName table_keeps_updateSpec keeps_put_table by metis
  qed (simp add: keeps_put_table table_keeps_updateName)
  then have k1: "keeps w w1" using e by simp
  define rest where "rest = and_then (if clears then put_table ?rd (clearPrecheckStatus i) w1 else (None, w1)) (runner_sync ?rd now i)"
  have "keeps w1 (snd rest)" unfolding rest_def
    by (rule keeps_and_then) (simp_all add: keeps_put_table table_keeps_clearPrecheckStatus)
  then have k2: "keeps w (snd rest)" using k1 keeps_trans by blast
  show ?thesis using k1 k2 keeps_trans [OF k2 keeps_emit_event]
    unfolding store_edit_def Let_def edit_def [symmetric] e prod.case rest_def [symmetric]
    by (cases rest) (simp split: option.splits)
qed

lemma keeps_recurring_edit:
  assumes "owned_kind i owner False (kw_table w)" and kind: "\<And>a b c. kind \<noteq> OnceSchedule a b c"
  shows "keeps w (snd (recurring_edit deps owner now i kind input current w))"
proof -
  have "\<not> is_once ((edited_spec input kind c)\<lparr>spc_sessionTitle := t\<rparr>)" for c t
    using kind by (simp add: is_once_def edited_spec_def split: ScheduleKind.splits)
  then show ?thesis using keeps_store_edit [of i owner "(edited_spec input kind (se_spec current))\<lparr>spc_sessionTitle := t\<rparr>" w for t] assms(1)
    unfolding recurring_edit_def Let_def by (simp split: option.splits)
qed

lemma keeps_updateCron:
  assumes inv: "sched_inv w"
  shows "keeps w (snd (updateCron deps owner now i cron input w))"
proof (cases "schedule_get (rd_resolveProfile (sv_runner deps)) i owner (kw_table w)")
  case None
  then show ?thesis by (simp add: updateCron_def split: option.splits)
next
  case (Some current)
  show ?thesis using keeps_recurring_edit [of i owner w "CronSchedule cron"] owned_kind_get [OF inv Some] Some
    by (simp add: updateCron_def is_once_def split: option.splits ScheduleKind.splits)
qed

lemma keeps_updateRRule:
  assumes inv: "sched_inv w"
  shows "keeps w (snd (updateRRule deps owner now i rrule tz quiet input w))"
proof (cases "schedule_get (rd_resolveProfile (sv_runner deps)) i owner (kw_table w)")
  case None
  then show ?thesis by (simp add: updateRRule_def split: option.splits)
next
  case (Some current)
  have "keeps w (snd (recurring_edit deps owner now i (RRuleSchedule a b c) input current w))" if "\<not> is_once (se_spec current)" for a b c
    using keeps_recurring_edit [of i owner w "RRuleSchedule a b c"] owned_kind_get [OF inv Some] that by simp
  then show ?thesis using Some by (simp add: updateRRule_def split: option.splits)
qed

lemma once_edited_once: "is_once current \<Longrightarrow> is_once (once_edited_spec input m tz current)"
  by (simp add: once_edited_spec_def is_once_def split: ScheduleKind.splits)

lemma keeps_once_edit:
  assumes "owned_kind i owner True (kw_table w)" and "is_once (se_spec current)"
  shows "keeps w (snd (once_edit deps owner now i at' tz input current origin w))"
proof -
  have k: "keeps w (snd (store_edit deps owner now i name (once_edited_spec input m tz (se_spec current)) c w))" for m name c
    using keeps_store_edit [of i owner "once_edited_spec input m tz (se_spec current)" w] assms once_edited_once by simp
  have "snd (case x of (Inr (Some y), w1) \<Rightarrow> (Inr (f w1), w1) | r \<Rightarrow> r) = snd x" for x :: "(ServiceError + Schedule option) \<times> 'a ScheduleWorld" and f
    by (cases x) (simp split: sum.splits option.splits)
  then show ?thesis using k unfolding once_edit_def Let_def by (simp split: option.splits sum.splits)
qed

lemma keeps_updateOnce:
  assumes inv: "sched_inv w"
  shows "keeps w (snd (updateOnce deps owner now i at' tz input w))"
proof (cases "schedule_get (rd_resolveProfile (sv_runner deps)) i owner (kw_table w)")
  case None
  then show ?thesis by (simp add: updateOnce_def split: option.splits)
next
  case (Some current)
  have "keeps w (snd (once_edit deps owner now i at' tz input current origin w))" if "spc_kind (se_spec current) = OnceSchedule a b c" for origin a b c
    using keeps_once_edit [of i owner w current] owned_kind_get [OF inv Some] that by (simp add: is_once_def)
  then show ?thesis using Some by (simp add: updateOnce_def split: option.splits ScheduleKind.splits)
qed

lemma keeps_store_spec:
  assumes "owned_kind i owner (is_once spec) (kw_table w)" and after: "\<And>nx w1. keeps w1 (snd (after nx w1))"
  shows "keeps w (snd (store_spec deps owner i spec after w))"
proof -
  let ?rd = "sv_runner deps"
  obtain err w1 where p: "put_table ?rd (updateSpec i owner spec) w = (err, w1)" by (rule prod.exhaust)
  then have k1: "keeps w w1" using keeps_put_table [of w "updateSpec i owner spec" ?rd] table_keeps_updateSpec [OF assms(1)] by simp
  have "keeps w (snd (case after nx w1 of (None, w2) \<Rightarrow> (Inr (Some nx), emit_event e w2) | (Some x, w2) \<Rightarrow> (Inl (ServiceFailure x), w2)))" for nx e
    using keeps_trans [OF k1 after [of w1 nx]] keeps_trans [OF keeps_trans [OF k1 after [of w1 nx]] keeps_emit_event]
    by (cases "after nx w1") (simp split: option.splits)
  then show ?thesis using k1 unfolding store_spec_def Let_def p by (simp split: option.splits)
qed

lemma keeps_toggle_schedule:
  assumes inv: "sched_inv w"
  shows "keeps w (snd (toggle_schedule deps owner now i enabled w))"
proof (cases "schedule_get (rd_resolveProfile (sv_runner deps)) i owner (kw_table w)")
  case (Some current)
  have "owned_kind i owner (is_once ((se_spec current)\<lparr>spc_enabled := b\<rparr>)) (kw_table w)" for b
    using owned_kind_get [OF inv Some] by (simp add: is_once_def)
  then show ?thesis using Some unfolding toggle_schedule_def Let_def by (simp add: keeps_store_spec)
qed (simp add: toggle_schedule_def)

lemma keeps_clearSessionChoices:
  assumes inv: "sched_inv w"
  shows "keeps w (snd (clearSessionChoices deps owner i w))"
proof (cases "schedule_get (rd_resolveProfile (sv_runner deps)) i owner (kw_table w)")
  case (Some current)
  have "owned_kind i owner (is_once ((se_spec current)\<lparr>spc_harness := None, spc_model := None, spc_settings := None, spc_profile := None,
      spc_migrationNote := None\<rparr>)) (kw_table w)"
    using owned_kind_get [OF inv Some] by (simp add: is_once_def)
  then show ?thesis using Some unfolding clearSessionChoices_def by (simp add: keeps_store_spec)
qed (simp add: clearSessionChoices_def)

lemma keeps_delete_schedule: "keeps w (snd (delete_schedule deps owner i w))"
  unfolding delete_schedule_def Let_def
  by (rule keeps_and_then, rule keeps_and_then)
    (simp_all add: keeps_put_table schedule_delete_def table_keeps_delete split: option.splits)

lemma keeps_reset_schedule: "keeps w (snd (reset_schedule deps owner now i w))"
  by (simp add: reset_schedule_def split: option.splits)

lemma inv_run_schedule:
  assumes inv: "sched_inv w"
  shows "sched_inv (snd (run_schedule deps owner now i w))"
proof (cases "schedule_get (rd_resolveProfile (sv_runner deps)) i owner (kw_table w)")
  case (Some current)
  then obtain r where r: "r \<in> set (kw_table w)" "rw_id r = i" and c: "current = effective (rd_resolveProfile (sv_runner deps)) r"
    by (rule schedule_get_SomeE)
  show ?thesis
  proof (cases "once_row r")
    case True
    then show ?thesis using inv Some c by (simp add: run_schedule_def)
  next
    case False
    have "recurs i (kw_table w)" using recurs_row [OF inv r(1) False] r(2) by simp
    then have "sched_inv (snd (runNow (sv_runner deps) now i w))" by (rule inv_runNow [OF inv])
    then show ?thesis using Some c False
      by (cases "runNow (sv_runner deps) now i w") (simp add: run_schedule_def split: sum.splits option.splits)
  qed
qed (simp add: run_schedule_def inv)

section \<open>A new schedule\<close>

definition is_fresh :: "string \<Rightarrow> 'd ScheduleWorld \<Rightarrow> bool" where
  "is_fresh i w \<longleftrightarrow> i \<notin> set (map rw_id (kw_table w)) \<and> \<not> was_sent i (kw_sent w)"

lemma inv_schedule_create:
  assumes inv: "sched_inv w" and new: "is_fresh i w"
  shows "sched_inv (map_table (schedule_create now i a owner name spec) w)"
proof -
  define n where "n = \<lparr>rw_id = i, rw_agentId = a, rw_owner = owner, rw_name = name, rw_spec = spec, rw_enabled = spc_enabled spec,
           rw_nextRun = None, rw_lastFiredAt = None, rw_lastFiredResult = None, rw_lastDeclinedAt = None, rw_declinedCount = 0,
           rw_lastPrecheckError = None, rw_precheckFailedCount = 0, rw_createdAt = now\<rparr>"
  have t: "schedule_create now i a owner name spec (kw_table w) = kw_table w @ [n]" by (simp add: schedule_create_def n_def)
  have "row_inv (kw_sent w) n"
    using new by (auto simp: row_inv_def n_def is_fresh_def was_sent_def list_ex_iff list_all_iff)
  then show ?thesis using inv new unfolding sched_inv_def map_table_def is_fresh_def by (simp add: t n_def)
qed

lemma inv_store_schedule:
  assumes inv: "sched_inv w" and new: "is_fresh i w"
  shows "sched_inv (snd (store_schedule deps owner now i a name spec w))"
proof -
  let ?rd = "sv_runner deps"
  obtain err w1 where p: "put_table ?rd (schedule_create now i a owner name spec) w = (err, w1)" by (rule prod.exhaust)
  then have i1: "sched_inv w1" using inv inv_schedule_create [OF inv new] by (auto simp: put_table_def split: option.splits)
  have "sched_inv (snd (case runner_sync ?rd now i w1 of (None, w2) \<Rightarrow> (Inr x, emit_event e w2) | (Some y, w2) \<Rightarrow> (Inl (ServiceFailure y), w2)))"
    for x :: Schedule and e
    using inv_keeps [OF i1 keeps_runner_sync [of w1 ?rd now i]] inv_keeps [OF inv_keeps [OF i1 keeps_runner_sync [of w1 ?rd now i]] keeps_emit_event]
    by (cases "runner_sync ?rd now i w1") (simp split: option.splits)
  then show ?thesis using i1 unfolding store_schedule_def Let_def p by (simp split: option.splits)
qed

lemma inv_createOnce:
  assumes "sched_inv w" and "is_fresh i w"
  shows "sched_inv (snd (createOnce deps owner now i by' a at' tz origin input w))"
proof -
  have s: "sched_inv (snd (store_schedule deps owner now i a name spec w))" for name spec by (rule inv_store_schedule [OF assms])
  have "snd (case x of (Inl e, w1) \<Rightarrow> (Inl e, w1) | (Inr s, w1) \<Rightarrow> (Inr (f s w1), w1)) = snd x" for x :: "(ServiceError + Schedule) \<times> 'a ScheduleWorld"
    and f :: "Schedule \<Rightarrow> 'a ScheduleWorld \<Rightarrow> Schedule"
    by (cases x) (simp split: sum.splits)
  then show ?thesis using assms(1) s unfolding createOnce_def Let_def by (simp split: option.splits sum.splits)
qed

lemma inv_createCron: "sched_inv w \<Longrightarrow> is_fresh i w \<Longrightarrow> sched_inv (snd (createCron deps owner now i by' a cron input w))"
  using inv_store_schedule [of w i] by (simp add: createCron_def Let_def split: option.splits)

lemma inv_createRRule: "sched_inv w \<Longrightarrow> is_fresh i w \<Longrightarrow> sched_inv (snd (createRRule deps owner now i by' a rr tz q input w))"
  using inv_store_schedule [of w i] by (simp add: createRRule_def Let_def split: option.splits)

section \<open>Runs of the whole\<close>

text \<open>
  Each step may see other failures and other answers of the platform. What is outside, the queue and
  the outbox, may change in any way. A trigger whose outcome is reported was sent.
\<close>

inductive sched_step :: "'d ScheduleWorld \<Rightarrow> 'd ScheduleWorld \<Rightarrow> bool" where
  fire_step: "sched_step w (snd (fire deps now id i t lastAttempt w))"
| outside_step: "sched_step w (w\<lparr>kw_jobs := jobs, kw_delivery := d, kw_stamps := stamps\<rparr>)"
| sync_step: "sched_step w (snd (runner_sync deps now i w))"
| restore_step: "sched_step w (snd (restoreAll deps now w))"
| resume_step: "sched_step w (resumeHeldOnce deps now owner w)"
| retention_step: "sched_step w (snd (retentionTick deps now w))"
| cleanup_step: "sched_step w (snd (cleanupSchedules deps agentId w))"
| outcome_step:
    "(tg_scheduleId payload, e, tg_once payload) \<in> set (kw_sent w) \<Longrightarrow> detail \<noteq> Some []
     \<Longrightarrow> sched_step w (snd (trigger_outcome deps now payload e outcome runStage detail w))"
| ended_step: "sched_step w (snd (trigger_ended deps payload settled w))"
| create_cron_step: "is_fresh i w \<Longrightarrow> sched_step w (snd (createCron sv owner now i creator agentId cron input w))"
| create_rrule_step: "is_fresh i w \<Longrightarrow> sched_step w (snd (createRRule sv owner now i creator agentId rrule tz quiet input w))"
| create_once_step: "is_fresh i w \<Longrightarrow> sched_step w (snd (createOnce sv owner now i creator agentId at' tz origin input w))"
| update_once_step: "sched_step w (snd (updateOnce sv owner now i local tz input w))"
| update_cron_step: "sched_step w (snd (updateCron sv owner now i cron input w))"
| update_rrule_step: "sched_step w (snd (updateRRule sv owner now i rrule tz quietField input w))"
| delete_step: "sched_step w (snd (delete_schedule sv owner i w))"
| toggle_step: "sched_step w (snd (toggle_schedule sv owner now i enabled w))"
| clear_step: "sched_step w (snd (clearSessionChoices sv owner i w))"
| reset_step: "sched_step w (snd (reset_schedule sv owner now i w))"
| run_step: "sched_step w (snd (run_schedule sv owner now i w))"

definition sched_init :: "'d ScheduleWorld \<Rightarrow> bool" where
  "sched_init w \<longleftrightarrow> kw_table w = [] \<and> kw_sent w = []"

lemma sent_recurs:
  assumes inv: "sched_inv w" and "(i, e, False) \<in> set (kw_sent w)"
  shows "recurs i (kw_table w)"
proof -
  have "\<not> once_row r" if "r \<in> set (kw_table w)" "rw_id r = i" for r
  proof -
    have "row_inv (kw_sent w) r" using inv that(1) unfolding sched_inv_def by blast
    then show ?thesis using assms(2) that(2) by (auto simp: row_inv_def list_all_iff)
  qed
  then show ?thesis unfolding recurs_def list_all_iff by blast
qed

lemma sched_step_inv:
  assumes "sched_step w w'" and inv: "sched_inv w"
  shows "sched_inv w'"
  using assms(1)
proof cases
  case (outcome_step payload e detail deps now outcome runStage)
  have "recurs (tg_scheduleId payload) (kw_table w)" if "\<not> tg_once payload"
    using sent_recurs [OF inv, of "tg_scheduleId payload" e] outcome_step(2) that by simp
  then have "keeps w (snd (trigger_outcome deps now payload e outcome runStage detail w))"
    using keeps_trigger_outcome outcome_step(3) by blast
  then show ?thesis using inv_keeps [OF inv] outcome_step(1) by simp
qed (use inv in \<open>simp_all add: inv_fire inv_keeps keeps_same keeps_updateOnce keeps_updateCron keeps_updateRRule keeps_delete_schedule
      keeps_toggle_schedule keeps_clearSessionChoices keeps_reset_schedule inv_run_schedule inv_createOnce inv_createCron inv_createRRule\<close>)

lemma sched_init_inv: "sched_init w \<Longrightarrow> sched_inv w" by (simp add: sched_init_def sched_inv_def once_sends_def)

interpretation schedules: invariant_system sched_init sched_step sched_inv
  by unfold_locales (erule sched_init_inv, erule (1) sched_step_inv [rotated])

end
