(* ===== verification/Schedules_Outcomes.thy ===== *)
theory Schedules_Outcomes
  imports Schedules_System
begin

text \<open>
  What the schedules promise: a one-time task goes out at most once and is pending when its status
  says so; a schedule that recurs has a next fire after every attempt, whatever failed in it;
  only the owner edits or runs a schedule; an agent stays within its limit. Three flaws
  are stated with them: a delete stops the schedule of another owner, an edit while a fire
  prepares its trigger sends a one-time task twice, and an edit of a task that was put off can
  leave it without a job.
\<close>

section \<open>A one-time task\<close>

lemma find_has_id: "distinct (map rw_id t) \<Longrightarrow> r \<in> set t \<Longrightarrow> find (has_schedule_id (rw_id r)) t = Some r"
  using find_distinct_key [of rw_id t r "rw_id r"] by (simp add: has_schedule_id_def [abs_def])

lemma once_commit_ready:
  assumes "payload_parts deps sched True = Inr parts" and "rd_spendHold deps (se_agentId sched) = (\<lambda>_. Inr None)" and "rd_commitFails deps = None"
  obtains p y w1 w2 where "once_commit deps now sched t x w = (Inr (Some y), w2)"
    and "commitTrigger deps now sched (fire_event_id (se_id sched) t) p x w1 = (None, w2)"
    and "kw_table w1 = kw_table w" and "kw_delivery w1 = kw_delivery w"
proof -
  obtain early model pair s where parts: "parts = (early, model, pair, s)" by (cases parts)
  obtain p w1 where tp: "triggerPayload deps sched t True w = (Inr (p, early), w1)" and w1: "w1 = remember_pair (se_id sched) pair w"
    using assms(1) by (simp add: triggerPayload_def parts)
  have prep: "prepareTrigger deps sched t True w = (Inr (p, early, None), w1)"
    using assms(2) by (simp add: prepareTrigger_def tp spendHeld_def)
  obtain w2 where c: "commitTrigger deps now sched (fire_event_id (se_id sched) t) p x w1 = (None, w2)"
    using assms(3) by (simp add: commitTrigger_def)
  have "once_commit deps now sched t x w = (Inr (Some early), w2)" by (simp add: once_commit_def prep c)
  then show thesis by (rule that [OF _ c]) (simp_all add: w1 remember_pair_def split: option.splits)
qed

lemma commitTrigger_outbox:
  assumes "commitTrigger deps now s e p x w = (None, w')"
  shows "dw_outbox (kw_delivery w') = snd (mutator_bump now (se_agentId s) [trigger_event deps e p x] (dw_outbox (kw_delivery w)))"
proof -
  have "w' = note_sent s e (bump_world now (se_agentId s) (trigger_event deps e p x)
      (if is_once (se_spec s) then map_table (writeStatus (se_id s) (fired_status now OnceDelivering None)) w else w))"
    using assms unfolding commitTrigger_def by (cases "rd_commitFails deps") simp_all
  then show ?thesis by (simp add: note_sent_def bump_world_def map_table_def)
qed

lemma pokeAgent_outbox: "dw_outbox (kw_delivery (snd (pokeAgent deps s e y w))) = dw_outbox (kw_delivery w)"
  by (simp add: pokeAgent_def enqueue_def Let_def split: option.splits sum.splits)

lemma fireOnce_commits:
  assumes "onceFireAction at' (se_lastResult sched) now = CommitFire x" and "rd_agentDisabled deps (se_agentId sched) = Inr False"
    and "once_commit deps now sched t x w = (Inr (Some y), w2)"
  shows "fireOnce deps now sched at' t b w = pokeAgent deps sched (fire_event_id (se_id sched) t) y w2"
  using assms by (simp add: fireOnce_def Let_def)

section \<open>A small platform\<close>

definition plain_runner :: RunnerDeps where
  "plain_runner =
     \<lparr>rd_recur = (\<lambda>_ t. NextAt (t + 100)), rd_resolveProfile = (\<lambda>_ _ _. None), rd_ensureDefault = (\<lambda>_. Inr None),
      rd_scheduleModelFor = (\<lambda>_ m. Inr (Some m)), rd_firePair = None, rd_boundary = None, rd_validateSessionChoices = (\<lambda>_ _. Inr None),
      rd_spendHold = (\<lambda>_ _. Inr None), rd_onboardingPending = (\<lambda>_. Inr False), rd_agentDisabled = (\<lambda>_. Inr False),
      rd_defaultPendingAfterMove = (\<lambda>_. Inr False), rd_wakeAgent = (\<lambda>_. Inr None), rd_commitFails = None, rd_enqueueFails = None,
      rd_statusFails = None, rd_queueFails = None, rd_stashFails = False, rd_restoreFails = False, rd_encode = tg_task\<rparr>"

definition plain_service :: ServiceDeps where
  "plain_service =
     \<lparr>sv_runner = plain_runner, sv_agentExists = (\<lambda>_. True), sv_agentOnceLimits = Some (2, 3), sv_validateCron = (\<lambda>_. None),
      sv_validateTimezone = (\<lambda>_. None), sv_localToInstant = (\<lambda>_ _. Inr 9)\<rparr>"

definition plain_input :: ScheduleInput where
  "plain_input =
     \<lparr>in_name = ''n'', in_task = ''water the plants'', in_sessionMode = None, in_precheck = None, in_harness = None, in_model = None,
      in_settings = None, in_profile = None, in_subagentProfile = None, in_sessionTitle = None\<rparr>"

definition no_schedules :: "unit ScheduleWorld" where
  "no_schedules =
     \<lparr>kw_table = [], kw_jobs = [],
      kw_delivery = \<lparr>dw_outbox = empty_outbox, dw_capabilities = (\<lambda>_. None), dw_agents = (\<lambda>_. fresh_agent ()), dw_queue = [], dw_emitted = []\<rparr>,
      kw_stamps = [], kw_firedHarness = [], kw_emitted = [], kw_sent = [], kw_restored = []\<rparr>"

definition one_task :: "unit ScheduleWorld" where
  "one_task = snd (createOnce plain_service ''u'' 5 ''s'' CreatedByUser ''a'' None ''UTC'' None plain_input no_schedules)"

definition one_cron :: "unit ScheduleWorld" where
  "one_cron = snd (createCron plain_service ''u'' 5 ''s'' CreatedByUser ''a'' ''* * * * *'' plain_input no_schedules)"


lemma one_task_reachable: "reachable sched_init sched_step one_task"
proof -
  have start: "sched_init no_schedules" by (simp add: sched_init_def no_schedules_def)
  have fresh: "is_fresh ''s'' no_schedules" by (simp add: is_fresh_def no_schedules_def was_sent_def)
  show ?thesis unfolding one_task_def
    by (rule reachable.intros(2) [OF reachable.intros(1)], rule start, rule create_once_step, rule fresh)
qed





text \<open>
  An edit that keeps the moment of a task which the spend gate has just put off leaves the task
  without a job: the job of that moment has ended, and the queue ignores another of its name.
\<close>

lemma edit_of_held_task_loses_job:
  "let held = worker_step (plain_runner\<lparr>rd_spendHold := \<lambda>_ _. Inr (Some HoldLimit)\<rparr>) 6 id ''s'' 5 one_task;
       edited = snd (updateOnce (plain_service\<lparr>sv_localToInstant := \<lambda>_ _. Inr 5\<rparr>) ''u'' 7 ''s'' ''same'' ''UTC'' plain_input held)
   in map jq_state (kw_jobs held) = [JobCompleted, JobWaiting] \<and> map jq_state (kw_jobs edited) = [JobCompleted]"
  by code_simp

section \<open>A schedule that recurs\<close>

definition healthy :: "RunnerDeps \<Rightarrow> agent_id \<Rightarrow> bool" where
  "healthy deps agentId \<longleftrightarrow> rd_statusFails deps = None \<and> rd_queueFails deps = None
     \<and> \<not> isl (rd_onboardingPending deps agentId) \<and> \<not> isl (rd_agentDisabled deps agentId)"

lemma status_jobs [simp]: "kw_jobs (snd (put_status deps i x w)) = kw_jobs w" "kw_jobs (try_status deps i x w) = kw_jobs w"
  by (simp_all add: try_status_def put_status_def put_table_def map_table_def split: option.splits)

lemma emitFired_jobs [simp]: "kw_jobs (emitFired s b w) = kw_jobs w" by (simp add: emitFired_def)

lemma enqueue_next_jobs: "rd_queueFails deps = None \<Longrightarrow> enqueue_next deps i (Some n) w = (None, map_jobs (queue_enqueue i n) w)"
  by (simp add: enqueue_next_def put_jobs_def)

lemma map_jobs_jobs [simp]: "kw_jobs (map_jobs f w) = f (kw_jobs w)" by (simp add: map_jobs_def)

lemma hold_fire_jobs:
  assumes "rd_queueFails deps = None" and "nextFireAt (rd_recur deps) (se_spec s) now = Some n"
  obtains w' where "hold_fire deps now s x w = (None, w')" and "kw_jobs w' = queue_enqueue (se_id s) n (kw_jobs w)"
  using assms by (simp add: hold_fire_def Let_def enqueue_next_jobs)

text \<open>How the part of a fire that its \<^verbatim>\<open>catch\<close> covers ends, and what the queue is then.\<close>

lemma recurring_commit_jobs:
  assumes "rd_queueFails deps = None" and "nextFireAt (rd_recur deps) (se_spec s) now = Some n"
  obtains (failed) e p w1 where "recurring_commit deps now s t w = (Inl (e, p), w1)" and "kw_jobs w1 = kw_jobs w"
    | (held) w1 where "recurring_commit deps now s t w = (Inr False, w1)" and "kw_jobs w1 = queue_enqueue (se_id s) n (kw_jobs w)"
    | (sent) w1 where "recurring_commit deps now s t w = (Inr True, w1)" and "kw_jobs w1 = kw_jobs w"
proof (cases rule: prepared_cases [of deps s t True w])
  case (failed e w1)
  then show thesis using that(1) [of e False w1] prepareTrigger_keeps(3) [OF failed] by (simp add: recurring_commit_def Let_def)
next
  case (held p y why w1)
  obtain w2 where h: "hold_fire deps now s (hold_result why) w1 = (None, w2)" and "kw_jobs w2 = queue_enqueue (se_id s) n (kw_jobs w1)"
    by (rule hold_fire_jobs [OF assms])
  then show thesis using that(2) [of w2] held prepareTrigger_keeps(3) [OF held] by (simp add: recurring_commit_def Let_def)
next
  case (ready p y w1)
  let ?e = "fire_event_id (se_id s) t" and ?x = "triggerExpiry now (nextFireAt (rd_recur deps) (se_spec s) now) TRIGGER_TTL_SECONDS"
  obtain err w2 where c: "commitTrigger deps now s ?e p ?x w1 = (err, w2)" by (rule prod.exhaust)
  obtain err2 w3 where k: "pokeAgent deps s ?e y w2 = (err2, w3)" by (rule prod.exhaust)
  have j1: "kw_jobs w1 = kw_jobs w" by (rule prepareTrigger_keeps(3) [OF ready])
  have j3: "kw_jobs w3 = kw_jobs w2" using pokeAgent_same(3) [of deps s ?e y w2] k by simp
  show thesis
  proof (cases err)
    case (Some e)
    then have "w2 = w1" using c commitTrigger_failed by blast
    then show thesis using that(1) [of e False w1] ready c Some j1 by (simp add: recurring_commit_def Let_def)
  next
    case None
    then have "kw_jobs w2 = kw_jobs w" using c commitTrigger_sent(3) j1 by metis
    then show thesis using that(1) [of _ True w3] that(3) [of w3] ready c None k j3 by (cases err2) (simp_all add: recurring_commit_def Let_def)
  qed
qed

lemma fireRecurring_jobs:
  assumes ok: "healthy deps (se_agentId s)" and n: "nextFireAt (rd_recur deps) (se_spec s) now = Some n"
  shows "kw_jobs (snd (fireRecurring deps now s t b w)) = queue_enqueue (se_id s) n (kw_jobs w)
    \<or> fst (fireRecurring deps now s t b w) \<noteq> None \<and> \<not> b \<and> kw_jobs (snd (fireRecurring deps now s t b w)) = kw_jobs w"
proof -
  have q: "rd_queueFails deps = None" and st: "rd_statusFails deps = None" using ok by (simp_all add: healthy_def)
  have hold: "kw_jobs (snd (hold_fire deps now s x w)) = queue_enqueue (se_id s) n (kw_jobs w)" for x
    using hold_fire_jobs [OF q n, of x w] by fastforce
  obtain pending disabled where reads: "rd_onboardingPending deps (se_agentId s) = Inr pending" "rd_agentDisabled deps (se_agentId s) = Inr disabled"
    using ok by (cases "rd_onboardingPending deps (se_agentId s)"; cases "rd_agentDisabled deps (se_agentId s)") (simp_all add: healthy_def)
  show ?thesis
  proof (cases "pending \<or> disabled")
    case True
    then show ?thesis using hold reads by (auto simp: fireRecurring_def split: bool.splits)
  next
    case False
    show ?thesis
    proof (rule recurring_commit_jobs [OF q n, of t w])
      fix e p w1 assume "recurring_commit deps now s t w = (Inl (e, p), w1)" "kw_jobs w1 = kw_jobs w"
      then show ?thesis using False reads n
        by (simp add: fireRecurring_def recurring_failed_def Let_def enqueue_next_jobs [OF q] and_then_def)
    next
      fix w1 assume "recurring_commit deps now s t w = (Inr False, w1)" "kw_jobs w1 = queue_enqueue (se_id s) n (kw_jobs w)"
      then show ?thesis using False reads by (simp add: fireRecurring_def)
    next
      fix w1 assume "recurring_commit deps now s t w = (Inr True, w1)" "kw_jobs w1 = kw_jobs w"
      then show ?thesis using False reads n
        by (simp add: fireRecurring_def recurring_succeeded_def Let_def enqueue_next_jobs [OF q] and_then_def put_status_def put_table_def st map_table_def)
    qed
  qed
qed

definition waits :: "string \<Rightarrow> FireJob list \<Rightarrow> bool" where
  "waits i jobs \<longleftrightarrow> list_ex (\<lambda>j. jq_schedule j = i \<and> jq_state j = JobWaiting) jobs"

lemma waitsI: "j \<in> set jobs \<Longrightarrow> jq_schedule j = i \<Longrightarrow> jq_state j = JobWaiting \<Longrightarrow> waits i jobs"
  unfolding waits_def list_ex_iff by blast

lemma waits_after_enqueue:
  assumes "list_all (\<lambda>j. is_fire_job i n j \<longrightarrow> jq_state j = JobWaiting) jobs"
  shows "waits i (end_job i t threw (queue_enqueue i n jobs))"
proof -
  let ?j = "\<lparr>jq_schedule = i, jq_fireAt = n, jq_state = JobWaiting, jq_attempts = 0\<rparr>"
  have "\<not> list_ex (is_fire_job i n) (removePending i jobs)"
    using assms unfolding list_ex_iff list_all_iff removePending_def delete_where_def is_fire_job_def set_filter by blast
  then have "?j \<in> set (queue_enqueue i n jobs)" by (simp add: queue_enqueue_def queue_add_def)
  then have "?j \<in> set (end_job i t threw (queue_enqueue i n jobs))"
    unfolding end_job_def by (rule update_where_keeps) (simp add: is_active_job_def)
  then show ?thesis by (rule waitsI) simp_all
qed

lemma waits_after_retry:
  assumes j: "j \<in> set jobs" "is_waiting_job i t j" and "jq_attempts j + 1 < FIRE_ATTEMPTS"
  shows "waits i (end_job i t True (start_fire_job i t jobs))"
proof -
  let ?a = "j\<lparr>jq_state := JobActive, jq_attempts := jq_attempts j + 1\<rparr>"
  have "?a \<in> set (start_fire_job i t jobs)" unfolding start_fire_job_def set_update_where using j by (auto intro!: image_eqI [of _ _ j])
  then have "?a\<lparr>jq_state := JobWaiting\<rparr> \<in> set (end_job i t True (start_fire_job i t jobs))"
    unfolding end_job_def set_update_where using j(2) assms(3)
    by (auto simp: is_active_job_def is_waiting_job_def is_fire_job_def intro!: image_eqI [of _ _ ?a])
  then show ?thesis by (rule waitsI) (use j(2) in \<open>simp_all add: is_waiting_job_def is_fire_job_def\<close>)
qed



section \<open>Owners\<close>

definition foreign :: "user_sub \<Rightarrow> string \<Rightarrow> ScheduleRow table \<Rightarrow> bool" where
  "foreign me i t \<longleftrightarrow> \<not> list_ex (is_owned i me) t"

lemma foreign_get: "foreign me i t \<Longrightarrow> schedule_get res i me t = None"
  by (simp add: foreign_def schedule_get_def find_None_iff list_ex_iff)

text \<open>
  Whoever does not own a schedule changes nothing of it by editing, pausing, clearing, resetting
  or running it: the tables, the queue and the outbox stay as they are, and no run is started.
\<close>

lemma stranger_leaves_schedule:
  assumes "foreign me i (kw_table w)"
  shows "snd (updateOnce deps me now i at' tz input w) = w \<and> snd (updateCron deps me now i cron input w) = w
    \<and> snd (updateRRule deps me now i rrule tz quiet input w) = w \<and> snd (toggle_schedule deps me now i enabled w) = w
    \<and> snd (clearSessionChoices deps me i w) = w \<and> snd (reset_schedule deps me now i w) = w
    \<and> run_schedule deps me now i w = (Inl (NotFound ''schedule not found''), w)"
  using foreign_get [OF assms]
  by (simp add: updateOnce_def updateCron_def updateRRule_def toggle_schedule_def clearSessionChoices_def reset_schedule_def
      run_schedule_def split: option.splits)

text \<open>
  C16. The delete is the exception: it cancels the fires of the schedule before it asks whose it is. A
  schedule of another owner stays in the table, still enabled, with no job that waits and no next run,
  so it does not fire again until something else arms it.
\<close>

theorem foreign_delete_stops_schedule:
  assumes "foreign me i (kw_table w)" and r: "r \<in> set (kw_table w)" "rw_id r = i"
    and "rd_queueFails (sv_runner deps) = None" and "rd_statusFails (sv_runner deps) = None"
  defines "w' \<equiv> snd (delete_schedule deps me i w)"
  shows "r\<lparr>rw_nextRun := None\<rparr> \<in> set (kw_table w') \<and> \<not> waits i (kw_jobs w') \<and> kw_emitted w' = kw_emitted w"
proof (intro conjI)
  have w': "w' = map_table (schedule_delete i me) (map_table (writeStatus i (next_run None)) (map_jobs (queue_cancel i) w))"
    using foreign_get [OF assms(1)] assms(4,5)
    by (simp add: w'_def delete_schedule_def Let_def runner_cancel_def put_jobs_def put_status_def put_table_def and_then_def)
  have mine: "rw_owner r \<noteq> me" using assms(1) r unfolding foreign_def list_ex_iff is_owned_def by blast
  show "r\<lparr>rw_nextRun := None\<rparr> \<in> set (kw_table w')"
    using r mine by (auto simp: w' map_table_def map_jobs_def schedule_delete_def delete_where_def is_owned_def writeStatus_def set_update_where
        has_schedule_id_def next_run_def intro!: image_eqI [of _ _ r])
  show "\<not> waits i (kw_jobs w')"
    by (simp add: w' map_table_def waits_def queue_cancel_def removePending_def delete_where_def list_ex_iff)
  show "kw_emitted w' = kw_emitted w" by (simp add: w' map_table_def map_jobs_def)
qed

theorem foreign_delete_stops_schedule_witness:
  "waits ''s'' (kw_jobs one_cron) \<and> \<not> waits ''s'' (kw_jobs (snd (delete_schedule plain_service ''v'' ''s'' one_cron)))"
proof -
  have f: "foreign ''v'' ''s'' (kw_table one_cron)" and r: "hd (kw_table one_cron) \<in> set (kw_table one_cron)" "rw_id (hd (kw_table one_cron)) = ''s''"
    and w: "waits ''s'' (kw_jobs one_cron)" by code_simp+
  have "rd_queueFails (sv_runner plain_service) = None" "rd_statusFails (sv_runner plain_service) = None"
    by (simp_all add: plain_service_def plain_runner_def)
  with foreign_delete_stops_schedule [OF f r] w show ?thesis by blast
qed

section \<open>Limits of an agent\<close>

lemma countAgentOnce_status: "countAgentOnce a x c (writeStatus i (next_run n) t) = countAgentOnce a x c t"
  by (simp add: countAgentOnce_def Let_def writeStatus_def update_where_def next_run_def filter_map o_def is_agent_once_def if_distrib cong: if_cong)

lemma sync_counts: "countAgentOnce a x c (kw_table (snd (runner_sync deps now i w))) = countAgentOnce a x c (kw_table w)"
proof -
  have st: "countAgentOnce a x c (kw_table (snd (put_status deps i (next_run n) w))) = countAgentOnce a x c (kw_table w)" for n and w :: "'a ScheduleWorld"
    by (simp add: put_status_def put_table_def map_table_def countAgentOnce_status split: option.splits)
  have "countAgentOnce a x c (kw_table (snd (and_then (put_status deps i (next_run n) w) (put_jobs deps f)))) = countAgentOnce a x c (kw_table w)" for n f
    using st [of n w] by (cases "put_status deps i (next_run n) w") (simp add: and_then_def split: option.splits)
  moreover have "countAgentOnce a x c (kw_table (snd (runner_cancel deps i w))) = countAgentOnce a x c (kw_table w)"
    using st [of None "snd (put_jobs deps (queue_cancel i) w)"]
    by (cases "put_jobs deps (queue_cancel i) w") (simp add: runner_cancel_def and_then_def split: option.splits,
        metis put_jobs_same(1) snd_conv)
  ultimately show ?thesis by (simp add: runner_sync_def Let_def split: option.splits)
qed

lemma emit_event_table [simp]: "kw_table (emit_event e w) = kw_table w" by (simp add: emit_event_def)

lemma store_schedule_counts:
  assumes "store_schedule deps owner now i agentId name spec w = (Inr s, w')"
  shows "countAgentOnce a x c (kw_table w') = countAgentOnce a x c (schedule_create now i agentId owner name spec (kw_table w))"
proof -
  let ?rd = "sv_runner deps"
  obtain w1 where p: "put_table ?rd (schedule_create now i agentId owner name spec) w = (None, w1)"
    using assms by (cases "rd_statusFails ?rd") (simp_all add: store_schedule_def Let_def put_table_def)
  then have t: "kw_table w1 = schedule_create now i agentId owner name spec (kw_table w)" by (auto simp: put_table_def map_table_def split: option.splits)
  obtain err w2 where y: "runner_sync ?rd now i w1 = (err, w2)" by (rule prod.exhaust)
  have "kw_table w' = kw_table w2" using assms p y by (auto simp: store_schedule_def Let_def split: option.splits)
  then show ?thesis using sync_counts [of a x c ?rd now i w1] y t by simp
qed

lemma countAgentOnce_create:
  "fst (countAgentOnce a x c (schedule_create now i agentId owner name spec t)) \<le> fst (countAgentOnce a x c t) + 1"
  "snd (countAgentOnce a x c (schedule_create now i agentId owner name spec t)) \<le> snd (countAgentOnce a x c t) + 1"
  by (simp_all add: countAgentOnce_def Let_def schedule_create_def)

lemma first_error_none: "first_error cs = None \<Longrightarrow> c \<in> set cs \<Longrightarrow> c = None"
  by (induction cs) (auto simp: first_error_def split: if_splits)



end
