(* ===== verification/Spec2Isabelle.thy ===== *)
theory Spec2Isabelle
  imports Ext_Authz Runtime_System Satellite_Outcomes Schedules_Outcomes
begin

text \<open>
  A verification of the control plane of dam, a platform that runs coding agents in pods: what an
  agent may reach on the network, what an owner approves, what its model calls may cost, and how
  the state that the platform wants and the events that it sends reach the agent's runtime.

  \<^bold>\<open>The parts and how they interact.\<close> An agent's requests leave its pod through a gateway that asks
  the platform about each of them (\<^verbatim>\<open>apps/ext-authz/grpc.ts\<close>). The gate
  (\<^verbatim>\<open>approvals/services/ext-authz-gate.ts\<close>) first asks whether the call may still be paid for, then
  which egress rule decides the request. A request that no rule decides is held: a row waits in the
  table of approvals until the owner answers, or until the hold ends. An answer for good also writes
  an egress rule. The requests of a harness for a tool, the rules that an agent proposes and the
  questions of a reached limit wait in the same table. The gateway reports the calls that went out;
  they are priced and booked in a ledger, and day counters over the ledger are what the next check
  reads. Apart from this, other modules write contributions and events for an agent into an outbox;
  a worker delivers them to the runtime in the pod, which applies the state, runs the events and
  answers; the outcome is recorded in the outbox. One of these modules are the satellites: machines
  of the owner that offer tools. An agent starts a job, a worker on the machine claims it under a
  lease and reports its outcome, and the outcome reaches the agent by the call it waits in or by a
  turn in the outbox. Another are the schedules: tasks of an owner or an agent that run once or over
  and over. A queue keeps the next fire of each; a fire asks the spend gate, writes a trigger into
  the outbox and wakes the agent, and the status of the schedule follows what is reported.

  \<^bold>\<open>Conventions.\<close> Strings are ASCII character lists, dates are integers in milliseconds, the rows of
  an SQL table are a list in the order in which a scan yields them, and a \<^verbatim>\<open>WHERE\<close> without an order
  is proved for every such order. The clock, random ids, hashes and answers of the cluster, of
  third-party services and of code outside the sources are arguments; a statement that can fail gets
  its fault as an argument. An error is a value of a sum or an option. A transaction is one step;
  where the code awaits between two statements and another request can come in between, the steps
  are separate. Log lines are left out.

  \<^bold>\<open>Theories.\<close>
  \<^item> \<^verbatim>\<open>Platform_Prelude\<close>: types, the string operations of JavaScript and SQL, bulk operations on
    tables, and two interfaces: \<^verbatim>\<open>invariant_system\<close> (an initial state, steps and an invariant that
    they keep) and \<^verbatim>\<open>refinement_system\<close> (guarded operations, an abstraction and the operations on it
    that it follows).
  \<^item> \<^verbatim>\<open>Sql_Like\<close> and \<^verbatim>\<open>Egress_Match\<close>: path patterns by SQL's \<^verbatim>\<open>LIKE\<close> and by the platform's own
    matcher, host classes, ports, dot segments, provider scopes, and \<^verbatim>\<open>findMatch\<close> of
    \<^verbatim>\<open>egress-rules-repository.ts\<close>. Shown: the rule that decides is a covering rule of the highest
    rank, and a path is refused exactly when resolving it would change it.
  \<^item> \<^verbatim>\<open>Egress_Repository\<close>: every statement on the table of rules; at most one active rule per tuple in
    every reachable table, by the interpretation \<^verbatim>\<open>rules_table\<close>.
  \<^item> \<^verbatim>\<open>Agent_Keys\<close>: the platform's own rule of an agent and the key that follows it.
  \<^item> \<^verbatim>\<open>Egress_Services\<close>: the rule writer, the seeders of presets and kits, the sync of connection
    grants, the owner's service and the port to the gateway with its bounded retries. Shown: a rule
    that a person wrote survives every seeder and sync, a grant that is gone leaves no active row, a
    stranger changes nothing, and the gateway has exactly the hosts that the table promotes.
  \<^item> \<^verbatim>\<open>Approvals_Repository\<close>, \<^verbatim>\<open>Approvals_Service\<close>, \<^verbatim>\<open>Approvals_Relay\<close>: the table of approvals, the
    owner's actions, the frames that a verdict becomes, the sweeper of verdicts, the relay of a
    harness's requests, proposals and questions. Shown: one verdict wins, only the owner decides, a
    rule and its verdict are written together, the runtime's own report is final, proposals are
    bounded, and the frame of a verdict reads back as the verdict.
  \<^item> \<^verbatim>\<open>Spend_Limits\<close>, \<^verbatim>\<open>Spend_Price\<close>, \<^verbatim>\<open>Spend_Calls\<close>, \<^verbatim>\<open>Spend_Check\<close>: units, limits and refusals; the
    price of a call in integers; the record of a call in Redis, the counters, the ledger and the
    late booking of stamped calls; the check of a call, the holds and the sagas. Shown: a cost is
    the exact price rounded up once, a call is booked once whatever the order of its records,
    counters agree with the ledger, a call is refused exactly when a limit on it is reached, the
    pass over the stamped calls ends. The interface \<^verbatim>\<open>day_totals\<close> is what the check needs of the
    counters; \<^verbatim>\<open>ledger_totals\<close> provides it.
  \<^item> \<^verbatim>\<open>Ext_Authz\<close>: the gate from the attributes of a request to the gRPC response, with the wait on a
    hold. Shown: a request that is let through has a reason, every request is answered, and the
    owner's verdict is the answer of a held request.
  \<^item> \<^verbatim>\<open>Runtime_Outbox\<close>: the outbox with every statement of \<^verbatim>\<open>outbox-repo.ts\<close>, the writer, the progress
    of a row and the filter by capabilities. Shown: the tables refine one queue per agent
    (\<^verbatim>\<open>outbox_queue\<close>), every reachable outbox is well formed, and a mutation that keeps failing gives
    way after its eighth attempt.
  \<^item> \<^verbatim>\<open>Runtime_Channel\<close>: the runtime's end in the pod (\<^verbatim>\<open>agent-runtime/src/modules/runtime-channel\<close>).
    Shown: no event runs twice, and the state that is reported as applied is on the disk as long as
    no driver fails.
  \<^item> \<^verbatim>\<open>Runtime_Delivery\<close>: the state builder, the worker, greetings and reports, the sweep and messages
    between sessions. Shown: an event's id reads back.
  \<^item> \<^verbatim>\<open>Runtime_System\<close>: platform and runtimes as one transition system with overlapping workers, late
    and repeated requests and answers, and restarts (\<^verbatim>\<open>delivery\<close>). Shown: an event that is held for
    done was run, and one pass that meets a runtime in order applies the state and settles its
    events.
  \<^item> \<^verbatim>\<open>Satellite_Tables\<close>, \<^verbatim>\<open>Satellite_Ops\<close>: satellites, grants and jobs with every statement of
    \<^verbatim>\<open>satellites-repository.ts\<close> that changes them, the admission of a call, what agents, workers and
    owners do, the sweep of leases, and the turn about outcomes (\<^verbatim>\<open>core/outcome-turn.ts\<close>).
  \<^item> \<^verbatim>\<open>Satellite_System\<close>, \<^verbatim>\<open>Satellite_Outcomes\<close>: the statements as one transition system in which
    admission and insertion, and the selection, the claim and the telling of outcomes, interleave
    with everything else (\<^verbatim>\<open>satellites\<close>). Shown: live jobs stay within the ceiling, a finished job is
    final, an outcome that nobody has is kept and visited by the retry, a turn fits and is pending
    in the outbox when the delivery says so, a sweep leaves no job hanging, and a worker of an old
    registration changes nothing.
  \<^item> \<^verbatim>\<open>Schedules_Table\<close>, \<^verbatim>\<open>Schedules_Runner\<close>, \<^verbatim>\<open>Schedules_Service\<close>: the table of schedules with every
    statement of \<^verbatim>\<open>schedules-repository.ts\<close> that changes it, the reading of a row with its profile,
    the queue of fires and the domain rules; the fires, runs on demand, reports, restarts, the
    resuming of held tasks and the clean-up (\<^verbatim>\<open>scheduler-runner.ts\<close>, \<^verbatim>\<open>resume-held-once.ts\<close>,
    \<^verbatim>\<open>compose.ts\<close>); what owners and agents do (\<^verbatim>\<open>schedules-service.ts\<close>). The parsers of cron and
    recurrence rules, the profiles and the answers of the rest of the platform are arguments.
  \<^item> \<^verbatim>\<open>Schedules_System\<close>, \<^verbatim>\<open>Schedules_Outcomes\<close>: all operations as one transition system (\<^verbatim>\<open>schedules\<close>),
    each step with failures and answers of its own. Shown: a one-time task is sent at most once when
    operations follow each other, and is pending in the outbox when its status says so; a recurring
    schedule has a fire that waits after every attempt; an agent stays within its limits. Shown as
    flaws: a delete stops the schedule of another owner, and an edit during a fire sends a task
    twice.

  \<^bold>\<open>Bounds and loops.\<close> Loops over lists are structural recursions. The wait on a hold takes the
  sequence of what its timer and its wake-ups see, and ends with the timeout; the retries of the
  gateway patch, the attempts of an event or a cancellation and the pages of the late booking are
  bounded by the constants of the code or by the rows that are left, the polls of a claim and of a
  wait take the sequence of the rounds that come (no round left means that the call still waits), and the termination of the paging loop is
  proved from the latter. Sums of money are unbounded integers, as the code's \<^verbatim>\<open>bigint\<close>; numbers that
  the code keeps as doubles below \<^verbatim>\<open>2^53\<close> are natural numbers.

  \<^bold>\<open>Not modelled.\<close> The cluster API and the operator (\<^verbatim>\<open>packages/controller\<close>), the VM runner, the web
  UI, the CLI and the login theme; channels to chat services, OAuth flows of connections, artifacts,
  environments, harness configuration, skills and kits, knowledge shares, repositories and secrets,
  whose behaviour lies in services outside the sources; usage reports, metrics and alerts, which are
  aggregations for display; invocations, whose events enter the outbox as
  arguments; the streams of a satellite's file transfer; of the agent runtime everything but its runtime channel, and of that what drivers and
  handlers write, which is an argument. Inside the modelled parts: text outside ASCII, the parsing of
  wire formats by schema libraries, the end of a Redis key's time to live, a runtime that stops
  between an event's run and its record, and the grouped reads for reports.
\<close>

end
